(* ===== verification/Ais_Prelude.thy ===== *)
theory Ais_Prelude
  imports Main "HOL-Library.Word"
begin

text \<open>
  What the component theories share.

  \<^item> \<open>outcome\<close>: the result of code that may end the process. \<open>LOG(FATAL)\<close>, a failed
    \<open>CHECK\<close> and the dereference of a null pointer are \<open>Fatal\<close> with a message.
  \<^item> \<open>result\<close>: the value of a function that returns \<open>StatusOr<T>\<close> (theory \<open>Status_Or\<close>
    relates it to the class itself).
  \<^item> Text: \<open>std::string\<close> is a byte string, so both text and payload bytes are HOL
    strings. \<open>show_nat\<close> and \<open>show_int\<close> are the decimal conversion \<open>%d\<close>;
    \<open>str_join\<close> is \<open>absl::StrJoin\<close>.
  \<^item> Machine integers: \<open>int32\<close> is the C++ \<open>int\<close> of the supported platforms.
  \<^item> The collection \<open>ais_defs\<close> gathers the definitions that a component proof unfolds.
\<close>

named_theorems ais_defs "definitions of the model unfolded by component proofs"

section \<open>Outcomes\<close>

datatype 'a outcome = Returns 'a | Fatal string

fun outcome_bind :: "'a outcome \<Rightarrow> ('a \<Rightarrow> 'b outcome) \<Rightarrow> 'b outcome" where
  "outcome_bind (Returns x) f = f x"
| "outcome_bind (Fatal m) f = Fatal m"

fun is_fatal :: "'a outcome \<Rightarrow> bool" where
  "is_fatal (Fatal m) = True"
| "is_fatal (Returns x) = False"

lemma outcome_bind_Returns_iff [simp]:
  "outcome_bind r f = Returns y \<longleftrightarrow> (\<exists>x. r = Returns x \<and> f x = Returns y)"
  by (cases r) auto

lemma not_is_fatal_iff: "\<not> is_fatal r \<longleftrightarrow> (\<exists>x. r = Returns x)"
  by (cases r) auto

section \<open>Machine integers\<close>

type_synonym int32 = "32 word"
type_synonym uint32 = "32 word"
type_synonym int64 = "64 word"
type_synonym size_t = "64 word"

definition int_max :: int where
  "int_max = 2147483647"

definition fits_int32 :: "int \<Rightarrow> bool" where
  "fits_int32 i \<longleftrightarrow> - 2147483648 \<le> i \<and> i \<le> 2147483647"

text \<open>
  The compiler builtin \<open>__builtin_mul_overflow(a, b, &r)\<close>: the product in unbounded
  precision, whether it does not fit, and what is stored in \<open>r\<close>.
\<close>

definition mul_overflow :: "int32 \<Rightarrow> int32 \<Rightarrow> bool \<times> int32" where
  "mul_overflow a b = (let p = sint a * sint b in (\<not> fits_int32 p, word_of_int p))"

lemma sint_int32_bounds: "- 2147483648 \<le> sint (a :: int32)" "sint (a :: int32) \<le> 2147483647"
  using sint_ge [of a] sint_lt [of a] by simp_all

lemma fits_int32_sint [simp]: "fits_int32 (sint (a :: int32))"
  using sint_int32_bounds [of a] by (simp add: fits_int32_def)

lemma sint_word_of_int_fits: "fits_int32 i \<Longrightarrow> sint (word_of_int i :: int32) = i"
  by (simp add: fits_int32_def signed_take_bit_int_eq_self sint_sbintrunc')

lemma sint_mult_fits:
  fixes a b :: int32
  shows "fits_int32 (sint a * sint b) \<Longrightarrow> sint (a * b) = sint a * sint b"
  using sint_word_of_int_fits [of "sint a * sint b"] by simp

lemma uint_nonneg_int32: "0 \<le> sint (n :: int32) \<Longrightarrow> uint n = sint n"
  using sint_int32_bounds [of n] by (simp add: uint_sint take_bit_int_eq_self)

lemma unat_nonneg_int32: "0 \<le> sint (n :: int32) \<Longrightarrow> unat n = nat (sint n)"
  by (simp add: unat_eq_nat_uint uint_nonneg_int32)

lemma mul_overflow_exact:
  "mul_overflow a b = (False, r) \<Longrightarrow> sint r = sint a * sint b"
  by (auto simp: mul_overflow_def Let_def sint_mult_fits)

lemma mul_overflow_True_iff:
  "fst (mul_overflow a b) \<longleftrightarrow> \<not> fits_int32 (sint a * sint b)"
  by (simp add: mul_overflow_def Let_def)

section \<open>Text\<close>

definition digit_char :: "nat \<Rightarrow> char" where
  "digit_char d = ''0123456789'' ! d"

fun show_nat :: "nat \<Rightarrow> string" where
  "show_nat n = (if n < 10 then [digit_char n] else show_nat (n div 10) @ [digit_char (n mod 10)])"

declare show_nat.simps [simp del]

definition show_int :: "int \<Rightarrow> string" where
  "show_int i = (if i < 0 then ''-'' @ show_nat (nat (- i)) else show_nat (nat i))"

fun str_join :: "string \<Rightarrow> string list \<Rightarrow> string" where
  "str_join sep [] = []"
| "str_join sep [x] = x"
| "str_join sep (x # y # xs) = x @ sep @ str_join sep (y # xs)"

definition is_digit :: "char \<Rightarrow> bool" where
  "is_digit c \<longleftrightarrow> 48 \<le> (of_char c :: nat) \<and> (of_char c :: nat) \<le> 57"

lemma of_char_digit_char: "d < 10 \<Longrightarrow> (of_char (digit_char d) :: nat) = 48 + d"
proof -
  assume "d < 10"
  then have "d \<in> {0, 1, 2, 3, 4, 5, 6, 7, 8, 9}" by auto
  then show ?thesis by (auto simp: digit_char_def)
qed

lemma is_digit_digit_char: "d < 10 \<Longrightarrow> is_digit (digit_char d)"
  by (simp add: is_digit_def of_char_digit_char)

lemma show_nat_nonempty [simp]: "show_nat n \<noteq> []"
  by (subst show_nat.simps) simp

lemma show_nat_digits: "c \<in> set (show_nat n) \<Longrightarrow> is_digit c"
proof (induction n rule: show_nat.induct)
  case (1 n)
  show ?case
  proof (cases "n < 10")
    case True
    with 1 show ?thesis by (simp add: show_nat.simps [of n] is_digit_digit_char)
  next
    case False
    with 1 show ?thesis by (auto simp: show_nat.simps [of n] is_digit_digit_char)
  qed
qed

section \<open>Lists\<close>

text \<open>Two texts cut at the first occurrence of a separator character agree on both sides.\<close>

lemma split_at_separator:
  assumes "xs @ c # us = ys @ c # vs" and "c \<notin> set xs" and "c \<notin> set ys"
  shows "xs = ys \<and> us = vs"
  using assms
proof (induction xs arbitrary: ys)
  case Nil
  then show ?case by (cases ys) auto
next
  case (Cons x xs)
  then show ?case by (cases ys) auto
qed

lemma take_drop_chunk:
  "length xs = n \<Longrightarrow> take n (xs @ ys) = xs \<and> drop n (xs @ ys) = ys"
  by simp

end
