(* ===== verification/Status_Core.thy ===== *)
theory Status_Core
  imports Ais_Prelude
begin

text \<open>
  \<open>util/status/status.h\<close>, \<open>status.cc\<close>, \<open>canonical_errors.h\<close>,
  \<open>util/grpc_status_delegate.cc\<close> and \<open>c/ais_status.cc\<close>: status codes, the class
  \<open>Status\<close>, the canonical errors and their predicates, the translation of gRPC codes
  and the C view of a status.

  A \<open>Status\<close> holds a \<open>unique_ptr<State>\<close> that is null for a default constructed
  success; it is an \<open>option\<close> of the \<open>State\<close> record here. A status can also be ok with a
  state (code \<open>kOk\<close> passed to the constructor), which the model keeps apart.
\<close>

section \<open>Status codes\<close>

datatype status_code =
    kOk
  | kCancelled
  | kUnknown
  | kInvalidArgument
  | kDeadlineExceeded
  | kNotFound
  | kAlreadyExists
  | kPermissionDenied
  | kResourceExhausted
  | kFailedPrecondition
  | kAborted
  | kOutOfRange
  | kUnimplemented
  | kInternal
  | kUnavailable
  | kDataLoss
  | kUnauthenticated
  | kDoNotUseReserved

fun code_value :: "status_code \<Rightarrow> int" where
  "code_value kOk = 0"
| "code_value kCancelled = 1"
| "code_value kUnknown = 2"
| "code_value kInvalidArgument = 3"
| "code_value kDeadlineExceeded = 4"
| "code_value kNotFound = 5"
| "code_value kAlreadyExists = 6"
| "code_value kPermissionDenied = 7"
| "code_value kResourceExhausted = 8"
| "code_value kFailedPrecondition = 9"
| "code_value kAborted = 10"
| "code_value kOutOfRange = 11"
| "code_value kUnimplemented = 12"
| "code_value kInternal = 13"
| "code_value kUnavailable = 14"
| "code_value kDataLoss = 15"
| "code_value kUnauthenticated = 16"
| "code_value kDoNotUseReserved = 20"

fun StatusCodeToString :: "status_code \<Rightarrow> string" where
  "StatusCodeToString kOk = ''OK''"
| "StatusCodeToString kCancelled = ''Cancelled''"
| "StatusCodeToString kUnknown = ''Unknown''"
| "StatusCodeToString kInvalidArgument = ''Invalid argument''"
| "StatusCodeToString kDeadlineExceeded = ''Deadline exceeded''"
| "StatusCodeToString kNotFound = ''Not found''"
| "StatusCodeToString kAlreadyExists = ''Already exists''"
| "StatusCodeToString kPermissionDenied = ''Permission denied''"
| "StatusCodeToString kUnauthenticated = ''Unauthenticated''"
| "StatusCodeToString kResourceExhausted = ''Resource exhausted''"
| "StatusCodeToString kFailedPrecondition = ''Failed precondition''"
| "StatusCodeToString kAborted = ''Aborted''"
| "StatusCodeToString kOutOfRange = ''Out of range''"
| "StatusCodeToString kUnimplemented = ''Unimplemented''"
| "StatusCodeToString kInternal = ''Internal''"
| "StatusCodeToString kUnavailable = ''Unavailable''"
| "StatusCodeToString kDataLoss = ''Data loss''"
| "StatusCodeToString kDoNotUseReserved = ''''"

section \<open>The class Status\<close>

record status_state =
  st_code :: status_code
  st_msg :: string

type_synonym status = "status_state option"

definition OkStatus :: status where
  "OkStatus = None"

definition mk_Status :: "status_code \<Rightarrow> string \<Rightarrow> status" where
  "mk_Status c m = Some \<lparr>st_code = c, st_msg = m\<rparr>"

definition status_ok :: "status \<Rightarrow> bool" where
  "status_ok s = (case s of None \<Rightarrow> True | Some st \<Rightarrow> st_code st = kOk)"

definition status_code_of :: "status \<Rightarrow> status_code" where
  "status_code_of s = (case s of None \<Rightarrow> kOk
     | Some st \<Rightarrow> if status_ok s then kOk else st_code st)"

definition error_message :: "status \<Rightarrow> string" where
  "error_message s = (case s of None \<Rightarrow> []
     | Some st \<Rightarrow> if status_ok s then [] else st_msg st)"

definition status_Update :: "status \<Rightarrow> status \<Rightarrow> status" where
  "status_Update this new_status = (if status_ok this then new_status else this)"

text \<open>
  \<open>ToString\<close>: the code of an ok status that has a state is \<open>kOk\<close>, which the switch does
  not list, so it takes the default branch as the reserved code does.
\<close>

fun code_type_text :: "status_code \<Rightarrow> string" where
  "code_type_text kCancelled = ''Cancelled''"
| "code_type_text kUnknown = ''Unknown''"
| "code_type_text kInvalidArgument = ''Invalid argument''"
| "code_type_text kDeadlineExceeded = ''Deadline exceeded''"
| "code_type_text kNotFound = ''Not found''"
| "code_type_text kAlreadyExists = ''Already exists''"
| "code_type_text kPermissionDenied = ''Permission denied''"
| "code_type_text kUnauthenticated = ''Unauthenticated''"
| "code_type_text kResourceExhausted = ''Resource exhausted''"
| "code_type_text kFailedPrecondition = ''Failed precondition''"
| "code_type_text kAborted = ''Aborted''"
| "code_type_text kOutOfRange = ''Out of range''"
| "code_type_text kUnimplemented = ''Unimplemented''"
| "code_type_text kInternal = ''Internal''"
| "code_type_text kUnavailable = ''Unavailable''"
| "code_type_text kDataLoss = ''Data loss''"
| "code_type_text c = ''Unknown code('' @ show_int (code_value c) @ '')''"

definition status_ToString :: "status \<Rightarrow> string" where
  "status_ToString s = (case s of None \<Rightarrow> ''OK''
     | Some st \<Rightarrow> code_type_text (status_code_of s) @ '': '' @ st_msg st)"

text \<open>
  \<open>operator==\<close> compares the pointers first (equal when both are null; an object compared
  with itself has equal texts anyway), then the texts.
\<close>

definition status_eq :: "status \<Rightarrow> status \<Rightarrow> bool" where
  "status_eq a b \<longleftrightarrow> (a = None \<and> b = None) \<or> status_ToString a = status_ToString b"

definition status_neq :: "status \<Rightarrow> status \<Rightarrow> bool" where
  "status_neq a b \<longleftrightarrow> \<not> status_eq a b"

text \<open>\<open>CHECK_OK\<close>: the text of the fatal message, or nothing when the status is ok.\<close>

definition CheckOpHelperOutOfLine :: "status \<Rightarrow> string \<Rightarrow> string" where
  "CheckOpHelperOutOfLine v msg = ''Non-OK-status: '' @ msg @ '' status: '' @ status_ToString v"

definition CheckOpHelper :: "status \<Rightarrow> string \<Rightarrow> string option" where
  "CheckOpHelper v msg = (if status_ok v then None else Some (CheckOpHelperOutOfLine v msg))"

definition CHECK_OK :: "status \<Rightarrow> string \<Rightarrow> unit outcome" where
  "CHECK_OK v msg = (case CheckOpHelper v msg of None \<Rightarrow> Returns () | Some t \<Rightarrow> Fatal t)"

section \<open>Canonical errors\<close>

definition AbortedError :: "string \<Rightarrow> status" where
  "AbortedError message = mk_Status kAborted message"

definition AlreadyExistsError :: "string \<Rightarrow> status" where
  "AlreadyExistsError message = mk_Status kAlreadyExists message"

definition CancelledError :: "string \<Rightarrow> status" where
  "CancelledError message = mk_Status kCancelled message"

definition DataLossError :: "string \<Rightarrow> status" where
  "DataLossError message = mk_Status kDataLoss message"

definition DeadlineExceededError :: "string \<Rightarrow> status" where
  "DeadlineExceededError message = mk_Status kDeadlineExceeded message"

definition FailedPreconditionError :: "string \<Rightarrow> status" where
  "FailedPreconditionError message = mk_Status kFailedPrecondition message"

definition InternalError :: "string \<Rightarrow> status" where
  "InternalError message = mk_Status kInternal message"

definition InvalidArgumentError :: "string \<Rightarrow> status" where
  "InvalidArgumentError message = mk_Status kInvalidArgument message"

definition NotFoundError :: "string \<Rightarrow> status" where
  "NotFoundError message = mk_Status kNotFound message"

definition OutOfRangeError :: "string \<Rightarrow> status" where
  "OutOfRangeError message = mk_Status kOutOfRange message"

definition PermissionDeniedError :: "string \<Rightarrow> status" where
  "PermissionDeniedError message = mk_Status kPermissionDenied message"

definition ResourceExhaustedError :: "string \<Rightarrow> status" where
  "ResourceExhaustedError message = mk_Status kResourceExhausted message"

definition UnauthenticatedError :: "string \<Rightarrow> status" where
  "UnauthenticatedError message = mk_Status kUnauthenticated message"

definition UnimplementedError :: "string \<Rightarrow> status" where
  "UnimplementedError message = mk_Status kUnimplemented message"

definition UnknownError :: "string \<Rightarrow> status" where
  "UnknownError message = mk_Status kUnknown message"

definition UnavailableError :: "string \<Rightarrow> status" where
  "UnavailableError message = mk_Status kUnavailable message"

definition IsAborted :: "status \<Rightarrow> bool" where
  "IsAborted s \<longleftrightarrow> status_code_of s = kAborted"

definition IsAlreadyExists :: "status \<Rightarrow> bool" where
  "IsAlreadyExists s \<longleftrightarrow> status_code_of s = kAlreadyExists"

definition IsCancelled :: "status \<Rightarrow> bool" where
  "IsCancelled s \<longleftrightarrow> status_code_of s = kCancelled"

definition IsDataLoss :: "status \<Rightarrow> bool" where
  "IsDataLoss s \<longleftrightarrow> status_code_of s = kDataLoss"

definition IsDeadlineExceeded :: "status \<Rightarrow> bool" where
  "IsDeadlineExceeded s \<longleftrightarrow> status_code_of s = kDeadlineExceeded"

definition IsFailedPrecondition :: "status \<Rightarrow> bool" where
  "IsFailedPrecondition s \<longleftrightarrow> status_code_of s = kFailedPrecondition"

definition IsInternal :: "status \<Rightarrow> bool" where
  "IsInternal s \<longleftrightarrow> status_code_of s = kInternal"

definition IsInvalidArgument :: "status \<Rightarrow> bool" where
  "IsInvalidArgument s \<longleftrightarrow> status_code_of s = kInvalidArgument"

definition IsNotFound :: "status \<Rightarrow> bool" where
  "IsNotFound s \<longleftrightarrow> status_code_of s = kNotFound"

definition IsOutOfRange :: "status \<Rightarrow> bool" where
  "IsOutOfRange s \<longleftrightarrow> status_code_of s = kOutOfRange"

definition IsPermissionDenied :: "status \<Rightarrow> bool" where
  "IsPermissionDenied s \<longleftrightarrow> status_code_of s = kPermissionDenied"

definition IsResourceExhausted :: "status \<Rightarrow> bool" where
  "IsResourceExhausted s \<longleftrightarrow> status_code_of s = kResourceExhausted"

definition IsUnauthenticated :: "status \<Rightarrow> bool" where
  "IsUnauthenticated s \<longleftrightarrow> status_code_of s = kUnauthenticated"

definition IsUnknown :: "status \<Rightarrow> bool" where
  "IsUnknown s \<longleftrightarrow> status_code_of s = kUnknown"

definition IsUnavailable :: "status \<Rightarrow> bool" where
  "IsUnavailable s \<longleftrightarrow> status_code_of s = kUnavailable"

definition IsUnimplemented :: "status \<Rightarrow> bool" where
  "IsUnimplemented s \<longleftrightarrow> status_code_of s = kUnimplemented"

lemmas canonical_error_defs =
  AbortedError_def AlreadyExistsError_def CancelledError_def DataLossError_def
  DeadlineExceededError_def FailedPreconditionError_def InternalError_def InvalidArgumentError_def
  NotFoundError_def OutOfRangeError_def PermissionDeniedError_def ResourceExhaustedError_def
  UnauthenticatedError_def UnimplementedError_def UnknownError_def UnavailableError_def

lemmas canonical_pred_defs =
  IsAborted_def IsAlreadyExists_def IsCancelled_def IsDataLoss_def
  IsDeadlineExceeded_def IsFailedPrecondition_def IsInternal_def IsInvalidArgument_def
  IsNotFound_def IsOutOfRange_def IsPermissionDenied_def IsResourceExhausted_def
  IsUnauthenticated_def IsUnknown_def IsUnavailable_def IsUnimplemented_def

section \<open>Statuses of remote calls\<close>

text \<open>The codes of \<open>grpc::StatusCode\<close> that the switch names; any other value takes its default.\<close>

datatype grpc_code =
    GRPC_OK
  | GRPC_CANCELLED
  | GRPC_UNKNOWN
  | GRPC_INVALID_ARGUMENT
  | GRPC_DEADLINE_EXCEEDED
  | GRPC_NOT_FOUND
  | GRPC_ALREADY_EXISTS
  | GRPC_PERMISSION_DENIED
  | GRPC_UNAUTHENTICATED
  | GRPC_RESOURCE_EXHAUSTED
  | GRPC_FAILED_PRECONDITION
  | GRPC_ABORTED
  | GRPC_OUT_OF_RANGE
  | GRPC_UNIMPLEMENTED
  | GRPC_INTERNAL
  | GRPC_UNAVAILABLE
  | GRPC_DATA_LOSS
  | GRPC_DO_NOT_USE

record grpc_status =
  g_code :: grpc_code
  g_message :: string

text \<open>The numbers of the codes on the wire, as the gRPC documentation lists them.\<close>

fun grpc_code_value :: "grpc_code \<Rightarrow> int" where
  "grpc_code_value GRPC_OK = 0"
| "grpc_code_value GRPC_CANCELLED = 1"
| "grpc_code_value GRPC_UNKNOWN = 2"
| "grpc_code_value GRPC_INVALID_ARGUMENT = 3"
| "grpc_code_value GRPC_DEADLINE_EXCEEDED = 4"
| "grpc_code_value GRPC_NOT_FOUND = 5"
| "grpc_code_value GRPC_ALREADY_EXISTS = 6"
| "grpc_code_value GRPC_PERMISSION_DENIED = 7"
| "grpc_code_value GRPC_RESOURCE_EXHAUSTED = 8"
| "grpc_code_value GRPC_FAILED_PRECONDITION = 9"
| "grpc_code_value GRPC_ABORTED = 10"
| "grpc_code_value GRPC_OUT_OF_RANGE = 11"
| "grpc_code_value GRPC_UNIMPLEMENTED = 12"
| "grpc_code_value GRPC_INTERNAL = 13"
| "grpc_code_value GRPC_UNAVAILABLE = 14"
| "grpc_code_value GRPC_DATA_LOSS = 15"
| "grpc_code_value GRPC_UNAUTHENTICATED = 16"
| "grpc_code_value GRPC_DO_NOT_USE = - 1"

definition grpc_ok :: "grpc_status \<Rightarrow> bool" where
  "grpc_ok g \<longleftrightarrow> g_code g = GRPC_OK"

fun MapStatusCode :: "grpc_code \<Rightarrow> status_code" where
  "MapStatusCode GRPC_OK = kOk"
| "MapStatusCode GRPC_CANCELLED = kCancelled"
| "MapStatusCode GRPC_UNKNOWN = kUnknown"
| "MapStatusCode GRPC_INVALID_ARGUMENT = kInvalidArgument"
| "MapStatusCode GRPC_DEADLINE_EXCEEDED = kDeadlineExceeded"
| "MapStatusCode GRPC_NOT_FOUND = kNotFound"
| "MapStatusCode GRPC_ALREADY_EXISTS = kAlreadyExists"
| "MapStatusCode GRPC_PERMISSION_DENIED = kPermissionDenied"
| "MapStatusCode GRPC_UNAUTHENTICATED = kUnauthenticated"
| "MapStatusCode GRPC_RESOURCE_EXHAUSTED = kResourceExhausted"
| "MapStatusCode GRPC_FAILED_PRECONDITION = kFailedPrecondition"
| "MapStatusCode GRPC_ABORTED = kAborted"
| "MapStatusCode GRPC_OUT_OF_RANGE = kOutOfRange"
| "MapStatusCode GRPC_UNIMPLEMENTED = kUnimplemented"
| "MapStatusCode GRPC_INTERNAL = kInternal"
| "MapStatusCode GRPC_UNAVAILABLE = kUnavailable"
| "MapStatusCode GRPC_DATA_LOSS = kDataLoss"
| "MapStatusCode GRPC_DO_NOT_USE = kUnknown"

definition MakeStatusFromRpcCode :: "grpc_code \<Rightarrow> string \<Rightarrow> status" where
  "MakeStatusFromRpcCode c message = mk_Status (MapStatusCode c) message"

definition MakeStatusFromRpcStatus :: "grpc_status \<Rightarrow> status" where
  "MakeStatusFromRpcStatus g = MakeStatusFromRpcCode (g_code g) (g_message g)"

section \<open>The C view of a status\<close>

datatype ais_code =
    AIS_OK
  | AIS_CANCELLED
  | AIS_UNKNOWN
  | AIS_INVALID_ARGUMENT
  | AIS_DEADLINE_EXCEEDED
  | AIS_NOT_FOUND
  | AIS_ALREADY_EXISTS
  | AIS_PERMISSION_DENIED
  | AIS_RESOURCE_EXHAUSTED
  | AIS_FAILED_PRECONDITION
  | AIS_ABORTED
  | AIS_OUT_OF_RANGE
  | AIS_UNIMPLEMENTED
  | AIS_INTERNAL
  | AIS_UNAVAILABLE
  | AIS_DATA_LOSS
  | AIS_UNAUTHENTICATED

fun ais_code_value :: "ais_code \<Rightarrow> int" where
  "ais_code_value AIS_OK = 0"
| "ais_code_value AIS_CANCELLED = 1"
| "ais_code_value AIS_UNKNOWN = 2"
| "ais_code_value AIS_INVALID_ARGUMENT = 3"
| "ais_code_value AIS_DEADLINE_EXCEEDED = 4"
| "ais_code_value AIS_NOT_FOUND = 5"
| "ais_code_value AIS_ALREADY_EXISTS = 6"
| "ais_code_value AIS_PERMISSION_DENIED = 7"
| "ais_code_value AIS_RESOURCE_EXHAUSTED = 8"
| "ais_code_value AIS_FAILED_PRECONDITION = 9"
| "ais_code_value AIS_ABORTED = 10"
| "ais_code_value AIS_OUT_OF_RANGE = 11"
| "ais_code_value AIS_UNIMPLEMENTED = 12"
| "ais_code_value AIS_INTERNAL = 13"
| "ais_code_value AIS_UNAVAILABLE = 14"
| "ais_code_value AIS_DATA_LOSS = 15"
| "ais_code_value AIS_UNAUTHENTICATED = 16"

text \<open>
  \<open>static_cast<StatusCode>(code)\<close> and back keep the number. The code read from a status is
  \<open>None\<close> where no \<open>AIS_Code\<close> has its number.
\<close>

definition all_status_codes :: "status_code list" where
  "all_status_codes = [kOk, kCancelled, kUnknown, kInvalidArgument, kDeadlineExceeded, kNotFound, kAlreadyExists, kPermissionDenied, kResourceExhausted,
     kFailedPrecondition, kAborted, kOutOfRange, kUnimplemented, kInternal, kUnavailable, kDataLoss, kUnauthenticated, kDoNotUseReserved]"

definition all_ais_codes :: "ais_code list" where
  "all_ais_codes = [AIS_OK, AIS_CANCELLED, AIS_UNKNOWN, AIS_INVALID_ARGUMENT, AIS_DEADLINE_EXCEEDED, AIS_NOT_FOUND,
     AIS_ALREADY_EXISTS, AIS_PERMISSION_DENIED, AIS_RESOURCE_EXHAUSTED, AIS_FAILED_PRECONDITION, AIS_ABORTED,
     AIS_OUT_OF_RANGE, AIS_UNIMPLEMENTED, AIS_INTERNAL, AIS_UNAVAILABLE, AIS_DATA_LOSS, AIS_UNAUTHENTICATED]"

definition cast_to_StatusCode :: "ais_code \<Rightarrow> status_code option" where
  "cast_to_StatusCode a = find (\<lambda>c. code_value c = ais_code_value a) all_status_codes"

definition cast_to_AIS_Code :: "status_code \<Rightarrow> ais_code option" where
  "cast_to_AIS_Code c = find (\<lambda>a. ais_code_value a = code_value c) all_ais_codes"

definition AIS_SetStatus :: "ais_code \<Rightarrow> string \<Rightarrow> status option" where
  "AIS_SetStatus code msg =
     (if code = AIS_OK then Some OkStatus
      else map_option (\<lambda>c. mk_Status c msg) (cast_to_StatusCode code))"

definition AIS_GetCode :: "status \<Rightarrow> ais_code option" where
  "AIS_GetCode s = cast_to_AIS_Code (status_code_of s)"

definition AIS_Message :: "status \<Rightarrow> string" where
  "AIS_Message s = error_message s"

section \<open>Lemmas\<close>

lemma status_ok_OkStatus [simp]: "status_ok OkStatus"
  by (simp add: OkStatus_def status_ok_def)

lemma status_ok_mk_Status [simp]: "status_ok (mk_Status c m) \<longleftrightarrow> c = kOk"
  by (simp add: mk_Status_def status_ok_def)

lemma status_code_of_OkStatus [simp]: "status_code_of OkStatus = kOk"
  by (simp add: OkStatus_def status_code_of_def)

lemma status_code_of_mk_Status [simp]: "status_code_of (mk_Status c m) = c"
  by (simp add: mk_Status_def status_code_of_def status_ok_def)

lemma error_message_mk_Status [simp]:
  "error_message (mk_Status c m) = (if c = kOk then [] else m)"
  by (simp add: mk_Status_def error_message_def status_ok_def)

lemma error_message_OkStatus [simp]: "error_message OkStatus = []"
  by (simp add: OkStatus_def error_message_def)

lemma status_code_of_kOk_iff [simp]: "status_code_of s = kOk \<longleftrightarrow> status_ok s"
  by (auto simp: status_code_of_def status_ok_def split: option.splits)

lemma not_ok_exhaust:
  assumes "\<not> status_ok s"
  obtains c m where "s = mk_Status c m" and "c \<noteq> kOk"
  using assms by (cases s) (auto simp: status_ok_def mk_Status_def, metis status_state.surjective old.unit.exhaust)

lemma not_ok_canonical [simp]:
  "\<not> status_ok (AbortedError m)" "\<not> status_ok (AlreadyExistsError m)"
  "\<not> status_ok (CancelledError m)" "\<not> status_ok (DataLossError m)"
  "\<not> status_ok (DeadlineExceededError m)" "\<not> status_ok (FailedPreconditionError m)"
  "\<not> status_ok (InternalError m)" "\<not> status_ok (InvalidArgumentError m)"
  "\<not> status_ok (NotFoundError m)" "\<not> status_ok (OutOfRangeError m)"
  "\<not> status_ok (PermissionDeniedError m)" "\<not> status_ok (ResourceExhaustedError m)"
  "\<not> status_ok (UnauthenticatedError m)" "\<not> status_ok (UnimplementedError m)"
  "\<not> status_ok (UnknownError m)" "\<not> status_ok (UnavailableError m)"
  by (simp_all add: canonical_error_defs)

text \<open>No type text holds a colon, and the type text determines the code.\<close>

lemma code_type_text_no_colon: "CHR '':'' \<notin> set (code_type_text c)"
  by (cases c) (simp_all add: show_int_def show_nat.simps digit_char_def)

lemma code_type_text_inj: "code_type_text c = code_type_text d \<Longrightarrow> c = d"
  by (cases c; cases d) (simp_all add: show_int_def show_nat.simps digit_char_def)

lemma status_ToString_Some_inj:
  assumes "status_ToString (Some a) = status_ToString (Some b)"
  shows "a = b"
proof -
  have eq: "code_type_text (status_code_of (Some a)) @ CHR '':'' # '' '' @ st_msg a =
      code_type_text (status_code_of (Some b)) @ CHR '':'' # '' '' @ st_msg b"
    using assms by (simp add: status_ToString_def)
  from split_at_separator [OF eq code_type_text_no_colon code_type_text_no_colon]
  have "status_code_of (Some a) = status_code_of (Some b)" and "st_msg a = st_msg b"
    by (auto dest: code_type_text_inj)
  moreover have "status_code_of (Some s) = st_code s" for s
    by (simp add: status_code_of_def status_ok_def)
  ultimately show ?thesis by simp
qed

lemma status_ToString_OK_iff: "status_ToString s = ''OK'' \<longleftrightarrow> s = None"
proof (cases s)
  case None
  then show ?thesis by (simp add: status_ToString_def)
next
  case (Some st)
  have "CHR '':'' \<in> set (status_ToString (Some st))"
    by (simp add: status_ToString_def)
  then have "status_ToString (Some st) \<noteq> ''OK''" by auto
  with Some show ?thesis by simp
qed

lemma status_eq_iff: "status_eq a b \<longleftrightarrow> a = b"
proof -
  have "status_ToString None = ''OK''" by (simp add: status_ToString_def)
  then have "status_ToString a = status_ToString b \<longleftrightarrow> a = b"
    using status_ToString_OK_iff [of a] status_ToString_OK_iff [of b]
    by (cases a; cases b) (auto dest: status_ToString_Some_inj)
  then show ?thesis by (auto simp: status_eq_def)
qed

lemma MapStatusCode_value:
  "code_value (MapStatusCode c) = (if c = GRPC_DO_NOT_USE then 2 else grpc_code_value c)"
  by (cases c) simp_all

lemma MapStatusCode_kOk_iff [simp]: "MapStatusCode c = kOk \<longleftrightarrow> c = GRPC_OK"
  by (cases c) simp_all

lemma status_ok_MakeStatusFromRpcStatus [simp]:
  "status_ok (MakeStatusFromRpcStatus g) \<longleftrightarrow> grpc_ok g"
  by (simp add: MakeStatusFromRpcStatus_def MakeStatusFromRpcCode_def grpc_ok_def)

section \<open>Properties\<close>

text \<open>
  C39. Comparing two statuses (pointer comparison, then comparison of their texts) decides
  whether they hold the same state: the same code and the same message, and two default
  constructed successes. So the text representation loses nothing.
\<close>

theorem status_eq_iff_same_state:
  "(status_eq a b \<longleftrightarrow> a = b) \<and> (status_neq a b \<longleftrightarrow> a \<noteq> b)"
  by (simp_all add: status_eq_iff status_neq_def)

text \<open>
  Each of the sixteen canonical errors is recognised by the predicate of its own name
  and by no other: the row of error \<open>i\<close> against all predicates is true at column \<open>i\<close> only,
  whatever the message.
\<close>

theorem canonical_errors_recognised:
  "[[is_err (mk m). is_err \<leftarrow>
      [IsAborted, IsAlreadyExists, IsCancelled, IsDataLoss, IsDeadlineExceeded,
       IsFailedPrecondition, IsInternal, IsInvalidArgument, IsNotFound, IsOutOfRange,
       IsPermissionDenied, IsResourceExhausted, IsUnauthenticated, IsUnimplemented,
       IsUnknown, IsUnavailable]].
     mk \<leftarrow>
      [AbortedError, AlreadyExistsError, CancelledError, DataLossError, DeadlineExceededError,
       FailedPreconditionError, InternalError, InvalidArgumentError, NotFoundError,
       OutOfRangeError, PermissionDeniedError, ResourceExhaustedError, UnauthenticatedError,
       UnimplementedError, UnknownError, UnavailableError]]
   = [[i = j. j \<leftarrow> [0 ..< 16]]. i \<leftarrow> [0 ..< (16::nat)]]"
  by (simp add: canonical_error_defs canonical_pred_defs upt_rec)

text \<open>
  A status made from the status of a remote call keeps the number of its code and its
  message, is ok exactly when the call was, and yet never equals the default success
  \<open>OkStatus()\<close>: a successful call gives an ok status that carries a state.
\<close>

theorem rpc_status_translation:
  "code_value (status_code_of (MakeStatusFromRpcStatus g)) =
     (if g_code g = GRPC_DO_NOT_USE then 2 else grpc_code_value (g_code g)) \<and>
   (status_ok (MakeStatusFromRpcStatus g) \<longleftrightarrow> grpc_ok g) \<and>
   error_message (MakeStatusFromRpcStatus g) = (if grpc_ok g then [] else g_message g) \<and>
   status_neq (MakeStatusFromRpcStatus g) OkStatus"
proof -
  have "MakeStatusFromRpcStatus g \<noteq> OkStatus"
    by (simp add: MakeStatusFromRpcStatus_def MakeStatusFromRpcCode_def mk_Status_def OkStatus_def)
  then have "status_neq (MakeStatusFromRpcStatus g) OkStatus"
    by (simp add: status_neq_def status_eq_iff)
  then show ?thesis
    by (simp add: MakeStatusFromRpcStatus_def MakeStatusFromRpcCode_def MapStatusCode_value
        grpc_ok_def)
qed

text \<open>
  The C interface round trip: setting a status from any \<open>AIS_Code\<close> and reading it back
  gives the same code, the message given (the empty text for \<open>AIS_OK\<close>), and a status that is
  ok for \<open>AIS_OK\<close> only.
\<close>

theorem ais_status_roundtrip:
  "\<exists>s. AIS_SetStatus c m = Some s \<and> AIS_GetCode s = Some c \<and>
       AIS_Message s = (if c = AIS_OK then [] else m) \<and> (status_ok s \<longleftrightarrow> c = AIS_OK)"
  by (cases c)
     (simp_all add: AIS_SetStatus_def AIS_GetCode_def AIS_Message_def cast_to_StatusCode_def
       cast_to_AIS_Code_def all_status_codes_def all_ais_codes_def)

text \<open>\<open>Update\<close> keeps the first error: folding it over any sequence of statuses from an ok
  status gives the first status that is not ok, or the last one when all are ok.
\<close>

theorem status_Update_first_error:
  "fold (\<lambda>new acc. status_Update acc new) ss s0 =
     (case find (\<lambda>s. \<not> status_ok s) (s0 # ss) of Some e \<Rightarrow> e | None \<Rightarrow> last (s0 # ss))"
  by (induction ss arbitrary: s0) (auto simp: status_Update_def split: option.split)

end
