(* ===== verification/Status_Or.thy ===== *)
theory Status_Or
  imports Status_Core
begin

text \<open>
  \<open>util/status/statusor.h\<close>, \<open>statusor_internals.h\<close> and \<open>statusor.cc\<close>: the class
  \<open>StatusOr<T>\<close>, a status and a union member that holds a \<open>T\<close> exactly while the status
  is ok.

  The union member is an \<open>option\<close>: \<open>None\<close> while no \<open>T\<close> lives in it. Constructing a
  value over a living one (a leak) and destroying a dead one are lifetime errors: the operations
  return \<open>None\<close> for them, and the lemmas show they never do.

  The locale \<open>result_holder\<close> is the contract the rest of the code relies on; its abstract
  value is an element of \<open>status + 'a\<close>, the type by which the other theories model the return
  value of a function that returns \<open>StatusOr<T>\<close>.
\<close>

section \<open>The data of a StatusOr\<close>

record 'a statusor =
  so_status :: status
  so_data :: "'a option"

type_synonym 'a result = "status + 'a"

definition kInvalidCtorMessage :: string where
  "kInvalidCtorMessage = ''An OK status is not a valid constructor argument to StatusOr<T>''"

definition HandleInvalidStatusCtorArg :: "status \<Rightarrow> status" where
  "HandleInvalidStatusCtorArg s = InternalError kInvalidCtorMessage"

definition so_ok :: "'a statusor \<Rightarrow> bool" where
  "so_ok s = status_ok (so_status s)"

definition so_EnsureNotOk :: "'a statusor \<Rightarrow> 'a statusor" where
  "so_EnsureNotOk s =
     (if so_ok s then s\<lparr>so_status := HandleInvalidStatusCtorArg (so_status s)\<rparr> else s)"

text \<open>Placement new into the union member, and the explicit destructor call.\<close>

definition so_MakeValue :: "'a \<Rightarrow> 'a statusor \<Rightarrow> 'a statusor option" where
  "so_MakeValue v s = (case so_data s of None \<Rightarrow> Some (s\<lparr>so_data := Some v\<rparr>) | Some _ \<Rightarrow> None)"

definition so_DestroyValue :: "'a statusor \<Rightarrow> 'a statusor option" where
  "so_DestroyValue s = (case so_data s of None \<Rightarrow> None | Some _ \<Rightarrow> Some (s\<lparr>so_data := None\<rparr>))"

definition so_Clear :: "'a statusor \<Rightarrow> 'a statusor option" where
  "so_Clear s = (if so_ok s then so_DestroyValue s else Some s)"

section \<open>Constructors\<close>

definition so_of_value :: "'a \<Rightarrow> 'a statusor" where
  "so_of_value v = \<lparr>so_status = OkStatus, so_data = Some v\<rparr>"

definition so_of_status :: "status \<Rightarrow> 'a statusor" where
  "so_of_status st = so_EnsureNotOk \<lparr>so_status = st, so_data = None\<rparr>"

definition so_default :: "'a statusor" where
  "so_default = so_of_status (mk_Status kUnknown [])"

text \<open>The copy and the converting constructors, \<open>f\<close> being the conversion of the value.\<close>

definition so_copy :: "('a \<Rightarrow> 'b) \<Rightarrow> 'a statusor \<Rightarrow> 'b statusor option" where
  "so_copy f other =
     (if so_ok other
      then (case so_data other of
              None \<Rightarrow> None
            | Some v \<Rightarrow> map_option (\<lambda>s. s\<lparr>so_status := OkStatus\<rparr>)
                          (so_MakeValue (f v) \<lparr>so_status = OkStatus, so_data = None\<rparr>))
      else Some \<lparr>so_status = so_status other, so_data = None\<rparr>)"

section \<open>Assignments and the destructor\<close>

definition so_AssignValue :: "'a \<Rightarrow> 'a statusor \<Rightarrow> 'a statusor option" where
  "so_AssignValue v s =
     (if so_ok s
      then Option.bind (so_DestroyValue s) (so_MakeValue v)
      else map_option (\<lambda>s'. s'\<lparr>so_status := OkStatus\<rparr>) (so_MakeValue v s))"

definition so_AssignStatus :: "status \<Rightarrow> 'a statusor \<Rightarrow> 'a statusor option" where
  "so_AssignStatus st s =
     map_option (\<lambda>s'. so_EnsureNotOk (s'\<lparr>so_status := st\<rparr>)) (so_Clear s)"

definition so_AssignFrom :: "('b \<Rightarrow> 'a) \<Rightarrow> 'b statusor \<Rightarrow> 'a statusor \<Rightarrow> 'a statusor option" where
  "so_AssignFrom f other s =
     (if so_ok other
      then (case so_data other of None \<Rightarrow> None | Some v \<Rightarrow> so_AssignValue (f v) s)
      else so_AssignStatus (so_status other) s)"

text \<open>
  The assignment of an object of the same type, which returns early when it is assigned to itself:
  \<open>same\<close> is \<open>this == &other\<close>.
\<close>

definition so_AssignSame :: "bool \<Rightarrow> 'a statusor \<Rightarrow> 'a statusor \<Rightarrow> 'a statusor option" where
  "so_AssignSame same other s = (if same then Some s else so_AssignFrom (\<lambda>v. v) other s)"

text \<open>The destructor leaves no living value behind.\<close>

definition so_Destroy :: "'a statusor \<Rightarrow> 'a statusor option" where
  "so_Destroy s = (if so_ok s then so_DestroyValue s else Some s)"

section \<open>Access\<close>

definition so_Crash :: "status \<Rightarrow> 'a outcome" where
  "so_Crash st =
     Fatal (''Attempting to fetch value instead of handling error '' @ status_ToString st)"

definition so_ValueOrDie :: "'a statusor \<Rightarrow> 'a outcome" where
  "so_ValueOrDie s =
     (if so_ok s
      then (case so_data s of None \<Rightarrow> Fatal ''read of a dead object'' | Some v \<Rightarrow> Returns v)
      else so_Crash (so_status s))"

definition so_status_of :: "'a statusor \<Rightarrow> status" where
  "so_status_of s = so_status s"

definition so_status_of_rvalue :: "'a statusor \<Rightarrow> status" where
  "so_status_of_rvalue s = (if so_ok s then OkStatus else so_status s)"

section \<open>The invariant and the abstract value\<close>

definition so_inv :: "'a statusor \<Rightarrow> bool" where
  "so_inv s \<longleftrightarrow> (so_data s \<noteq> None \<longleftrightarrow> so_ok s)"

definition so_abs :: "'a statusor \<Rightarrow> 'a result" where
  "so_abs s = (case so_data s of Some v \<Rightarrow> Inr v | None \<Rightarrow> Inl (so_status s))"

text \<open>What a status becomes when a StatusOr is made of it.\<close>

definition as_error :: "status \<Rightarrow> status" where
  "as_error st = (if status_ok st then InternalError kInvalidCtorMessage else st)"

fun norm_result :: "'a result \<Rightarrow> 'a result" where
  "norm_result (Inr v) = Inr v"
| "norm_result (Inl st) = Inl (as_error st)"

lemma as_error_not_ok [simp]: "\<not> status_ok (as_error st)"
  by (simp add: as_error_def)

lemma as_error_id [simp]: "\<not> status_ok st \<Longrightarrow> as_error st = st"
  by (simp add: as_error_def)

lemmas so_op_defs =
  so_ok_def so_EnsureNotOk_def HandleInvalidStatusCtorArg_def so_MakeValue_def
  so_DestroyValue_def so_Clear_def so_of_value_def so_of_status_def so_default_def
  so_copy_def so_AssignValue_def so_AssignStatus_def so_AssignFrom_def so_Destroy_def

lemmas so_view_defs = so_inv_def so_abs_def as_error_def so_ValueOrDie_def so_Crash_def

lemma so_inv_of_value: "so_inv (so_of_value v)" "so_abs (so_of_value v) = Inr v"
  by (simp_all add: so_op_defs so_view_defs)

lemma so_inv_of_status: "so_inv (so_of_status st)" "so_abs (so_of_status st) = Inl (as_error st)"
  by (simp_all add: so_op_defs so_view_defs)

lemma so_AssignValue_ok:
  assumes "so_inv s"
  obtains s' where "so_AssignValue v s = Some s'" "so_inv s'" "so_abs s' = Inr v"
  using assms by (auto simp: so_op_defs so_view_defs split: if_splits option.splits)

lemma so_AssignStatus_ok:
  assumes "so_inv s"
  obtains s' where "so_AssignStatus st s = Some s'" "so_inv s'" "so_abs s' = Inl (as_error st)"
  using assms by (auto simp: so_op_defs so_view_defs split: if_splits option.splits)

lemma so_abs_ok: "so_inv s \<Longrightarrow> so_ok s \<longleftrightarrow> (\<exists>v. so_abs s = Inr v)"
  by (auto simp: so_view_defs split: option.splits)

lemma so_abs_error_not_ok: "so_inv s \<Longrightarrow> so_abs s = Inl st \<Longrightarrow> \<not> status_ok st"
  by (auto simp: so_view_defs so_ok_def split: option.splits)

lemma so_AssignFrom_ok:
  assumes "so_inv other" and "so_inv s"
  obtains s' where "so_AssignFrom f other s = Some s'" "so_inv s'"
    "so_abs s' = (case so_abs other of Inr v \<Rightarrow> Inr (f v) | Inl st \<Rightarrow> Inl st)"
proof (cases "so_data other")
  case None
  with assms(1) have no: "\<not> so_ok other" by (simp add: so_inv_def)
  obtain s' where "so_AssignStatus (so_status other) s = Some s'" "so_inv s'"
    "so_abs s' = Inl (as_error (so_status other))"
    using assms(2) by (rule so_AssignStatus_ok)
  with no None that show ?thesis by (simp add: so_AssignFrom_def so_abs_def so_ok_def)
next
  case (Some v)
  with assms(1) have ok: "so_ok other" by (simp add: so_inv_def)
  obtain s' where "so_AssignValue (f v) s = Some s'" "so_inv s'" "so_abs s' = Inr (f v)"
    using assms(2) by (rule so_AssignValue_ok)
  with ok Some that show ?thesis by (simp add: so_AssignFrom_def so_abs_def)
qed

text \<open>
  Assigned to itself or to another object, the target has the other's value and stays consistent. The
  guard matters: without it the value would be destroyed before it is copied, the last lemma.
\<close>

lemma so_AssignSame_ok:
  assumes "so_inv other" and "so_inv s" and "same \<Longrightarrow> other = s"
  obtains s' where "so_AssignSame same other s = Some s'" "so_inv s'" "so_abs s' = so_abs other"
proof (cases same)
  case True
  with assms that show ?thesis by (simp add: so_AssignSame_def)
next
  case False
  from assms(1,2) obtain s' where "so_AssignFrom (\<lambda>v. v) other s = Some s'" "so_inv s'"
    "so_abs s' = (case so_abs other of Inr v \<Rightarrow> Inr v | Inl st \<Rightarrow> Inl st)"
    by (rule so_AssignFrom_ok)
  with False that show ?thesis by (cases "so_abs other") (simp_all add: so_AssignSame_def)
qed

lemma unguarded_self_assignment_dead_read:
  assumes "so_inv s" and "so_ok s"
  shows "\<exists>s'. so_DestroyValue s = Some s' \<and> so_ok s' \<and> so_data s' = None \<and>
    so_ValueOrDie s' = Fatal ''read of a dead object''"
  using assms by (auto simp: so_inv_def so_DestroyValue_def so_ValueOrDie_def so_ok_def)

section \<open>The contract of a result holder\<close>

text \<open>
  The operations a client calls on a holder \<open>'h\<close> of results over \<open>'a\<close>, with the laws it
  relies on. \<open>run\<close> below is a client: any sequence of assignments.
\<close>

locale result_holder =
  fixes of_value :: "'a \<Rightarrow> 'h"
    and of_status :: "status \<Rightarrow> 'h"
    and assign_value :: "'a \<Rightarrow> 'h \<Rightarrow> 'h option"
    and assign_status :: "status \<Rightarrow> 'h \<Rightarrow> 'h option"
    and value_or_die :: "'h \<Rightarrow> 'a outcome"
    and invar :: "'h \<Rightarrow> bool"
    and abstract :: "'h \<Rightarrow> 'a result"
  assumes of_value: "invar (of_value v)" "abstract (of_value v) = Inr v"
    and of_status: "invar (of_status st)" "abstract (of_status st) = Inl (as_error st)"
    and assign_value: "invar h \<Longrightarrow> \<exists>h'. assign_value v h = Some h' \<and> invar h' \<and> abstract h' = Inr v"
    and assign_status: "invar h \<Longrightarrow>
          \<exists>h'. assign_status st h = Some h' \<and> invar h' \<and> abstract h' = Inl (as_error st)"
    and value_or_die: "invar h \<Longrightarrow> value_or_die h =
          (case abstract h of Inr v \<Rightarrow> Returns v
           | Inl st \<Rightarrow> Fatal (''Attempting to fetch value instead of handling error ''
                              @ status_ToString st))"
begin

fun step :: "'a result \<Rightarrow> 'h \<Rightarrow> 'h option" where
  "step (Inr v) h = assign_value v h"
| "step (Inl st) h = assign_status st h"

fun run :: "'a result list \<Rightarrow> 'h \<Rightarrow> 'h option" where
  "run [] h = Some h"
| "run (a # as) h = Option.bind (step a h) (run as)"

lemma step_total: "invar h \<Longrightarrow> \<exists>h'. step a h = Some h' \<and> invar h' \<and> abstract h' = norm_result a"
  using assign_value assign_status by (cases a) simp_all

lemma run_total:
  "invar h \<Longrightarrow> \<exists>h'. run as h = Some h' \<and> invar h' \<and>
     abstract h' = last (abstract h # map norm_result as)"
proof (induction "as" arbitrary: h)
  case Nil
  then show ?case by simp
next
  case (Cons a "as")
  from step_total [OF Cons.prems, of a] obtain h1 where
    h1: "step a h = Some h1" "invar h1" "abstract h1 = norm_result a" by blast
  from Cons.IH [OF h1(2)] h1 show ?case by auto
qed

lemma value_or_die_run:
  assumes "invar h" and "run as h = Some h'"
  shows "value_or_die h' = Returns v \<longleftrightarrow> last (abstract h # map norm_result as) = Inr v"
  using run_total [OF assms(1), of "as"] assms(2) value_or_die
  by (auto split: sum.splits)

end

interpretation so: result_holder so_of_value so_of_status so_AssignValue so_AssignStatus
  so_ValueOrDie so_inv so_abs
proof (unfold_locales, goal_cases)
  case (5 h v)
  then show ?case by (rule so_AssignValue_ok) blast
next
  case (6 h st)
  then show ?case by (rule so_AssignStatus_ok) blast
next
  case (7 h)
  then show ?case by (auto simp: so_view_defs split: option.splits)
qed (simp_all add: so_inv_of_value so_inv_of_status)

section \<open>Properties\<close>

text \<open>The assignments of a program: by value (\<open>Inr\<close>) and by status (\<open>Inl\<close>).\<close>

fun so_run :: "'a result list \<Rightarrow> 'a statusor \<Rightarrow> 'a statusor option" where
  "so_run [] s = Some s"
| "so_run (Inr v # as) s = Option.bind (so_AssignValue v s) (so_run as)"
| "so_run (Inl st # as) s = Option.bind (so_AssignStatus st s) (so_run as)"

lemma so_run_eq: "so_run as s = so.run as s"
  by (induction "as" s rule: so_run.induct) (auto intro: Option.bind_cong)

text \<open>
  C14. However a StatusOr is constructed and reassigned (by values, by statuses, ok ones
  included), no value is constructed over a living one and none is destroyed twice; the union
  member holds a value exactly while the status is ok; and the object stands for the last
  thing assigned, an ok status counting as the internal error of the constructor check.
\<close>

theorem statusor_assignments_safe:
  "\<exists>s. so_run as (so_of_status st :: 'a statusor) = Some s \<and> so_inv s \<and>
     so_abs s = last (Inl (as_error st) # map norm_result as) \<and>
     (\<exists>d. so_Destroy s = Some d \<and> so_data d = None)"
proof -
  from so.run_total [OF so_inv_of_status(1), of "as" st] obtain s where
    s: "so_run as (so_of_status st) = Some s" "so_inv s"
       "so_abs s = last (so_abs (so_of_status st) # map norm_result as)"
    by (auto simp: so_run_eq)
  moreover from s(2) have "\<exists>d. so_Destroy s = Some d \<and> so_data d = None"
    by (auto simp: so_op_defs so_view_defs split: option.splits)
  ultimately show ?thesis by (simp add: so_inv_of_status)
qed

section \<open>Programs over several objects\<close>

text \<open>
  The objects of a program by their names: constructed from a value, a status or another object, assigned, and
  destroyed. \<open>None\<close> is a lifetime error, of the program (a name used that has no object) or of the union member.
\<close>

datatype 'a so_op =
    NewValue nat 'a | NewStatus nat status | NewCopy nat nat
  | SetValue nat 'a | SetStatus nat status | SetFrom nat nat | Destroy nat

type_synonym 'a so_objects = "nat \<Rightarrow> 'a statusor option"

definition so_new :: "nat \<Rightarrow> 'a statusor option \<Rightarrow> 'a so_objects \<Rightarrow> 'a so_objects option" where
  "so_new x made h = (case h x of None \<Rightarrow> map_option (\<lambda>obj. h(x \<mapsto> obj)) made | Some _ \<Rightarrow> None)"

definition so_on :: "nat \<Rightarrow> ('a statusor \<Rightarrow> 'a statusor option) \<Rightarrow> 'a so_objects \<Rightarrow> 'a so_objects option" where
  "so_on x f h = (case h x of None \<Rightarrow> None | Some obj \<Rightarrow> map_option (\<lambda>obj'. h(x \<mapsto> obj')) (f obj))"

fun so_apply :: "'a so_op \<Rightarrow> 'a so_objects \<Rightarrow> 'a so_objects option" where
  "so_apply (NewValue x v) h = so_new x (Some (so_of_value v)) h"
| "so_apply (NewStatus x st) h = so_new x (Some (so_of_status st)) h"
| "so_apply (NewCopy x y) h = so_new x (Option.bind (h y) (so_copy (\<lambda>v. v))) h"
| "so_apply (SetValue x v) h = so_on x (so_AssignValue v) h"
| "so_apply (SetStatus x st) h = so_on x (so_AssignStatus st) h"
| "so_apply (SetFrom x y) h = so_on x (\<lambda>obj. Option.bind (h y) (\<lambda>other. so_AssignSame (x = y) other obj)) h"
| "so_apply (Destroy x) h = map_option (\<lambda>_. h(x := None)) (Option.bind (h x) so_Destroy)"

fun so_exec :: "'a so_op list \<Rightarrow> 'a so_objects \<Rightarrow> 'a so_objects option" where
  "so_exec [] h = Some h"
| "so_exec (op # ops) h = Option.bind (so_apply op h) (so_exec ops)"

text \<open>What the program means: each name has a value or an error, which is copied whole.\<close>

fun result_apply :: "'a so_op \<Rightarrow> (nat \<Rightarrow> 'a result option) \<Rightarrow> (nat \<Rightarrow> 'a result option) option" where
  "result_apply (NewValue x v) m = (if m x = None then Some (m(x \<mapsto> Inr v)) else None)"
| "result_apply (NewStatus x st) m = (if m x = None then Some (m(x \<mapsto> Inl (as_error st))) else None)"
| "result_apply (NewCopy x y) m =
     (if m x = None then map_option (\<lambda>r. m(x \<mapsto> r)) (m y) else None)"
| "result_apply (SetValue x v) m = (if m x = None then None else Some (m(x \<mapsto> Inr v)))"
| "result_apply (SetStatus x st) m = (if m x = None then None else Some (m(x \<mapsto> Inl (as_error st))))"
| "result_apply (SetFrom x y) m = (if m x = None then None else map_option (\<lambda>r. m(x \<mapsto> r)) (m y))"
| "result_apply (Destroy x) m = (if m x = None then None else Some (m(x := None)))"

fun result_exec :: "'a so_op list \<Rightarrow> (nat \<Rightarrow> 'a result option) \<Rightarrow> (nat \<Rightarrow> 'a result option) option" where
  "result_exec [] m = Some m"
| "result_exec (op # ops) m = Option.bind (result_apply op m) (result_exec ops)"

definition so_means :: "'a so_objects \<Rightarrow> (nat \<Rightarrow> 'a result option) \<Rightarrow> bool" where
  "so_means h m \<longleftrightarrow> (\<forall>x. m x = map_option so_abs (h x)) \<and> (\<forall>x obj. h x = Some obj \<longrightarrow> so_inv obj)"

lemma so_meansD:
  assumes "so_means h m"
  shows "m x = None \<longleftrightarrow> h x = None" and "m x = Some r \<Longrightarrow> \<exists>obj. h x = Some obj \<and> so_inv obj \<and> so_abs obj = r"
  using assms by (auto simp: so_means_def)

lemma so_means_upd:
  "so_means h m \<Longrightarrow> so_inv obj \<Longrightarrow> so_means (h(x \<mapsto> obj)) (m(x \<mapsto> so_abs obj))"
  "so_means h m \<Longrightarrow> so_means (h(x := None)) (m(x := None))"
  by (auto simp: so_means_def)

lemma so_copy_ok:
  assumes "so_inv other"
  obtains obj where "so_copy (\<lambda>v. v) other = Some obj" "so_inv obj" "so_abs obj = so_abs other"
  using assms by (auto simp: so_op_defs so_view_defs split: if_splits option.splits)

lemma so_Destroy_ok: "so_inv obj \<Longrightarrow> \<exists>d. so_Destroy obj = Some d"
  by (auto simp: so_op_defs so_view_defs split: option.splits)

lemma so_new_means:
  assumes "so_means h m" and "m x = None" and "made = Some obj" and "so_inv obj"
  shows "\<exists>h'. so_new x made h = Some h' \<and> so_means h' (m(x \<mapsto> so_abs obj))"
  using assms so_meansD(1) [OF assms(1), of x] by (simp add: so_new_def so_means_upd)

lemma so_on_means:
  assumes "so_means h m" and "h x = Some obj" and "f obj = Some obj'" and "so_inv obj'"
  shows "\<exists>h'. so_on x f h = Some h' \<and> so_means h' (m(x \<mapsto> so_abs obj'))"
  using assms by (simp add: so_on_def so_means_upd)

text \<open>An operation that makes sense is carried out, on whatever the objects hold.\<close>

lemma so_apply_means:
  assumes "so_means h m" and "result_apply op m = Some m'"
  shows "\<exists>h'. so_apply op h = Some h' \<and> so_means h' m'"
proof (cases op)
  case (NewValue x v)
  with assms show ?thesis using so_new_means [OF assms(1), of x _ "so_of_value v"] so_inv_of_value [of v]
    by (auto split: if_splits)
next
  case (NewStatus x st)
  with assms show ?thesis using so_new_means [OF assms(1), of x _ "so_of_status st"]
    by (auto simp: so_inv_of_status split: if_splits)
next
  case (NewCopy x y)
  with assms obtain r where r: "m x = None" "m y = Some r" "m' = m(x \<mapsto> r)" by (auto split: if_splits)
  obtain other where "h y = Some other" "so_inv other" "so_abs other = r" using so_meansD(2) [OF assms(1) r(2)] by blast
  moreover obtain obj where "so_copy (\<lambda>v. v) other = Some obj" "so_inv obj" "so_abs obj = so_abs other"
    using so_copy_ok [OF \<open>so_inv other\<close>] .
  ultimately show ?thesis using so_new_means [OF assms(1) r(1), of _ obj] NewCopy r by simp
next
  case (SetValue x v)
  with assms obtain obj where obj: "h x = Some obj" "so_inv obj" "m' = m(x \<mapsto> Inr v)"
    using so_meansD(2) [OF assms(1), of x] by (auto split: if_splits)
  obtain obj' where "so_AssignValue v obj = Some obj'" "so_inv obj'" "so_abs obj' = Inr v"
    using so_AssignValue_ok [OF obj(2)] .
  then show ?thesis using so_on_means [OF assms(1) obj(1)] SetValue obj(3) by fastforce
next
  case (SetStatus x st)
  with assms obtain obj where obj: "h x = Some obj" "so_inv obj" "m' = m(x \<mapsto> Inl (as_error st))"
    using so_meansD(2) [OF assms(1), of x] by (auto split: if_splits)
  obtain obj' where "so_AssignStatus st obj = Some obj'" "so_inv obj'" "so_abs obj' = Inl (as_error st)"
    using so_AssignStatus_ok [OF obj(2)] .
  then show ?thesis using so_on_means [OF assms(1) obj(1)] SetStatus obj(3) by fastforce
next
  case (SetFrom x y)
  with assms obtain r where r: "m x \<noteq> None" "m y = Some r" "m' = m(x \<mapsto> r)" by (auto split: if_splits)
  obtain obj where obj: "h x = Some obj" "so_inv obj" using so_meansD(2) [OF assms(1), of x] r(1) by auto
  obtain other where other: "h y = Some other" "so_inv other" "so_abs other = r"
    using so_meansD(2) [OF assms(1) r(2)] by blast
  have "other = obj" if "x = y" using that obj(1) other(1) by simp
  then obtain obj' where "so_AssignSame (x = y) other obj = Some obj'" "so_inv obj'" "so_abs obj' = so_abs other"
    using so_AssignSame_ok [OF other(2) obj(2)] by blast
  then show ?thesis using so_on_means [OF assms(1) obj(1)] SetFrom r(3) other by fastforce
next
  case (Destroy x)
  with assms obtain obj where obj: "h x = Some obj" "so_inv obj" "m' = m(x := None)"
    using so_meansD(2) [OF assms(1), of x] by (auto split: if_splits)
  with so_Destroy_ok [OF obj(2)] Destroy show ?thesis using so_means_upd(2) [OF assms(1)] by auto
qed

lemma so_exec_means:
  "so_means h m \<Longrightarrow> result_exec ops m = Some m' \<Longrightarrow> \<exists>h'. so_exec ops h = Some h' \<and> so_means h' m'"
proof (induction ops arbitrary: h m)
  case Nil
  then show ?case by simp
next
  case (Cons op ops)
  then obtain m1 where "result_apply op m = Some m1" "result_exec ops m1 = Some m'"
    by (auto simp: Option.bind_eq_Some_conv)
  with so_apply_means [OF Cons.prems(1)] Cons.IH show ?case by fastforce
qed

text \<open>What the accessors of an object give, by what it stands for.\<close>

definition so_shows :: "'a statusor \<Rightarrow> 'a result \<Rightarrow> bool" where
  "so_shows obj r \<longleftrightarrow> (case r of
      Inr v \<Rightarrow> so_ok obj \<and> so_status_of_rvalue obj = OkStatus \<and> so_ValueOrDie obj = Returns v
    | Inl st \<Rightarrow> \<not> so_ok obj \<and> \<not> status_ok st \<and> so_status_of obj = st \<and> so_status_of_rvalue obj = st \<and>
        so_ValueOrDie obj = Fatal (''Attempting to fetch value instead of handling error '' @ status_ToString st))"

lemma so_inv_shows: "so_inv obj \<Longrightarrow> so_shows obj (so_abs obj)"
  by (auto simp: so_shows_def so_view_defs so_ok_def so_status_of_def so_status_of_rvalue_def split: option.splits)



end
