(* ===== verification/Examine_Stack.thy ===== *)
theory Examine_Stack
  imports Ais_Prelude
begin

text \<open>
  \<open>util/examine_stack.cc\<close>: the text of a stack trace. The frames of the stack, the names of the symbols and
  the text that \<open>printf\<close> gives a pointer are outside the source and are arguments; what is written into the
  two buffers of 1024 bytes, and what of it is cut, is modelled.
\<close>

type_synonym uintptr = "64 word"

definition kDefaultStackTraceDepth :: nat where
  "kDefaultStackTraceDepth = 32"

definition kPrintfPointerFieldWidth :: nat where
  "kPrintfPointerFieldWidth = 2 + 2 * 8"

definition kStackTracePrefix :: string where
  "kStackTracePrefix = ''    ''"

text \<open>\<open>snprintf\<close> into a buffer, which keeps the last byte for the end of the text, and \<open>%*p\<close>.\<close>

definition c_snprintf :: "nat \<Rightarrow> string \<Rightarrow> string" where
  "c_snprintf n text = take (n - 1) text"

definition pad_left :: "nat \<Rightarrow> string \<Rightarrow> string" where
  "pad_left width text = replicate (width - length text) CHR '' '' @ text"

definition DebugWriteToString :: "string \<Rightarrow> string \<Rightarrow> string" where
  "DebugWriteToString data str = str @ data"

text \<open>
  \<open>symbolize pc size\<close> is what \<open>absl::Symbolize\<close> writes, if it finds the symbol. The previous address is tried
  first.
\<close>

definition symbol_of :: "(uintptr \<Rightarrow> nat \<Rightarrow> string option) \<Rightarrow> uintptr \<Rightarrow> string" where
  "symbol_of symbolize pc = (case symbolize (pc - 1) 1024 of
      Some s \<Rightarrow> s
    | None \<Rightarrow> (case symbolize pc 1024 of Some s \<Rightarrow> s | None \<Rightarrow> ''(unknown)''))"

definition DumpPCAndSymbol ::
    "(uintptr \<Rightarrow> nat \<Rightarrow> string option) \<Rightarrow> (uintptr \<Rightarrow> string) \<Rightarrow> (string \<Rightarrow> 'w \<Rightarrow> 'w) \<Rightarrow> 'w \<Rightarrow> uintptr \<Rightarrow> string
     \<Rightarrow> bool \<Rightarrow> 'w" where
  "DumpPCAndSymbol symbolize show_ptr writerfn arg pc prefix short_format =
     (let symbol = symbol_of symbolize pc;
          buf = (if short_format then c_snprintf 1024 ('' '' @ symbol @ '';'')
                 else c_snprintf 1024 (prefix @ ''@ '' @ pad_left kPrintfPointerFieldWidth (show_ptr pc) @ ''  '' @
                        symbol @ [CHR 0x0A]))
      in writerfn buf arg)"

text \<open>\<open>get_stack_trace n skip\<close> are the at most \<open>n\<close> frames found after the first \<open>skip\<close>.\<close>

definition DumpStackTrace ::
    "(uintptr \<Rightarrow> nat \<Rightarrow> string option) \<Rightarrow> (uintptr \<Rightarrow> string) \<Rightarrow> (nat \<Rightarrow> nat \<Rightarrow> uintptr list) \<Rightarrow> nat
     \<Rightarrow> (string \<Rightarrow> 'w \<Rightarrow> 'w) \<Rightarrow> 'w \<Rightarrow> bool \<Rightarrow> 'w" where
  "DumpStackTrace symbolize show_ptr get_stack_trace skip_count writerfn arg short_format =
     fold (\<lambda>pc arg. DumpPCAndSymbol symbolize show_ptr writerfn arg pc
             (if short_format then [] else kStackTracePrefix) short_format)
       (get_stack_trace kDefaultStackTraceDepth (skip_count + 1)) arg"

definition CurrentStackTrace ::
    "(uintptr \<Rightarrow> nat \<Rightarrow> string option) \<Rightarrow> (uintptr \<Rightarrow> string) \<Rightarrow> (nat \<Rightarrow> nat \<Rightarrow> uintptr list) \<Rightarrow> bool \<Rightarrow> string" where
  "CurrentStackTrace symbolize show_ptr get_stack_trace short_format =
     (let result = ''Stacktrace:'' @ (if \<not> short_format then [CHR 0x0A] else [])
      in DumpStackTrace symbolize show_ptr get_stack_trace 1 DebugWriteToString result short_format)"

section \<open>What the text is\<close>

text \<open>One frame as it is written.\<close>

definition frame_text ::
    "(uintptr \<Rightarrow> nat \<Rightarrow> string option) \<Rightarrow> (uintptr \<Rightarrow> string) \<Rightarrow> bool \<Rightarrow> uintptr \<Rightarrow> string" where
  "frame_text symbolize show_ptr short_format pc =
     DumpPCAndSymbol symbolize show_ptr (\<lambda>data arg. data) [] pc
       (if short_format then [] else kStackTracePrefix) short_format"

lemma dump_to_string:
  "fold (\<lambda>pc arg. DumpPCAndSymbol symbolize show_ptr DebugWriteToString arg pc
      (if short_format then [] else kStackTracePrefix) short_format) pcs str =
   str @ concat (map (frame_text symbolize show_ptr short_format) pcs)"
  by (induction pcs arbitrary: str)
    (simp_all add: DumpPCAndSymbol_def DebugWriteToString_def frame_text_def Let_def)

lemma current_stack_trace:
  "CurrentStackTrace symbolize show_ptr get_stack_trace short_format =
     ''Stacktrace:'' @ (if short_format then [] else [CHR 0x0A]) @
     concat (map (frame_text symbolize show_ptr short_format) (get_stack_trace 32 2))"
  by (simp add: CurrentStackTrace_def DumpStackTrace_def dump_to_string kDefaultStackTraceDepth_def
      numeral_2_eq_2)

text \<open>A frame fits its buffer, so the whole trace is bounded, however long the symbols are.\<close>

lemma frame_text_length: "length (frame_text symbolize show_ptr short_format pc) \<le> 1023"
proof -
  have cut: "length (c_snprintf 1024 tx) \<le> 1023" for tx by (simp add: c_snprintf_def)
  show ?thesis by (simp add: frame_text_def DumpPCAndSymbol_def Let_def cut)
qed

lemma frames_length:
  "length (concat (map (frame_text symbolize show_ptr short_format) pcs)) \<le> 1023 * length pcs"
proof (induction pcs)
  case Nil
  show ?case by simp
next
  case (Cons pc pcs)
  with frame_text_length [of symbolize show_ptr short_format pc] show ?case
    by (simp del: length_concat)
qed

lemma stack_trace_bounded:
  assumes "length (get_stack_trace 32 2) \<le> 32"
  shows "length (CurrentStackTrace symbolize show_ptr get_stack_trace short_format) \<le> 12 + 1023 * 32"
proof -
  have "length (concat (map (frame_text symbolize show_ptr short_format) (get_stack_trace 32 2))) \<le> 1023 * 32"
    using frames_length [of symbolize show_ptr short_format "get_stack_trace 32 2"] assms by simp
  then show ?thesis by (cases short_format) (simp_all add: current_stack_trace del: length_concat)
qed

text \<open>
  A short entry is the symbol between a blank and a semicolon when the symbol has at most 1021 characters. The two
  lengths that \<open>Symbolize\<close> may write beyond that lose the semicolon, so the entry runs into the next one.
\<close>

lemma short_frame:
  assumes "length (symbol_of symbolize pc) \<le> 1021"
  shows "frame_text symbolize show_ptr True pc = '' '' @ symbol_of symbolize pc @ '';''"
  using assms by (simp add: frame_text_def DumpPCAndSymbol_def c_snprintf_def Let_def)

lemma long_frame_unterminated:
  assumes "length (symbol_of symbolize pc) \<in> {1022, 1023}"
  shows "frame_text symbolize show_ptr True pc = '' '' @ take 1022 (symbol_of symbolize pc)"
  using assms by (auto simp: frame_text_def DumpPCAndSymbol_def c_snprintf_def Let_def)

end
