(* ===== verification/Status_Builder.thy ===== *)
theory Status_Builder
  imports Status_Or Examine_Stack
begin

text \<open>
  \<open>util/status/status_builder.h\<close>, \<open>status_builder.cc\<close>, \<open>source_location.h\<close>,
  \<open>ret_check.h\<close>, \<open>ret_check.cc\<close> and the control flow of \<open>status_macros.h\<close>: the builder
  that adds a message and logging to a status, and the macros that return from the calling
  function on an error.

  Log output is part of the state here: \<open>log_state\<close> holds the lines written and the counters of
  \<open>LogEveryN\<close>, keyed by the pointer to the file name and the line, as the code keys them.
  Whether verbose logging is on comes from outside the source and is an argument, as is the text of the
  stack trace, which is \<open>CurrentStackTrace\<close> of the theory \<open>Examine_Stack\<close>. Fields of \<open>Rep\<close> that the code leaves uninitialised are \<open>None\<close>.
\<close>

section \<open>Locations and settings\<close>

record source_location =
  loc_line :: nat
  loc_file :: string
  loc_file_ptr :: nat

datatype log_severity = INFO | WARNING | ERROR | FATAL

datatype message_join_style = kAnnotate | kAppend | kPrepend

datatype logging_mode = kDisabled | kLog | kVLog | kLogEveryN

record builder_rep =
  r_logging_mode :: logging_mode
  r_log_severity :: "log_severity option"
  r_verbose_level :: "int32 option"
  r_n :: "int32 option"
  r_stream_message :: string
  r_should_log_stack_trace :: bool
  r_message_join_style :: message_join_style

record status_builder =
  b_status :: status
  b_loc :: source_location
  b_rep :: "builder_rep option"

definition new_Rep :: builder_rep where
  "new_Rep = \<lparr>r_logging_mode = kDisabled, r_log_severity = None, r_verbose_level = None,
     r_n = None, r_stream_message = [], r_should_log_stack_trace = False,
     r_message_join_style = kAnnotate\<rparr>"

definition copy_Rep :: "builder_rep \<Rightarrow> builder_rep" where
  "copy_Rep r = \<lparr>r_logging_mode = r_logging_mode r, r_log_severity = r_log_severity r,
     r_verbose_level = r_verbose_level r, r_n = r_n r, r_stream_message = r_stream_message r,
     r_should_log_stack_trace = r_should_log_stack_trace r,
     r_message_join_style = r_message_join_style r\<rparr>"

section \<open>Constructors and settings of the builder\<close>

definition builder_of_status :: "status \<Rightarrow> source_location \<Rightarrow> status_builder" where
  "builder_of_status st loc = \<lparr>b_status = st, b_loc = loc, b_rep = None\<rparr>"

definition builder_of_code :: "status_code \<Rightarrow> source_location \<Rightarrow> status_builder" where
  "builder_of_code c loc = \<lparr>b_status = mk_Status c [], b_loc = loc, b_rep = None\<rparr>"

definition builder_copy :: "status_builder \<Rightarrow> status_builder" where
  "builder_copy sb = \<lparr>b_status = b_status sb, b_loc = b_loc sb,
     b_rep = (case b_rep sb of None \<Rightarrow> None | Some r \<Rightarrow> Some (copy_Rep r))\<rparr>"

definition builder_assign :: "status_builder \<Rightarrow> status_builder \<Rightarrow> status_builder" where
  "builder_assign this sb = this\<lparr>b_status := b_status sb, b_loc := b_loc sb,
     b_rep := (case b_rep sb of None \<Rightarrow> None | Some r \<Rightarrow> Some (copy_Rep r))\<rparr>"

text \<open>\<open>if (rep_ == nullptr) rep_ = std::make_unique<Rep>();\<close>\<close>

definition rep_or_new :: "status_builder \<Rightarrow> builder_rep" where
  "rep_or_new b = (case b_rep b of None \<Rightarrow> new_Rep | Some r \<Rightarrow> r)"

definition SetPrepend :: "status_builder \<Rightarrow> status_builder" where
  "SetPrepend b = (if status_ok (b_status b) then b
     else b\<lparr>b_rep := Some ((rep_or_new b)\<lparr>r_message_join_style := kPrepend\<rparr>)\<rparr>)"

definition SetAppend :: "status_builder \<Rightarrow> status_builder" where
  "SetAppend b = (if status_ok (b_status b) then b
     else b\<lparr>b_rep := Some ((rep_or_new b)\<lparr>r_message_join_style := kAppend\<rparr>)\<rparr>)"

definition SetNoLogging :: "status_builder \<Rightarrow> status_builder" where
  "SetNoLogging b = (case b_rep b of None \<Rightarrow> b
     | Some r \<Rightarrow> b\<lparr>b_rep := Some (r\<lparr>r_logging_mode := kDisabled,
                                  r_should_log_stack_trace := False\<rparr>)\<rparr>)"

definition Log :: "log_severity \<Rightarrow> status_builder \<Rightarrow> status_builder" where
  "Log level b = (if status_ok (b_status b) then b
     else b\<lparr>b_rep := Some ((rep_or_new b)\<lparr>r_logging_mode := kLog, r_log_severity := Some level\<rparr>)\<rparr>)"

definition LogError :: "status_builder \<Rightarrow> status_builder" where
  "LogError b = Log ERROR b"

definition LogWarning :: "status_builder \<Rightarrow> status_builder" where
  "LogWarning b = Log WARNING b"

definition LogInfo :: "status_builder \<Rightarrow> status_builder" where
  "LogInfo b = Log INFO b"

definition LogEveryN :: "log_severity \<Rightarrow> int32 \<Rightarrow> status_builder \<Rightarrow> status_builder" where
  "LogEveryN level n b = (if status_ok (b_status b) then b
     else if sint n < 1 then Log level b
     else b\<lparr>b_rep := Some ((rep_or_new b)\<lparr>r_logging_mode := kLogEveryN,
            r_log_severity := Some level, r_n := Some n\<rparr>)\<rparr>)"

definition VLog :: "int32 \<Rightarrow> status_builder \<Rightarrow> status_builder" where
  "VLog verbose_level b = (if status_ok (b_status b) then b
     else b\<lparr>b_rep := Some ((rep_or_new b)\<lparr>r_logging_mode := kVLog,
            r_verbose_level := Some verbose_level\<rparr>)\<rparr>)"

definition EmitStackTrace :: "status_builder \<Rightarrow> status_builder" where
  "EmitStackTrace b = (if status_ok (b_status b) then b
     else (let r = (case b_rep b of
                      None \<Rightarrow> new_Rep\<lparr>r_logging_mode := kLog, r_log_severity := Some INFO\<rparr>
                    | Some r \<Rightarrow> r)
           in b\<lparr>b_rep := Some (r\<lparr>r_should_log_stack_trace := True\<rparr>)\<rparr>))"

definition Stream :: "string \<Rightarrow> status_builder \<Rightarrow> status_builder" where
  "Stream value b = (if status_ok (b_status b) then b
     else b\<lparr>b_rep := Some ((rep_or_new b)\<lparr>r_stream_message :=
            r_stream_message (rep_or_new b) @ value\<rparr>)\<rparr>)"

definition SetCode :: "status_code \<Rightarrow> status_builder \<Rightarrow> status_builder" where
  "SetCode c b = b\<lparr>b_status := mk_Status c (error_message (b_status b))\<rparr>"

definition builder_ok :: "status_builder \<Rightarrow> bool" where
  "builder_ok b = status_ok (b_status b)"

definition builder_code :: "status_builder \<Rightarrow> status_code" where
  "builder_code b = status_code_of (b_status b)"

definition AbortedErrorBuilder :: "source_location \<Rightarrow> status_builder" where
  "AbortedErrorBuilder location = builder_of_code kAborted location"

definition AlreadyExistsErrorBuilder :: "source_location \<Rightarrow> status_builder" where
  "AlreadyExistsErrorBuilder location = builder_of_code kAlreadyExists location"

definition CancelledErrorBuilder :: "source_location \<Rightarrow> status_builder" where
  "CancelledErrorBuilder location = builder_of_code kCancelled location"

definition DataLossErrorBuilder :: "source_location \<Rightarrow> status_builder" where
  "DataLossErrorBuilder location = builder_of_code kDataLoss location"

definition DeadlineExceededErrorBuilder :: "source_location \<Rightarrow> status_builder" where
  "DeadlineExceededErrorBuilder location = builder_of_code kDeadlineExceeded location"

definition FailedPreconditionErrorBuilder :: "source_location \<Rightarrow> status_builder" where
  "FailedPreconditionErrorBuilder location = builder_of_code kFailedPrecondition location"

definition InternalErrorBuilder :: "source_location \<Rightarrow> status_builder" where
  "InternalErrorBuilder location = builder_of_code kInternal location"

definition InvalidArgumentErrorBuilder :: "source_location \<Rightarrow> status_builder" where
  "InvalidArgumentErrorBuilder location = builder_of_code kInvalidArgument location"

definition NotFoundErrorBuilder :: "source_location \<Rightarrow> status_builder" where
  "NotFoundErrorBuilder location = builder_of_code kNotFound location"

definition OutOfRangeErrorBuilder :: "source_location \<Rightarrow> status_builder" where
  "OutOfRangeErrorBuilder location = builder_of_code kOutOfRange location"

definition PermissionDeniedErrorBuilder :: "source_location \<Rightarrow> status_builder" where
  "PermissionDeniedErrorBuilder location = builder_of_code kPermissionDenied location"

definition ResourceExhaustedErrorBuilder :: "source_location \<Rightarrow> status_builder" where
  "ResourceExhaustedErrorBuilder location = builder_of_code kResourceExhausted location"

definition UnauthenticatedErrorBuilder :: "source_location \<Rightarrow> status_builder" where
  "UnauthenticatedErrorBuilder location = builder_of_code kUnauthenticated location"

definition UnavailableErrorBuilder :: "source_location \<Rightarrow> status_builder" where
  "UnavailableErrorBuilder location = builder_of_code kUnavailable location"

definition UnimplementedErrorBuilder :: "source_location \<Rightarrow> status_builder" where
  "UnimplementedErrorBuilder location = builder_of_code kUnimplemented location"

definition UnknownErrorBuilder :: "source_location \<Rightarrow> status_builder" where
  "UnknownErrorBuilder location = builder_of_code kUnknown location"

text \<open>\<open>With\<close> hands the builder to a policy and gives what the policy returns; \<open>ExtraMessage\<close> is one.\<close>

definition With :: "(status_builder \<Rightarrow> 'r) \<Rightarrow> status_builder \<Rightarrow> 'r" where
  "With adaptor b = adaptor b"

definition ExtraMessage :: "string \<Rightarrow> status_builder \<Rightarrow> status_builder" where
  "ExtraMessage msg builder = Stream msg builder"

section \<open>Making the status\<close>

record log_line =
  ll_loc :: source_location
  ll_severity :: "log_severity option"
  ll_text :: string

record log_state =
  ls_counts :: "nat \<times> nat \<Rightarrow> uint32"
  ls_lines :: "log_line list"

definition JoinMessageToStatus ::
    "source_location \<Rightarrow> status \<Rightarrow> string \<Rightarrow> message_join_style \<Rightarrow> status" where
  "JoinMessageToStatus loc s msg style =
     (if status_ok s \<or> msg = [] then s
      else
        let new_msg =
          (if style = kAnnotate
           then (let formatted_msg =
                       ''['' @ loc_file loc @ '':'' @ show_nat (loc_line loc) @ ''] '' @ msg
                 in if error_message s \<noteq> [] then error_message s @ ''; '' @ formatted_msg
                    else formatted_msg)
           else if style = kPrepend then msg @ error_message s
           else error_message s @ msg)
        in mk_Status (status_code_of s) new_msg)"

text \<open>The line written, with the severity chosen and the stack trace if asked for.\<close>

definition write_log ::
    "string \<Rightarrow> source_location \<Rightarrow> builder_rep \<Rightarrow> log_severity option \<Rightarrow> status
     \<Rightarrow> log_state \<Rightarrow> log_state" where
  "write_log trace loc r severity result ls =
     ls\<lparr>ls_lines := ls_lines ls @
         [\<lparr>ll_loc = loc, ll_severity = severity,
           ll_text = status_ToString result @
             (if r_should_log_stack_trace r then '' '' @ trace else [])\<rparr>]\<rparr>"

definition ConditionallyLog ::
    "(int32 option \<Rightarrow> bool) \<Rightarrow> string \<Rightarrow> source_location \<Rightarrow> builder_rep \<Rightarrow> status
     \<Rightarrow> log_state \<Rightarrow> log_state" where
  "ConditionallyLog vlog_is_on trace loc r result ls =
     (case r_logging_mode r of
        kDisabled \<Rightarrow> ls
      | kVLog \<Rightarrow>
          (if \<not> vlog_is_on (r_verbose_level r) then ls
           else write_log trace loc r (Some INFO) result ls)
      | kLog \<Rightarrow> write_log trace loc r (r_log_severity r) result ls
      | kLogEveryN \<Rightarrow>
          (let key = (loc_file_ptr loc, loc_line loc);
               count = ls_counts ls key;
               ls' = ls\<lparr>ls_counts := (ls_counts ls)(key := count + 1)\<rparr>
           in if count mod (case r_n r of Some n \<Rightarrow> n | None \<Rightarrow> 0) \<noteq> 0 then ls'
              else write_log trace loc r (r_log_severity r) result ls'))"

text \<open>
  \<open>CreateStatusAndConditionallyLog\<close> consumes the builder: it is left with an error status and
  no settings. The third component is the builder afterwards.
\<close>

definition CreateStatusAndConditionallyLog ::
    "(int32 option \<Rightarrow> bool) \<Rightarrow> string \<Rightarrow> builder_rep \<Rightarrow> status_builder \<Rightarrow> log_state
     \<Rightarrow> status \<times> log_state \<times> status_builder" where
  "CreateStatusAndConditionallyLog vlog_is_on trace r b ls =
     (let result = JoinMessageToStatus (b_loc b) (b_status b) (r_stream_message r)
                     (r_message_join_style r)
      in (result, ConditionallyLog vlog_is_on trace (b_loc b) r result ls,
          b\<lparr>b_status := UnknownError [], b_rep := None\<rparr>))"

text \<open>Conversion of an lvalue (on a copy of the builder) and of an rvalue.\<close>

definition builder_to_Status ::
    "(int32 option \<Rightarrow> bool) \<Rightarrow> string \<Rightarrow> status_builder \<Rightarrow> log_state \<Rightarrow> status \<times> log_state" where
  "builder_to_Status vlog_is_on trace b ls =
     (let c = builder_copy b in
      case b_rep c of
        None \<Rightarrow> (b_status b, ls)
      | Some r \<Rightarrow>
          (case CreateStatusAndConditionallyLog vlog_is_on trace r c ls of
             (st, ls', _) \<Rightarrow> (st, ls')))"

definition builder_to_Status_rvalue ::
    "(int32 option \<Rightarrow> bool) \<Rightarrow> string \<Rightarrow> status_builder \<Rightarrow> log_state
     \<Rightarrow> status \<times> log_state \<times> status_builder" where
  "builder_to_Status_rvalue vlog_is_on trace b ls =
     (case b_rep b of
        None \<Rightarrow> (b_status b, ls, b\<lparr>b_status := OkStatus\<rparr>)
      | Some r \<Rightarrow> CreateStatusAndConditionallyLog vlog_is_on trace r b ls)"

text \<open>A StatusOr made of a builder, or assigned one: the builder is converted first, and may log.\<close>

definition so_of_builder ::
    "(int32 option \<Rightarrow> bool) \<Rightarrow> string \<Rightarrow> status_builder \<Rightarrow> log_state \<Rightarrow> 'a statusor \<times> log_state" where
  "so_of_builder vlog_is_on trace b ls =
     (case builder_to_Status vlog_is_on trace b ls of (st, ls') \<Rightarrow> (so_of_status st, ls'))"

definition so_AssignBuilder ::
    "(int32 option \<Rightarrow> bool) \<Rightarrow> string \<Rightarrow> status_builder \<Rightarrow> 'a statusor \<Rightarrow> log_state
     \<Rightarrow> 'a statusor option \<times> log_state" where
  "so_AssignBuilder vlog_is_on trace b s ls =
     (case builder_to_Status vlog_is_on trace b ls of (st, ls') \<Rightarrow> (so_AssignStatus st s, ls'))"

section \<open>RET_CHECK and the return macros\<close>

definition RetCheckFailSlowPath :: "source_location \<Rightarrow> status_builder" where
  "RetCheckFailSlowPath location =
     Stream '') '' (Stream (show_nat (loc_line location)) (Stream '':''
       (Stream (loc_file location) (Stream ''RET_CHECK failure ('' (InternalErrorBuilder location)))))"

definition RetCheckFailSlowPath_cond :: "source_location \<Rightarrow> string \<Rightarrow> status_builder" where
  "RetCheckFailSlowPath_cond location condition = Stream condition (RetCheckFailSlowPath location)"

definition RetCheckFailSlowPath_status ::
    "source_location \<Rightarrow> string \<Rightarrow> status \<Rightarrow> status_builder" where
  "RetCheckFailSlowPath_status location condition st =
     Stream '' '' (Stream (status_ToString st) (Stream '' returned ''
       (Stream condition (RetCheckFailSlowPath location))))"

definition RetCheckImpl :: "status \<Rightarrow> string \<Rightarrow> source_location \<Rightarrow> status_builder" where
  "RetCheckImpl st condition location =
     (if status_ok st then builder_of_status OkStatus location
      else RetCheckFailSlowPath_status location condition st)"

text \<open>
  A function body that uses the macros either falls through to the statement after the macro
  or returns. \<open>Inl\<close> is the builder returned, with the calls chained after the macro applied;
  \<open>Inr\<close> continues.
\<close>

definition AIS_RETURN_IF_ERROR ::
    "status_builder \<Rightarrow> (status_builder \<Rightarrow> status_builder) \<Rightarrow> status_builder + unit" where
  "AIS_RETURN_IF_ERROR adaptor chain = (if builder_ok adaptor then Inr () else Inl (chain adaptor))"

definition RET_CHECK :: "bool \<Rightarrow> string \<Rightarrow> source_location \<Rightarrow> status_builder + unit" where
  "RET_CHECK cond text loc = (if cond then Inr () else Inl (RetCheckFailSlowPath_cond loc text))"

definition RET_CHECK_OK :: "status \<Rightarrow> string \<Rightarrow> source_location \<Rightarrow> status_builder + unit" where
  "RET_CHECK_OK st text loc = AIS_RETURN_IF_ERROR (RetCheckImpl st text loc) (\<lambda>b. b)"

definition AIS_ASSIGN_OR_RETURN ::
    "'a statusor \<Rightarrow> source_location \<Rightarrow> (status_builder \<Rightarrow> status_builder)
     \<Rightarrow> status_builder + 'a outcome" where
  "AIS_ASSIGN_OR_RETURN statusor loc error_expression =
     (if \<not> so_ok statusor
      then Inl (error_expression (builder_of_status (so_status_of_rvalue statusor) loc))
      else Inr (so_ValueOrDie statusor))"

text \<open>With two arguments the status itself is returned, without a builder.\<close>

definition AIS_ASSIGN_OR_RETURN_2 :: "'a statusor \<Rightarrow> status + 'a outcome" where
  "AIS_ASSIGN_OR_RETURN_2 statusor =
     (if \<not> so_ok statusor then Inl (so_status_of_rvalue statusor) else Inr (so_ValueOrDie statusor))"

text \<open>
  What the macro asserts at compile time of the text of its first argument: the number is one more than the
  index of the source, which counts down to -1, and starts at the last character of the text.
\<close>

fun HasPotentialConditionalOperator :: "string \<Rightarrow> nat \<Rightarrow> bool" where
  "HasPotentialConditionalOperator lhs 0 = False"
| "HasPotentialConditionalOperator lhs (Suc index) =
     (if lhs ! index = CHR ''?'' then True else HasPotentialConditionalOperator lhs index)"

definition assign_or_return_asserts :: "string \<Rightarrow> bool" where
  "assign_or_return_asserts lhs \<longleftrightarrow>
     lhs ! 0 \<noteq> CHR ''('' \<or> lhs ! (length lhs - 1) \<noteq> CHR '')'' \<or>
     \<not> HasPotentialConditionalOperator lhs (length lhs)"

lemmas builder_defs =
  builder_of_status_def builder_of_code_def rep_or_new_def new_Rep_def SetPrepend_def
  SetAppend_def SetNoLogging_def Log_def LogEveryN_def VLog_def EmitStackTrace_def Stream_def
  SetCode_def

lemma HasPotentialConditionalOperator_iff:
  "n \<le> length lhs \<Longrightarrow> HasPotentialConditionalOperator lhs n \<longleftrightarrow> CHR ''?'' \<in> set (take n lhs)"
  by (induction n) (auto simp: take_Suc_conv_app_nth)

text \<open>
  The assertion stops exactly the parenthesised expressions with a question mark: those are the ones
  whose parentheses the macro strips, after which a conditional operator would take the assignment
  into its last operand.
\<close>

lemma assign_or_return_asserts_iff:
  assumes "lhs \<noteq> []"
  shows "assign_or_return_asserts lhs \<longleftrightarrow>
     \<not> (hd lhs = CHR ''('' \<and> last lhs = CHR '')'' \<and> CHR ''?'' \<in> set lhs)"
  using assms
  by (auto simp: assign_or_return_asserts_def HasPotentialConditionalOperator_iff hd_conv_nth last_conv_nth)

lemma copy_Rep_id [simp]: "copy_Rep r = r"
  by (simp add: copy_Rep_def)

lemma builder_copy_id [simp]: "builder_copy b = b"
  by (simp add: builder_copy_def split: option.split)

lemma builder_assign_eq [simp]: "builder_assign this b = b"
  by (simp add: builder_assign_def split: option.split)

section \<open>Programs over the builder\<close>

text \<open>The calls a user chains on a builder, in order.\<close>

datatype builder_op =
    OpPrepend | OpAppend | OpNoLogging | OpLog log_severity | OpLogEveryN log_severity int32
  | OpVLog int32 | OpEmitStackTrace | OpStream string | OpSetCode status_code

fun builder_step :: "status_builder \<Rightarrow> builder_op \<Rightarrow> status_builder" where
  "builder_step b OpPrepend = SetPrepend b"
| "builder_step b OpAppend = SetAppend b"
| "builder_step b OpNoLogging = SetNoLogging b"
| "builder_step b (OpLog l) = Log l b"
| "builder_step b (OpLogEveryN l n) = LogEveryN l n b"
| "builder_step b (OpVLog v) = VLog v b"
| "builder_step b OpEmitStackTrace = EmitStackTrace b"
| "builder_step b (OpStream t) = Stream t b"
| "builder_step b (OpSetCode c) = SetCode c b"

abbreviation builder_run :: "builder_op list \<Rightarrow> status_builder \<Rightarrow> status_builder" where
  "builder_run ops b \<equiv> foldl builder_step b ops"

text \<open>What the calls amount to: the last code, the last join style, all the text.\<close>

fun code_after :: "status_code \<Rightarrow> builder_op \<Rightarrow> status_code" where
  "code_after c (OpSetCode d) = d"
| "code_after c op = c"

fun style_after :: "message_join_style \<Rightarrow> builder_op \<Rightarrow> message_join_style" where
  "style_after s OpPrepend = kPrepend"
| "style_after s OpAppend = kAppend"
| "style_after s op = s"

fun op_text :: "builder_op \<Rightarrow> string" where
  "op_text (OpStream t) = t"
| "op_text op = []"

fun is_set_code :: "builder_op \<Rightarrow> bool" where
  "is_set_code (OpSetCode c) = True"
| "is_set_code op = False"

lemma not_ok_fields:
  "\<not> status_ok st \<Longrightarrow> st = mk_Status (status_code_of st) (error_message st)"
  by (auto simp: mk_Status_def status_code_of_def error_message_def status_ok_def
      split: option.splits)

lemma mk_Status_fields [simp]:
  "c \<noteq> kOk \<Longrightarrow> status_code_of (mk_Status c m) = c"
  "c \<noteq> kOk \<Longrightarrow> error_message (mk_Status c m) = m"
  by (simp_all add: mk_Status_def status_code_of_def error_message_def status_ok_def)

text \<open>A builder of an error, seen through what decides the final status.\<close>

definition shows_error ::
    "status_builder \<Rightarrow> status_code \<Rightarrow> string \<Rightarrow> message_join_style \<Rightarrow> string \<Rightarrow> bool" where
  "shows_error b c m style tx \<longleftrightarrow> c \<noteq> kOk \<and> b_status b = mk_Status c m \<and>
     r_message_join_style (rep_or_new b) = style \<and> r_stream_message (rep_or_new b) = tx"

lemma shows_error_step:
  assumes "shows_error b c m style tx" and "op \<noteq> OpSetCode kOk"
  shows "shows_error (builder_step b op) (code_after c op) m (style_after style op) (tx @ op_text op) \<and>
     b_loc (builder_step b op) = b_loc b"
  using assms
  by (cases op) (auto simp: shows_error_def builder_defs split: option.splits)

lemma shows_error_run:
  "shows_error b c m style tx \<Longrightarrow> OpSetCode kOk \<notin> set ops \<Longrightarrow>
   shows_error (builder_run ops b) (foldl code_after c ops) m (foldl style_after style ops)
     (tx @ concat (map op_text ops)) \<and> b_loc (builder_run ops b) = b_loc b"
proof (induction ops arbitrary: b c style tx)
  case Nil
  then show ?case by simp
next
  case (Cons op ops)
  from Cons.prems have ne: "op \<noteq> OpSetCode kOk" by auto
  note step = shows_error_step [OF Cons.prems(1) ne]
  from Cons.IH [OF conjunct1 [OF step]] step Cons.prems(2) show ?case by simp
qed

lemma to_Status_shows_error:
  "shows_error b c m style tx \<Longrightarrow>
   fst (builder_to_Status vlog trace b ls) = JoinMessageToStatus (b_loc b) (mk_Status c m) tx style"
  by (auto simp: shows_error_def builder_to_Status_def CreateStatusAndConditionallyLog_def
      JoinMessageToStatus_def Let_def rep_or_new_def new_Rep_def split: option.splits)

lemma builder_step_ok:
  "status_ok (b_status b) \<Longrightarrow> b_rep b = None \<Longrightarrow> \<not> is_set_code op \<Longrightarrow> builder_step b op = b"
  by (cases op) (auto simp: builder_defs)

lemma builder_run_ok:
  "status_ok (b_status b) \<Longrightarrow> b_rep b = None \<Longrightarrow> list_all (\<lambda>op. \<not> is_set_code op) ops \<Longrightarrow>
   builder_run ops b = b"
  by (induction ops) (auto simp: builder_step_ok)

text \<open>The shorthands are calls of \<open>Log\<close>, and a policy that is itself a chain of calls continues the chain.\<close>

lemma log_shorthands:
  "LogError b = builder_step b (OpLog ERROR)"
  "LogWarning b = builder_step b (OpLog WARNING)"
  "LogInfo b = builder_step b (OpLog INFO)"
  by (simp_all add: LogError_def LogWarning_def LogInfo_def)

lemma with_policy:
  "With (builder_run policy) (builder_run ops b) = builder_run (ops @ policy) b"
  "With (ExtraMessage msg) (builder_run ops b) = builder_run (ops @ [OpStream msg]) b"
  by (simp_all add: With_def ExtraMessage_def)

text \<open>The two-argument macro is the other one with a builder that nothing is added to: nothing is logged.\<close>

lemma assign_or_return_two:
  "AIS_ASSIGN_OR_RETURN_2 so =
     (case AIS_ASSIGN_OR_RETURN so loc (\<lambda>b. b) of
        Inl b \<Rightarrow> Inl (fst (builder_to_Status vlog trace b ls))
      | Inr v \<Rightarrow> Inr v)"
  "AIS_ASSIGN_OR_RETURN so loc (\<lambda>b. b) = Inl b \<Longrightarrow> snd (builder_to_Status vlog trace b ls) = ls"
  by (auto simp: AIS_ASSIGN_OR_RETURN_2_def AIS_ASSIGN_OR_RETURN_def builder_to_Status_def
      builder_of_status_def split: if_splits)

text \<open>A StatusOr that got a builder holds the status of the builder, an internal error if that was ok.\<close>

lemma statusor_of_builder:
  assumes "builder_to_Status vlog trace b ls = (st, ls')"
  shows "so_inv (fst (so_of_builder vlog trace b ls))"
    "so_abs (fst (so_of_builder vlog trace b ls)) = Inl (as_error st)"
    "snd (so_of_builder vlog trace b ls) = ls'"
  using assms by (simp_all add: so_of_builder_def so_inv_of_status)

lemma statusor_assign_builder:
  assumes "builder_to_Status vlog trace b ls = (st, ls')" and "so_inv s"
  obtains s' where "so_AssignBuilder vlog trace b s ls = (Some s', ls')" "so_inv s'"
    "so_abs s' = Inl (as_error st)"
proof -
  from assms(2) obtain s' where "so_AssignStatus st s = Some s'" "so_inv s'" "so_abs s' = Inl (as_error st)"
    by (rule so_AssignStatus_ok)
  with assms(1) that show thesis by (simp add: so_AssignBuilder_def)
qed

text \<open>The line that \<open>EmitStackTrace\<close> on a fresh builder writes: the status, and the frames in short form.\<close>

lemma stack_trace_logged:
  assumes "\<not> status_ok st"
  shows "builder_to_Status vlog (CurrentStackTrace symbolize show_ptr get_stack_trace True)
       (EmitStackTrace (builder_of_status st loc)) ls =
     (st, ls\<lparr>ls_lines := ls_lines ls @ [\<lparr>ll_loc = loc, ll_severity = Some INFO,
        ll_text = status_ToString st @ '' Stacktrace:'' @
          concat (map (frame_text symbolize show_ptr True) (get_stack_trace 32 2))\<rparr>]\<rparr>)"
  using assms
  by (simp add: builder_to_Status_def CreateStatusAndConditionallyLog_def ConditionallyLog_def
      JoinMessageToStatus_def write_log_def builder_defs Let_def current_stack_trace)

section \<open>The settings a log line reads\<close>

text \<open>Whatever the mode, the fields that logging in that mode reads have been written.\<close>

definition rep_initialised :: "builder_rep \<Rightarrow> bool" where
  "rep_initialised r = (case r_logging_mode r of
      kDisabled \<Rightarrow> True
    | kLog \<Rightarrow> r_log_severity r \<noteq> None
    | kVLog \<Rightarrow> r_verbose_level r \<noteq> None
    | kLogEveryN \<Rightarrow> r_log_severity r \<noteq> None \<and> (case r_n r of None \<Rightarrow> False | Some n \<Rightarrow> 1 \<le> sint n))"

definition builder_inv :: "status_builder \<Rightarrow> bool" where
  "builder_inv b = (case b_rep b of None \<Rightarrow> True | Some r \<Rightarrow> rep_initialised r)"

lemma builder_inv_step: "builder_inv b \<Longrightarrow> builder_inv (builder_step b op)"
  by (cases op) (auto simp: builder_inv_def rep_initialised_def builder_defs Let_def
      split: option.splits logging_mode.splits)

lemma builder_inv_run: "builder_inv b \<Longrightarrow> builder_inv (builder_run ops b)"
  by (induction ops arbitrary: b) (simp_all add: builder_inv_step)

lemma builder_inv_start: "builder_inv (builder_of_status st loc)"
  by (simp add: builder_inv_def builder_of_status_def)

section \<open>LogEveryN\<close>

text \<open>The same statement executed \<open>k\<close> times: each time a builder is made and converted.\<close>

fun log_every_n_runs ::
    "nat \<Rightarrow> status \<Rightarrow> source_location \<Rightarrow> log_severity \<Rightarrow> int32 \<Rightarrow> log_state \<Rightarrow> log_state" where
  "log_every_n_runs 0 st loc level n ls = ls"
| "log_every_n_runs (Suc k) st loc level n ls =
     snd (builder_to_Status (\<lambda>_. False) [] (LogEveryN level n (builder_of_status st loc))
       (log_every_n_runs k st loc level n ls))"

lemma log_every_n_once:
  assumes "\<not> status_ok st" and "1 \<le> sint n"
  shows "snd (builder_to_Status vl tr (LogEveryN level n (builder_of_status st loc)) ls) =
     (let key = (loc_file_ptr loc, loc_line loc);
          ls' = ls\<lparr>ls_counts := (ls_counts ls)(key := ls_counts ls key + 1)\<rparr>
      in if ls_counts ls key mod n \<noteq> 0 then ls'
         else ls'\<lparr>ls_lines := ls_lines ls' @
                [\<lparr>ll_loc = loc, ll_severity = Some level, ll_text = status_ToString st\<rparr>]\<rparr>)"
  using assms
  by (simp add: builder_to_Status_def CreateStatusAndConditionallyLog_def ConditionallyLog_def
      JoinMessageToStatus_def write_log_def builder_defs Let_def)

lemma ceil_div_Suc:
  fixes k n :: nat
  assumes "0 < n"
  shows "(Suc k + n - 1) div n = (k + n - 1) div n + (if k mod n = 0 then 1 else 0)"
proof -
  have k: "k = k mod n + (k div n) * n" by simp
  have lt: "k mod n < n" using assms by simp
  have a: "(Suc k + n - 1) div n = k div n + 1" using assms div_add_self2 [of n k] by simp
  show ?thesis
  proof (cases "k mod n = 0")
    case True
    then have "k + n - 1 = (n - 1) + (k div n) * n" using k assms by linarith
    then have "(k + n - 1) div n = k div n + (n - 1) div n" using assms by (simp only: div_mult_self1)
    then show ?thesis using a True assms by simp
  next
    case False
    then have "0 < k" by (cases k) auto
    with False have "k + n - 1 = (k mod n - 1) + (k div n) * n + n" using k assms by linarith
    then have "k + n - 1 = (k mod n - 1) + (k div n + 1) * n" by (simp only: distrib_right)
    then have "(k + n - 1) div n = (k div n + 1) + (k mod n - 1) div n"
      using assms by (simp only: div_mult_self1)
    then show ?thesis using a False lt by simp
  qed
qed

lemma log_every_n_count:
  assumes "\<not> status_ok st" and "1 \<le> sint n"
    and "ls_counts ls (loc_file_ptr loc, loc_line loc) = 0" and "k \<le> 2 ^ 32"
  shows "ls_counts (log_every_n_runs k st loc level n ls) (loc_file_ptr loc, loc_line loc)
           = word_of_nat k \<and>
         ls_lines (log_every_n_runs k st loc level n ls) = ls_lines ls @
           replicate ((k + nat (sint n) - 1) div nat (sint n))
             \<lparr>ll_loc = loc, ll_severity = Some level, ll_text = status_ToString st\<rparr>"
  using assms(4)
proof (induction k)
  case 0
  then show ?case using assms(2,3) by simp
next
  case (Suc k)
  define m where "m = nat (sint n)"
  have m: "0 < m" "unat n = m"
    using assms(2) by (simp_all add: m_def unat_nonneg_int32)
  have k: "unat (word_of_nat k :: uint32) = k" using Suc.prems by (simp add: unat_of_nat take_bit_nat_eq_self)
  have "(word_of_nat k mod n :: uint32) \<noteq> 0 \<longleftrightarrow> k mod m \<noteq> 0"
    by (metis k m(2) unat_eq_zero unat_mod)
  with Suc ceil_div_Suc [OF m(1), of k] show ?case
    by (simp add: log_every_n_once [OF assms(1,2)] Let_def m_def [symmetric] replicate_append_same
        flip: replicate_Suc)
qed

lemma builder_step_loc [simp]: "b_loc (builder_step b op) = b_loc b"
  by (cases op) (auto simp: builder_defs Let_def split: option.splits)

lemma builder_run_loc [simp]: "b_loc (builder_run ops b) = b_loc b"
  by (induction ops arbitrary: b) simp_all

lemma not_ok_code: "\<not> status_ok st \<Longrightarrow> status_code_of st \<noteq> kOk"
  by (auto simp: status_ok_def status_code_of_def split: option.splits)

section \<open>Properties\<close>

text \<open>
  C31. The status a chain of builder calls makes of an error, where no call sets the code to ok: its code is the last one
  set, its message is the original message joined with everything streamed in, by the join style chosen last, the
  default being an annotation with the location. After \<open>SetPrepend\<close> the text comes before the original message, after
  \<open>SetAppend\<close> it comes after it, as the name and the tests of \<open>SetAppend\<close> have it, while its comment in the header file
  says that the message is prepended. Logging calls change neither code nor message.
\<close>

theorem builder_error_status:
  assumes "\<not> status_ok st" and "OpSetCode kOk \<notin> set ops"
  shows "let result = fst (builder_to_Status vlog trace (builder_run ops (builder_of_status st loc)) ls);
             m = error_message st; t = concat (map op_text ops)
         in status_code_of result = foldl code_after (status_code_of st) ops \<and>
            error_message result =
              (if t = [] then m
               else case foldl style_after kAnnotate ops of
                 kPrepend \<Rightarrow> t @ m
               | kAppend \<Rightarrow> m @ t
               | kAnnotate \<Rightarrow> (if m = [] then [] else m @ ''; '') @
                   ''['' @ loc_file loc @ '':'' @ show_nat (loc_line loc) @ ''] '' @ t)"
proof -
  have "shows_error (builder_of_status st loc) (status_code_of st) (error_message st) kAnnotate []"
    using assms(1) not_ok_fields [OF assms(1)] by (simp add: shows_error_def builder_defs not_ok_code)
  note run = shows_error_run [OF this assms(2)]
  from run have "foldl code_after (status_code_of st) ops \<noteq> kOk" by (simp add: shows_error_def)
  with to_Status_shows_error [OF conjunct1 [OF run]] run show ?thesis
    by (cases "foldl style_after kAnnotate ops")
       (auto simp: JoinMessageToStatus_def Let_def builder_of_status_def)
qed

theorem builder_error_status_witness:
  "fst (builder_to_Status (\<lambda>_. False) [] (builder_run [OpStream ''a'', OpSetCode kAborted,
      OpLog ERROR, OpPrepend, OpStream ''b''] (builder_of_status (NotFoundError ''x'')
      \<lparr>loc_line = 3, loc_file = ''f'', loc_file_ptr = 0\<rparr>)) \<lparr>ls_counts = (\<lambda>_. 0), ls_lines = []\<rparr>)
   = mk_Status kAborted ''abx''"
proof -
  let ?r = "fst (builder_to_Status (\<lambda>_. False) [] (builder_run [OpStream ''a'', OpSetCode kAborted,
      OpLog ERROR, OpPrepend, OpStream ''b''] (builder_of_status (NotFoundError ''x'')
      \<lparr>loc_line = 3, loc_file = ''f'', loc_file_ptr = 0\<rparr>)) \<lparr>ls_counts = (\<lambda>_. 0), ls_lines = []\<rparr>)"
  have "status_code_of ?r = kAborted \<and> error_message ?r = ''abx''"
    using builder_error_status [of "NotFoundError ''x''"
      "[OpStream ''a'', OpSetCode kAborted, OpLog ERROR, OpPrepend, OpStream ''b'']"]
    by (simp add: Let_def NotFoundError_def)
  then show ?thesis
    using not_ok_fields [of ?r] by (auto simp: status_code_of_def split: option.splits if_splits)
qed

text \<open>On an ok status the builder is transparent: whatever calls other than \<open>SetCode\<close> are
  chained, the status comes out as it went in, nothing is logged, and \<open>AIS_RETURN_IF_ERROR\<close>
  falls through.
\<close>

theorem builder_ok_transparent:
  assumes "status_ok st" and "list_all (\<lambda>op. \<not> is_set_code op) ops"
  shows "builder_to_Status vlog trace (builder_run ops (builder_of_status st loc)) ls = (st, ls) \<and>
         AIS_RETURN_IF_ERROR (builder_run ops (builder_of_status st loc)) chain = Inr ()"
proof -
  have "builder_run ops (builder_of_status st loc) = builder_of_status st loc"
    using assms by (intro builder_run_ok) (simp_all add: builder_of_status_def)
  with assms(1) show ?thesis
    by (simp add: builder_to_Status_def AIS_RETURN_IF_ERROR_def builder_ok_def builder_of_status_def)
qed

theorem builder_ok_transparent_witness:
  "builder_to_Status (\<lambda>_. True) ''t'' (builder_run [OpStream ''a'', OpLog ERROR, OpEmitStackTrace]
      (builder_of_status OkStatus \<lparr>loc_line = 3, loc_file = ''f'', loc_file_ptr = 0\<rparr>))
      \<lparr>ls_counts = (\<lambda>_. 0), ls_lines = []\<rparr>
   = (OkStatus, \<lparr>ls_counts = (\<lambda>_. 0), ls_lines = []\<rparr>)"
  using builder_ok_transparent [of OkStatus "[OpStream ''a'', OpLog ERROR, OpEmitStackTrace]"]
  by simp

text \<open>
  A conversion writes at most one log line, at the builder's location and with a severity
  that has been set; it never takes a remainder by an unset or non-positive \<open>n\<close>; and the
  builder that was converted holds an error, or the ok status if it had no settings.
\<close>

theorem builder_logs_initialised:
  "let b = builder_run ops (builder_of_status st loc);
       (result, ls', b') = builder_to_Status_rvalue vlog trace b ls
   in builder_inv b \<and> b_loc b = loc \<and>
      (ls_lines ls' = ls_lines ls \<or>
       (\<exists>sev t. ls_lines ls' = ls_lines ls @ [\<lparr>ll_loc = loc, ll_severity = Some sev, ll_text = t\<rparr>])) \<and>
      b_status b' = (if b_rep b = None then OkStatus else UnknownError [])"
proof -
  let ?b = "builder_run ops (builder_of_status st loc)"
  have inv: "builder_inv ?b" by (rule builder_inv_run) (rule builder_inv_start)
  have loc: "b_loc ?b = loc" by (simp add: builder_run_loc builder_of_status_def)
  show ?thesis
  proof (cases "b_rep ?b")
    case None
    then show ?thesis using inv loc by (simp add: builder_to_Status_rvalue_def Let_def)
  next
    case (Some r)
    then have "rep_initialised r" using inv by (simp add: builder_inv_def)
    with Some inv loc show ?thesis
      by (cases "r_logging_mode r")
         (auto simp: builder_to_Status_rvalue_def CreateStatusAndConditionallyLog_def Let_def
            ConditionallyLog_def write_log_def rep_initialised_def)
  qed
qed

text \<open>
  \<open>LogEveryN\<close> with a positive \<open>n\<close>: executed \<open>k\<close> times at a location not used before
  (\<open>k\<close> within the range of the counter), it writes one line for every \<open>n\<close> executions begun,
  the first included.
\<close>

theorem log_every_n_lines:
  assumes "\<not> status_ok st" and "1 \<le> sint n"
    and "ls_counts ls (loc_file_ptr loc, loc_line loc) = 0" and "k \<le> 2 ^ 32"
  shows "ls_lines (log_every_n_runs k st loc level n ls) = ls_lines ls @
           replicate ((k + nat (sint n) - 1) div nat (sint n))
             \<lparr>ll_loc = loc, ll_severity = Some level, ll_text = status_ToString st\<rparr>"
  using log_every_n_count [OF assms] by simp

theorem log_every_n_lines_witness:
  "length (ls_lines (log_every_n_runs 7 (NotFoundError ''x'')
     \<lparr>loc_line = 3, loc_file = ''f'', loc_file_ptr = 0\<rparr> ERROR 3
     \<lparr>ls_counts = (\<lambda>_. 0), ls_lines = []\<rparr>)) = 3"
  using log_every_n_lines [of "NotFoundError ''x''" 3 "\<lparr>ls_counts = (\<lambda>_. 0), ls_lines = []\<rparr>"
      "\<lparr>loc_line = 3, loc_file = ''f'', loc_file_ptr = 0\<rparr>" 7 ERROR]
  by simp

text \<open>
  \<open>AIS_ASSIGN_OR_RETURN\<close> on a StatusOr that satisfies its invariant: with a value it
  continues with that value and never crashes; with an error it returns a builder whose
  conversion, if nothing is chained, is that very error.
\<close>

theorem assign_or_return_correct:
  assumes "so_inv s"
  shows "case so_abs s of
      Inr v \<Rightarrow> AIS_ASSIGN_OR_RETURN s loc f = Inr (Returns v)
    | Inl st \<Rightarrow> \<not> status_ok st \<and> AIS_ASSIGN_OR_RETURN s loc f = Inl (f (builder_of_status st loc)) \<and>
        builder_to_Status vlog trace (builder_of_status st loc) ls = (st, ls)"
  using assms
  by (auto simp: AIS_ASSIGN_OR_RETURN_def so_view_defs so_ok_def so_status_of_rvalue_def
      builder_to_Status_def builder_of_status_def split: option.splits)

theorem assign_or_return_correct_witness:
  "AIS_ASSIGN_OR_RETURN (so_of_value (5::int)) \<lparr>loc_line = 3, loc_file = ''f'', loc_file_ptr = 0\<rparr>
     (\<lambda>b. b) = Inr (Returns 5)"
  using assign_or_return_correct [OF so_inv_of_value(1) [of "5::int"]]
  by (simp add: so_inv_of_value)

section \<open>Divergences from the documentation\<close>

text \<open>
  The header of the class says that \<open>EmitStackTrace\<close> logs at the INFO level if no logging is
  configured; after a text has been streamed in, it does not.
\<close>

lemma emit_stack_trace_after_stream_silent:
  "\<not> status_ok st \<Longrightarrow>
   ls_lines (snd (builder_to_Status vlog trace
      (EmitStackTrace (Stream t (builder_of_status st loc))) ls)) = ls_lines ls"
  by (simp add: builder_defs builder_to_Status_def CreateStatusAndConditionallyLog_def Let_def
      ConditionallyLog_def)

text \<open>The header says every method is a no-op on an ok status; \<open>SetCode\<close> is not.\<close>

lemma set_code_makes_error:
  "\<not> status_ok (fst (builder_to_Status vlog trace (SetCode kInternal (builder_of_status OkStatus loc)) ls))"
  by (simp add: builder_defs builder_to_Status_def)

end
