(* ===== verification/File_Path.thy ===== *)
theory File_Path
  imports Status_Builder
begin

text \<open>
  \<open>util/file_path.h\<close>, \<open>file_path.cc\<close>, \<open>file_helpers.cc\<close> and \<open>random_string.cc\<close>.

  \<open>JoinPathImpl\<close> writes into a buffer of a size computed beforehand; the model keeps the buffer
  and the write position, and a write or a read outside the buffer is \<open>None\<close>. The abstract
  specification folds the two-argument \<open>JoinPath\<close> over the segments.

  Files are a map from names to contents; an open \<open>FILE\<close> has the bytes not yet read, whether
  reading beyond them meets an I/O error, and the flags behind \<open>feof\<close> and \<open>ferror\<close>.
\<close>

section \<open>Joining paths\<close>

definition JoinPath2 :: "string \<Rightarrow> string \<Rightarrow> string" where
  "JoinPath2 path1 path2 =
     (if path1 = [] then path2
      else if path2 = [] then path1
      else if last path1 = CHR ''/''
           then (if hd path2 = CHR ''/'' then path1 @ drop 1 path2 else path1 @ path2)
           else (if hd path2 \<noteq> CHR ''/'' then path1 @ ''/'' @ path2 else path1 @ path2))"

record join_state =
  j_buf :: string
  j_out :: nat
  j_trailing_slash :: bool

definition buf_write :: "nat \<Rightarrow> string \<Rightarrow> string \<Rightarrow> string option" where
  "buf_write pos s buf =
     (if pos + length s \<le> length buf
      then Some (take pos buf @ s @ drop (pos + length s) buf) else None)"

definition buf_read :: "nat \<Rightarrow> string \<Rightarrow> char option" where
  "buf_read pos buf = (if pos < length buf then Some (buf ! pos) else None)"

text \<open>One round of the loop: the new position, what is left of the path and whether \<open>'/'\<close> is put.\<close>

definition join_round :: "bool \<Rightarrow> string \<Rightarrow> join_state \<Rightarrow> join_state option" where
  "join_round honor_abs path j =
     (if path = [] then Some j
      else
        let absolute = (hd path = CHR ''/'');
            j1 = (if absolute \<and> honor_abs then j\<lparr>j_out := 0\<rparr> else j);
            path1 = (if absolute \<and> \<not> honor_abs \<and> j_trailing_slash j then drop 1 path else path);
            put = (\<not> absolute \<and> \<not> j_trailing_slash j1 \<and> j_out j1 \<noteq> 0)
        in Option.bind
             (if put then map_option (\<lambda>b. j1\<lparr>j_buf := b, j_out := j_out j1 + 1\<rparr>)
                            (buf_write (j_out j1) ''/'' (j_buf j1))
              else Some j1)
             (\<lambda>j2. Option.bind (buf_write (j_out j2) path1 (j_buf j2))
             (\<lambda>b. let out = j_out j2 + length path1 in
                  if out = 0 then None
                  else map_option (\<lambda>c. \<lparr>j_buf = b, j_out = out, j_trailing_slash = (c = CHR ''/'')\<rparr>)
                         (buf_read (out - 1) b))))"

fun join_loop :: "bool \<Rightarrow> string list \<Rightarrow> join_state \<Rightarrow> join_state option" where
  "join_loop honor_abs [] j = Some j"
| "join_loop honor_abs (p # ps) j = Option.bind (join_round honor_abs p j) (join_loop honor_abs ps)"

definition JoinPathImpl :: "bool \<Rightarrow> string list \<Rightarrow> string option" where
  "JoinPathImpl honor_abs paths =
     (if paths = [] then Some []
      else
        let total_size = length paths - 1 + sum_list (map length paths)
        in map_option (\<lambda>j. take (j_out j) (j_buf j))
             (join_loop honor_abs paths
               \<lparr>j_buf = replicate total_size (CHR 0x00), j_out = 0, j_trailing_slash = False\<rparr>))"

section \<open>Taking paths apart\<close>

fun find_last_of :: "char \<Rightarrow> string \<Rightarrow> nat option" where
  "find_last_of c [] = None"
| "find_last_of c (x # xs) = (case find_last_of c xs of
      Some i \<Rightarrow> Some (Suc i)
    | None \<Rightarrow> if x = c then Some 0 else None)"

definition SplitPath :: "string \<Rightarrow> string \<times> string" where
  "SplitPath path = (case find_last_of (CHR ''/'') path of
      None \<Rightarrow> (take 0 path, path)
    | Some pos \<Rightarrow> if pos = 0 then (take 1 path, drop 1 path)
                  else (take pos path, drop (pos + 1) path))"

definition Dirname :: "string \<Rightarrow> string" where
  "Dirname path = fst (SplitPath path)"

definition Basename :: "string \<Rightarrow> string" where
  "Basename path = snd (SplitPath path)"

definition SplitBasename :: "string \<Rightarrow> string \<times> string" where
  "SplitBasename path0 = (let path = Basename path0 in
     case find_last_of (CHR ''.'') path of
       None \<Rightarrow> (path, [])
     | Some pos \<Rightarrow> (take pos path, drop (pos + 1) path))"

definition Extension :: "string \<Rightarrow> string" where
  "Extension path = snd (SplitBasename path)"

section \<open>The join is the fold of the two-argument join\<close>

definition join_spec_step :: "bool \<Rightarrow> string \<Rightarrow> string \<Rightarrow> string" where
  "join_spec_step honor_abs acc p =
     (if honor_abs \<and> p \<noteq> [] \<and> hd p = CHR ''/'' then p else JoinPath2 acc p)"

text \<open>
  The loop state stands for the text \<open>acc\<close> built so far. The buffer has room for the paths to
  come, a separator for each of them (none before the first) included.
\<close>

definition join_rel :: "join_state \<Rightarrow> string \<Rightarrow> nat \<Rightarrow> bool" where
  "join_rel j acc room \<longleftrightarrow>
     take (j_out j) (j_buf j) = acc \<and> j_out j = length acc \<and>
     j_trailing_slash j = (acc \<noteq> [] \<and> last acc = CHR ''/'') \<and>
     length acc + room \<le> length (j_buf j)"

definition join_need :: "string \<Rightarrow> string \<Rightarrow> nat" where
  "join_need acc p = length p + (if acc = [] then 0 else 1)"

lemma buf_write_room:
  assumes "take pos buf = acc" "pos = length acc" "pos + length s \<le> length buf"
  obtains b where "buf_write pos s buf = Some b" "take (pos + length s) b = acc @ s"
    "length b = length buf"
  using assms by (simp add: buf_write_def)

lemma buf_read_last:
  assumes "take pos b = acc" "pos = length acc" "acc \<noteq> []" "pos \<le> length b"
  shows "buf_read (pos - 1) b = Some (last acc)"
proof -
  have lt: "pos - 1 < pos" using assms(2,3) by (cases acc) auto
  have "last acc = acc ! (pos - 1)" using assms(2,3) by (simp add: last_conv_nth)
  also have "\<dots> = b ! (pos - 1)" using nth_take [OF lt, of b] assms(1) by simp
  finally show ?thesis using assms(4) lt by (simp add: buf_read_def)
qed

text \<open>Writing a path at the current position and looking at its last character.\<close>

lemma join_write:
  assumes "take pos buf = acc" "pos = length acc" "pos + length s \<le> length buf" "acc @ s \<noteq> []"
  shows "\<exists>b. buf_write pos s buf = Some b \<and> take (pos + length s) b = acc @ s \<and>
             length b = length buf \<and> buf_read (pos + length s - 1) b = Some (last (acc @ s))"
proof -
  obtain b where b: "buf_write pos s buf = Some b" "take (pos + length s) b = acc @ s"
    "length b = length buf"
    using assms(1-3) by (rule buf_write_room)
  with buf_read_last [OF b(2)] assms show ?thesis by simp
qed

lemma join_round_sep:
  assumes rel: "join_rel j acc room" and need: "join_need acc p \<le> room" and p: "p \<noteq> []"
    and sep: "hd p \<noteq> CHR ''/''" "acc \<noteq> []" "last acc \<noteq> CHR ''/''"
  shows "\<exists>j'. join_round h p j = Some j' \<and> join_rel j' (acc @ ''/'' @ p) (room - join_need acc p)"
proof -
  have r: "take (j_out j) (j_buf j) = acc" "j_out j = length acc" "\<not> j_trailing_slash j"
    "length acc + room \<le> length (j_buf j)" "1 + length p \<le> room"
    using rel need sep by (auto simp: join_rel_def join_need_def)
  obtain b where b: "buf_write (j_out j) ''/'' (j_buf j) = Some b"
    "take (j_out j + length ''/'') b = acc @ ''/''" "length b = length (j_buf j)"
    using r by (auto intro: buf_write_room [OF r(1,2), of "''/''"])
  have "take (j_out j + 1) b = acc @ ''/''" using b(2) by simp
  then obtain b' where b': "buf_write (j_out j + 1) p b = Some b'"
    "take (j_out j + 1 + length p) b' = (acc @ ''/'') @ p" "length b' = length b"
    "buf_read (j_out j + 1 + length p - 1) b' = Some (last ((acc @ ''/'') @ p))"
    using join_write [of "j_out j + 1" b "acc @ ''/''" p] r b(3) p by auto
  have "join_round h p j = Some \<lparr>j_buf = b', j_out = j_out j + 1 + length p,
      j_trailing_slash = (last p = CHR ''/'')\<rparr>"
    using b(1) b'(1,4) p sep r by (simp add: join_round_def Let_def)
  then show ?thesis using b' b(3) r p sep by (simp add: join_rel_def join_need_def)
qed

lemma join_round_plain:
  assumes rel: "join_rel j acc room" and need: "join_need acc p \<le> room" and p: "p \<noteq> []"
    and plain: "\<not> (hd p \<noteq> CHR ''/'' \<and> acc \<noteq> [] \<and> last acc \<noteq> CHR ''/'')"
  shows "\<exists>j'. join_round h p j = Some j' \<and> join_rel j' (join_spec_step h acc p) (room - join_need acc p)"
proof -
  define acc' where "acc' = (if h \<and> hd p = CHR ''/'' then [] else acc)"
  define p' where "p' = (if hd p = CHR ''/'' \<and> \<not> h \<and> j_trailing_slash j then drop 1 p else p)"
  define pos where "pos = (if h \<and> hd p = CHR ''/'' then 0 else j_out j)"
  have r: "take (j_out j) (j_buf j) = acc" "j_out j = length acc"
    "j_trailing_slash j = (acc \<noteq> [] \<and> last acc = CHR ''/'')" "length acc + room \<le> length (j_buf j)"
    "length p + (if acc = [] then 0 else 1) \<le> room"
    using rel need by (auto simp: join_rel_def join_need_def)
  have pos: "take pos (j_buf j) = acc'" "pos = length acc'" using r by (simp_all add: pos_def acc'_def)
  have fit: "pos + length p' \<le> length (j_buf j)"
    using r by (auto simp: pos_def p'_def split: if_splits)
  have ne: "acc' @ p' \<noteq> []" using r p by (auto simp: acc'_def p'_def)
  obtain b where b: "buf_write pos p' (j_buf j) = Some b" "take (pos + length p') b = acc' @ p'"
    "length b = length (j_buf j)" "buf_read (pos + length p' - 1) b = Some (last (acc' @ p'))"
    using join_write [OF pos fit ne] by blast
  have out: "pos + length p' \<noteq> 0" using ne pos by auto
  have "join_round h p j = Some \<lparr>j_buf = b, j_out = pos + length p',
      j_trailing_slash = (last (acc' @ p') = CHR ''/'')\<rparr>"
    using b(1,4) out p plain r
    by (auto simp: join_round_def Let_def pos_def p'_def acc'_def)
  moreover have "acc' @ p' = join_spec_step h acc p"
    using p plain r by (auto simp: acc'_def p'_def join_spec_step_def JoinPath2_def)
  moreover have "length (acc' @ p') + (room - join_need acc p) \<le> length b"
    using r b(3) by (auto simp: acc'_def p'_def join_need_def)
  moreover have "pos + length p' = length (acc' @ p')" using pos by simp
  ultimately show ?thesis using b(2) ne by (auto simp: join_rel_def simp del: length_append)
qed

lemma join_round_step:
  assumes rel: "join_rel j acc room" and need: "join_need acc p \<le> room"
  shows "\<exists>j'. join_round h p j = Some j' \<and> join_rel j' (join_spec_step h acc p) (room - join_need acc p)"
proof (cases "p = []")
  case True
  then show ?thesis using rel
    by (auto simp: join_round_def join_spec_step_def JoinPath2_def join_rel_def)
next
  case p: False
  show ?thesis
  proof (cases "hd p \<noteq> CHR ''/'' \<and> acc \<noteq> [] \<and> last acc \<noteq> CHR ''/''")
    case True
    with join_round_sep [OF rel need p] p show ?thesis by (simp add: join_spec_step_def JoinPath2_def)
  next
    case False
    then show ?thesis by (rule join_round_plain [OF rel need p])
  qed
qed

text \<open>The room for all the paths to come.\<close>

fun join_room :: "string \<Rightarrow> string list \<Rightarrow> nat" where
  "join_room acc ps = sum_list (map length ps) + (if acc = [] then length ps - 1 else length ps)"

lemma join_loop_spec:
  "join_rel j acc (join_room acc ps) \<Longrightarrow>
   \<exists>j'. join_loop h ps j = Some j' \<and> take (j_out j') (j_buf j') = foldl (join_spec_step h) acc ps"
proof (induction ps arbitrary: j acc)
  case Nil
  then show ?case by (auto simp: join_rel_def)
next
  case (Cons p ps)
  let ?acc = "join_spec_step h acc p"
  have need: "join_need acc p \<le> join_room acc (p # ps)" by (auto simp: join_need_def)
  obtain j' where j': "join_round h p j = Some j'"
    "join_rel j' ?acc (join_room acc (p # ps) - join_need acc p)"
    using join_round_step [OF Cons.prems need] by blast
  have "join_room ?acc ps \<le> join_room acc (p # ps) - join_need acc p"
    by (auto simp: join_need_def join_spec_step_def JoinPath2_def)
  with j'(2) have "join_rel j' ?acc (join_room ?acc ps)" by (auto simp: join_rel_def)
  from Cons.IH [OF this] j'(1) show ?case by simp
qed

text \<open>
  C40. \<open>JoinPathImpl\<close> never writes past the size it computed nor reads before the buffer, and
  its result is the two-argument \<open>JoinPath\<close> folded over the segments (restarted at each
  absolute segment when these are honoured). In particular the specialisation for two paths
  agrees with the general code.
\<close>

theorem join_path_impl_correct:
  "JoinPathImpl honor_abs paths = Some (foldl (join_spec_step honor_abs) [] paths) \<and>
   JoinPathImpl False [p, q] = Some (JoinPath2 p q)"
proof -
  have main: "JoinPathImpl h ps = Some (foldl (join_spec_step h) [] ps)" for h ps
  proof (cases "ps = []")
    case True
    then show ?thesis by (simp add: JoinPathImpl_def)
  next
    case False
    let ?j = "\<lparr>j_buf = replicate (length ps - 1 + sum_list (map length ps)) (CHR 0x00), j_out = 0,
        j_trailing_slash = False\<rparr>"
    have "join_rel ?j [] (join_room [] ps)" by (simp add: join_rel_def)
    from join_loop_spec [OF this, of h] False show ?thesis
      by (auto simp: JoinPathImpl_def Let_def)
  qed
  then show ?thesis by (simp add: main join_spec_step_def JoinPath2_def)
qed

section \<open>Directory, base name and extension\<close>

lemma find_last_of_None: "find_last_of c xs = None \<longleftrightarrow> c \<notin> set xs"
  by (induction xs) (auto split: option.splits)

lemma find_last_of_append [simp]:
  "c \<notin> set ys \<Longrightarrow> find_last_of c (xs @ c # ys) = Some (length xs)"
  by (induction xs) (auto simp: find_last_of_None split: option.splits)

lemma SplitPath_append:
  "CHR ''/'' \<notin> set b \<Longrightarrow> SplitPath (d @ CHR ''/'' # b) = (if d = [] then ''/'' else d, b)"
  by (simp add: SplitPath_def)

lemma SplitPath_no_slash: "CHR ''/'' \<notin> set p \<Longrightarrow> SplitPath p = ([], p)"
  by (simp add: SplitPath_def find_last_of_None [THEN iffD2])

lemma Extension_append:
  assumes "Basename p = b @ CHR ''.'' # e" and "CHR ''.'' \<notin> set e"
  shows "Extension p = e"
  using assms by (simp add: Extension_def SplitBasename_def)

text \<open>
  \<open>Dirname\<close> and \<open>Basename\<close> undo \<open>JoinPath\<close> of a directory not ending in a slash and
  a plain file name, and \<open>Extension\<close> is what follows the last dot of the name.
\<close>

theorem split_path_of_join:
  assumes "d \<noteq> []" "last d \<noteq> CHR ''/''" "b \<noteq> []" "CHR ''/'' \<notin> set b"
  shows "Dirname (JoinPath2 d b) = d \<and> Basename (JoinPath2 d b) = b \<and>
         (\<forall>n e. b = n @ ''.'' @ e \<and> CHR ''.'' \<notin> set e \<longrightarrow> Extension (JoinPath2 d b) = e)"
proof -
  have "hd b \<noteq> CHR ''/''" using assms(3,4) by (cases b) auto
  with assms have join: "JoinPath2 d b = d @ CHR ''/'' # b" by (simp add: JoinPath2_def)
  with assms have "SplitPath (JoinPath2 d b) = (d, b)" by (simp add: SplitPath_append)
  then have "Dirname (JoinPath2 d b) = d" "Basename (JoinPath2 d b) = b"
    by (simp_all add: Dirname_def Basename_def)
  then show ?thesis using Extension_append by auto
qed

theorem split_path_of_join_witness:
  "Extension (JoinPath2 ''/tmp/x'' ''clip.mp4'') = ''mp4'' \<and> Dirname (JoinPath2 ''/tmp/x'' ''clip.mp4'') = ''/tmp/x''"
proof -
  have eq: "''clip.mp4'' = ''clip'' @ ''.'' @ ''mp4'' \<and> CHR ''.'' \<notin> set ''mp4''" by simp
  have "Dirname (JoinPath2 ''/tmp/x'' ''clip.mp4'') = ''/tmp/x'' \<and>
        (\<forall>n e. ''clip.mp4'' = n @ ''.'' @ e \<and> CHR ''.'' \<notin> set e \<longrightarrow>
               Extension (JoinPath2 ''/tmp/x'' ''clip.mp4'') = e)"
    using split_path_of_join [of "''/tmp/x''" "''clip.mp4''"] by simp
  with eq show ?thesis by blast
qed

section \<open>File contents\<close>

record open_file =
  f_rest :: string
  f_bad :: bool
  f_eof :: bool
  f_error :: bool

text \<open>
  \<open>fread(buf, 1, n, fp)\<close>: a full block, or what is left, which sets the end-of-file or the
  error flag.
\<close>

definition fread :: "nat \<Rightarrow> open_file \<Rightarrow> string \<times> open_file" where
  "fread n fp =
     (if n \<le> length (f_rest fp) then (take n (f_rest fp), fp\<lparr>f_rest := drop n (f_rest fp)\<rparr>)
      else (f_rest fp, fp\<lparr>f_rest := [], f_eof := (\<not> f_bad fp \<or> f_eof fp), f_error := (f_bad fp \<or> f_error fp)\<rparr>))"

text \<open>The files: the bytes that can be read and whether a read beyond them fails.\<close>

record file_system =
  fs_files :: "string \<Rightarrow> (string \<times> bool) option"
  fs_readable :: "string \<Rightarrow> bool"
  fs_writable :: "string \<Rightarrow> bool"
  fs_searchable :: "string \<Rightarrow> bool"

definition c_str :: "string \<Rightarrow> string" where
  "c_str s = takeWhile (\<lambda>c. c \<noteq> CHR 0x00) s"

definition fopen_read :: "file_system \<Rightarrow> string \<Rightarrow> open_file option" where
  "fopen_read fs name =
     (case fs_files fs name of
        None \<Rightarrow> None
      | Some (bytes, bad) \<Rightarrow>
          if fs_readable fs name \<and> fs_searchable fs name
          then Some \<lparr>f_rest = bytes, f_bad = bad, f_eof = False, f_error = False\<rparr> else None)"

function read_loop :: "string \<Rightarrow> open_file \<Rightarrow> string \<Rightarrow> status \<times> string" where
  "read_loop file_name fp out =
     (if f_eof fp then (OkStatus, out)
      else
        (case fread 4096 fp of
           (buf, fp') \<Rightarrow>
             if buf = [] \<and> f_error fp'
             then (InternalError (''Error while reading file: '' @ file_name), out)
             else read_loop file_name fp' (out @ buf)))"
  by pat_completeness auto
termination
  by (relation "measure (\<lambda>(_, fp, _). length (f_rest fp) + (if f_eof fp then 0 else 1))")
     (auto simp: fread_def split: if_splits)

declare read_loop.simps [simp del]

text \<open>The status, and the output text, which keeps its old value when the file is not opened.\<close>

definition GetContents :: "file_system \<Rightarrow> string \<Rightarrow> string \<Rightarrow> status \<times> string" where
  "GetContents fs file_name out =
     (case fopen_read fs (c_str file_name) of
        None \<Rightarrow> (InvalidArgumentError (''Can't find file: '' @ file_name), out)
      | Some fp \<Rightarrow> read_loop file_name fp [])"

text \<open>
  \<open>SetContents\<close>: \<open>written\<close> is what reached the file (all of it unless the disk fails),
  \<open>close_ok\<close> whether \<open>fclose\<close> returned 0 and \<open>stale\<close> what \<open>ferror\<close> reads from the stream that
  has just been closed. On failure \<open>fclose\<close> returns \<open>EOF\<close>, which the code converts to \<open>size_t\<close>.
\<close>

definition SetContents ::
    "(string \<Rightarrow> string) \<Rightarrow> bool \<Rightarrow> bool \<Rightarrow> file_system \<Rightarrow> string \<Rightarrow> string \<Rightarrow> status \<times> file_system" where
  "SetContents written close_ok stale fs file_name content =
     (let name = c_str file_name in
      if \<not> fs_writable fs name
      then (InvalidArgumentError (''Can't open file: '' @ file_name), fs)
      else
        let fs' = fs\<lparr>fs_files := (fs_files fs)(name \<mapsto> (written content, False))\<rparr>;
            ret = (if close_ok then 0 else - 1) :: size_t
        in if ret = 0 \<and> stale
           then (InternalError (''Error while writing file: '' @ file_name), fs')
           else (OkStatus, fs'))"

text \<open>\<open>Exists\<close>: \<open>stat\<close> fails with \<open>EACCES\<close> where a directory of the path cannot be searched.\<close>

definition Exists :: "file_system \<Rightarrow> string \<Rightarrow> status" where
  "Exists fs file_name =
     (if \<not> fs_searchable fs (c_str file_name)
      then PermissionDeniedError ''Insufficient permissions.''
      else if fs_files fs (c_str file_name) \<noteq> None then OkStatus
      else NotFoundError ''The path does not exist.'')"

lemma read_loop_good:
  "\<not> f_bad fp \<Longrightarrow> \<not> f_eof fp \<Longrightarrow> \<not> f_error fp \<Longrightarrow>
   read_loop name fp out = (OkStatus, out @ f_rest fp)"
proof (induction name fp out rule: read_loop.induct)
  case (1 name fp out)
  show ?case
  proof (cases "4096 \<le> length (f_rest fp)")
    case True
    let ?fp = "fp\<lparr>f_rest := drop 4096 (f_rest fp)\<rparr>"
    have f: "fread 4096 fp = (take 4096 (f_rest fp), ?fp)" using True by (simp add: fread_def)
    have "read_loop name ?fp (out @ take 4096 (f_rest fp)) =
        (OkStatus, (out @ take 4096 (f_rest fp)) @ f_rest ?fp)"
      using "1.IH" [OF _ f [symmetric]] "1.prems" by simp
    then show ?thesis using "1.prems" f by (subst read_loop.simps) simp
  next
    case False
    let ?fp = "fp\<lparr>f_rest := [], f_eof := True, f_error := False\<rparr>"
    have f: "fread 4096 fp = (f_rest fp, ?fp)" using False "1.prems" by (simp add: fread_def)
    have "read_loop name ?fp (out @ f_rest fp) = (OkStatus, out @ f_rest fp)"
      by (subst read_loop.simps) simp
    then show ?thesis using "1.prems" f by (subst read_loop.simps) simp
  qed
qed

lemma read_loop_bad:
  "f_bad fp \<Longrightarrow> \<not> f_eof fp \<Longrightarrow>
   fst (read_loop name fp out) = InternalError (''Error while reading file: '' @ name)"
proof (induction name fp out rule: read_loop.induct)
  case (1 name fp out)
  obtain buf fp' where f: "fread 4096 fp = (buf, fp')" by (cases "fread 4096 fp")
  with "1.prems" have fp': "f_bad fp'" "\<not> f_eof fp'" by (auto simp: fread_def split: if_splits)
  show ?case
  proof (cases "buf = [] \<and> f_error fp'")
    case True
    then show ?thesis using f "1.prems" by (subst read_loop.simps) simp
  next
    case False
    with "1.IH" [OF _ f [symmetric] False] fp' "1.prems" f show ?thesis
      by (subst read_loop.simps) simp
  qed
qed

text \<open>
  \<open>GetContents\<close> returns the whole file, byte for byte and whatever its length (multiples
  of the 4096-byte block included), reports a read error as internal and a file it cannot open
  as an invalid argument, leaving the output alone then. A file just written by \<open>SetContents\<close>,
  when no write fails, reads back as written.
\<close>

theorem get_contents_correct:
  "(case fopen_read fs (c_str name) of
      None \<Rightarrow> GetContents fs name out = (InvalidArgumentError (''Can't find file: '' @ name), out)
    | Some fp \<Rightarrow>
        if f_bad fp then fst (GetContents fs name out) = InternalError (''Error while reading file: '' @ name)
        else GetContents fs name out = (OkStatus, f_rest fp)) \<and>
   (let fs' = snd (SetContents id True False
                (fs\<lparr>fs_writable := \<lambda>_. True, fs_readable := \<lambda>_. True, fs_searchable := \<lambda>_. True\<rparr>) name content)
    in GetContents fs' name out = (OkStatus, content) \<and> Exists fs' name = OkStatus)"
  by (auto simp: GetContents_def fopen_read_def SetContents_def Exists_def Let_def read_loop_good
      read_loop_bad split: option.splits)

text \<open>A failing \<open>fclose\<close> (a full disk, say) goes unreported.\<close>

lemma set_contents_ignores_close_failure:
  "fs_writable fs (c_str name) \<Longrightarrow>
   fst (SetContents (\<lambda>_. []) False stale fs name content) = OkStatus"
  by (simp add: SetContents_def Let_def)

section \<open>Random strings\<close>

definition kRandomChars :: string where
  "kRandomChars = ''0123456789abcdefghijklmnopqrstuvwxyzABCDEFGHIJKLMNOPQRSTUVWXYZ''"

text \<open>
  \<open>uniform i lo hi\<close> is the \<open>i\<close>-th number drawn by \<open>absl::Uniform(bitgen, lo, hi)\<close>, of the
  half-open interval. \<open>sizeof(kRandomChars)\<close> counts the terminating NUL.
\<close>

definition RandomString :: "(nat \<Rightarrow> nat \<Rightarrow> nat \<Rightarrow> nat) \<Rightarrow> nat \<Rightarrow> string" where
  "RandomString uniform len =
     map (\<lambda>i. kRandomChars ! uniform i 0 (length kRandomChars + 1 - 2)) [0..<len]"

text \<open>
  A random string has the length asked for and only letters and digits, whatever the
  generator draws from its half-open interval; the last letter, \<open>Z\<close>, never occurs.
\<close>

theorem random_string_chars:
  assumes "\<And>i lo hi. lo < hi \<Longrightarrow> lo \<le> uniform i lo hi \<and> uniform i lo hi < hi"
  shows "length (RandomString uniform n) = n \<and>
         set (RandomString uniform n) \<subseteq> set kRandomChars - {CHR ''Z''}"
proof -
  have len: "length kRandomChars = 62" by (simp add: kRandomChars_def)
  have "kRandomChars ! k \<in> set kRandomChars - {CHR ''Z''}" if "k < 61" for k
  proof -
    have "kRandomChars ! k \<in> set (take 61 kRandomChars)" using that len by (auto simp: in_set_conv_nth)
    also have "set (take 61 kRandomChars) = set kRandomChars - {CHR ''Z''}"
      by (auto simp: kRandomChars_def)
    finally show ?thesis .
  qed
  moreover have "uniform i 0 61 < 61" for i using assms [of 0 61 i] by simp
  ultimately show ?thesis unfolding RandomString_def len by (simp add: image_subset_iff)
qed

theorem random_string_chars_witness:
  "set (RandomString (\<lambda>i lo hi. if lo < hi then hi - 1 else lo) 5) \<subseteq> set kRandomChars - {CHR ''Z''}"
  using random_string_chars [of "\<lambda>i lo hi. if lo < hi then hi - 1 else lo" 5] by auto

end
