(* ===== verification/PC_Queue.thy ===== *)
theory PC_Queue
  imports File_Path
begin

text \<open>
  \<open>util/producer_consumer_queue.h\<close> and \<open>util/completion_signal.cc\<close>.

  Every method of the queue runs under one mutex, which it gives up only while it waits on a
  condition variable. The first sections model the methods as the code runs them: a wait loop
  takes the list of its wake-ups, each with the queue found on waking and, for a timed wait, the
  time left. The last section is the concurrent system: the threads asleep on each
  condition variable and those woken that have not run yet are counted, and each step is one
  stretch of code under the mutex.

  Clients use the queue through the locale \<open>bounded_fifo\<close>.
\<close>

section \<open>The queue\<close>

record 'a pc_queue =
  q_capacity :: int32
  q_items :: "'a list"

text \<open>The condition variable that a method signals.\<close>

datatype condvar = cv_not_empty | cv_not_full

definition new_pc_queue :: "int32 \<Rightarrow> 'a pc_queue outcome" where
  "new_pc_queue capacity =
     (if sint capacity \<le> 0 then Fatal ''A positive capacity is required''
      else Returns \<lparr>q_capacity = capacity, q_items = []\<rparr>)"

definition queue_count :: "'a pc_queue \<Rightarrow> int32" where
  "queue_count q = word_of_nat (length (q_items q))"

definition queue_capacity :: "'a pc_queue \<Rightarrow> int32" where
  "queue_capacity q = q_capacity q"

definition IsLimitedCapacity :: "'a pc_queue \<Rightarrow> bool" where
  "IsLimitedCapacity q \<longleftrightarrow> sint (q_capacity q) \<noteq> int_max"

text \<open>\<open>q_.size() >= static_cast<size_t>(capacity_)\<close>\<close>

definition at_capacity :: "'a pc_queue \<Rightarrow> bool" where
  "at_capacity q \<longleftrightarrow> unat (word_of_int (sint (q_capacity q)) :: size_t) \<le> length (q_items q)"

definition InternalEmplace :: "'a \<Rightarrow> 'a pc_queue \<Rightarrow> 'a pc_queue \<times> condvar" where
  "InternalEmplace x q = (q\<lparr>q_items := q_items q @ [x]\<rparr>, cv_not_empty)"

text \<open>\<open>front\<close> of an empty deque is undefined behaviour.\<close>

definition InternalPop :: "'a pc_queue \<Rightarrow> ('a \<times> 'a pc_queue \<times> condvar) outcome" where
  "InternalPop q = (case q_items q of
      [] \<Rightarrow> Fatal ''front of an empty deque''
    | x # xs \<Rightarrow> Returns (x, q\<lparr>q_items := xs\<rparr>, cv_not_full))"

section \<open>Waiting\<close>

text \<open>
  \<open>while (cond) cv.Wait(&mu_)\<close>: the wake-ups are given as the queues found; \<open>None\<close> when the
  thread is still waiting after the last of them.
\<close>

fun wait_while :: "('a pc_queue \<Rightarrow> bool) \<Rightarrow> 'a pc_queue list \<Rightarrow> 'a pc_queue \<Rightarrow> 'a pc_queue option" where
  "wait_while cond wakes q =
     (if cond q then (case wakes of [] \<Rightarrow> None | q' # rest \<Rightarrow> wait_while cond rest q') else Some q)"

text \<open>
  \<open>while (cond && time_left > 0) \<open>{\<close> cv.WaitWithTimeout(&mu_, time_left); time_left = deadline -
  Now(); \<open>}\<close>\<close>
\<close>

fun timed_wait_while ::
    "('a pc_queue \<Rightarrow> bool) \<Rightarrow> ('a pc_queue \<times> int) list \<Rightarrow> int \<Rightarrow> 'a pc_queue \<Rightarrow> 'a pc_queue option" where
  "timed_wait_while cond wakes time_left q =
     (if cond q \<and> time_left > 0
      then (case wakes of [] \<Rightarrow> None
            | (q', left) # rest \<Rightarrow> timed_wait_while cond rest left q')
      else Some q)"

declare wait_while.simps [simp del] timed_wait_while.simps [simp del]

lemma wait_while_now: "\<not> cond q \<Longrightarrow> wait_while cond wakes q = Some q"
  by (simp add: wait_while.simps)

lemma wait_while_asleep: "cond q \<Longrightarrow> wait_while cond [] q = None"
  by (simp add: wait_while.simps)

lemma timed_wait_while_now: "\<not> (cond q \<and> left > 0) \<Longrightarrow> timed_wait_while cond wakes left q = Some q"
  by (subst timed_wait_while.simps) auto

lemma timed_wait_while_wake:
  "cond q \<Longrightarrow> left > 0 \<Longrightarrow>
   timed_wait_while cond ((q', l) # rest) left q = timed_wait_while cond rest l q'"
  by (subst timed_wait_while.simps) simp

section \<open>The methods\<close>

definition Emplace ::
    "'a pc_queue list \<Rightarrow> 'a \<Rightarrow> 'a pc_queue \<Rightarrow> ('a pc_queue \<times> condvar) option" where
  "Emplace wakes x q =
     map_option (InternalEmplace x)
       (if IsLimitedCapacity q then wait_while at_capacity wakes q else Some q)"

definition TryEmplace :: "'a \<Rightarrow> 'a pc_queue \<Rightarrow> bool \<times> 'a pc_queue \<times> condvar option" where
  "TryEmplace x q =
     (if IsLimitedCapacity q \<and> at_capacity q then (False, q, None)
      else case InternalEmplace x q of (q', cv) \<Rightarrow> (True, q', Some cv))"

text \<open>
  \<open>TryPush\<close> takes a \<open>unique_ptr\<close> by reference. The object it points to is moved into the queue
  after \<open>release\<close>, so the pointer is null afterwards. \<open>pushed_leaks\<close> counts the objects that
  nobody owns any more.
\<close>

record 'a push_result =
  pushed_ok :: bool
  pushed_ptr :: "'a option"
  pushed_leaks :: nat
  pushed_queue :: "'a pc_queue"

definition TryPush_timed ::
    "('a pc_queue \<times> int) list \<Rightarrow> 'a option \<Rightarrow> int \<Rightarrow> 'a pc_queue
     \<Rightarrow> 'a push_result outcome option" where
  "TryPush_timed wakes p timeout q =
     map_option (\<lambda>q1.
         if IsLimitedCapacity q1 \<and> at_capacity q1
         then Returns \<lparr>pushed_ok = False, pushed_ptr = p, pushed_leaks = 0, pushed_queue = q1\<rparr>
         else (case p of
                 None \<Rightarrow> Fatal ''null pointer dereference''
               | Some x \<Rightarrow> Returns \<lparr>pushed_ok = True, pushed_ptr = None, pushed_leaks = 1,
                                     pushed_queue = fst (InternalEmplace x q1)\<rparr>))
       (if IsLimitedCapacity q then timed_wait_while at_capacity wakes timeout q else Some q)"

definition TryPush :: "'a option \<Rightarrow> 'a pc_queue \<Rightarrow> 'a push_result outcome option" where
  "TryPush p q = TryPush_timed [] p 0 q"

definition Pop ::
    "'a pc_queue list \<Rightarrow> 'a pc_queue \<Rightarrow> ('a \<times> 'a pc_queue \<times> condvar) outcome option" where
  "Pop wakes q = map_option InternalPop (wait_while (\<lambda>q. q_items q = []) wakes q)"

text \<open>\<open>elem\<close> is only assigned on success.\<close>

definition TryPop_timed ::
    "('a pc_queue \<times> int) list \<Rightarrow> 'a \<Rightarrow> int \<Rightarrow> 'a pc_queue
     \<Rightarrow> (bool \<times> 'a \<times> 'a pc_queue) outcome option" where
  "TryPop_timed wakes elem timeout q =
     map_option (\<lambda>q1.
         if q_items q1 = [] then Returns (False, elem, q1)
         else outcome_bind (InternalPop q1) (\<lambda>(x, q2, cv). Returns (True, x, q2)))
       (timed_wait_while (\<lambda>q. q_items q = []) wakes timeout q)"

definition TryPop :: "'a \<Rightarrow> 'a pc_queue \<Rightarrow> (bool \<times> 'a \<times> 'a pc_queue) outcome option" where
  "TryPop elem q = TryPop_timed [] elem 0 q"

section \<open>Facts about the capacity\<close>

definition queue_inv :: "'a pc_queue \<Rightarrow> bool" where
  "queue_inv q \<longleftrightarrow> 0 < sint (q_capacity q) \<and>
     (IsLimitedCapacity q \<longrightarrow> int (length (q_items q)) \<le> sint (q_capacity q))"

lemma at_capacity_iff:
  assumes "0 < sint (q_capacity q)"
  shows "at_capacity q \<longleftrightarrow> sint (q_capacity q) \<le> int (length (q_items q))"
proof -
  have "sint (q_capacity q) mod 2 ^ 64 = sint (q_capacity q)"
    using assms sint_int32_bounds(2) [of "q_capacity q"] by simp
  then have "uint (word_of_int (sint (q_capacity q)) :: size_t) = sint (q_capacity q)"
    by (subst uint_word_of_int) simp
  then show ?thesis by (simp add: at_capacity_def unat_eq_nat_uint nat_le_iff)
qed

definition is_full :: "'a pc_queue \<Rightarrow> bool" where
  "is_full q \<longleftrightarrow> IsLimitedCapacity q \<and> at_capacity q"

lemma not_full_room:
  "queue_inv q \<Longrightarrow> \<not> is_full q \<Longrightarrow> queue_inv (fst (InternalEmplace x q))"
  by (auto simp: queue_inv_def is_full_def IsLimitedCapacity_def at_capacity_iff InternalEmplace_def)

lemma pop_keeps_inv: "queue_inv q \<Longrightarrow> InternalPop q = Returns (x, q', cv) \<Longrightarrow> queue_inv q'"
  by (auto simp: queue_inv_def InternalPop_def IsLimitedCapacity_def split: list.splits)

lemma empty_not_full: "queue_inv q \<Longrightarrow> q_items q = [] \<Longrightarrow> \<not> is_full q"
  by (auto simp: queue_inv_def is_full_def at_capacity_iff)

lemma new_pc_queue_inv: "new_pc_queue c = Returns q \<Longrightarrow> queue_inv q \<and> q_items q = []"
  by (auto simp: new_pc_queue_def queue_inv_def split: if_splits)

section \<open>The interface of a bounded FIFO\<close>

text \<open>
  What the clients of the queue rely on: \<open>put\<close> fails exactly when the queue is full and
  otherwise appends, \<open>get\<close> fails exactly on the empty queue and otherwise takes the oldest
  element. \<open>schedule\<close> is any mix of attempts to put and to get.
\<close>

locale bounded_fifo =
  fixes put :: "'a \<Rightarrow> 'q \<Rightarrow> 'q option"
    and get :: "'q \<Rightarrow> ('a \<times> 'q) option"
    and items :: "'q \<Rightarrow> 'a list"
    and full :: "'q \<Rightarrow> bool"
    and invar :: "'q \<Rightarrow> bool"
  assumes put_full: "invar q \<Longrightarrow> full q \<Longrightarrow> put x q = None"
    and put_room: "invar q \<Longrightarrow> \<not> full q \<Longrightarrow>
          \<exists>q'. put x q = Some q' \<and> invar q' \<and> items q' = items q @ [x]"
    and get_empty: "invar q \<Longrightarrow> items q = [] \<Longrightarrow> get q = None"
    and get_head: "invar q \<Longrightarrow> items q = x # xs \<Longrightarrow>
          \<exists>q'. get q = Some (x, q') \<and> invar q' \<and> items q' = xs"
    and empty_has_room: "invar q \<Longrightarrow> items q = [] \<Longrightarrow> \<not> full q"
begin

text \<open>An attempt to put (\<open>Some x\<close>) or to get (\<open>None\<close>); the outputs are what went in and out.\<close>

fun attempts :: "'a option list \<Rightarrow> 'q \<Rightarrow> 'a list \<times> 'a list \<times> 'q" where
  "attempts [] q = ([], [], q)"
| "attempts (Some x # as) q = (case put x q of
      None \<Rightarrow> attempts as q
    | Some q' \<Rightarrow> (case attempts as q' of (ins, outs, r) \<Rightarrow> (x # ins, outs, r)))"
| "attempts (None # as) q = (case get q of
      None \<Rightarrow> attempts as q
    | Some (x, q') \<Rightarrow> (case attempts as q' of (ins, outs, r) \<Rightarrow> (ins, x # outs, r)))"

lemma attempts_fifo:
  "invar q \<Longrightarrow> attempts as q = (ins, outs, r) \<Longrightarrow> invar r \<and> items q @ ins = outs @ items r"
proof (induction "as" q arbitrary: ins outs r rule: attempts.induct)
  case (1 q)
  then show ?case by simp
next
  case (2 x "as" q)
  show ?case
  proof (cases "full q")
    case True
    with 2 put_full show ?thesis by simp
  next
    case False
    with put_room 2 obtain q' where "put x q = Some q'" "invar q'" "items q' = items q @ [x]"
      by blast
    with 2 show ?thesis by (fastforce split: prod.splits)
  qed
next
  case (3 "as" q)
  show ?case
  proof (cases "items q")
    case Nil
    with 3 get_empty show ?thesis by simp
  next
    case (Cons x xs)
    with get_head 3 obtain q' where "get q = Some (x, q')" "invar q'" "items q' = xs" by blast
    with 3 Cons show ?thesis by (fastforce split: prod.splits)
  qed
qed

lemma get_after_put:
  assumes "invar q" "items q = []"
  shows "\<exists>q' q''. put x q = Some q' \<and> get q' = Some (x, q'') \<and> items q'' = []"
  using put_room [OF assms(1) empty_has_room [OF assms], of x] assms(2) get_head by fastforce

end

definition fifo_put :: "'a \<Rightarrow> 'a pc_queue \<Rightarrow> 'a pc_queue option" where
  "fifo_put x q = (case TryEmplace x q of (ok, q', _) \<Rightarrow> if ok then Some q' else None)"

definition fifo_get :: "'a pc_queue \<Rightarrow> ('a \<times> 'a pc_queue) option" where
  "fifo_get q = (case Pop [] q of Some (Returns (x, q', _)) \<Rightarrow> Some (x, q') | _ \<Rightarrow> None)"

interpretation pcq: bounded_fifo fifo_put fifo_get q_items is_full queue_inv
proof (unfold_locales, goal_cases)
  case (1 q x)
  then show ?case by (simp add: fifo_put_def TryEmplace_def is_full_def)
next
  case (2 q x)
  then show ?case using not_full_room [OF 2]
    by (auto simp: fifo_put_def TryEmplace_def is_full_def InternalEmplace_def)
next
  case (3 q)
  then show ?case by (simp add: fifo_get_def Pop_def wait_while_asleep)
next
  case (4 q x xs)
  then show ?case using pop_keeps_inv [OF 4(1)]
    by (auto simp: fifo_get_def Pop_def InternalPop_def wait_while_now)
next
  case (5 q)
  then show ?case by (rule empty_not_full)
qed

section \<open>Threads\<close>

text \<open>
  The concurrent system. \<open>wait_empty\<close> and \<open>wait_full\<close> count the threads asleep on
  \<open>cv_not_empty\<close> and \<open>cv_not_full\<close>, \<open>woken_empty\<close> and \<open>woken_full\<close> those taken off the
  condition variable that have not yet run. \<open>Signal\<close> wakes one sleeper if there is one.
  \<open>pushed\<close> and \<open>popped\<close> are the histories of what entered and left the queue.
\<close>

record 'a queue_system =
  sys_queue :: "'a pc_queue"
  wait_empty :: nat
  woken_empty :: nat
  wait_full :: nat
  woken_full :: nat
  pushed :: "'a list"
  popped :: "'a list"

fun signal :: "condvar \<Rightarrow> 'a queue_system \<Rightarrow> 'a queue_system" where
  "signal cv_not_empty s =
     (if 0 < wait_empty s
      then s\<lparr>wait_empty := wait_empty s - 1, woken_empty := woken_empty s + 1\<rparr> else s)"
| "signal cv_not_full s =
     (if 0 < wait_full s
      then s\<lparr>wait_full := wait_full s - 1, woken_full := woken_full s + 1\<rparr> else s)"

text \<open>The ends of the methods: the element goes in or comes out, then the signal.\<close>

definition sys_emplace :: "'a \<Rightarrow> 'a queue_system \<Rightarrow> 'a queue_system" where
  "sys_emplace x s = (case InternalEmplace x (sys_queue s) of
      (q, cv) \<Rightarrow> signal cv (s\<lparr>sys_queue := q, pushed := pushed s @ [x]\<rparr>))"

definition sys_pop :: "'a queue_system \<Rightarrow> 'a queue_system" where
  "sys_pop s = (case InternalPop (sys_queue s) of
      Returns (x, q, cv) \<Rightarrow> signal cv (s\<lparr>sys_queue := q, popped := popped s @ [x]\<rparr>)
    | Fatal _ \<Rightarrow> s)"

text \<open>
  One stretch under the mutex. A producer that enters, or wakes, tests the loop condition
  again: it sleeps or puts its element. A waiter with a timeout also wakes by itself
  (\<open>wake_up\<close>, which covers spurious wake-ups too) and may give up while the
  condition still holds (\<open>gives_up\<close>).
\<close>

inductive queue_step :: "'a queue_system \<Rightarrow> 'a queue_system \<Rightarrow> bool" where
  enter_sleep_full: "is_full (sys_queue s) \<Longrightarrow> queue_step s (s\<lparr>wait_full := wait_full s + 1\<rparr>)"
| enter_emplace: "\<not> is_full (sys_queue s) \<Longrightarrow> queue_step s (sys_emplace x s)"
| woken_sleep_full: "0 < woken_full s \<Longrightarrow> is_full (sys_queue s) \<Longrightarrow>
    queue_step s (s\<lparr>woken_full := woken_full s - 1, wait_full := wait_full s + 1\<rparr>)"
| woken_emplace: "0 < woken_full s \<Longrightarrow> \<not> is_full (sys_queue s) \<Longrightarrow>
    queue_step s (sys_emplace x (s\<lparr>woken_full := woken_full s - 1\<rparr>))"
| gives_up_full: "0 < woken_full s \<Longrightarrow> is_full (sys_queue s) \<Longrightarrow>
    queue_step s (s\<lparr>woken_full := woken_full s - 1\<rparr>)"
| wake_up_full: "0 < wait_full s \<Longrightarrow>
    queue_step s (s\<lparr>wait_full := wait_full s - 1, woken_full := woken_full s + 1\<rparr>)"
| enter_sleep_empty: "q_items (sys_queue s) = [] \<Longrightarrow>
    queue_step s (s\<lparr>wait_empty := wait_empty s + 1\<rparr>)"
| enter_pop: "q_items (sys_queue s) \<noteq> [] \<Longrightarrow> queue_step s (sys_pop s)"
| woken_sleep_empty: "0 < woken_empty s \<Longrightarrow> q_items (sys_queue s) = [] \<Longrightarrow>
    queue_step s (s\<lparr>woken_empty := woken_empty s - 1, wait_empty := wait_empty s + 1\<rparr>)"
| woken_pop: "0 < woken_empty s \<Longrightarrow> q_items (sys_queue s) \<noteq> [] \<Longrightarrow>
    queue_step s (sys_pop (s\<lparr>woken_empty := woken_empty s - 1\<rparr>))"
| gives_up_empty: "0 < woken_empty s \<Longrightarrow> q_items (sys_queue s) = [] \<Longrightarrow>
    queue_step s (s\<lparr>woken_empty := woken_empty s - 1\<rparr>)"
| wake_up_empty: "0 < wait_empty s \<Longrightarrow>
    queue_step s (s\<lparr>wait_empty := wait_empty s - 1, woken_empty := woken_empty s + 1\<rparr>)"

definition queue_system_init :: "'a pc_queue \<Rightarrow> 'a queue_system" where
  "queue_system_init q = \<lparr>sys_queue = q, wait_empty = 0, woken_empty = 0, wait_full = 0,
     woken_full = 0, pushed = [], popped = []\<rparr>"

text \<open>
  The invariant: nothing lost or reordered, the capacity respected, and enough threads on their
  way for the elements and the room there is, whenever a thread sleeps.
\<close>

definition system_inv :: "'a queue_system \<Rightarrow> bool" where
  "system_inv s \<longleftrightarrow> queue_inv (sys_queue s) \<and>
     pushed s = popped s @ q_items (sys_queue s) \<and>
     (0 < wait_empty s \<longrightarrow> length (q_items (sys_queue s)) \<le> woken_empty s) \<and>
     (0 < wait_full s \<longrightarrow> IsLimitedCapacity (sys_queue s) \<and>
        sint (q_capacity (sys_queue s)) - int (length (q_items (sys_queue s))) \<le> int (woken_full s))"

lemma is_full_iff:
  "queue_inv q \<Longrightarrow>
   is_full q \<longleftrightarrow> IsLimitedCapacity q \<and> int (length (q_items q)) = sint (q_capacity q)"
  by (auto simp: queue_inv_def is_full_def at_capacity_iff)

lemma system_inv_emplace:
  assumes inv: "system_inv s" and room: "\<not> is_full (sys_queue s)"
    and k: "k = woken_full s \<or> k = woken_full s - 1"
  shows "system_inv (sys_emplace x (s\<lparr>woken_full := k\<rparr>))"
proof -
  have q: "queue_inv (sys_queue s)" using inv by (simp add: system_inv_def)
  have "queue_inv (fst (InternalEmplace x (sys_queue s)))" using not_full_room [OF q room] .
  with inv room k q show ?thesis
    by (auto simp: system_inv_def sys_emplace_def InternalEmplace_def is_full_iff
        IsLimitedCapacity_def)
qed

lemma system_inv_pop:
  assumes inv: "system_inv s" and ne: "q_items (sys_queue s) \<noteq> []"
    and k: "k = woken_empty s \<or> k = woken_empty s - 1"
  shows "system_inv (sys_pop (s\<lparr>woken_empty := k\<rparr>))"
proof -
  obtain x xs where x: "q_items (sys_queue s) = x # xs" using ne by (cases "q_items (sys_queue s)") auto
  have "queue_inv ((sys_queue s)\<lparr>q_items := xs\<rparr>)"
    using pop_keeps_inv [of "sys_queue s" x] inv x by (simp add: system_inv_def InternalPop_def)
  with inv x k show ?thesis
    by (auto simp: system_inv_def sys_pop_def InternalPop_def IsLimitedCapacity_def)
qed

lemma system_inv_step: "queue_step s t \<Longrightarrow> system_inv s \<Longrightarrow> system_inv t"
proof (induction rule: queue_step.induct)
  case (enter_emplace s x)
  then show ?case using system_inv_emplace [of s "woken_full s" x] by simp
next
  case (woken_emplace s x)
  then show ?case using system_inv_emplace [of s "woken_full s - 1" x] by simp
next
  case (enter_pop s)
  then show ?case using system_inv_pop [of s "woken_empty s"] by simp
next
  case (woken_pop s)
  then show ?case using system_inv_pop [of s "woken_empty s - 1"] by simp
qed (auto simp: system_inv_def is_full_iff)

lemma system_inv_reachable: "queue_step\<^sup>*\<^sup>* s t \<Longrightarrow> system_inv s \<Longrightarrow> system_inv t"
  by (induction rule: rtranclp_induct) (auto intro: system_inv_step)

lemma system_inv_init:
  "new_pc_queue c = Returns q \<Longrightarrow> system_inv (queue_system_init q)"
  using new_pc_queue_inv [of c q] by (simp add: system_inv_def queue_system_init_def)

lemma queue_step_capacity:
  "queue_step s t \<Longrightarrow> q_capacity (sys_queue t) = q_capacity (sys_queue s)"
  by (induction rule: queue_step.induct)
     (auto simp: sys_emplace_def sys_pop_def InternalEmplace_def InternalPop_def split: list.splits)

lemma queue_reach_capacity:
  "queue_step\<^sup>*\<^sup>* s t \<Longrightarrow> q_capacity (sys_queue t) = q_capacity (sys_queue s)"
  by (induction rule: rtranclp_induct) (auto simp: queue_step_capacity)

section \<open>Properties of the queue\<close>

lemma TryPush_eq:
  "TryPush (Some x) q = Some (Returns
     (if is_full q then \<lparr>pushed_ok = False, pushed_ptr = Some x, pushed_leaks = 0, pushed_queue = q\<rparr>
      else \<lparr>pushed_ok = True, pushed_ptr = None, pushed_leaks = 1,
            pushed_queue = q\<lparr>q_items := q_items q @ [x]\<rparr>\<rparr>))"
  by (simp add: TryPush_def TryPush_timed_def timed_wait_while_now is_full_def InternalEmplace_def)

lemma TryPop_eq:
  "TryPop e q = Some (Returns (case q_items q of
      [] \<Rightarrow> (False, e, q) | y # ys \<Rightarrow> (True, y, q\<lparr>q_items := ys\<rparr>)))"
  by (cases "q_items q") (simp_all add: TryPop_def TryPop_timed_def timed_wait_while_now InternalPop_def)

text \<open>
  The non-blocking methods. \<open>TryPush\<close> and \<open>TryEmplace\<close> append exactly if there is
  room; otherwise the queue and the caller's pointer are unaffected, and on success the
  pointer is null. \<open>TryPop\<close> takes the oldest element or leaves its argument alone. None of
  them crashes or waits.
\<close>

theorem try_operations_correct:
  "TryEmplace x q = (if is_full q then (False, q, None)
     else (True, q\<lparr>q_items := q_items q @ [x]\<rparr>, Some cv_not_empty)) \<and>
   (\<exists>r. TryPush (Some x) q = Some (Returns r) \<and> pushed_ok r = (\<not> is_full q) \<and>
        pushed_ptr r = (if is_full q then Some x else None) \<and>
        pushed_queue r = (if is_full q then q else q\<lparr>q_items := q_items q @ [x]\<rparr>)) \<and>
   TryPop e q = Some (Returns (case q_items q of
        [] \<Rightarrow> (False, e, q) | y # ys \<Rightarrow> (True, y, q\<lparr>q_items := ys\<rparr>)))"
  by (simp add: TryPush_eq TryPop_eq TryEmplace_def is_full_def InternalEmplace_def)

text \<open>The released object itself is never freed.\<close>

lemma try_push_leaks:
  "\<not> is_full q \<Longrightarrow> TryPush (Some x) q = Some (Returns r) \<Longrightarrow> pushed_leaks r = 1"
  by (auto simp: TryPush_eq)

text \<open>
  C29. Whatever attempts to put and to get are made on a new queue, what came out, followed by
  what is left inside, is exactly what went in, in order.
\<close>

theorem queue_is_fifo:
  assumes "new_pc_queue c = Returns q" and "pcq.attempts as q = (ins, outs, r)"
  shows "ins = outs @ q_items r"
  using pcq.attempts_fifo [OF _ assms(2)] new_pc_queue_inv [OF assms(1)] by simp

theorem queue_is_fifo_witness:
  "\<exists>q ins outs r. new_pc_queue 2 = Returns (q :: nat pc_queue) \<and>
     pcq.attempts [Some 1, Some 2, None, Some 3] q = (ins, outs, r) \<and> ins = outs @ q_items r"
proof -
  obtain q :: "nat pc_queue" where q: "new_pc_queue 2 = Returns q" by (simp add: new_pc_queue_def)
  obtain ins outs r where "pcq.attempts [Some 1, Some 2, None, Some 3] q = (ins, outs, r)"
    by (cases "pcq.attempts [Some 1, Some 2, None, Some 3] q") auto
  with q queue_is_fifo [OF q this] show ?thesis by blast
qed

text \<open>
  What decides a timed wait: the first queue it sees that is no reason to wait, or that it sees with no time left.
  It sees the queue when it is called, with the whole timeout left, and then at each wake-up.
\<close>

definition decided ::
    "('a pc_queue \<Rightarrow> bool) \<Rightarrow> int \<Rightarrow> 'a pc_queue \<Rightarrow> ('a pc_queue \<times> int) list \<Rightarrow> ('a pc_queue \<times> int) option" where
  "decided cond timeout q wakes = find (\<lambda>(d, left). \<not> cond d \<or> left \<le> 0) ((q, timeout) # wakes)"

lemma timed_wait_while_decided:
  "timed_wait_while cond wakes timeout q = map_option fst (decided cond timeout q wakes)"
proof (induction wakes arbitrary: q timeout)
  case Nil
  show ?case by (subst timed_wait_while.simps) (auto simp: decided_def)
next
  case (Cons w wakes)
  obtain d left where "w = (d, left)" by (cases w)
  with Cons.IH [of left d] show ?case
    by (subst timed_wait_while.simps) (auto simp: decided_def)
qed

lemma decidedD:
  assumes "decided cond timeout q wakes = Some (d, left)"
  shows "(d, left) \<in> set ((q, timeout) # wakes)" and "cond d \<Longrightarrow> left \<le> 0"
proof -
  obtain i where i: "i < length ((q, timeout) # wakes)" "((q, timeout) # wakes) ! i = (d, left)"
      "case (d, left) of (d, left) \<Rightarrow> \<not> cond d \<or> left \<le> 0"
    using assms unfolding decided_def find_Some_iff by metis
  from i(1) have "((q, timeout) # wakes) ! i \<in> set ((q, timeout) # wakes)" by (rule nth_mem)
  with i(2) show "(d, left) \<in> set ((q, timeout) # wakes)" by simp
  from i(3) show "cond d \<Longrightarrow> left \<le> 0" by simp
qed

lemma decided_in_time:
  assumes "timeout \<le> 0 \<or> (\<exists>w \<in> set wakes. snd w \<le> 0)"
  shows "decided cond timeout q wakes \<noteq> None"
proof
  assume "decided cond timeout q wakes = None"
  then have "\<not> (\<exists>s. s \<in> set ((q, timeout) # wakes) \<and> (case s of (d, left) \<Rightarrow> \<not> cond d \<or> left \<le> 0))"
    unfolding decided_def find_None_iff .
  then have "0 < snd s" if "s \<in> set ((q, timeout) # wakes)" for s using that by (cases s) force
  with assms show False by fastforce
qed

lemma TryPush_timed_decided:
  assumes "\<forall>w \<in> set wakes. q_capacity (fst w) = q_capacity q"
  shows "TryPush_timed wakes p timeout q = map_option (\<lambda>(d, left).
      if is_full d then Returns \<lparr>pushed_ok = False, pushed_ptr = p, pushed_leaks = 0, pushed_queue = d\<rparr>
      else (case p of None \<Rightarrow> Fatal ''null pointer dereference''
        | Some x \<Rightarrow> Returns \<lparr>pushed_ok = True, pushed_ptr = None, pushed_leaks = 1,
                             pushed_queue = fst (InternalEmplace x d)\<rparr>))
    (decided is_full timeout q wakes)"
proof (cases "IsLimitedCapacity q")
  case True
  with assms have "decided at_capacity timeout q wakes = decided is_full timeout q wakes"
    by (auto simp: decided_def is_full_def IsLimitedCapacity_def intro!: find_cong)
  then show ?thesis using True
    by (cases "decided is_full timeout q wakes") (auto simp: TryPush_timed_def timed_wait_while_decided is_full_def split: option.splits)
next
  case False
  then show ?thesis by (simp add: TryPush_timed_def is_full_def decided_def)
qed

lemma TryPop_timed_decided:
  "TryPop_timed wakes elem timeout q = map_option (\<lambda>(d, left).
      if q_items d = [] then Returns (False, elem, d)
      else outcome_bind (InternalPop d) (\<lambda>(x, d', cv). Returns (True, x, d')))
    (decided (\<lambda>q. q_items q = []) timeout q wakes)"
  by (cases "decided (\<lambda>q. q_items q = []) timeout q wakes") (auto simp: TryPop_timed_def timed_wait_while_decided)

text \<open>
  C30. The timed methods do what they report. Both are decided by the first look at the queue that finds room (an element),
  or no time left, so they return with the first wake-up that finds the time over, if not before, and fail only then.
  A successful push has appended the object to the queue that it found, and the pointer is null; a
  successful pop has removed the oldest element and received it. A failed one has found the queue full (empty), and
  has changed neither the queue nor its argument. Without such a look they wait.
\<close>

theorem timed_operations_faithful:
  assumes "queue_inv q" and "\<forall>w \<in> set wakes. queue_inv (fst w) \<and> q_capacity (fst w) = q_capacity q"
  shows "(case decided is_full timeout q wakes of
      None \<Rightarrow> TryPush_timed wakes (Some x) timeout q = None
    | Some (d, left) \<Rightarrow>
        if is_full d
        then left \<le> 0 \<and> TryPush_timed wakes (Some x) timeout q =
          Some (Returns \<lparr>pushed_ok = False, pushed_ptr = Some x, pushed_leaks = 0, pushed_queue = d\<rparr>)
        else (\<exists>r. TryPush_timed wakes (Some x) timeout q = Some (Returns r) \<and> pushed_ok r \<and> pushed_ptr r = None \<and>
          queue_inv (pushed_queue r) \<and> q_capacity (pushed_queue r) = q_capacity q \<and>
          q_items (pushed_queue r) = q_items d @ [x])) \<and>
    (case decided (\<lambda>q. q_items q = []) timeout q wakes of
      None \<Rightarrow> TryPop_timed wakes e timeout q = None
    | Some (d, left) \<Rightarrow> (case q_items d of
        [] \<Rightarrow> left \<le> 0 \<and> TryPop_timed wakes e timeout q = Some (Returns (False, e, d))
      | y # ys \<Rightarrow> (\<exists>d'. TryPop_timed wakes e timeout q = Some (Returns (True, y, d')) \<and>
          queue_inv d' \<and> q_capacity d' = q_capacity q \<and> q_items d' = ys))) \<and>
    (timeout \<le> 0 \<or> (\<exists>w \<in> set wakes. snd w \<le> 0) \<longrightarrow>
      TryPush_timed wakes (Some x) timeout q \<noteq> None \<and> TryPop_timed wakes e timeout q \<noteq> None)"
proof -
  note push = TryPush_timed_decided [of wakes q "Some x" timeout] and pop = TryPop_timed_decided [of wakes e timeout q]
  have q: "queue_inv d \<and> q_capacity d = q_capacity q" if "decided cond timeout q wakes = Some (d, left)" for cond d left
    using decidedD(1) [OF that] assms by auto
  show ?thesis
  proof (intro conjI impI, goal_cases)
    case 1
    show ?case
    proof (cases "decided is_full timeout q wakes")
      case (Some dl)
      obtain d left where dl: "decided is_full timeout q wakes = Some (d, left)" using Some by (cases dl) auto
      from q [OF dl] not_full_room [of d x] decidedD(2) [OF dl] show ?thesis
        using push assms(2) by (simp add: dl) (simp add: InternalEmplace_def)
    qed (use push assms(2) in simp)
  next
    case 2
    show ?case
    proof (cases "decided (\<lambda>q. q_items q = []) timeout q wakes")
      case (Some dl)
      obtain d left where dl: "decided (\<lambda>q. q_items q = []) timeout q wakes = Some (d, left)" using Some by (cases dl) auto
      from q [OF dl] pop_keeps_inv [of d] decidedD(2) [OF dl] show ?thesis
        using pop by (cases "q_items d") (simp_all add: dl InternalPop_def)
    qed (use pop in simp)
  next
    case 3
    then show ?case using push assms(2) decided_in_time [of timeout wakes is_full q] by simp
  next
    case 4
    then show ?case using pop decided_in_time [of timeout wakes "\<lambda>q. q_items q = []" q] by simp
  qed
qed

theorem timed_operations_faithful_witness:
  "\<exists>r. TryPush_timed [(\<lparr>q_capacity = 1, q_items = []\<rparr>, 3), (\<lparr>q_capacity = 1, q_items = [1]\<rparr>, -2)]
         (Some 2) 5 \<lparr>q_capacity = 1, q_items = [0::nat]\<rparr> = Some (Returns r) \<and>
       pushed_ok r \<and> q_items (pushed_queue r) = [2]"
proof -
  let ?w = "[(\<lparr>q_capacity = 1, q_items = []\<rparr>, 3), (\<lparr>q_capacity = 1, q_items = [1::nat]\<rparr>, -2 :: int)]"
  have a: "queue_inv \<lparr>q_capacity = 1, q_items = [0::nat]\<rparr>" by (simp add: queue_inv_def)
  have b: "\<forall>w \<in> set ?w. queue_inv (fst w) \<and> q_capacity (fst w) = q_capacity \<lparr>q_capacity = 1, q_items = [0::nat]\<rparr>"
    by (simp add: queue_inv_def)
  have full: "is_full \<lparr>q_capacity = 1, q_items = [0::nat]\<rparr>" "\<not> is_full \<lparr>q_capacity = 1, q_items = [] :: nat list\<rparr>"
    by (simp_all add: is_full_def IsLimitedCapacity_def at_capacity_def int_max_def)
  show ?thesis
    using conjunct1 [OF timed_operations_faithful [OF a b, where timeout = 5 and x = 2 and e = 7]] full by (auto simp: decided_def)
qed

text \<open>
  C11. In every state the threads can reach from a new queue: what was pushed is what was
  popped followed by the content; a limited queue never holds more than its capacity; and no
  wake-up is lost. If a consumer sleeps while there is an element, or a producer while there is
  room, then another thread has been woken for it and is about to run.
\<close>

theorem queue_threads_safe:
  assumes "new_pc_queue c = Returns q" and "queue_step\<^sup>*\<^sup>* (queue_system_init q) s"
  shows "pushed s = popped s @ q_items (sys_queue s) \<and>
    (sint c \<noteq> int_max \<longrightarrow> int (length (q_items (sys_queue s))) \<le> sint c) \<and>
    (0 < wait_empty s \<and> q_items (sys_queue s) \<noteq> [] \<longrightarrow> 0 < woken_empty s) \<and>
    (0 < wait_full s \<and> \<not> is_full (sys_queue s) \<longrightarrow> 0 < woken_full s)"
proof -
  have inv: "system_inv s"
    using system_inv_reachable [OF assms(2) system_inv_init [OF assms(1)]] .
  have "q_capacity (sys_queue s) = c"
    using queue_reach_capacity [OF assms(2)] assms(1)
    by (auto simp: queue_system_init_def new_pc_queue_def split: if_splits)
  with inv show ?thesis
    by (cases "q_items (sys_queue s)")
       (auto simp: system_inv_def queue_inv_def IsLimitedCapacity_def is_full_iff)
qed

theorem queue_threads_safe_witness:
  "\<exists>q s. new_pc_queue 1 = Returns (q :: nat pc_queue) \<and> queue_step\<^sup>*\<^sup>* (queue_system_init q) s \<and>
     0 < wait_empty s \<and> pushed s = popped s @ q_items (sys_queue s)"
proof -
  obtain q :: "nat pc_queue" where q: "new_pc_queue 1 = Returns q" "q_items q = []"
    by (simp add: new_pc_queue_def)
  have "queue_step (queue_system_init q) ((queue_system_init q)\<lparr>wait_empty := 0 + 1\<rparr>)"
    using enter_sleep_empty [of "queue_system_init q"] q by (simp add: queue_system_init_def)
  then have reach: "queue_step\<^sup>*\<^sup>* (queue_system_init q) ((queue_system_init q)\<lparr>wait_empty := 0 + 1\<rparr>)"
    by blast
  have "0 < wait_empty ((queue_system_init q)\<lparr>wait_empty := 0 + 1\<rparr>)" by simp
  with q(1) reach conjunct1 [OF queue_threads_safe [OF q(1) reach]] show ?thesis by blast
qed

section \<open>The completion signal\<close>

record completion_signal =
  is_completed :: bool
  cs_status :: status

definition new_CompletionSignal :: completion_signal where
  "new_CompletionSignal = \<lparr>is_completed = True, cs_status = OkStatus\<rparr>"

definition cs_Start :: "completion_signal \<Rightarrow> completion_signal" where
  "cs_Start s = s\<lparr>is_completed := False\<rparr>"

definition cs_End :: "completion_signal \<Rightarrow> completion_signal" where
  "cs_End s = s\<lparr>is_completed := True\<rparr>"

definition cs_IsCompleted :: "completion_signal \<Rightarrow> bool" where
  "cs_IsCompleted s = is_completed s"

definition cs_GetStatus :: "completion_signal \<Rightarrow> status" where
  "cs_GetStatus s = cs_status s"

definition cs_SetStatus :: "status \<Rightarrow> completion_signal \<Rightarrow> completion_signal" where
  "cs_SetStatus st s = s\<lparr>cs_status := st\<rparr>"

text \<open>
  \<open>AwaitWithTimeout\<close> returns once the condition holds, or with its value when the time is
  over: \<open>seen\<close> are the states the other threads produce before that.
\<close>

fun cs_WaitUntilCompleted :: "completion_signal list \<Rightarrow> completion_signal \<Rightarrow> bool \<times> completion_signal" where
  "cs_WaitUntilCompleted [] s = (is_completed s, s)"
| "cs_WaitUntilCompleted (s' # seen) s =
     (if is_completed s then (True, s) else cs_WaitUntilCompleted seen s')"

datatype signal_op = CsStart | CsEnd | CsSetStatus status

fun signal_step :: "completion_signal \<Rightarrow> signal_op \<Rightarrow> completion_signal" where
  "signal_step s CsStart = cs_Start s"
| "signal_step s CsEnd = cs_End s"
| "signal_step s (CsSetStatus st) = cs_SetStatus st s"

text \<open>The states a worker goes through.\<close>

fun signal_states :: "signal_op list \<Rightarrow> completion_signal \<Rightarrow> completion_signal list" where
  "signal_states [] s = []"
| "signal_states (a # as) s = signal_step s a # signal_states as (signal_step s a)"

text \<open>
  The protocol of the header: after \<open>Start\<close>, a waiter concurrent with a worker that sets
  a status and then ends returns true with that status in place, and false only while the
  worker has not ended.
\<close>

theorem completion_signal_protocol:
  "let s0 = cs_Start s; all = signal_states [CsSetStatus st, CsEnd] s0 in
     \<not> cs_IsCompleted s0 \<and>
     (\<forall>k. case cs_WaitUntilCompleted (take k all) s0 of
        (done, t) \<Rightarrow> done = (2 \<le> k) \<and> (if done then cs_IsCompleted t \<and> cs_GetStatus t = st
                                      else \<not> cs_IsCompleted t)) \<and>
     cs_IsCompleted new_CompletionSignal \<and> cs_GetStatus new_CompletionSignal = OkStatus"
proof -
  have "take k [a, b] = (if k = 0 then [] else if k = 1 then [a] else [a, b])" for k and a b :: completion_signal
    by (auto simp: take_Cons split: nat.splits)
  then show ?thesis
    by (auto simp: cs_Start_def cs_End_def cs_SetStatus_def cs_IsCompleted_def cs_GetStatus_def
        new_CompletionSignal_def Let_def)
qed

end
