(* ===== verification/Packet_Core.thy ===== *)
theory Packet_Core
  imports PC_Queue
begin

text \<open>
  The messages of \<open>proto/packet.proto\<close> and \<open>proto/types/*.proto\<close> as records and
  datatypes, the protobuf runtime as a parameter, and \<open>base/packet_flags.h\<close>,
  \<open>packet_flags.cc\<close>.

  Enumerations of proto3 are open: a field may hold a number without a name. The classes
  generated for the messages and the runtime (serializing, parsing, \<open>Any\<close>) are not part of
  the source, so they are the record \<open>proto_lib\<close>; \<open>proto_laws\<close> states what is documented of
  them. A pointer that may be null is an \<open>option\<close>.
\<close>

section \<open>Messages\<close>

datatype packet_type_id =
    PACKET_TYPE_UNKNOWN
  | PACKET_TYPE_JPEG
  | PACKET_TYPE_RAW_IMAGE
  | PACKET_TYPE_PROTOBUF
  | PACKET_TYPE_STRING
  | PACKET_TYPE_GSTREAMER_BUFFER
  | PACKET_TYPE_CONTROL_SIGNAL
  | PACKET_TYPE_UNNAMED int32

fun PacketTypeId_Name :: "packet_type_id \<Rightarrow> string" where
  "PacketTypeId_Name PACKET_TYPE_UNKNOWN = ''PACKET_TYPE_UNKNOWN''"
| "PacketTypeId_Name PACKET_TYPE_JPEG = ''PACKET_TYPE_JPEG''"
| "PacketTypeId_Name PACKET_TYPE_RAW_IMAGE = ''PACKET_TYPE_RAW_IMAGE''"
| "PacketTypeId_Name PACKET_TYPE_PROTOBUF = ''PACKET_TYPE_PROTOBUF''"
| "PacketTypeId_Name PACKET_TYPE_STRING = ''PACKET_TYPE_STRING''"
| "PacketTypeId_Name PACKET_TYPE_GSTREAMER_BUFFER = ''PACKET_TYPE_GSTREAMER_BUFFER''"
| "PacketTypeId_Name PACKET_TYPE_CONTROL_SIGNAL = ''PACKET_TYPE_CONTROL_SIGNAL''"
| "PacketTypeId_Name (PACKET_TYPE_UNNAMED n) = []"

datatype control_signal_type_id =
    CONTROL_SIGNAL_UNKNOWN
  | CONTROL_SIGNAL_EOS
  | CONTROL_SIGNAL_UNNAMED int32

fun ControlSignalTypeId_Name :: "control_signal_type_id \<Rightarrow> string" where
  "ControlSignalTypeId_Name CONTROL_SIGNAL_UNKNOWN = ''CONTROL_SIGNAL_UNKNOWN''"
| "ControlSignalTypeId_Name CONTROL_SIGNAL_EOS = ''CONTROL_SIGNAL_EOS''"
| "ControlSignalTypeId_Name (CONTROL_SIGNAL_UNNAMED n) = []"

datatype raw_image_format =
    RAW_IMAGE_FORMAT_UNKNOWN
  | RAW_IMAGE_FORMAT_SRGB
  | RAW_IMAGE_FORMAT_UNNAMED int32

record raw_image_descriptor =
  rid_format :: raw_image_format
  rid_height :: int32
  rid_width :: int32

text \<open>\<open>google.protobuf.Any\<close> and \<open>google.protobuf.Value\<close> (a string or another kind).\<close>

record any =
  any_type_url :: string
  any_value :: string

datatype struct_value = StringValue string | OtherValue string

text \<open>
  The messages this code serializes or parses; \<open>UserMessage\<close> is a message of a user's own
  type, by its type name and content.
\<close>

datatype proto_message =
    ControlSignalPacketTypeDescriptor control_signal_type_id
  | GstreamerBufferPacketTypeDescriptor string
  | ProtobufPacketTypeDescriptor string bool
  | RawImagePacketTypeDescriptor raw_image_descriptor
  | EosValue string
  | StructValue struct_value
  | UserMessage string string

fun GetTypeName :: "proto_message \<Rightarrow> string" where
  "GetTypeName (ControlSignalPacketTypeDescriptor c) = ''aistreams.ControlSignalPacketTypeDescriptor''"
| "GetTypeName (GstreamerBufferPacketTypeDescriptor s) = ''aistreams.GstreamerBufferPacketTypeDescriptor''"
| "GetTypeName (ProtobufPacketTypeDescriptor n b) = ''aistreams.ProtobufPacketTypeDescriptor''"
| "GetTypeName (RawImagePacketTypeDescriptor d) = ''aistreams.RawImagePacketTypeDescriptor''"
| "GetTypeName (EosValue r) = ''aistreams.EosValue''"
| "GetTypeName (StructValue v) = ''google.protobuf.Value''"
| "GetTypeName (UserMessage n c) = n"

record timestamp =
  ts_seconds :: int64
  ts_nanos :: int32

record packet_type =
  pt_type_id :: packet_type_id
  pt_type_name :: string
  pt_type_descriptor :: any

record server_metadata =
  sm_offset :: int64
  sm_timestamp :: timestamp

record packet_header =
  h_timestamp :: timestamp
  h_type :: packet_type
  h_addenda :: "string \<Rightarrow> any option"
  h_trace_context :: string
  h_server_metadata :: server_metadata
  h_flags :: int32

record packet =
  p_header :: packet_header
  p_payload :: string

definition empty_any :: any where
  "empty_any = \<lparr>any_type_url = [], any_value = []\<rparr>"

definition empty_header :: packet_header where
  "empty_header = \<lparr>h_timestamp = \<lparr>ts_seconds = 0, ts_nanos = 0\<rparr>,
     h_type = \<lparr>pt_type_id = PACKET_TYPE_UNKNOWN, pt_type_name = [], pt_type_descriptor = empty_any\<rparr>,
     h_addenda = (\<lambda>_. None), h_trace_context = [],
     h_server_metadata = \<lparr>sm_offset = 0, sm_timestamp = \<lparr>ts_seconds = 0, ts_nanos = 0\<rparr>\<rparr>,
     h_flags = 0\<rparr>"

definition empty_packet :: packet where
  "empty_packet = \<lparr>p_header = empty_header, p_payload = []\<rparr>"

abbreviation packet_type_of :: "packet \<Rightarrow> packet_type_id" where
  "packet_type_of p \<equiv> pt_type_id (h_type (p_header p))"

abbreviation descriptor_of :: "packet \<Rightarrow> any" where
  "descriptor_of p \<equiv> pt_type_descriptor (h_type (p_header p))"

section \<open>The protobuf runtime\<close>

text \<open>
  \<open>pl_serialize\<close> and \<open>pl_parse\<close> are \<open>SerializeToString\<close> and \<open>ParseFromString\<close>,
  \<open>pl_pack_any\<close> and \<open>pl_unpack_any\<close> are \<open>Any::PackFrom\<close> and \<open>UnpackTo\<close>; parsing
  and unpacking take the name of the type of the destination. \<open>pl_valid\<close> tells the messages that
  can be encoded: their strings are UTF-8 and they are below the size limit.
\<close>

record proto_lib =
  pl_valid :: "proto_message \<Rightarrow> bool"
  pl_serialize :: "proto_message \<Rightarrow> string option"
  pl_parse :: "string \<Rightarrow> string \<Rightarrow> proto_message option"
  pl_pack_any :: "proto_message \<Rightarrow> any"
  pl_unpack_any :: "string \<Rightarrow> any \<Rightarrow> proto_message option"

definition proto_laws :: "proto_lib \<Rightarrow> bool" where
  "proto_laws L \<longleftrightarrow>
     (\<forall>m. pl_valid L m \<longrightarrow>
        (\<exists>b. pl_serialize L m = Some b \<and> pl_parse L (GetTypeName m) b = Some m)) \<and>
     (\<forall>t b m. pl_parse L t b = Some m \<longrightarrow> GetTypeName m = t) \<and>
     (\<forall>m. pl_valid L m \<longrightarrow> pl_unpack_any L (GetTypeName m) (pl_pack_any L m) = Some m) \<and>
     (\<forall>m t. t \<noteq> GetTypeName m \<longrightarrow> pl_unpack_any L t (pl_pack_any L m) = None) \<and>
     (\<forall>t a m. pl_unpack_any L t a = Some m \<longrightarrow> GetTypeName m = t)"

lemma proto_laws_serialize:
  "proto_laws L \<Longrightarrow> pl_valid L m \<Longrightarrow>
   \<exists>b. pl_serialize L m = Some b \<and> pl_parse L (GetTypeName m) b = Some m"
  by (simp add: proto_laws_def)

lemma proto_laws_any:
  "proto_laws L \<Longrightarrow> pl_valid L m \<Longrightarrow> t = GetTypeName m \<Longrightarrow>
   pl_unpack_any L t (pl_pack_any L m) = Some m"
  by (simp add: proto_laws_def)

lemma proto_laws_other_type:
  "proto_laws L \<Longrightarrow> t \<noteq> GetTypeName m \<Longrightarrow> pl_unpack_any L t (pl_pack_any L m) = None"
  by (simp add: proto_laws_def)

text \<open>
  A runtime that satisfies the laws for a given list of messages: each is encoded by its
  position. It serves as the concrete instance where a lemma is applied.
\<close>

fun position :: "'a \<Rightarrow> 'a list \<Rightarrow> nat" where
  "position x [] = 0"
| "position x (y # ys) = (if x = y then 0 else Suc (position x ys))"

definition code_of :: "proto_message list \<Rightarrow> proto_message \<Rightarrow> string" where
  "code_of ms m = replicate (position m ms) (CHR ''x'')"

definition decode_as :: "proto_message list \<Rightarrow> string \<Rightarrow> string \<Rightarrow> proto_message option" where
  "decode_as ms t b =
     (if length b < length ms \<and> GetTypeName (ms ! length b) = t then Some (ms ! length b) else None)"

definition table_lib :: "proto_message list \<Rightarrow> proto_lib" where
  "table_lib ms = \<lparr>pl_valid = (\<lambda>m. m \<in> set ms),
     pl_serialize = (\<lambda>m. if m \<in> set ms then Some (code_of ms m) else None),
     pl_parse = decode_as ms,
     pl_pack_any = (\<lambda>m. \<lparr>any_type_url = ''type.googleapis.com/'' @ GetTypeName m,
                         any_value = code_of ms m\<rparr>),
     pl_unpack_any = (\<lambda>t a. if any_type_url a = ''type.googleapis.com/'' @ t
                            then decode_as ms t (any_value a) else None)\<rparr>"

lemma position_nth: "m \<in> set ms \<Longrightarrow> position m ms < length ms \<and> ms ! position m ms = m"
  by (induction ms) auto

lemma decode_code: "m \<in> set ms \<Longrightarrow> decode_as ms (GetTypeName m) (code_of ms m) = Some m"
  using position_nth [of m ms] by (simp add: decode_as_def code_of_def)

lemma table_lib_laws: "proto_laws (table_lib ms)"
  by (auto simp: proto_laws_def table_lib_def decode_code) (auto simp: decode_as_def split: if_splits)

section \<open>Packet flags\<close>

type_synonym packet_flags = int32

definition kEmpty :: packet_flags where "kEmpty = 0"
definition kIsFrameHead :: packet_flags where "kIsFrameHead = push_bit 0 1"
definition kIsKeyFrame :: packet_flags where "kIsKeyFrame = push_bit 1 1"

definition set_flags :: "int32 \<Rightarrow> packet \<Rightarrow> packet" where
  "set_flags f p = p\<lparr>p_header := (p_header p)\<lparr>h_flags := f\<rparr>\<rparr>"

definition SetPacketFlags :: "packet_flags \<Rightarrow> packet \<Rightarrow> packet" where
  "SetPacketFlags pflags p = set_flags (or (h_flags (p_header p)) pflags) p"

definition UnsetPacketFlags :: "packet_flags \<Rightarrow> packet \<Rightarrow> packet" where
  "UnsetPacketFlags pflags p = set_flags (and (h_flags (p_header p)) (not pflags)) p"

definition IsPacketFlagsSet :: "packet_flags \<Rightarrow> packet \<Rightarrow> bool" where
  "IsPacketFlagsSet pflags p \<longleftrightarrow> and (h_flags (p_header p)) pflags = pflags"

definition ClearPacketFlags :: "packet \<Rightarrow> packet" where
  "ClearPacketFlags p = set_flags kEmpty p"

definition RestoreDefaultPacketFlags :: "packet option \<Rightarrow> status \<times> packet option" where
  "RestoreDefaultPacketFlags ptr = (case ptr of
      None \<Rightarrow> (InvalidArgumentError ''Given a nullptr to a Packet'', None)
    | Some p \<Rightarrow>
        (let p1 = ClearPacketFlags p in
         (OkStatus, Some
           (case packet_type_of p1 of
              PACKET_TYPE_JPEG \<Rightarrow> SetPacketFlags (or kIsFrameHead kIsKeyFrame) p1
            | PACKET_TYPE_RAW_IMAGE \<Rightarrow> SetPacketFlags (or kIsFrameHead kIsKeyFrame) p1
            | PACKET_TYPE_PROTOBUF \<Rightarrow> SetPacketFlags (or kIsFrameHead kIsKeyFrame) p1
            | PACKET_TYPE_STRING \<Rightarrow> SetPacketFlags (or kIsFrameHead kIsKeyFrame) p1
            | PACKET_TYPE_GSTREAMER_BUFFER \<Rightarrow> SetPacketFlags (or kIsFrameHead kIsKeyFrame) p1
            | _ \<Rightarrow> p1))))"

lemma set_flags_other [simp]:
  "h_flags (p_header (set_flags f p)) = f"
  "p_payload (set_flags f p) = p_payload p"
  "h_type (p_header (set_flags f p)) = h_type (p_header p)"
  "h_timestamp (p_header (set_flags f p)) = h_timestamp (p_header p)"
  "h_addenda (p_header (set_flags f p)) = h_addenda (p_header p)"
  by (simp_all add: set_flags_def)

lemma or_and_absorb: "and (or (a :: int32) f) f = f"
  by (rule bit_word_eqI) (auto simp: bit_and_iff bit_or_iff)

lemma unset_and: "and (and (a :: int32) (not f)) f = 0"
  by (rule bit_word_eqI) (auto simp: bit_and_iff bit_not_iff)

lemma disjoint_after_unset:
  "and f (g :: int32) = 0 \<Longrightarrow> and (and a (not f)) g = and a g"
  by (rule bit_word_eqI) (auto simp: bit_eq_iff bit_and_iff bit_not_iff)

lemma disjoint_after_set:
  "and f (g :: int32) = 0 \<Longrightarrow> and (or a f) g = and a g"
  by (rule bit_word_eqI) (auto simp: bit_eq_iff bit_and_iff bit_or_iff)

text \<open>
  C37. Flags behave as a set of bits: what is set tests as set, what is unset does not (unless
  empty), and flags that share no bit with the change, the payload, the type, the timestamp and
  the addenda stay as they were.
\<close>

theorem packet_flags_set_unset:
  "IsPacketFlagsSet f (SetPacketFlags f p) \<and>
   (IsPacketFlagsSet f (UnsetPacketFlags f p) \<longleftrightarrow> f = kEmpty) \<and>
   (\<forall>g. and f g = 0 \<longrightarrow>
      IsPacketFlagsSet g (SetPacketFlags f p) = IsPacketFlagsSet g p \<and>
      IsPacketFlagsSet g (UnsetPacketFlags f p) = IsPacketFlagsSet g p) \<and>
   p_payload (SetPacketFlags f p) = p_payload p \<and>
   h_type (p_header (SetPacketFlags f p)) = h_type (p_header p) \<and>
   h_addenda (p_header (UnsetPacketFlags f p)) = h_addenda (p_header p)"
  by (auto simp: IsPacketFlagsSet_def SetPacketFlags_def UnsetPacketFlags_def kEmpty_def
      or_and_absorb unset_and disjoint_after_set disjoint_after_unset)

theorem packet_flags_set_unset_witness:
  "IsPacketFlagsSet kIsKeyFrame (UnsetPacketFlags kIsFrameHead (SetPacketFlags kIsKeyFrame empty_packet))
     = IsPacketFlagsSet kIsKeyFrame (SetPacketFlags kIsKeyFrame empty_packet)"
proof -
  have "and kIsFrameHead kIsKeyFrame = 0" by (simp add: kIsFrameHead_def kIsKeyFrame_def)
  then show ?thesis
    using packet_flags_set_unset [of kIsFrameHead "SetPacketFlags kIsKeyFrame empty_packet"] by blast
qed

end
