(* ===== verification/Raw_Image.thy ===== *)
theory Raw_Image
  imports Packet_Core
begin

text \<open>
  \<open>base/types/raw_image_helpers.cc\<close>, \<open>raw_image.h\<close>, \<open>raw_image.cc\<close>: the descriptor
  of a raw image, the size of its buffer computed with overflow checks, and the class
  \<open>RawImage\<close>, whose constructors end the process on an invalid descriptor.
\<close>

section \<open>Sizes\<close>

fun GetNumChannels :: "raw_image_format \<Rightarrow> int32" where
  "GetNumChannels RAW_IMAGE_FORMAT_SRGB = 3"
| "GetNumChannels RAW_IMAGE_FORMAT_UNKNOWN = 1"
| "GetNumChannels (RAW_IMAGE_FORMAT_UNNAMED n) = 1"

definition Validate :: "raw_image_descriptor \<Rightarrow> status" where
  "Validate desc =
     (if sint (rid_height desc) < 0
      then InvalidArgumentError ''Given a raw image descriptor of negative height''
      else if sint (rid_width desc) < 0
      then InvalidArgumentError ''Given a raw image descriptor of negative width''
      else OkStatus)"

definition GetBufferSize :: "raw_image_descriptor \<Rightarrow> int32 result" where
  "GetBufferSize desc =
     (let height = rid_height desc; width = rid_width desc;
          channels = GetNumChannels (rid_format desc)
      in if sint height < 0 \<or> sint width < 0 \<or> sint channels < 0
         then Inl (InvalidArgumentError
           (''The given raw image descriptor has negative dimensions/channels (height='' @
            show_int (sint height) @ '', width='' @ show_int (sint width) @ '', channels='' @
            show_int (sint channels) @ ''). They must be non-negative.''))
         else
           (case mul_overflow height width of
              (True, _) \<Rightarrow> Inl (InvalidArgumentError
                (''Multiplication overflow when multiplying height ('' @ show_int (sint height) @
                 '') and width ('' @ show_int (sint width) @
                 ''). Please contact us if you really need an image this large.''))
            | (False, pixels) \<Rightarrow>
                (case mul_overflow pixels channels of
                   (True, _) \<Rightarrow> Inl (InvalidArgumentError
                     (''Multiplication overflow when multiply number of pixels ('' @
                      show_int (sint pixels) @ '') and the number of channels ('' @
                      show_int (sint channels) @
                      ''), Please contact us if you really need an image this large.''))
                 | (False, buf_size) \<Rightarrow> Inr buf_size)))"

section \<open>The class\<close>

record raw_image =
  ri_height :: int32
  ri_width :: int32
  ri_channels :: int32
  ri_format :: raw_image_format
  ri_data :: string

text \<open>Conversion of a non-negative \<open>int\<close> to \<open>size_t\<close>.\<close>

definition size_of_int :: "int32 \<Rightarrow> nat" where
  "size_of_int n = unat (word_of_int (sint n) :: size_t)"

definition RawImage_desc :: "raw_image_descriptor \<Rightarrow> raw_image outcome" where
  "RawImage_desc desc =
     (if \<not> status_ok (Validate desc) then Fatal (status_ToString (Validate desc))
      else case GetBufferSize desc of
        Inl st \<Rightarrow> Fatal (status_ToString st)
      | Inr n \<Rightarrow> Returns \<lparr>ri_height = rid_height desc, ri_width = rid_width desc,
                          ri_channels = GetNumChannels (rid_format desc), ri_format = rid_format desc,
                          ri_data = replicate (size_of_int n) (CHR 0x00)\<rparr>)"

definition RawImage_dims :: "int32 \<Rightarrow> int32 \<Rightarrow> raw_image_format \<Rightarrow> raw_image outcome" where
  "RawImage_dims height width format =
     RawImage_desc \<lparr>rid_format = format, rid_height = height, rid_width = width\<rparr>"

definition RawImage_default :: "raw_image outcome" where
  "RawImage_default = RawImage_dims 0 0 RAW_IMAGE_FORMAT_SRGB"

definition RawImage_bytes :: "raw_image_descriptor \<Rightarrow> string \<Rightarrow> raw_image outcome" where
  "RawImage_bytes desc bytes =
     (if \<not> status_ok (Validate desc) then Fatal (status_ToString (Validate desc))
      else case GetBufferSize desc of
        Inl st \<Rightarrow> Fatal (status_ToString st)
      | Inr n \<Rightarrow>
          if size_of_int n \<noteq> length bytes
          then Fatal (''Attempted to move construct a RawImage expecting '' @ show_int (sint n) @
                      '' bytes with a string containing '' @ show_nat (length bytes) @ '' bytes'')
          else Returns \<lparr>ri_height = rid_height desc, ri_width = rid_width desc,
                        ri_channels = GetNumChannels (rid_format desc), ri_format = rid_format desc,
                        ri_data = bytes\<rparr>)"

text \<open>\<open>operator()(i)\<close>, defined for \<open>i < size()\<close>, and a write through it.\<close>

definition ri_size :: "raw_image \<Rightarrow> nat" where
  "ri_size img = length (ri_data img)"

definition ri_at :: "raw_image \<Rightarrow> nat \<Rightarrow> char option" where
  "ri_at img i = (if i < length (ri_data img) then Some (ri_data img ! i) else None)"

definition ri_set :: "raw_image \<Rightarrow> nat \<Rightarrow> char \<Rightarrow> raw_image option" where
  "ri_set img i c = (if i < length (ri_data img)
     then Some (img\<lparr>ri_data := (ri_data img)[i := c]\<rparr>) else None)"

definition descriptor_of_image :: "raw_image \<Rightarrow> raw_image_descriptor" where
  "descriptor_of_image img =
     \<lparr>rid_format = ri_format img, rid_height = ri_height img, rid_width = ri_width img\<rparr>"

section \<open>The invariant\<close>

definition pixel_bytes :: "raw_image_descriptor \<Rightarrow> int" where
  "pixel_bytes d = sint (rid_height d) * sint (rid_width d) * sint (GetNumChannels (rid_format d))"

definition desc_ok :: "raw_image_descriptor \<Rightarrow> bool" where
  "desc_ok d \<longleftrightarrow> 0 \<le> sint (rid_height d) \<and> 0 \<le> sint (rid_width d) \<and> pixel_bytes d \<le> int_max"

definition raw_image_inv :: "raw_image \<Rightarrow> bool" where
  "raw_image_inv img \<longleftrightarrow> desc_ok (descriptor_of_image img) \<and>
     ri_channels img = GetNumChannels (ri_format img) \<and>
     int (length (ri_data img)) = pixel_bytes (descriptor_of_image img)"

lemma sint_num_channels: "sint (GetNumChannels f) = 3 \<or> sint (GetNumChannels f) = 1"
  by (cases f) simp_all

lemma size_of_int_nat: "0 \<le> sint n \<Longrightarrow> size_of_int n = nat (sint n)"
proof -
  assume "0 \<le> sint n"
  then have "uint (word_of_int (sint n) :: size_t) = sint n"
    using sint_int32_bounds(2) [of n] by (subst uint_word_of_int) simp
  then show ?thesis by (simp add: size_of_int_def unat_eq_nat_uint)
qed

lemma mul_overflow_fits:
  "fits_int32 (sint a * sint b) \<Longrightarrow> mul_overflow a b = (False, a * b) \<and> sint (a * b) = sint a * sint b"
  by (simp add: mul_overflow_def sint_mult_fits)

lemma mul_overflow_big: "\<not> fits_int32 (sint a * sint b) \<Longrightarrow> \<exists>r. mul_overflow a b = (True, r)"
  by (simp add: mul_overflow_def)

lemma is_invalid_argument [simp]: "IsInvalidArgument (InvalidArgumentError m)"
  by (simp add: InvalidArgumentError_def IsInvalidArgument_def)

lemma Validate_ok_iff:
  "status_ok (Validate d) \<longleftrightarrow> 0 \<le> sint (rid_height d) \<and> 0 \<le> sint (rid_width d)"
  by (auto simp: Validate_def)

text \<open>The buffer size exists exactly for the descriptors whose product fits.\<close>

lemma GetBufferSize_ok:
  assumes "desc_ok d"
  shows "\<exists>n. GetBufferSize d = Inr n \<and> sint n = pixel_bytes d"
proof -
  define h w c where "h = sint (rid_height d)" and "w = sint (rid_width d)"
    and "c = sint (GetNumChannels (rid_format d))"
  have pos: "0 \<le> h" "0 \<le> w" "1 \<le> c" "h * w * c \<le> int_max"
    using assms sint_num_channels [of "rid_format d"]
    by (auto simp: desc_ok_def pixel_bytes_def h_def w_def c_def)
  have hw: "0 \<le> h * w" using pos by simp
  have "h * w \<le> h * w * c" using hw pos(3) by (simp add: mult_le_cancel_left1)
  with pos hw have fits: "fits_int32 (h * w)" "fits_int32 (h * w * c)"
    by (auto simp: fits_int32_def int_max_def order_trans [OF _ mult_nonneg_nonneg])
  define px where "px = rid_height d * rid_width d"
  have px: "mul_overflow (rid_height d) (rid_width d) = (False, px)" "sint px = h * w"
    using mul_overflow_fits [of "rid_height d" "rid_width d"] fits(1) by (simp_all add: px_def h_def w_def)
  define n where "n = px * GetNumChannels (rid_format d)"
  have n: "mul_overflow px (GetNumChannels (rid_format d)) = (False, n)" "sint n = h * w * c"
    using mul_overflow_fits [of px "GetNumChannels (rid_format d)"] fits(2) px(2)
    by (simp_all add: n_def c_def)
  show ?thesis
    using px n pos by (simp add: GetBufferSize_def Let_def h_def w_def c_def pixel_bytes_def)
qed

lemma GetBufferSize_error:
  assumes "\<not> desc_ok d"
  shows "\<exists>st. GetBufferSize d = Inl st \<and> IsInvalidArgument st"
proof (cases "sint (rid_height d) < 0 \<or> sint (rid_width d) < 0")
  case True
  then show ?thesis by (auto simp: GetBufferSize_def Let_def)
next
  case False
  let ?c = "GetNumChannels (rid_format d)"
  have big: "\<not> fits_int32 (sint (rid_height d) * sint (rid_width d) * sint ?c)" and c: "\<not> sint ?c < 0"
    using assms False sint_num_channels [of "rid_format d"]
    by (auto simp: desc_ok_def pixel_bytes_def fits_int32_def int_max_def)
  show ?thesis
  proof (cases "fits_int32 (sint (rid_height d) * sint (rid_width d))")
    case fits: False
    from mul_overflow_big [OF this] False c show ?thesis by (auto simp: GetBufferSize_def Let_def)
  next
    case True
    note px = mul_overflow_fits [OF True]
    then obtain r where "mul_overflow (rid_height d * rid_width d) ?c = (True, r)"
      using mul_overflow_big [of "rid_height d * rid_width d" ?c] big by auto
    with px False c show ?thesis by (auto simp: GetBufferSize_def Let_def)
  qed
qed

lemma RawImage_desc_ok:
  assumes "desc_ok d"
  shows "\<exists>img. RawImage_desc d = Returns img \<and> raw_image_inv img \<and> descriptor_of_image img = d \<and>
           ri_data img = replicate (nat (pixel_bytes d)) (CHR 0x00)"
proof -
  obtain n where n: "GetBufferSize d = Inr n" "sint n = pixel_bytes d"
    using GetBufferSize_ok [OF assms] by blast
  have "0 \<le> pixel_bytes d"
    using assms sint_num_channels [of "rid_format d"] by (auto simp: desc_ok_def pixel_bytes_def)
  with n assms show ?thesis
    by (auto simp: RawImage_desc_def Validate_ok_iff desc_ok_def size_of_int_nat raw_image_inv_def
        descriptor_of_image_def pixel_bytes_def)
qed

lemma RawImage_bytes_ok:
  assumes "desc_ok d" and "int (length bytes) = pixel_bytes d"
  shows "RawImage_bytes d bytes = Returns \<lparr>ri_height = rid_height d, ri_width = rid_width d,
           ri_channels = GetNumChannels (rid_format d), ri_format = rid_format d, ri_data = bytes\<rparr>"
proof -
  obtain n where n: "GetBufferSize d = Inr n" "sint n = pixel_bytes d"
    using GetBufferSize_ok [OF assms(1)] by blast
  with assms have "size_of_int n = length bytes" by (simp add: size_of_int_nat flip: assms(2))
  with n assms(1) show ?thesis
    by (simp add: RawImage_bytes_def Validate_ok_iff desc_ok_def)
qed

text \<open>
  C16. \<open>GetBufferSize\<close> returns height times width times channels exactly when the dimensions are
  not negative and the product fits into an \<open>int\<close>, and an invalid-argument error otherwise:
  no overflow goes unnoticed, in the intermediate product either.
\<close>

theorem get_buffer_size_exact:
  "case GetBufferSize d of
     Inr n \<Rightarrow> 0 \<le> sint (rid_height d) \<and> 0 \<le> sint (rid_width d) \<and>
        sint n = sint (rid_height d) * sint (rid_width d) *
          (if rid_format d = RAW_IMAGE_FORMAT_SRGB then 3 else 1)
   | Inl st \<Rightarrow> IsInvalidArgument st \<and>
        (sint (rid_height d) < 0 \<or> sint (rid_width d) < 0 \<or>
         int_max < sint (rid_height d) * sint (rid_width d) *
           (if rid_format d = RAW_IMAGE_FORMAT_SRGB then 3 else 1))"
proof -
  have ch: "sint (GetNumChannels (rid_format d)) = (if rid_format d = RAW_IMAGE_FORMAT_SRGB then 3 else 1)"
    by (cases "rid_format d") simp_all
  show ?thesis
  proof (cases "desc_ok d")
    case True
    with GetBufferSize_ok [OF True] ch show ?thesis by (auto simp: desc_ok_def pixel_bytes_def)
  next
    case False
    with GetBufferSize_error [OF False] ch show ?thesis
      by (auto simp: desc_ok_def pixel_bytes_def)
  qed
qed

end
