(* ===== verification/Packet_Types.thy ===== *)
theory Packet_Types
  imports Raw_Image
begin

text \<open>
  \<open>base/types/packet_types/*\<close> and the value types \<open>eos.h\<close>, \<open>gstreamer_buffer.h\<close>,
  \<open>jpeg_frame.h\<close>: how a value of a C++ type is packed into a packet and unpacked again.

  The traits class and the overloads of \<open>PackPayload\<close> and \<open>UnpackPayload\<close> for a type are a
  record \<open>packet_traits\<close>; \<open>Pack\<close> and \<open>Unpack\<close> are the templates over it. The locale
  \<open>packet_type\<close> is the contract of such a record, with one interpretation for each of the six
  types of the source. A pointer argument is an \<open>option\<close> and what it points to is returned.
\<close>

section \<open>Traits, Pack and Unpack\<close>

record 't packet_traits =
  tr_type_id :: packet_type_id
  tr_type_name :: string
  tr_descriptor :: "'t \<Rightarrow> any option \<Rightarrow> status \<times> any option"
  tr_pack :: "'t \<Rightarrow> packet option \<Rightarrow> status \<times> packet option"
  tr_unpack :: "packet \<Rightarrow> 't option \<Rightarrow> (status \<times> 't option) outcome"
  tr_unpack_move :: "packet \<Rightarrow> 't option \<Rightarrow> (status \<times> 't option) outcome"

definition set_type_id :: "packet_type_id \<Rightarrow> packet \<Rightarrow> packet" where
  "set_type_id i p = p\<lparr>p_header := (p_header p)\<lparr>h_type := (h_type (p_header p))\<lparr>pt_type_id := i\<rparr>\<rparr>\<rparr>"

definition set_descriptor :: "any \<Rightarrow> packet \<Rightarrow> packet" where
  "set_descriptor a p =
     p\<lparr>p_header := (p_header p)\<lparr>h_type := (h_type (p_header p))\<lparr>pt_type_descriptor := a\<rparr>\<rparr>\<rparr>"

definition Pack :: "'t packet_traits \<Rightarrow> 't \<Rightarrow> packet option \<Rightarrow> status \<times> packet option" where
  "Pack tr t ptr = (case ptr of
      None \<Rightarrow> (InvalidArgumentError ''Given a nullptr to a Packet'', None)
    | Some p \<Rightarrow>
        (let p1 = set_type_id (tr_type_id tr) p in
         case tr_descriptor tr t (Some (descriptor_of p1)) of (st, a) \<Rightarrow>
           let p2 = (case a of None \<Rightarrow> p1 | Some a' \<Rightarrow> set_descriptor a' p1) in
           if \<not> status_ok st
           then (InternalError ''Failed to pack the packet type descriptor'', Some p2)
           else (case tr_pack tr t (Some p2) of (st', p3) \<Rightarrow>
                   if \<not> status_ok st'
                   then (InternalError ''Failed to pack the packet payload'', p3)
                   else (OkStatus, p3))))"

definition ValidateUnpackArgs :: "'t packet_traits \<Rightarrow> packet \<Rightarrow> 't option \<Rightarrow> status" where
  "ValidateUnpackArgs tr p t =
     (if t = None then InvalidArgumentError ''Given a nullptr to the desitination object''
      else if packet_type_of p \<noteq> tr_type_id tr
      then InvalidArgumentError
        (''Given a Packet of type '' @ PacketTypeId_Name (packet_type_of p) @
         '' while the destination object requires a type of '' @ PacketTypeId_Name (tr_type_id tr))
      else OkStatus)"

definition unpack_status :: "(status \<times> 't option) outcome \<Rightarrow> (status \<times> 't option) outcome" where
  "unpack_status r = outcome_bind r (\<lambda>(st, t).
     if \<not> status_ok st then Returns (UnknownError ''Failed to unpack the packet payload'', t)
     else Returns (OkStatus, t))"

definition Unpack :: "'t packet_traits \<Rightarrow> packet \<Rightarrow> 't option \<Rightarrow> (status \<times> 't option) outcome" where
  "Unpack tr p t = (let v = ValidateUnpackArgs tr p t in
     if \<not> status_ok v then Returns (v, t) else unpack_status (tr_unpack tr p t))"

definition Unpack_move :: "'t packet_traits \<Rightarrow> packet \<Rightarrow> 't option \<Rightarrow> (status \<times> 't option) outcome" where
  "Unpack_move tr p t = (let v = ValidateUnpackArgs tr p t in
     if \<not> status_ok v then Returns (v, t) else unpack_status (tr_unpack_move tr p t))"

lemma unpack_status_Returns [simp]:
  "unpack_status (Returns (st, t)) =
   Returns (if status_ok st then OkStatus else UnknownError ''Failed to unpack the packet payload'', t)"
  by (simp add: unpack_status_def)

section \<open>Strings\<close>

definition PackPayload_string :: "string \<Rightarrow> packet option \<Rightarrow> status \<times> packet option" where
  "PackPayload_string s ptr = (case ptr of
      None \<Rightarrow> (InvalidArgumentError ''Given a nullptr to a Packet'', None)
    | Some p \<Rightarrow> (OkStatus, Some (p\<lparr>p_payload := s\<rparr>)))"

definition UnpackPayload_string :: "packet \<Rightarrow> string option \<Rightarrow> (status \<times> string option) outcome" where
  "UnpackPayload_string p to = Returns (case to of
      None \<Rightarrow> (InvalidArgumentError ''Given a nullptr to a std::string'', None)
    | Some _ \<Rightarrow> (OkStatus, Some (p_payload p)))"

definition string_traits :: "string packet_traits" where
  "string_traits = \<lparr>tr_type_id = PACKET_TYPE_STRING, tr_type_name = ''string'',
     tr_descriptor = (\<lambda>s any. (OkStatus, any)),
     tr_pack = PackPayload_string, tr_unpack = UnpackPayload_string,
     tr_unpack_move = UnpackPayload_string\<rparr>"

section \<open>Jpeg frames\<close>

datatype jpeg_frame = JpegFrame (jf_bytes: string)

definition PackPayload_jpeg :: "jpeg_frame \<Rightarrow> packet option \<Rightarrow> status \<times> packet option" where
  "PackPayload_jpeg j ptr = (case ptr of
      None \<Rightarrow> (InvalidArgumentError ''Given a nullptr to a Packet'', None)
    | Some p \<Rightarrow> (OkStatus, Some (p\<lparr>p_payload := jf_bytes j\<rparr>)))"

definition UnpackPayload_jpeg ::
    "packet \<Rightarrow> jpeg_frame option \<Rightarrow> (status \<times> jpeg_frame option) outcome" where
  "UnpackPayload_jpeg p to = Returns (case to of
      None \<Rightarrow> (InvalidArgumentError ''Given a nullptr to a JpegFrame'', None)
    | Some _ \<Rightarrow> (OkStatus, Some (JpegFrame (p_payload p))))"

definition jpeg_traits :: "jpeg_frame packet_traits" where
  "jpeg_traits = \<lparr>tr_type_id = PACKET_TYPE_JPEG, tr_type_name = ''JpegFrame'',
     tr_descriptor = (\<lambda>j any. (OkStatus, any)),
     tr_pack = PackPayload_jpeg, tr_unpack = UnpackPayload_jpeg,
     tr_unpack_move = UnpackPayload_jpeg\<rparr>"

section \<open>Gstreamer buffers\<close>

record gstreamer_buffer =
  gb_caps :: string
  gb_bytes :: string

definition set_caps_string :: "string \<Rightarrow> gstreamer_buffer \<Rightarrow> gstreamer_buffer" where
  "set_caps_string c b = b\<lparr>gb_caps := c\<rparr>"

definition gb_assign :: "string \<Rightarrow> gstreamer_buffer \<Rightarrow> gstreamer_buffer" where
  "gb_assign s b = b\<lparr>gb_bytes := s\<rparr>"

definition descriptor_gst ::
    "proto_lib \<Rightarrow> gstreamer_buffer \<Rightarrow> any option \<Rightarrow> status \<times> any option" where
  "descriptor_gst L b any = (case any of
      None \<Rightarrow> (InvalidArgumentError ''Given a nullptr to a google::protobuf::Any'', None)
    | Some _ \<Rightarrow> (OkStatus, Some (pl_pack_any L (GstreamerBufferPacketTypeDescriptor (gb_caps b)))))"

definition GetTypeDescriptor :: "proto_lib \<Rightarrow> packet \<Rightarrow> string result" where
  "GetTypeDescriptor L p =
     (case pl_unpack_any L ''aistreams.GstreamerBufferPacketTypeDescriptor'' (descriptor_of p) of
        Some (GstreamerBufferPacketTypeDescriptor caps) \<Rightarrow> Inr caps
      | _ \<Rightarrow> Inl (InvalidArgumentError
          ''Failed to Unpack the type decriptor as a GstreamerBufferPacketTypeDescriptor''))"

definition PackPayload_gst :: "gstreamer_buffer \<Rightarrow> packet option \<Rightarrow> status \<times> packet option" where
  "PackPayload_gst b ptr = (case ptr of
      None \<Rightarrow> (InvalidArgumentError ''Given a nullptr to a Packet'', None)
    | Some p \<Rightarrow> (OkStatus, Some (p\<lparr>p_payload := gb_bytes b\<rparr>)))"

definition UnpackPayload_gst ::
    "proto_lib \<Rightarrow> packet \<Rightarrow> gstreamer_buffer option \<Rightarrow> (status \<times> gstreamer_buffer option) outcome" where
  "UnpackPayload_gst L p to = Returns (case to of
      None \<Rightarrow> (InvalidArgumentError ''Given a nullptr to a GstreamerBuffer'', None)
    | Some b \<Rightarrow> (case GetTypeDescriptor L p of
          Inl st \<Rightarrow> (st, Some b)
        | Inr caps \<Rightarrow> (OkStatus, Some (gb_assign (p_payload p) (set_caps_string caps b)))))"

definition gst_traits :: "proto_lib \<Rightarrow> gstreamer_buffer packet_traits" where
  "gst_traits L = \<lparr>tr_type_id = PACKET_TYPE_GSTREAMER_BUFFER, tr_type_name = ''GstreamerBuffer'',
     tr_descriptor = descriptor_gst L,
     tr_pack = PackPayload_gst, tr_unpack = UnpackPayload_gst L,
     tr_unpack_move = UnpackPayload_gst L\<rparr>"

section \<open>End of stream\<close>

datatype eos = Eos (eos_reason: string)

definition set_reason :: "string \<Rightarrow> eos \<Rightarrow> eos" where
  "set_reason r e = Eos r"

definition descriptor_eos :: "proto_lib \<Rightarrow> eos \<Rightarrow> any option \<Rightarrow> status \<times> any option" where
  "descriptor_eos L e any = (case any of
      None \<Rightarrow> (InvalidArgumentError ''Given a nullptr to a google::protobuf::Any'', None)
    | Some _ \<Rightarrow> (OkStatus, Some (pl_pack_any L (ControlSignalPacketTypeDescriptor CONTROL_SIGNAL_EOS))))"

definition ValidateTypeDescriptor :: "proto_lib \<Rightarrow> packet \<Rightarrow> status" where
  "ValidateTypeDescriptor L p =
     (case pl_unpack_any L ''aistreams.ControlSignalPacketTypeDescriptor'' (descriptor_of p) of
        Some (ControlSignalPacketTypeDescriptor c) \<Rightarrow>
          if c \<noteq> CONTROL_SIGNAL_EOS
          then InvalidArgumentError (''Given the ControlSignalTypeId '' @ ControlSignalTypeId_Name c @
                 '' but expected '' @ ControlSignalTypeId_Name CONTROL_SIGNAL_EOS)
          else OkStatus
      | _ \<Rightarrow> InvalidArgumentError
          ''Failed to Unpack the type decriptor as a ControlSignalTypeDescriptor'')"

text \<open>\<open>SerializeToString\<close> clears its output first.\<close>

definition PackPayload_eos :: "proto_lib \<Rightarrow> eos \<Rightarrow> packet option \<Rightarrow> status \<times> packet option" where
  "PackPayload_eos L e ptr = (case ptr of
      None \<Rightarrow> (InvalidArgumentError ''Given a nullptr to a Packet'', None)
    | Some p \<Rightarrow> (case pl_serialize L (EosValue (eos_reason e)) of
          None \<Rightarrow> (InternalError ''Failed to serialize the EosValue into the packet payload'',
                   Some (p\<lparr>p_payload := []\<rparr>))
        | Some b \<Rightarrow> (OkStatus, Some (p\<lparr>p_payload := b\<rparr>))))"

definition UnpackPayload_eos :: "proto_lib \<Rightarrow> packet \<Rightarrow> eos option \<Rightarrow> (status \<times> eos option) outcome" where
  "UnpackPayload_eos L p to = Returns (case to of
      None \<Rightarrow> (InvalidArgumentError ''Given a nullptr to an Eos'', None)
    | Some e \<Rightarrow>
        (if \<not> status_ok (ValidateTypeDescriptor L p)
         then (InvalidArgumentError ''Failed to validate the packet type descriptor'', Some e)
         else (case pl_parse L ''aistreams.EosValue'' (p_payload p) of
                 Some (EosValue r) \<Rightarrow> (OkStatus, Some (Eos r))
               | _ \<Rightarrow> (InternalError ''Failed to parse the Eos' value'', Some e))))"

definition eos_traits :: "proto_lib \<Rightarrow> eos packet_traits" where
  "eos_traits L = \<lparr>tr_type_id = PACKET_TYPE_CONTROL_SIGNAL, tr_type_name = ''EOS'',
     tr_descriptor = descriptor_eos L,
     tr_pack = PackPayload_eos L, tr_unpack = UnpackPayload_eos L,
     tr_unpack_move = UnpackPayload_eos L\<rparr>"

section \<open>Raw images\<close>

definition descriptor_raw :: "proto_lib \<Rightarrow> raw_image \<Rightarrow> any option \<Rightarrow> status \<times> any option" where
  "descriptor_raw L img any = (case any of
      None \<Rightarrow> (InvalidArgumentError ''Given a nullptr to a google::protobuf::Any'', None)
    | Some _ \<Rightarrow> (OkStatus, Some (pl_pack_any L (RawImagePacketTypeDescriptor
          \<lparr>rid_format = ri_format img, rid_height = ri_height img, rid_width = ri_width img\<rparr>))))"

definition ValidateAndGetDescriptor :: "proto_lib \<Rightarrow> packet \<Rightarrow> raw_image_descriptor result" where
  "ValidateAndGetDescriptor L p =
     (case pl_unpack_any L ''aistreams.RawImagePacketTypeDescriptor'' (descriptor_of p) of
        Some (RawImagePacketTypeDescriptor d) \<Rightarrow>
          if \<not> status_ok (Validate d)
          then Inl (InvalidArgumentError ''Given an invalid RawImageDescriptor'')
          else (case GetBufferSize d of
                  Inl st \<Rightarrow> Inl st
                | Inr n \<Rightarrow>
                    if length (p_payload p) \<noteq> size_of_int n
                    then Inl (InvalidArgumentError
                      (''The given Packet's payload size is inconsistent with its RawImageDescriptor ('' @
                       show_nat (length (p_payload p)) @ '' vs '' @ show_int (sint n) @ '')''))
                    else Inr d)
      | _ \<Rightarrow> Inl (InvalidArgumentError
          ''Failed to Unpack the type decriptor as a RawImagePacketTypeDescriptor''))"

definition PackPayload_raw :: "raw_image \<Rightarrow> packet option \<Rightarrow> status \<times> packet option" where
  "PackPayload_raw img ptr = (case ptr of
      None \<Rightarrow> (InvalidArgumentError ''Given a nullptr to a Packet'', None)
    | Some p \<Rightarrow> (OkStatus, Some (p\<lparr>p_payload := ri_data img\<rparr>)))"

text \<open>The copying version fills a new image; the moving version constructs it from the bytes.\<close>

definition UnpackPayload_raw ::
    "proto_lib \<Rightarrow> packet \<Rightarrow> raw_image option \<Rightarrow> (status \<times> raw_image option) outcome" where
  "UnpackPayload_raw L p to = (case to of
      None \<Rightarrow> Returns (InvalidArgumentError ''Given a nullptr to a RawImage'', None)
    | Some img \<Rightarrow> (case ValidateAndGetDescriptor L p of
          Inl st \<Rightarrow> Returns (st, Some img)
        | Inr d \<Rightarrow> outcome_bind (RawImage_desc d) (\<lambda>from.
            Returns (OkStatus, Some (from\<lparr>ri_data := p_payload p @
              drop (length (p_payload p)) (ri_data from)\<rparr>)))))"

definition UnpackPayload_raw_move ::
    "proto_lib \<Rightarrow> packet \<Rightarrow> raw_image option \<Rightarrow> (status \<times> raw_image option) outcome" where
  "UnpackPayload_raw_move L p to = (case to of
      None \<Rightarrow> Returns (InvalidArgumentError ''Given a nullptr to a RawImage'', None)
    | Some img \<Rightarrow> (case ValidateAndGetDescriptor L p of
          Inl st \<Rightarrow> Returns (st, Some img)
        | Inr d \<Rightarrow> outcome_bind (RawImage_bytes d (p_payload p)) (\<lambda>new. Returns (OkStatus, Some new))))"

definition raw_image_traits :: "proto_lib \<Rightarrow> raw_image packet_traits" where
  "raw_image_traits L = \<lparr>tr_type_id = PACKET_TYPE_RAW_IMAGE, tr_type_name = ''RawImage'',
     tr_descriptor = descriptor_raw L,
     tr_pack = PackPayload_raw, tr_unpack = UnpackPayload_raw L,
     tr_unpack_move = UnpackPayload_raw_move L\<rparr>"

section \<open>Protobuf messages\<close>

definition descriptor_protobuf ::
    "proto_lib \<Rightarrow> proto_message \<Rightarrow> any option \<Rightarrow> status \<times> any option" where
  "descriptor_protobuf L t any = (case any of
      None \<Rightarrow> (InvalidArgumentError ''Given a nullptr to a google::protobuf::Any'', None)
    | Some _ \<Rightarrow> (OkStatus, Some (pl_pack_any L (ProtobufPacketTypeDescriptor (GetTypeName t) False))))"

definition PackPayload_protobuf ::
    "proto_lib \<Rightarrow> proto_message \<Rightarrow> packet option \<Rightarrow> status \<times> packet option" where
  "PackPayload_protobuf L t ptr = (case ptr of
      None \<Rightarrow> (InvalidArgumentError ''Given a nullptr to a Packet'', None)
    | Some p \<Rightarrow> (case pl_serialize L t of
          None \<Rightarrow> (InternalError ''Failed to serialize the protobuf into the packet payload'',
                   Some (p\<lparr>p_payload := []\<rparr>))
        | Some b \<Rightarrow> (OkStatus, Some (p\<lparr>p_payload := b\<rparr>))))"

text \<open>What a failed parse leaves in the destination is not specified; it is \<open>partial\<close> here.\<close>

definition UnpackPayload_protobuf ::
    "proto_lib \<Rightarrow> (string \<Rightarrow> proto_message \<Rightarrow> proto_message) \<Rightarrow> packet \<Rightarrow> proto_message option
     \<Rightarrow> (status \<times> proto_message option) outcome" where
  "UnpackPayload_protobuf L partial p to = Returns (case to of
      None \<Rightarrow> (InvalidArgumentError ''Given a nullptr to the destination protobuf'', None)
    | Some t \<Rightarrow>
        (case pl_unpack_any L ''aistreams.ProtobufPacketTypeDescriptor'' (descriptor_of p) of
           Some (ProtobufPacketTypeDescriptor name text_format) \<Rightarrow>
             if name \<noteq> GetTypeName t
             then (InvalidArgumentError (''Given a protobuf packet containing the specific type '' @
                     name @ '', but we are trying to receive it with a protobuf of type '' @
                     GetTypeName t), Some t)
             else if text_format
             then (InvalidArgumentError
                     ''Given a text format encoded protobuf. We require a binary encoded one here'', Some t)
             else (case pl_parse L (GetTypeName t) (p_payload p) of
                     None \<Rightarrow> (InternalError ''Failed to parse the protobuf payload'',
                              Some (partial (p_payload p) t))
                   | Some m \<Rightarrow> (OkStatus, Some m))
         | _ \<Rightarrow> (InvalidArgumentError ''Failed to Unpack the packet type decriptor as a ProtobufPacketTypeDescriptor'',
                Some t)))"

definition protobuf_traits ::
    "proto_lib \<Rightarrow> (string \<Rightarrow> proto_message \<Rightarrow> proto_message) \<Rightarrow> proto_message packet_traits" where
  "protobuf_traits L partial = \<lparr>tr_type_id = PACKET_TYPE_PROTOBUF,
     tr_type_name = ''google::protobuf::Message'',
     tr_descriptor = descriptor_protobuf L,
     tr_pack = PackPayload_protobuf L, tr_unpack = UnpackPayload_protobuf L partial,
     tr_unpack_move = UnpackPayload_protobuf L partial\<rparr>"

section \<open>The contract of a packet type\<close>

text \<open>What decides how a packet is unpacked.\<close>

definition same_content :: "packet \<Rightarrow> packet \<Rightarrow> bool" where
  "same_content p q \<longleftrightarrow> packet_type_of p = packet_type_of q \<and> descriptor_of p = descriptor_of q \<and>
     p_payload p = p_payload q"

text \<open>
  \<open>wf\<close> are the values that can be encoded and \<open>compat\<close> the destinations of the same type. The
  laws: an encodable value packs, and unpacks to itself from any packet with the same
  descriptor and payload; unpacking never crashes and never loses the destination.
\<close>

locale packet_type =
  fixes L :: proto_lib
    and tr :: "'t packet_traits"
    and wf :: "'t \<Rightarrow> bool"
    and compat :: "'t \<Rightarrow> 't \<Rightarrow> bool"
  assumes round: "proto_laws L \<Longrightarrow> wf t \<Longrightarrow> \<exists>a' b.
        tr_descriptor tr t (Some a) = (OkStatus, Some a') \<and>
        (\<forall>p. tr_pack tr t (Some p) = (OkStatus, Some (p\<lparr>p_payload := b\<rparr>))) \<and>
        (\<forall>q d. descriptor_of q = a' \<and> p_payload q = b \<and> compat d t \<longrightarrow>
           tr_unpack tr q (Some d) = Returns (OkStatus, Some t) \<and>
           tr_unpack_move tr q (Some d) = Returns (OkStatus, Some t))"
    and total: "\<exists>st d'. tr_unpack tr q (Some d) = Returns (st, Some d')"
    and total_move: "\<exists>st d'. tr_unpack_move tr q (Some d) = Returns (st, Some d')"
begin

lemma pack_unpack:
  assumes "proto_laws L" and "wf t"
  shows "\<exists>a b p'. Pack tr t (Some p) = (OkStatus, Some p') \<and>
      p' = (set_descriptor a (set_type_id (tr_type_id tr) p))\<lparr>p_payload := b\<rparr> \<and>
      (\<forall>q d. same_content p' q \<and> compat d t \<longrightarrow>
         Unpack tr q (Some d) = Returns (OkStatus, Some t) \<and>
         Unpack_move tr q (Some d) = Returns (OkStatus, Some t))"
proof -
  obtain a b where ab: "tr_descriptor tr t (Some (descriptor_of (set_type_id (tr_type_id tr) p))) = (OkStatus, Some a)"
    "\<And>p. tr_pack tr t (Some p) = (OkStatus, Some (p\<lparr>p_payload := b\<rparr>))"
    "\<And>q d. descriptor_of q = a \<Longrightarrow> p_payload q = b \<Longrightarrow> compat d t \<Longrightarrow>
       tr_unpack tr q (Some d) = Returns (OkStatus, Some t) \<and>
       tr_unpack_move tr q (Some d) = Returns (OkStatus, Some t)"
    using round [OF assms, of "descriptor_of (set_type_id (tr_type_id tr) p)"] by blast
  let ?p = "(set_descriptor a (set_type_id (tr_type_id tr) p))\<lparr>p_payload := b\<rparr>"
  have fields: "packet_type_of ?p = tr_type_id tr" "descriptor_of ?p = a" "p_payload ?p = b"
    by (simp_all add: set_descriptor_def set_type_id_def)
  have "Unpack tr q (Some d) = Returns (OkStatus, Some t) \<and>
        Unpack_move tr q (Some d) = Returns (OkStatus, Some t)"
    if same: "same_content ?p q" and d: "compat d t" for q d
  proof -
    have "packet_type_of q = tr_type_id tr" "descriptor_of q = a" "p_payload q = b"
      using same fields by (simp_all add: same_content_def)
    with ab(3) [OF this(2,3) d] show ?thesis
      by (simp add: Unpack_def Unpack_move_def ValidateUnpackArgs_def)
  qed
  moreover have "Pack tr t (Some p) = (OkStatus, Some ?p)"
    using ab(1,2) by (simp add: Pack_def Let_def)
  ultimately show ?thesis by blast
qed

lemma unpack_total: "\<exists>st d'. Unpack tr q (Some d) = Returns (st, Some d')"
  using total [of q d] by (cases "status_ok (ValidateUnpackArgs tr q (Some d))") (auto simp: Unpack_def Let_def)

lemma unpack_move_total: "\<exists>st d'. Unpack_move tr q (Some d) = Returns (st, Some d')"
  using total_move [of q d] by (cases "status_ok (ValidateUnpackArgs tr q (Some d))") (auto simp: Unpack_move_def Let_def)

lemma unpack_wrong_type:
  "packet_type_of q \<noteq> tr_type_id tr \<Longrightarrow>
   \<exists>st. Unpack tr q (Some d) = Returns (st, Some d) \<and>
        Unpack_move tr q (Some d) = Returns (st, Some d) \<and> IsInvalidArgument st"
  by (simp add: Unpack_def Unpack_move_def ValidateUnpackArgs_def)

end

section \<open>The six packet types satisfy the contract\<close>

definition gst_wf :: "proto_lib \<Rightarrow> gstreamer_buffer \<Rightarrow> bool" where
  "gst_wf L b \<longleftrightarrow> pl_valid L (GstreamerBufferPacketTypeDescriptor (gb_caps b))"

definition eos_wf :: "proto_lib \<Rightarrow> eos \<Rightarrow> bool" where
  "eos_wf L e \<longleftrightarrow> pl_valid L (ControlSignalPacketTypeDescriptor CONTROL_SIGNAL_EOS) \<and>
     pl_valid L (EosValue (eos_reason e))"

definition raw_wf :: "proto_lib \<Rightarrow> raw_image \<Rightarrow> bool" where
  "raw_wf L img \<longleftrightarrow> raw_image_inv img \<and> pl_valid L (RawImagePacketTypeDescriptor (descriptor_of_image img))"

definition protobuf_wf :: "proto_lib \<Rightarrow> proto_message \<Rightarrow> bool" where
  "protobuf_wf L m \<longleftrightarrow> pl_valid L m \<and> pl_valid L (ProtobufPacketTypeDescriptor (GetTypeName m) False)"

interpretation string_type: packet_type L string_traits "\<lambda>_. True" "\<lambda>_ _. True" for L
proof (unfold_locales, goal_cases)
  case (1 t a)
  show ?case
    by (intro exI [of _ a] exI [of _ t])
       (simp add: string_traits_def PackPayload_string_def UnpackPayload_string_def)
qed (simp_all add: string_traits_def UnpackPayload_string_def)

interpretation jpeg_type: packet_type L jpeg_traits "\<lambda>_. True" "\<lambda>_ _. True" for L
proof (unfold_locales, goal_cases)
  case (1 t a)
  show ?case
    by (intro exI [of _ a] exI [of _ "jf_bytes t"])
       (simp add: jpeg_traits_def PackPayload_jpeg_def UnpackPayload_jpeg_def)
qed (simp_all add: jpeg_traits_def UnpackPayload_jpeg_def)

interpretation gst_type: packet_type L "gst_traits L" "gst_wf L" "\<lambda>_ _. True" for L
proof (unfold_locales, goal_cases)
  case (1 t a)
  then have "pl_unpack_any L ''aistreams.GstreamerBufferPacketTypeDescriptor''
      (pl_pack_any L (GstreamerBufferPacketTypeDescriptor (gb_caps t)))
    = Some (GstreamerBufferPacketTypeDescriptor (gb_caps t))"
    by (intro proto_laws_any) (simp_all add: gst_wf_def)
  then show ?case
    by (intro exI [of _ "pl_pack_any L (GstreamerBufferPacketTypeDescriptor (gb_caps t))"]
        exI [of _ "gb_bytes t"])
       (simp add: gst_traits_def descriptor_gst_def PackPayload_gst_def UnpackPayload_gst_def
        GetTypeDescriptor_def gb_assign_def set_caps_string_def)
qed (auto simp: gst_traits_def UnpackPayload_gst_def split: sum.split)

interpretation eos_type: packet_type L "eos_traits L" "eos_wf L" "\<lambda>_ _. True" for L
proof (unfold_locales, goal_cases)
  case (1 t a)
  obtain b where b: "pl_serialize L (EosValue (eos_reason t)) = Some b"
    "pl_parse L ''aistreams.EosValue'' b = Some (EosValue (eos_reason t))"
    using proto_laws_serialize [OF 1(1), of "EosValue (eos_reason t)"] 1(2) by (auto simp: eos_wf_def)
  have "pl_unpack_any L ''aistreams.ControlSignalPacketTypeDescriptor''
      (pl_pack_any L (ControlSignalPacketTypeDescriptor CONTROL_SIGNAL_EOS))
    = Some (ControlSignalPacketTypeDescriptor CONTROL_SIGNAL_EOS)"
    using 1 by (intro proto_laws_any) (simp_all add: eos_wf_def)
  with b show ?case
    by (intro exI [of _ "pl_pack_any L (ControlSignalPacketTypeDescriptor CONTROL_SIGNAL_EOS)"]
        exI [of _ b])
       (simp add: eos_traits_def descriptor_eos_def PackPayload_eos_def UnpackPayload_eos_def
        ValidateTypeDescriptor_def)
qed (auto simp: eos_traits_def UnpackPayload_eos_def split: option.split proto_message.split)

lemma ValidateAndGetDescriptor_desc:
  "ValidateAndGetDescriptor L p = Inr d \<Longrightarrow> desc_ok d \<and> int (length (p_payload p)) = pixel_bytes d"
proof -
  assume v: "ValidateAndGetDescriptor L p = Inr d"
  then obtain n where n: "GetBufferSize d = Inr n" "length (p_payload p) = size_of_int n"
    by (auto simp: ValidateAndGetDescriptor_def split: option.splits proto_message.splits
        if_splits sum.splits)
  have ok: "desc_ok d" using n(1) GetBufferSize_error [of d] by auto
  obtain m where "GetBufferSize d = Inr m" "sint m = pixel_bytes d" using GetBufferSize_ok [OF ok] by blast
  with n have "sint n = pixel_bytes d" by simp
  moreover have "0 \<le> pixel_bytes d"
    using ok sint_num_channels [of "rid_format d"] by (auto simp: desc_ok_def pixel_bytes_def)
  ultimately show ?thesis using ok n(2) by (simp add: size_of_int_nat)
qed

lemma GetBufferSize_status: "GetBufferSize d = Inl st \<Longrightarrow> \<not> status_ok st"
  by (auto simp: GetBufferSize_def Let_def split: if_splits prod.splits bool.splits)

text \<open>The two ways to build the image agree, and neither constructor can end the process.\<close>

lemma unpack_raw_image:
  assumes "ValidateAndGetDescriptor L p = Inr d"
  shows "UnpackPayload_raw_move L p (Some img) = Returns (OkStatus, Some
           \<lparr>ri_height = rid_height d, ri_width = rid_width d,
            ri_channels = GetNumChannels (rid_format d), ri_format = rid_format d,
            ri_data = p_payload p\<rparr>) \<and>
         UnpackPayload_raw L p (Some img) = UnpackPayload_raw_move L p (Some img)"
proof -
  note d = ValidateAndGetDescriptor_desc [OF assms]
  obtain from_img where f: "RawImage_desc d = Returns from_img" "raw_image_inv from_img"
    "descriptor_of_image from_img = d" "ri_data from_img = replicate (nat (pixel_bytes d)) (CHR 0x00)"
    using RawImage_desc_ok [of d] d by blast
  have eq: "from_img\<lparr>ri_data := p_payload p @ drop (length (p_payload p)) (ri_data from_img)\<rparr> =
     \<lparr>ri_height = rid_height d, ri_width = rid_width d,
      ri_channels = GetNumChannels (rid_format d), ri_format = rid_format d, ri_data = p_payload p\<rparr>"
  proof -
    have "nat (pixel_bytes d) = length (p_payload p)" using d by (simp flip: conjunct2 [OF d])
    with f(2-4) show ?thesis by (auto simp: descriptor_of_image_def raw_image_inv_def)
  qed
  from eq f(1) RawImage_bytes_ok [of d "p_payload p"] d assms show ?thesis
    by (simp add: UnpackPayload_raw_def UnpackPayload_raw_move_def)
qed

lemma unpack_raw_total:
  "\<exists>st d'. UnpackPayload_raw L q (Some d) = Returns (st, Some d') \<and>
           UnpackPayload_raw_move L q (Some d) = Returns (st, Some d')"
proof (cases "ValidateAndGetDescriptor L q")
  case (Inl st)
  then show ?thesis by (simp add: UnpackPayload_raw_def UnpackPayload_raw_move_def)
next
  case (Inr r)
  from unpack_raw_image [OF this, of d] show ?thesis by simp
qed

interpretation raw_type: packet_type L "raw_image_traits L" "raw_wf L" "\<lambda>_ _. True" for L
proof (unfold_locales, goal_cases)
  case (1 t a)
  let ?d = "descriptor_of_image t"
  have any: "pl_unpack_any L ''aistreams.RawImagePacketTypeDescriptor''
      (pl_pack_any L (RawImagePacketTypeDescriptor ?d)) = Some (RawImagePacketTypeDescriptor ?d)"
    using 1 by (intro proto_laws_any) (simp_all add: raw_wf_def)
  have inv: "desc_ok ?d" "ri_channels t = GetNumChannels (ri_format t)"
    "int (length (ri_data t)) = pixel_bytes ?d"
    using 1(2) by (simp_all add: raw_wf_def raw_image_inv_def)
  obtain n where n: "GetBufferSize ?d = Inr n" "sint n = pixel_bytes ?d"
    using GetBufferSize_ok [OF inv(1)] by blast
  have "sint n = int (length (ri_data t))" using n(2) inv(3) by (rule trans [OF _ sym])
  then have len: "size_of_int n = length (ri_data t)" by (simp add: size_of_int_nat)
  have v: "ValidateAndGetDescriptor L q = Inr ?d"
    if "descriptor_of q = pl_pack_any L (RawImagePacketTypeDescriptor ?d)" "p_payload q = ri_data t" for q
    using that any n len inv(1)
    by (simp add: ValidateAndGetDescriptor_def Validate_ok_iff desc_ok_def)
  show ?case
  proof (intro exI [of _ "pl_pack_any L (RawImagePacketTypeDescriptor ?d)"] exI [of _ "ri_data t"]
      conjI allI impI)
    fix q d
    assume q: "descriptor_of q = pl_pack_any L (RawImagePacketTypeDescriptor ?d) \<and>
               p_payload q = ri_data t \<and> True"
    from unpack_raw_image [OF v, of q d] q inv(2)
    show "tr_unpack (raw_image_traits L) q (Some d) = Returns (OkStatus, Some t)"
      "tr_unpack_move (raw_image_traits L) q (Some d) = Returns (OkStatus, Some t)"
      by (simp_all add: raw_image_traits_def descriptor_of_image_def)
  qed (simp_all add: raw_image_traits_def descriptor_raw_def descriptor_of_image_def PackPayload_raw_def)
next
  case (2 q d)
  then show ?case using unpack_raw_total [of L q d] by (auto simp: raw_image_traits_def)
next
  case (3 q d)
  then show ?case using unpack_raw_total [of L q d] by (auto simp: raw_image_traits_def)
qed

interpretation protobuf_type: packet_type L "protobuf_traits L partial" "protobuf_wf L"
  "\<lambda>d t. GetTypeName d = GetTypeName t" for L partial
proof (unfold_locales, goal_cases)
  case (1 t a)
  obtain b where b: "pl_serialize L t = Some b" "pl_parse L (GetTypeName t) b = Some t"
    using proto_laws_serialize [OF 1(1), of t] 1(2) by (auto simp: protobuf_wf_def)
  have "pl_unpack_any L ''aistreams.ProtobufPacketTypeDescriptor''
      (pl_pack_any L (ProtobufPacketTypeDescriptor (GetTypeName t) False))
    = Some (ProtobufPacketTypeDescriptor (GetTypeName t) False)"
    using 1 by (intro proto_laws_any) (simp_all add: protobuf_wf_def)
  with b show ?case
    by (intro exI [of _ "pl_pack_any L (ProtobufPacketTypeDescriptor (GetTypeName t) False)"]
        exI [of _ b])
       (simp add: protobuf_traits_def descriptor_protobuf_def PackPayload_protobuf_def
         UnpackPayload_protobuf_def)
qed (auto simp: protobuf_traits_def UnpackPayload_protobuf_def
    split: option.split proto_message.split)

section \<open>Properties\<close>

definition unpacks_to :: "'t packet_traits \<Rightarrow> packet \<Rightarrow> 't \<Rightarrow> 't \<Rightarrow> bool" where
  "unpacks_to tr q d t \<longleftrightarrow> Unpack tr q (Some d) = Returns (OkStatus, Some t) \<and>
     Unpack_move tr q (Some d) = Returns (OkStatus, Some t)"

text \<open>Packing succeeds, touches only what tells the type and the value, and unpacks again.\<close>

definition packs_and_unpacks :: "'t packet_traits \<Rightarrow> 't \<Rightarrow> 't \<Rightarrow> packet \<Rightarrow> bool" where
  "packs_and_unpacks tr t d p \<longleftrightarrow>
     (\<exists>q a b. Pack tr t (Some p) = (OkStatus, Some q) \<and>
        q = (set_descriptor a (set_type_id (tr_type_id tr) p))\<lparr>p_payload := b\<rparr> \<and>
        unpacks_to tr q d t)"

lemma packs_and_unpacksI:
  assumes "packet_type L tr good cmp" "proto_laws L" "good t" "cmp d t"
  shows "packs_and_unpacks tr t d p"
proof -
  obtain a b p' where p': "Pack tr t (Some p) = (OkStatus, Some p')"
    "p' = (set_descriptor a (set_type_id (tr_type_id tr) p))\<lparr>p_payload := b\<rparr>"
    "\<And>q d. same_content p' q \<and> cmp d t \<Longrightarrow>
         Unpack tr q (Some d) = Returns (OkStatus, Some t) \<and>
         Unpack_move tr q (Some d) = Returns (OkStatus, Some t)"
    using packet_type.pack_unpack [OF assms(1,2,3), of p] by blast
  then show ?thesis using p'(3) [of p' d] assms(4)
    unfolding packs_and_unpacks_def unpacks_to_def same_content_def by blast
qed

text \<open>
  C13. Every value of each of the six packet types survives packing and unpacking, by the
  copying and by the moving version and into any destination of its type, and packing leaves
  the rest of the header alone. Strings and jpeg frames are arbitrary bytes; the other types
  need their texts to be encodable, a raw image its invariant.
\<close>

theorem pack_unpack_roundtrip:
  assumes "proto_laws L"
  shows "packs_and_unpacks string_traits s s' p \<and>
         packs_and_unpacks jpeg_traits j j' p \<and>
         (gst_wf L b \<longrightarrow> packs_and_unpacks (gst_traits L) b b' p) \<and>
         (raw_wf L img \<longrightarrow> packs_and_unpacks (raw_image_traits L) img img' p) \<and>
         (eos_wf L e \<longrightarrow> packs_and_unpacks (eos_traits L) e e' p) \<and>
         (protobuf_wf L m \<and> GetTypeName m' = GetTypeName m \<longrightarrow>
            packs_and_unpacks (protobuf_traits L partial) m m' p)"
  using packs_and_unpacksI [OF string_type.packet_type_axioms assms]
    packs_and_unpacksI [OF jpeg_type.packet_type_axioms assms]
    packs_and_unpacksI [OF gst_type.packet_type_axioms assms]
    packs_and_unpacksI [OF raw_type.packet_type_axioms assms]
    packs_and_unpacksI [OF eos_type.packet_type_axioms assms]
    packs_and_unpacksI [OF protobuf_type.packet_type_axioms assms]
  by simp

theorem pack_unpack_roundtrip_witness:
  "let L = table_lib [ControlSignalPacketTypeDescriptor CONTROL_SIGNAL_EOS, EosValue ''bye'',
         GstreamerBufferPacketTypeDescriptor ''video/x-h264'',
         RawImagePacketTypeDescriptor
           \<lparr>rid_format = RAW_IMAGE_FORMAT_SRGB, rid_height = 1, rid_width = 1\<rparr>,
         ProtobufPacketTypeDescriptor ''my.Msg'' False, UserMessage ''my.Msg'' ''content'']
   in packs_and_unpacks (gst_traits L) \<lparr>gb_caps = ''video/x-h264'', gb_bytes = ''data''\<rparr>
        \<lparr>gb_caps = [], gb_bytes = []\<rparr> empty_packet \<and>
      packs_and_unpacks (raw_image_traits L) \<lparr>ri_height = 1, ri_width = 1, ri_channels = 3,
          ri_format = RAW_IMAGE_FORMAT_SRGB, ri_data = ''rgb''\<rparr>
        \<lparr>ri_height = 0, ri_width = 0, ri_channels = 3, ri_format = RAW_IMAGE_FORMAT_SRGB, ri_data = []\<rparr>
        empty_packet \<and>
      packs_and_unpacks (eos_traits L) (Eos ''bye'') (Eos []) empty_packet \<and>
      packs_and_unpacks (protobuf_traits L (\<lambda>_ m. m)) (UserMessage ''my.Msg'' ''content'')
        (UserMessage ''my.Msg'' []) empty_packet"
proof -
  define L where "L = table_lib [ControlSignalPacketTypeDescriptor CONTROL_SIGNAL_EOS, EosValue ''bye'',
         GstreamerBufferPacketTypeDescriptor ''video/x-h264'',
         RawImagePacketTypeDescriptor
           \<lparr>rid_format = RAW_IMAGE_FORMAT_SRGB, rid_height = 1, rid_width = 1\<rparr>,
         ProtobufPacketTypeDescriptor ''my.Msg'' False, UserMessage ''my.Msg'' ''content'']"
  let ?b = "\<lparr>gb_caps = ''video/x-h264'', gb_bytes = ''data''\<rparr>"
  let ?i = "\<lparr>ri_height = 1, ri_width = 1, ri_channels = 3, ri_format = RAW_IMAGE_FORMAT_SRGB,
    ri_data = ''rgb''\<rparr>"
  let ?m = "UserMessage ''my.Msg'' ''content''"
  have wf: "gst_wf L ?b" "raw_wf L ?i" "eos_wf L (Eos ''bye'')" "protobuf_wf L ?m"
    by (simp_all add: L_def table_lib_def gst_wf_def raw_wf_def eos_wf_def protobuf_wf_def
        raw_image_inv_def desc_ok_def pixel_bytes_def descriptor_of_image_def int_max_def)
  have laws: "proto_laws L" by (simp add: L_def table_lib_laws)
  from pack_unpack_roundtrip [OF laws, where b = ?b and img = ?i and e = "Eos ''bye''" and m = ?m
      and m' = "UserMessage ''my.Msg'' []" and p = empty_packet] wf
  show ?thesis unfolding L_def [symmetric] Let_def by simp
qed

text \<open>
  C25. Unpacking a raw image is safe on any packet whatever: it returns and never reaches a
  \<open>LOG(FATAL)\<close>; both versions agree; on success the image satisfies its invariant (the buffer
  is exactly height times width times channels) and holds the payload, otherwise the
  destination is untouched. The other types never crash on any packet either.
\<close>

theorem unpack_any_packet_safe:
  "Unpack (raw_image_traits L) q (Some img) = Unpack_move (raw_image_traits L) q (Some img) \<and>
   (\<exists>st img'. Unpack (raw_image_traits L) q (Some img) = Returns (st, Some img') \<and>
      (if status_ok st then raw_image_inv img' \<and> ri_data img' = p_payload q else img' = img)) \<and>
   \<not> is_fatal (Unpack string_traits q (Some s)) \<and> \<not> is_fatal (Unpack jpeg_traits q (Some j)) \<and>
   \<not> is_fatal (Unpack (gst_traits L) q (Some b)) \<and> \<not> is_fatal (Unpack (eos_traits L) q (Some e)) \<and>
   \<not> is_fatal (Unpack (protobuf_traits L partial) q (Some m))"
proof -
  have "Unpack (raw_image_traits L) q (Some img) = Unpack_move (raw_image_traits L) q (Some img) \<and>
   (\<exists>st img'. Unpack (raw_image_traits L) q (Some img) = Returns (st, Some img') \<and>
      (if status_ok st then raw_image_inv img' \<and> ri_data img' = p_payload q else img' = img))"
  proof (cases "packet_type_of q = PACKET_TYPE_RAW_IMAGE")
    case wrong: False
    then show ?thesis
      by (simp add: Unpack_def Unpack_move_def ValidateUnpackArgs_def raw_image_traits_def Let_def)
  next
    case True
    then have arg: "ValidateUnpackArgs (raw_image_traits L) q (Some img) = OkStatus"
      by (simp add: ValidateUnpackArgs_def raw_image_traits_def)
    show ?thesis
    proof (cases "ValidateAndGetDescriptor L q")
      case (Inl st)
      have "\<not> status_ok st"
        using Inl GetBufferSize_status
        by (auto simp: ValidateAndGetDescriptor_def split: option.splits proto_message.splits
            if_splits sum.splits)
      with Inl arg show ?thesis
        by (simp add: Unpack_def Unpack_move_def raw_image_traits_def UnpackPayload_raw_def
            UnpackPayload_raw_move_def)
    next
      case (Inr d)
      from ValidateAndGetDescriptor_desc [OF Inr] unpack_raw_image [OF Inr, of img] arg show ?thesis
        by (cases d) (auto simp: Unpack_def Unpack_move_def raw_image_traits_def raw_image_inv_def
            descriptor_of_image_def)
    qed
  qed
  moreover have "\<not> is_fatal (Unpack string_traits q (Some s)) \<and>
   \<not> is_fatal (Unpack jpeg_traits q (Some j)) \<and>
   \<not> is_fatal (Unpack (gst_traits L) q (Some b)) \<and> \<not> is_fatal (Unpack (eos_traits L) q (Some e)) \<and>
   \<not> is_fatal (Unpack (protobuf_traits L partial) q (Some m))"
    using string_type.unpack_total [of q s] jpeg_type.unpack_total [of q j]
      gst_type.unpack_total [of L q b] eos_type.unpack_total [of L q e]
      protobuf_type.unpack_total [of L partial q m]
    by auto
  ultimately show ?thesis by blast
qed

end
