(* ===== verification/Packet_Make.thy ===== *)
theory Packet_Make
  imports Packet_Types
begin

text \<open>
  \<open>base/make_packet.h\<close>, \<open>make_packet.cc\<close>, \<open>base/packet_as.h\<close> and
  \<open>base/util/packet_utils.cc\<close>: making a packet of a value, adapting a packet as a value,
  the end-of-stream test and the addenda.

  The clock is an argument: \<open>None\<close> when \<open>clock_gettime\<close> fails, otherwise seconds and
  nanoseconds.
\<close>

section \<open>Making packets\<close>

type_synonym clock = "(int64 \<times> int64) option"

definition set_timestamp :: "int64 \<Rightarrow> int32 \<Rightarrow> packet \<Rightarrow> packet" where
  "set_timestamp s n p =
     p\<lparr>p_header := (p_header p)\<lparr>h_timestamp := \<lparr>ts_seconds = s, ts_nanos = n\<rparr>\<rparr>\<rparr>"

definition SetToCurrentTime :: "clock \<Rightarrow> packet option \<Rightarrow> status \<times> packet option" where
  "SetToCurrentTime now ptr = (case ptr of
      None \<Rightarrow> (InvalidArgumentError ''Given a nullptr to a Packet'', None)
    | Some p \<Rightarrow> (case now of
          None \<Rightarrow> (UnknownError ''clock_gettime failed'', Some p)
        | Some (tv_sec, tv_nsec) \<Rightarrow>
            (OkStatus, Some (set_timestamp tv_sec (word_of_int (sint tv_nsec)) p))))"

definition MakePacket_full ::
    "'t packet_traits \<Rightarrow> clock \<Rightarrow> 't \<Rightarrow> packet_header \<Rightarrow> bool \<Rightarrow> packet result" where
  "MakePacket_full tr now t header set_current_time =
     (let p = empty_packet\<lparr>p_header := header\<rparr> in
      case Pack tr t (Some p) of (st, p1) \<Rightarrow>
        if \<not> status_ok st then Inl st
        else
          (case (if set_current_time then SetToCurrentTime now p1 else (OkStatus, p1)) of
             (st2, p2) \<Rightarrow>
               if \<not> status_ok st2 then Inl st2
               else (case RestoreDefaultPacketFlags p2 of
                       (st3, Some p3) \<Rightarrow> if \<not> status_ok st3 then Inl st3 else Inr p3
                     | (st3, None) \<Rightarrow> Inl st3)))"

definition MakePacket_header ::
    "'t packet_traits \<Rightarrow> clock \<Rightarrow> 't \<Rightarrow> packet_header \<Rightarrow> packet result" where
  "MakePacket_header tr now t header = MakePacket_full tr now t header True"

definition MakePacket :: "'t packet_traits \<Rightarrow> clock \<Rightarrow> 't \<Rightarrow> packet result" where
  "MakePacket tr now t = MakePacket_full tr now t empty_header True"

definition MakeEosPacket :: "proto_lib \<Rightarrow> clock \<Rightarrow> string \<Rightarrow> packet result" where
  "MakeEosPacket L now reason = MakePacket (eos_traits L) now (set_reason reason (Eos []))"

section \<open>Adapting packets\<close>

record 't packet_as =
  pa_status :: status
  pa_packet :: packet
  pa_value :: 't

text \<open>
  \<open>d\<close> is the default constructed value that \<open>Adapt\<close> unpacks into. The packet that is kept has
  the header only. Unpacking could end the process (a raw image), hence the outcome.
\<close>

definition PacketAs_default :: "'t \<Rightarrow> 't packet_as" where
  "PacketAs_default d = \<lparr>pa_status = UnknownError ''This is a default constructed PacketAs'',
     pa_packet = empty_packet, pa_value = d\<rparr>"

definition PacketAs :: "'t packet_traits \<Rightarrow> 't \<Rightarrow> packet \<Rightarrow> 't packet_as outcome" where
  "PacketAs tr d p =
     outcome_bind (Unpack_move tr p (Some d)) (\<lambda>(st, v).
       Returns \<lparr>pa_status = st, pa_packet = empty_packet\<lparr>p_header := p_header p\<rparr>,
                pa_value = (case v of Some x \<Rightarrow> x | None \<Rightarrow> d)\<rparr>)"

definition pa_ok :: "'t packet_as \<Rightarrow> bool" where
  "pa_ok a = status_ok (pa_status a)"

text \<open>C++ division of an \<open>int\<close> truncates towards zero.\<close>

definition c_div :: "int \<Rightarrow> int \<Rightarrow> int" where
  "c_div a b = sgn a * sgn b * (\<bar>a\<bar> div \<bar>b\<bar>)"

definition pa_microseconds :: "'t packet_as \<Rightarrow> int64" where
  "pa_microseconds a =
     (let ts = h_timestamp (p_header (pa_packet a)) in
      ts_seconds ts * 1000000 + word_of_int (c_div (sint (ts_nanos ts)) 1000))"

definition pa_header :: "'t packet_as \<Rightarrow> packet_header" where
  "pa_header a = p_header (pa_packet a)"

definition pa_ValueOrDie :: "'t packet_as \<Rightarrow> 't outcome" where
  "pa_ValueOrDie a =
     (if \<not> pa_ok a
      then Fatal (''The PacketAs was not successfully adapted: '' @ status_ToString (pa_status a))
      else Returns (pa_value a))"

section \<open>Packet utilities\<close>

definition GetPacketTypeId :: "packet \<Rightarrow> packet_type_id" where
  "GetPacketTypeId p = packet_type_of p"

definition IsControlSignal :: "packet \<Rightarrow> bool" where
  "IsControlSignal p \<longleftrightarrow> GetPacketTypeId p = PACKET_TYPE_CONTROL_SIGNAL"

definition GetControlSignalTypeId :: "proto_lib \<Rightarrow> packet \<Rightarrow> control_signal_type_id result" where
  "GetControlSignalTypeId L p =
     (if \<not> IsControlSignal p
      then Inl (InvalidArgumentError
        (''Given the non-control signal packet type '' @ PacketTypeId_Name (GetPacketTypeId p)))
      else (case pl_unpack_any L ''aistreams.ControlSignalPacketTypeDescriptor'' (descriptor_of p) of
              Some (ControlSignalPacketTypeDescriptor c) \<Rightarrow> Inr c
            | _ \<Rightarrow> Inl (InvalidArgumentError
                ''Failed to Unpack the type decriptor as a ControlSignalTypeDescriptor'')))"

text \<open>The pointer \<open>reason\<close> may be null; the text it points to is returned.\<close>

definition IsEos_reason :: "proto_lib \<Rightarrow> packet \<Rightarrow> string option \<Rightarrow> (bool \<times> string option) outcome" where
  "IsEos_reason L p reason = (case GetControlSignalTypeId L p of
      Inl _ \<Rightarrow> Returns (False, reason)
    | Inr c \<Rightarrow>
        if c \<noteq> CONTROL_SIGNAL_EOS then Returns (False, reason)
        else (case reason of
                None \<Rightarrow> Returns (True, None)
              | Some r \<Rightarrow>
                  outcome_bind (PacketAs (eos_traits L) (Eos []) p) (\<lambda>packet_as.
                    if \<not> pa_ok packet_as then Returns (True, Some r)
                    else outcome_bind (pa_ValueOrDie packet_as)
                           (\<lambda>eos. Returns (True, Some (eos_reason eos))))))"

definition IsEos :: "proto_lib \<Rightarrow> packet \<Rightarrow> bool outcome" where
  "IsEos L p = outcome_bind (IsEos_reason L p None) (\<lambda>(b, _). Returns b)"

definition set_addenda :: "(string \<Rightarrow> any option) \<Rightarrow> packet \<Rightarrow> packet" where
  "set_addenda m p = p\<lparr>p_header := (p_header p)\<lparr>h_addenda := m\<rparr>\<rparr>"

definition InsertAddendum :: "string \<Rightarrow> any \<Rightarrow> packet \<Rightarrow> status \<times> packet" where
  "InsertAddendum key v p = (case h_addenda (p_header p) key of
      Some _ \<Rightarrow> (InvalidArgumentError (''An addendum with key '' @ [CHR 0x22] @ key @ [CHR 0x22] @
                   '' already exists''), p)
    | None \<Rightarrow> (OkStatus, set_addenda ((h_addenda (p_header p))(key \<mapsto> v)) p))"

definition GetAddendum :: "packet \<Rightarrow> string \<Rightarrow> any result" where
  "GetAddendum p key = (case h_addenda (p_header p) key of
      None \<Rightarrow> Inl (InvalidArgumentError (''Failed to find an addendum for key '' @ [CHR 0x22] @ key @
                [CHR 0x22]))
    | Some a \<Rightarrow> Inr a)"

definition InsertProtoAddendum ::
    "proto_lib \<Rightarrow> string \<Rightarrow> proto_message \<Rightarrow> packet \<Rightarrow> status \<times> packet" where
  "InsertProtoAddendum L key v p = InsertAddendum key (pl_pack_any L v) p"

definition InsertStringAddendum ::
    "proto_lib \<Rightarrow> string \<Rightarrow> string \<Rightarrow> packet \<Rightarrow> status \<times> packet" where
  "InsertStringAddendum L key v p = InsertProtoAddendum L key (StructValue (StringValue v)) p"

text \<open>\<open>type_name\<close> is the type of the message that the caller passes in.\<close>

definition GetProtoAddendum :: "proto_lib \<Rightarrow> packet \<Rightarrow> string \<Rightarrow> string \<Rightarrow> proto_message result" where
  "GetProtoAddendum L p key type_name = (case GetAddendum p key of
      Inl st \<Rightarrow> Inl st
    | Inr a \<Rightarrow> (case pl_unpack_any L type_name a of
          None \<Rightarrow> Inl (UnknownError (''Could not unpack the addendum for key '' @ [CHR 0x22] @ key @
                    [CHR 0x22] @ '' as a '' @ type_name))
        | Some m \<Rightarrow> Inr m))"

definition GetStringAddendum :: "proto_lib \<Rightarrow> packet \<Rightarrow> string \<Rightarrow> string result" where
  "GetStringAddendum L p key = (case GetProtoAddendum L p key ''google.protobuf.Value'' of
      Inl st \<Rightarrow> Inl st
    | Inr (StructValue (StringValue s)) \<Rightarrow> Inr s
    | Inr _ \<Rightarrow> Inl (InvalidArgumentError (''Key '' @ [CHR 0x22] @ key @ [CHR 0x22] @
                 '' does not contain a string value'')))"

definition DeleteAddendum :: "string \<Rightarrow> packet \<Rightarrow> status \<times> packet" where
  "DeleteAddendum key p = (OkStatus, set_addenda ((h_addenda (p_header p))(key := None)) p)"

definition IsKeyFrame :: "packet \<Rightarrow> bool" where
  "IsKeyFrame p = IsPacketFlagsSet kIsKeyFrame p"

definition IsFrameHead :: "packet \<Rightarrow> bool" where
  "IsFrameHead p = IsPacketFlagsSet kIsFrameHead p"

section \<open>What MakePacket makes\<close>

text \<open>The type ids whose packets are whole frames that stand alone.\<close>

definition is_data_type :: "packet_type_id \<Rightarrow> bool" where
  "is_data_type i \<longleftrightarrow> i \<in> {PACKET_TYPE_JPEG, PACKET_TYPE_RAW_IMAGE, PACKET_TYPE_PROTOBUF,
     PACKET_TYPE_STRING, PACKET_TYPE_GSTREAMER_BUFFER}"

lemma restore_flags:
  "\<exists>f. RestoreDefaultPacketFlags (Some p) = (OkStatus, Some (set_flags f p)) \<and>
       (and f kIsKeyFrame = kIsKeyFrame \<longleftrightarrow> is_data_type (packet_type_of p)) \<and>
       (and f kIsFrameHead = kIsFrameHead \<longleftrightarrow> is_data_type (packet_type_of p))"
  by (cases "packet_type_of p")
     (auto simp: RestoreDefaultPacketFlags_def ClearPacketFlags_def SetPacketFlags_def set_flags_def
       is_data_type_def kEmpty_def kIsKeyFrame_def kIsFrameHead_def Let_def)

text \<open>
  A packet carries the value \<open>t\<close> and the given header but for the type, the timestamp and the
  flags, which are the clock's and the defaults.
\<close>

definition carries :: "'t packet_traits \<Rightarrow> 't \<Rightarrow> 't \<Rightarrow> packet_header \<Rightarrow> int64 \<times> int64 \<Rightarrow> packet \<Rightarrow> bool" where
  "carries tr d t header now p \<longleftrightarrow>
     (\<exists>a. PacketAs tr d p = Returns a \<and> pa_ok a \<and> pa_ValueOrDie a = Returns t \<and>
          pa_header a = p_header p) \<and>
     packet_type_of p = tr_type_id tr \<and>
     h_timestamp (p_header p) = \<lparr>ts_seconds = fst now, ts_nanos = word_of_int (sint (snd now))\<rparr> \<and>
     h_addenda (p_header p) = h_addenda header \<and>
     h_trace_context (p_header p) = h_trace_context header \<and>
     IsKeyFrame p = is_data_type (tr_type_id tr) \<and> IsFrameHead p = is_data_type (tr_type_id tr)"

context packet_type begin

lemma make_packet:
  assumes "proto_laws L" "wf t" "compat d t"
  shows "\<exists>p. MakePacket_header tr (Some now) t header = Inr p \<and> carries tr d t header now p"
proof -
  let ?p0 = "empty_packet\<lparr>p_header := header\<rparr>"
  obtain a b p1 where p1: "Pack tr t (Some ?p0) = (OkStatus, Some p1)"
    "p1 = (set_descriptor a (set_type_id (tr_type_id tr) ?p0))\<lparr>p_payload := b\<rparr>"
    "\<And>q d. same_content p1 q \<and> compat d t \<Longrightarrow> Unpack_move tr q (Some d) = Returns (OkStatus, Some t)"
    using pack_unpack [OF assms(1,2), of ?p0] by blast
  let ?p2 = "set_timestamp (fst now) (word_of_int (sint (snd now))) p1"
  obtain f where f: "RestoreDefaultPacketFlags (Some ?p2) = (OkStatus, Some (set_flags f ?p2))"
    "and f kIsKeyFrame = kIsKeyFrame \<longleftrightarrow> is_data_type (packet_type_of ?p2)"
    "and f kIsFrameHead = kIsFrameHead \<longleftrightarrow> is_data_type (packet_type_of ?p2)"
    using restore_flags [of ?p2] by blast
  let ?p = "set_flags f ?p2"
  have "MakePacket_header tr (Some now) t header = Inr ?p"
    using p1(1) f(1) by (cases now) (simp add: MakePacket_header_def MakePacket_full_def Let_def SetToCurrentTime_def)
  moreover have "same_content p1 ?p" by (simp add: same_content_def set_flags_def set_timestamp_def)
  with p1(3) assms(3) have "Unpack_move tr ?p (Some d) = Returns (OkStatus, Some t)" by blast
  then have "carries tr d t header now ?p"
    using f(2,3) p1(2)
    by (simp add: carries_def PacketAs_def pa_ok_def pa_ValueOrDie_def pa_header_def IsKeyFrame_def
        IsFrameHead_def IsPacketFlagsSet_def set_flags_def set_timestamp_def set_type_id_def
        set_descriptor_def empty_packet_def)
  ultimately show ?thesis by blast
qed

end

section \<open>Properties\<close>

text \<open>
  C17. A packet made by \<open>MakePacket\<close> of a value of any type adapts back to exactly that value
  by \<open>PacketAs\<close> (which is ok and keeps the header), carries the time of the clock, keeps the
  addenda and the trace context of the given header, and is flagged as a key frame and frame
  head exactly if it is not a control signal.
\<close>

theorem make_packet_recoverable:
  assumes "proto_laws L"
  shows "(\<exists>p. MakePacket_header string_traits (Some now) s hdr = Inr p \<and>
              carries string_traits s' s hdr now p) \<and>
         (\<exists>p. MakePacket_header jpeg_traits (Some now) j hdr = Inr p \<and>
              carries jpeg_traits j' j hdr now p) \<and>
         (gst_wf L b \<longrightarrow> (\<exists>p. MakePacket_header (gst_traits L) (Some now) b hdr = Inr p \<and>
              carries (gst_traits L) b' b hdr now p)) \<and>
         (raw_wf L img \<longrightarrow> (\<exists>p. MakePacket_header (raw_image_traits L) (Some now) img hdr = Inr p \<and>
              carries (raw_image_traits L) img' img hdr now p)) \<and>
         (protobuf_wf L m \<and> GetTypeName m' = GetTypeName m \<longrightarrow>
            (\<exists>p. MakePacket_header (protobuf_traits L partial) (Some now) m hdr = Inr p \<and>
              carries (protobuf_traits L partial) m' m hdr now p))"
  using string_type.make_packet [OF assms] jpeg_type.make_packet [OF assms]
    gst_type.make_packet [OF assms] raw_type.make_packet [OF assms]
    protobuf_type.make_packet [OF assms]
  by simp

theorem make_packet_recoverable_witness:
  "let L = table_lib [GstreamerBufferPacketTypeDescriptor ''video/x-h264'',
         RawImagePacketTypeDescriptor
           \<lparr>rid_format = RAW_IMAGE_FORMAT_SRGB, rid_height = 1, rid_width = 1\<rparr>,
         ProtobufPacketTypeDescriptor ''my.Msg'' False, UserMessage ''my.Msg'' ''content''];
       b = \<lparr>gb_caps = ''video/x-h264'', gb_bytes = ''data''\<rparr>;
       i = \<lparr>ri_height = 1, ri_width = 1, ri_channels = 3, ri_format = RAW_IMAGE_FORMAT_SRGB,
            ri_data = ''rgb''\<rparr>
   in (\<exists>p. MakePacket_header (gst_traits L) (Some (5, 7)) b empty_header = Inr p \<and>
           carries (gst_traits L) b b empty_header (5, 7) p) \<and>
      (\<exists>p. MakePacket_header (raw_image_traits L) (Some (5, 7)) i empty_header = Inr p \<and>
           carries (raw_image_traits L) i i empty_header (5, 7) p) \<and>
      (\<exists>p. MakePacket_header (protobuf_traits L (\<lambda>_ m. m)) (Some (5, 7))
             (UserMessage ''my.Msg'' ''content'') empty_header = Inr p)"
proof -
  define L where "L = table_lib [GstreamerBufferPacketTypeDescriptor ''video/x-h264'',
         RawImagePacketTypeDescriptor
           \<lparr>rid_format = RAW_IMAGE_FORMAT_SRGB, rid_height = 1, rid_width = 1\<rparr>,
         ProtobufPacketTypeDescriptor ''my.Msg'' False, UserMessage ''my.Msg'' ''content'']"
  let ?b = "\<lparr>gb_caps = ''video/x-h264'', gb_bytes = ''data''\<rparr>"
  let ?i = "\<lparr>ri_height = 1, ri_width = 1, ri_channels = 3, ri_format = RAW_IMAGE_FORMAT_SRGB,
    ri_data = ''rgb''\<rparr>"
  let ?m = "UserMessage ''my.Msg'' ''content''"
  have wf: "gst_wf L ?b" "raw_wf L ?i" "protobuf_wf L ?m"
    by (simp_all add: L_def table_lib_def gst_wf_def raw_wf_def protobuf_wf_def
        raw_image_inv_def desc_ok_def pixel_bytes_def descriptor_of_image_def int_max_def)
  have laws: "proto_laws L" by (simp add: L_def table_lib_laws)
  from make_packet_recoverable [OF laws, where b = ?b and b' = ?b and img = ?i and img' = ?i
      and m = ?m and m' = ?m and now = "(5, 7)" and hdr = empty_header and partial = "\<lambda>_ m. m"] wf
  show ?thesis unfolding L_def [symmetric] Let_def by blast
qed

lemma eos_is_control_signal:
  assumes "proto_laws L" "eos_wf L (Eos r)" "carries (eos_traits L) d (Eos r) hdr now p"
  shows "packet_type_of p = PACKET_TYPE_CONTROL_SIGNAL"
  using assms(3) by (simp add: carries_def eos_traits_def)

lemma GetControlSignalTypeId_total:
  "GetControlSignalTypeId L p = Inr c \<Longrightarrow> IsControlSignal p"
  by (auto simp: GetControlSignalTypeId_def split: if_splits)

text \<open>An eos packet unpacked as such has a valid type descriptor.\<close>

lemma unpacked_eos_descriptor:
  assumes "Unpack_move (eos_traits L) p (Some d) = Returns (OkStatus, Some e)"
  shows "GetControlSignalTypeId L p = Inr CONTROL_SIGNAL_EOS"
proof -
  have v: "status_ok (ValidateUnpackArgs (eos_traits L) p (Some d))"
    using assms by (auto simp: Unpack_move_def Let_def split: if_splits)
  then have ctrl: "IsControlSignal p"
    by (auto simp: ValidateUnpackArgs_def eos_traits_def IsControlSignal_def GetPacketTypeId_def
        split: if_splits)
  have "status_ok (ValidateTypeDescriptor L p)"
  proof (rule ccontr)
    assume "\<not> status_ok (ValidateTypeDescriptor L p)"
    then have "Unpack_move (eos_traits L) p (Some d) =
        Returns (UnknownError ''Failed to unpack the packet payload'', Some d)"
      using v by (simp add: Unpack_move_def eos_traits_def UnpackPayload_eos_def)
    with assms show False by (simp add: UnknownError_def mk_Status_def OkStatus_def)
  qed
  with ctrl show ?thesis
    by (auto simp: ValidateTypeDescriptor_def GetControlSignalTypeId_def
        split: option.splits proto_message.splits if_splits)
qed

lemma make_eos_packet:
  assumes "proto_laws L" "eos_wf L (Eos reason)"
  shows "\<exists>p. MakeEosPacket L (Some now) reason = Inr p \<and> IsEos L p = Returns True \<and>
            IsEos_reason L p (Some r0) = Returns (True, Some reason) \<and>
            \<not> IsKeyFrame p \<and> \<not> IsFrameHead p"
proof -
  obtain p where p: "MakePacket_header (eos_traits L) (Some now) (Eos reason) empty_header = Inr p"
    "carries (eos_traits L) (Eos []) (Eos reason) empty_header now p"
    using eos_type.make_packet [OF assms, where d = "Eos []" and now = now and header = empty_header]
    by auto
  have make: "MakeEosPacket L (Some now) reason = Inr p"
    using p(1) by (simp add: MakeEosPacket_def MakePacket_def MakePacket_header_def set_reason_def)
  obtain a where a: "PacketAs (eos_traits L) (Eos []) p = Returns a" "pa_ok a"
    "pa_ValueOrDie a = Returns (Eos reason)"
    using p(2) by (auto simp: carries_def)
  obtain st v where "Unpack_move (eos_traits L) p (Some (Eos [])) = Returns (st, Some v)"
    using eos_type.unpack_move_total by blast
  with a(1,2) have "Unpack_move (eos_traits L) p (Some (Eos [])) = Returns (OkStatus, Some v)"
    by (auto simp: PacketAs_def pa_ok_def Unpack_move_def Let_def unpack_status_def
        split: if_splits prod.splits)
  note id = unpacked_eos_descriptor [OF this]
  have "IsEos L p = Returns True" "IsEos_reason L p (Some r0) = Returns (True, Some reason)"
    using id a by (simp_all add: IsEos_def IsEos_reason_def)
  moreover have "\<not> IsKeyFrame p \<and> \<not> IsFrameHead p"
    using p(2) by (simp add: carries_def eos_traits_def is_data_type_def)
  ultimately show ?thesis using make by blast
qed

text \<open>What makes a packet an EOS packet, by its header, and the reason in its payload, if that is one.\<close>

definition is_eos_packet :: "proto_lib \<Rightarrow> packet \<Rightarrow> bool" where
  "is_eos_packet L q \<longleftrightarrow> packet_type_of q = PACKET_TYPE_CONTROL_SIGNAL \<and>
     pl_unpack_any L ''aistreams.ControlSignalPacketTypeDescriptor'' (descriptor_of q) =
       Some (ControlSignalPacketTypeDescriptor CONTROL_SIGNAL_EOS)"

definition eos_text :: "proto_lib \<Rightarrow> packet \<Rightarrow> string option" where
  "eos_text L q = (case pl_parse L ''aistreams.EosValue'' (p_payload q) of Some (EosValue t) \<Rightarrow> Some t | _ \<Rightarrow> None)"

lemma GetControlSignalTypeId_eos: "GetControlSignalTypeId L q = Inr CONTROL_SIGNAL_EOS \<longleftrightarrow> is_eos_packet L q"
  by (auto simp: GetControlSignalTypeId_def is_eos_packet_def IsControlSignal_def GetPacketTypeId_def
      split: option.splits proto_message.splits)

lemma unpacked_eos_packet:
  assumes "is_eos_packet L q"
  shows "\<exists>a. PacketAs (eos_traits L) (Eos []) q = Returns a \<and> (case eos_text L q of
      None \<Rightarrow> \<not> pa_ok a | Some t \<Rightarrow> pa_ok a \<and> pa_value a = Eos t)"
proof -
  have "status_ok (ValidateTypeDescriptor L q)" "status_ok (ValidateUnpackArgs (eos_traits L) q (Some (Eos [])))"
    using assms by (simp_all add: is_eos_packet_def ValidateTypeDescriptor_def ValidateUnpackArgs_def eos_traits_def)
  then show ?thesis
    by (cases "pl_parse L ''aistreams.EosValue'' (p_payload q)"; cases "the (pl_parse L ''aistreams.EosValue'' (p_payload q))")
       (simp_all add: PacketAs_def Unpack_move_def eos_traits_def UnpackPayload_eos_def eos_text_def pa_ok_def Let_def
        unpack_status_def del: outcome_bind_Returns_iff)
qed

lemma IsEos_reason_exact:
  "IsEos_reason L q r = Returns (is_eos_packet L q,
     if is_eos_packet L q then map_option (\<lambda>old. case eos_text L q of Some t \<Rightarrow> t | None \<Rightarrow> old) r else r)"
proof (cases "is_eos_packet L q")
  case True
  then obtain a where "PacketAs (eos_traits L) (Eos []) q = Returns a"
      "case eos_text L q of None \<Rightarrow> \<not> pa_ok a | Some t \<Rightarrow> pa_ok a \<and> pa_value a = Eos t"
    using unpacked_eos_packet by blast
  with True show ?thesis
    by (cases r) (auto simp: IsEos_reason_def GetControlSignalTypeId_eos [THEN iffD2] pa_ValueOrDie_def split: option.splits)
next
  case False
  then have "GetControlSignalTypeId L q \<noteq> Inr CONTROL_SIGNAL_EOS" by (simp add: GetControlSignalTypeId_eos)
  with False show ?thesis by (auto simp: IsEos_reason_def split: sum.split)
qed

text \<open>
  C28. \<open>MakeEosPacket\<close> makes a packet that \<open>IsEos\<close> recognises, with its reason. Any packet whatever is recognised exactly when it is
  a control signal whose descriptor names EOS: a packet with the descriptor of another control signal is not, nor is one
  of another type. The text behind the pointer becomes the reason in the payload of a packet that is
  recognised, and is left alone when the packet is not recognised or its payload has none. \<open>IsEos\<close> never crashes.
\<close>

theorem eos_packet_recognised:
  assumes "proto_laws L" "eos_wf L (Eos reason)"
  shows "(\<exists>p. MakeEosPacket L (Some now) reason = Inr p \<and> IsEos L p = Returns True \<and>
            IsEos_reason L p (Some r0) = Returns (True, Some reason) \<and>
            \<not> IsKeyFrame p \<and> \<not> IsFrameHead p) \<and>
         IsEos L q = Returns (is_eos_packet L q) \<and>
         IsEos_reason L q (Some r0) = Returns (is_eos_packet L q,
           Some (if is_eos_packet L q then (case eos_text L q of Some t \<Rightarrow> t | None \<Rightarrow> r0) else r0)) \<and>
         (packet_type_of q = PACKET_TYPE_CONTROL_SIGNAL \<and> pl_valid L (ControlSignalPacketTypeDescriptor c) \<and>
            descriptor_of q = pl_pack_any L (ControlSignalPacketTypeDescriptor c) \<longrightarrow>
          IsEos L q = Returns (c = CONTROL_SIGNAL_EOS)) \<and>
         (packet_type_of q \<noteq> PACKET_TYPE_CONTROL_SIGNAL \<longrightarrow> IsEos L q = Returns False)"
proof -
  have eos: "IsEos L q = Returns (is_eos_packet L q)" by (simp add: IsEos_def IsEos_reason_exact)
  moreover have "is_eos_packet L q \<longleftrightarrow> c = CONTROL_SIGNAL_EOS"
    if "packet_type_of q = PACKET_TYPE_CONTROL_SIGNAL" "pl_valid L (ControlSignalPacketTypeDescriptor c)"
      "descriptor_of q = pl_pack_any L (ControlSignalPacketTypeDescriptor c)"
    using that proto_laws_any [OF assms(1) that(2)] by (simp add: is_eos_packet_def)
  moreover have "packet_type_of q \<noteq> PACKET_TYPE_CONTROL_SIGNAL \<Longrightarrow> \<not> is_eos_packet L q" by (simp add: is_eos_packet_def)
  ultimately show ?thesis using make_eos_packet [OF assms] by (auto simp: IsEos_reason_exact)
qed

theorem eos_packet_recognised_witness:
  "let L = table_lib [ControlSignalPacketTypeDescriptor CONTROL_SIGNAL_EOS,
         ControlSignalPacketTypeDescriptor CONTROL_SIGNAL_UNKNOWN, EosValue ''bye''];
       q = set_descriptor (pl_pack_any L (ControlSignalPacketTypeDescriptor CONTROL_SIGNAL_UNKNOWN))
             (set_type_id PACKET_TYPE_CONTROL_SIGNAL empty_packet)
   in (\<exists>p. MakeEosPacket L (Some (1, 2)) ''bye'' = Inr p \<and> IsEos L p = Returns True) \<and>
      IsEos L q = Returns False"
proof -
  define L where "L = table_lib [ControlSignalPacketTypeDescriptor CONTROL_SIGNAL_EOS,
         ControlSignalPacketTypeDescriptor CONTROL_SIGNAL_UNKNOWN, EosValue ''bye'']"
  define q where "q = set_descriptor (pl_pack_any L (ControlSignalPacketTypeDescriptor CONTROL_SIGNAL_UNKNOWN))
             (set_type_id PACKET_TYPE_CONTROL_SIGNAL empty_packet)"
  have "proto_laws L" by (simp add: L_def table_lib_laws)
  moreover have "eos_wf L (Eos ''bye'')" "pl_valid L (ControlSignalPacketTypeDescriptor CONTROL_SIGNAL_UNKNOWN)"
    by (simp_all add: eos_wf_def L_def table_lib_def)
  moreover have "packet_type_of q = PACKET_TYPE_CONTROL_SIGNAL"
      "descriptor_of q = pl_pack_any L (ControlSignalPacketTypeDescriptor CONTROL_SIGNAL_UNKNOWN)"
    by (simp_all add: q_def set_descriptor_def set_type_id_def)
  ultimately show ?thesis
    using eos_packet_recognised [of L "''bye''" "(1, 2)" "[]" q CONTROL_SIGNAL_UNKNOWN]
    unfolding L_def [symmetric] Let_def q_def [symmetric] by auto
qed

text \<open>
  C38. The addenda are a map that is not overwritten: inserting a new key makes it readable and
  changes no other; inserting an existing key is refused and changes nothing; a deleted key is
  gone and can be inserted again; an addendum that is a protobuf of another type is not read
  as a string.
\<close>

theorem addenda_map:
  assumes "proto_laws L" "pl_valid L (StructValue (StringValue v))"
    and "h_addenda (p_header p) key = None"
  shows "\<exists>q. InsertStringAddendum L key v p = (OkStatus, q) \<and>
      GetStringAddendum L q key = Inr v \<and>
      (\<forall>k. k \<noteq> key \<longrightarrow> GetStringAddendum L q k = GetStringAddendum L p k) \<and>
      p_payload q = p_payload p \<and> h_type (p_header q) = h_type (p_header p) \<and>
      (\<exists>st. IsInvalidArgument st \<and> InsertStringAddendum L key w q = (st, q)) \<and>
      snd (DeleteAddendum key q) = p \<and>
      (\<exists>st r. IsInvalidArgument st \<and> GetStringAddendum L p key = Inl st \<and>
         InsertProtoAddendum L key (UserMessage ''my.Msg'' c) p = (OkStatus, r) \<and>
         (case GetStringAddendum L r key of Inl st' \<Rightarrow> status_code_of st' = kUnknown | Inr _ \<Rightarrow> False))"
proof -
  have "pl_unpack_any L ''google.protobuf.Value'' (pl_pack_any L (StructValue (StringValue v)))
      = Some (StructValue (StringValue v))"
    using assms(1,2) by (intro proto_laws_any) simp_all
  moreover have "pl_unpack_any L ''google.protobuf.Value'' (pl_pack_any L (UserMessage ''my.Msg'' c)) = None"
    using assms(1) by (intro proto_laws_other_type) simp_all
  moreover have "(h_addenda (p_header p))(key := None) = h_addenda (p_header p)"
    using assms(3) by auto
  ultimately show ?thesis
    using assms(3)
    by (simp add: InsertStringAddendum_def InsertProtoAddendum_def InsertAddendum_def
        GetStringAddendum_def GetProtoAddendum_def GetAddendum_def DeleteAddendum_def
        set_addenda_def UnknownError_def)
qed

theorem addenda_map_witness:
  "\<exists>q. InsertStringAddendum (table_lib [StructValue (StringValue ''v'')]) ''k'' ''v'' empty_packet
         = (OkStatus, q) \<and>
       GetStringAddendum (table_lib [StructValue (StringValue ''v'')]) q ''k'' = Inr ''v''"
proof -
  let ?L = "table_lib [StructValue (StringValue ''v'')]"
  have "pl_valid ?L (StructValue (StringValue ''v''))" by (simp add: table_lib_def)
  moreover have "h_addenda (p_header empty_packet) ''k'' = None"
    by (simp add: empty_packet_def empty_header_def)
  ultimately show ?thesis using addenda_map [OF table_lib_laws] by blast
qed

lemma sint_word_of_int64_fits:
  "- (2 ^ 63) \<le> i \<Longrightarrow> i < 2 ^ 63 \<Longrightarrow> sint (word_of_int i :: int64) = i"
  by (simp add: sint_sbintrunc' signed_take_bit_int_eq_self)

text \<open>
  The microseconds of a packet do not overflow for any timestamp up to about the year
  285000: they are the timestamp in whole microseconds.
\<close>

theorem packet_microseconds:
  assumes "\<bar>sint (ts_seconds ts)\<bar> \<le> 9 * 10 ^ 12" "0 \<le> sint (ts_nanos ts)" "sint (ts_nanos ts) < 10 ^ 9"
    and "h_timestamp (p_header (pa_packet a)) = ts"
  shows "sint (pa_microseconds a) = sint (ts_seconds ts) * 10 ^ 6 + sint (ts_nanos ts) div 1000"
proof -
  let ?s = "sint (ts_seconds ts)" and ?n = "sint (ts_nanos ts) div 1000"
  have n: "c_div (sint (ts_nanos ts)) 1000 = ?n" using assms(2)
    by (auto simp: c_div_def sgn_if)
  have "pa_microseconds a = (word_of_int (?s * 10 ^ 6 + ?n) :: int64)"
    by (simp add: pa_microseconds_def assms(4) Let_def n)
  moreover have "- (2 ^ 63) \<le> ?s * 10 ^ 6 + ?n" "?s * 10 ^ 6 + ?n < 2 ^ 63"
    using assms(1-3) by auto
  ultimately show ?thesis by (simp only: sint_word_of_int64_fits)
qed

theorem packet_microseconds_witness:
  "sint (pa_microseconds ((PacketAs_default ())\<lparr>pa_packet :=
     set_timestamp 1600000000 999999999 empty_packet\<rparr>)) = 1600000000999999"
  using packet_microseconds [of "\<lparr>ts_seconds = 1600000000, ts_nanos = 999999999\<rparr>"
      "(PacketAs_default ())\<lparr>pa_packet := set_timestamp 1600000000 999999999 empty_packet\<rparr>"]
  by (simp add: PacketAs_default_def set_timestamp_def)

end
