(* ===== verification/Gst_Type_Utils.thy ===== *)
theory Gst_Type_Utils
  imports Packet_Make
begin

text \<open>
  \<open>gstreamer/type_utils.cc\<close>: conversions between packets, raw images and gstreamer buffers.
  A row of an RGB buffer is padded to a multiple of four bytes; \<open>ToRgbRawImage\<close> closes the
  padding and \<open>RgbRawImageToGstreamerBuffer\<close> puts it in.

  What gstreamer says about a caps string is the parameter \<open>gst_lib\<close>; \<open>gst_laws\<close> states the
  documented layout of RGB video. Pixel indices are computed in unbounded integers: an index
  that is in bounds is below the buffer's length, and an access out of bounds is \<open>Fatal\<close>.
\<close>

section \<open>The gstreamer library\<close>

datatype gst_video_format = GST_VIDEO_FORMAT_RGB | GST_VIDEO_FORMAT_OTHER nat

record gst_video_info =
  vi_format :: gst_video_format
  vi_name :: string
  vi_planes :: int
  vi_components :: int
  vi_height :: int
  vi_width :: int
  vi_size :: int
  vi_plane_stride :: int
  vi_comp_pstride :: int

text \<open>A parsed caps: its media type and, if gstreamer can tell it, the video info.\<close>

record gst_caps =
  caps_name :: string
  caps_video_info :: "gst_video_info option"

record gst_lib =
  gl_caps_from_string :: "string \<Rightarrow> gst_caps option"
  gl_caps_to_string_rgb :: "int32 \<Rightarrow> int32 \<Rightarrow> string"

definition round_up_4 :: "int \<Rightarrow> int" where
  "round_up_4 num = ((num + 3) div 4) * 4"

text \<open>The caps made for an RGB image of positive dimensions parse back to its layout.\<close>

definition gst_laws :: "gst_lib \<Rightarrow> bool" where
  "gst_laws G \<longleftrightarrow> (\<forall>w h. 0 < sint w \<and> 0 < sint h \<and> round_up_4 (3 * sint w) * sint h \<le> int_max \<longrightarrow>
     (\<exists>size name. gl_caps_from_string G (gl_caps_to_string_rgb G w h) =
        Some \<lparr>caps_name = ''video/x-raw'', caps_video_info = Some
          \<lparr>vi_format = GST_VIDEO_FORMAT_RGB, vi_name = name, vi_planes = 1, vi_components = 3,
           vi_height = sint h, vi_width = sint w, vi_size = size,
           vi_plane_stride = round_up_4 (3 * sint w), vi_comp_pstride = 3\<rparr>\<rparr>) \<and>
     CHR 0x00 \<notin> set (gl_caps_to_string_rgb G w h))"

section \<open>Parsing caps\<close>

definition kRawImageGstreamerMimeType :: string where
  "kRawImageGstreamerMimeType = ''video/x-raw''"

definition kJpegGstreamerMimeType :: string where
  "kJpegGstreamerMimeType = ''image/jpeg''"

record gst_raw_image_info =
  gi_gst_format_id :: "gst_video_format option"
  gi_format_name :: string
  gi_height :: int
  gi_width :: int
  gi_size :: int
  gi_planes :: int
  gi_components :: int
  gi_rstride :: int
  gi_pstride :: int

definition new_raw_image_info :: gst_raw_image_info where
  "new_raw_image_info = \<lparr>gi_gst_format_id = None, gi_format_name = [], gi_height = -1, gi_width = -1,
     gi_size = -1, gi_planes = -1, gi_components = -1, gi_rstride = -1, gi_pstride = -1\<rparr>"

text \<open>The status, the info filled in and the number of caps never unreferenced.\<close>

definition ParseAsRawImageCaps ::
    "gst_lib \<Rightarrow> string \<Rightarrow> gst_raw_image_info \<Rightarrow> status \<times> gst_raw_image_info \<times> nat" where
  "ParseAsRawImageCaps G caps_string info =
     (case gl_caps_from_string G (c_str caps_string) of
        None \<Rightarrow> (InvalidArgumentError (''Failed to create a GstCaps from '' @ [CHR 0x22] @ caps_string @
                  [CHR 0x22] @ ''; make sure it is a valid cap string''), info, 0)
      | Some caps \<Rightarrow>
          if caps_name caps \<noteq> kRawImageGstreamerMimeType
          then (InvalidArgumentError (''Given a GstCaps of '' @ [CHR 0x22] @ caps_string @ [CHR 0x22] @
                  '' which is not a raw image caps string''), info, 0)
          else (case caps_video_info caps of
            None \<Rightarrow> (InvalidArgumentError (''Unable to get format information from caps '' @ caps_string),
                     info, 0)
          | Some gst_info \<Rightarrow>
              let info1 = info\<lparr>gi_gst_format_id := Some (vi_format gst_info),
                    gi_format_name := vi_name gst_info, gi_planes := vi_planes gst_info,
                    gi_components := vi_components gst_info, gi_height := vi_height gst_info,
                    gi_width := vi_width gst_info, gi_size := vi_size gst_info\<rparr>
              in if gi_planes info1 = 1
                 then (OkStatus, info1\<lparr>gi_rstride := vi_plane_stride gst_info,
                                       gi_pstride := vi_comp_pstride gst_info\<rparr>, 0)
                 else if gi_planes info1 > 1
                 then (UnimplementedError ''We currently support only single planed images'', info1, 1)
                 else (InvalidArgumentError ''The given image has no planes'', info1, 1)))"

section \<open>Loops\<close>

fun fold_outcome :: "('x \<Rightarrow> 's \<Rightarrow> 's outcome) \<Rightarrow> 'x list \<Rightarrow> 's \<Rightarrow> 's outcome" where
  "fold_outcome f [] s = Returns s"
| "fold_outcome f (x # xs) s = outcome_bind (f x s) (fold_outcome f xs)"

lemma fold_outcome_append:
  "fold_outcome f (xs @ ys) s = outcome_bind (fold_outcome f xs s) (fold_outcome f ys)"
proof (induction xs arbitrary: s)
  case Nil
  then show ?case by simp
next
  case (Cons x xs)
  then show ?case by (cases "f x s") simp_all
qed

section \<open>From a buffer to a raw image\<close>

text \<open>One assignment of the innermost loop.\<close>

definition copy_byte ::
    "gst_raw_image_info \<Rightarrow> string \<Rightarrow> nat \<times> nat \<times> nat \<Rightarrow> raw_image \<Rightarrow> raw_image outcome" where
  "copy_byte info src ijk r = (case ijk of (i, j, k) \<Rightarrow>
     let src_row_start = gi_rstride info * int i;
         dst_row_start = gi_width info * gi_components info * int i;
         src_pix_start = src_row_start + gi_pstride info * int j;
         dst_pix_start = dst_row_start + gi_components info * int j;
         s = src_pix_start + int k; d = dst_pix_start + int k
     in if s < 0 \<or> int (length src) \<le> s then Fatal ''read out of bounds''
        else if d < 0 then Fatal ''write out of bounds''
        else (case ri_set r (nat d) (src ! nat s) of
                None \<Rightarrow> Fatal ''write out of bounds''
              | Some r' \<Rightarrow> Returns r'))"

definition loop_indices :: "nat \<Rightarrow> nat \<Rightarrow> nat \<Rightarrow> (nat \<times> nat \<times> nat) list" where
  "loop_indices h w c =
     concat (map (\<lambda>i. concat (map (\<lambda>j. map (\<lambda>k. (i, j, k)) [0..<c]) [0..<w])) [0..<h])"

definition ToRgbRawImage :: "gst_raw_image_info \<Rightarrow> gstreamer_buffer \<Rightarrow> raw_image outcome" where
  "ToRgbRawImage info b =
     (let h = word_of_int (gi_height info) :: int32; w = word_of_int (gi_width info) :: int32 in
      if gi_pstride info = gi_components info \<and>
         gi_rstride info = gi_width info * gi_pstride info \<and>
         sint (word_of_nat (length (gb_bytes b)) :: int32) = gi_height info * gi_rstride info
      then RawImage_bytes \<lparr>rid_format = RAW_IMAGE_FORMAT_SRGB, rid_height = h, rid_width = w\<rparr> (gb_bytes b)
      else outcome_bind (RawImage_dims h w RAW_IMAGE_FORMAT_SRGB)
             (fold_outcome (copy_byte info (gb_bytes b))
               (loop_indices (nat (gi_height info)) (nat (gi_width info)) (nat (gi_components info)))))"

definition ToRawImage :: "gst_lib \<Rightarrow> gstreamer_buffer \<Rightarrow> raw_image result outcome" where
  "ToRawImage G b =
     (case ParseAsRawImageCaps G (gb_caps b) new_raw_image_info of (st, info, leaked) \<Rightarrow>
        if \<not> status_ok st
        then Returns (Inl (InvalidArgumentError ''Failed to parse the given buffer as a raw image''))
        else (case gi_gst_format_id info of
                Some GST_VIDEO_FORMAT_RGB \<Rightarrow> outcome_bind (ToRgbRawImage info b) (\<lambda>r. Returns (Inr r))
              | _ \<Rightarrow> Returns (Inl (UnimplementedError (''We currently do not support '' @ [CHR 0x22] @
                       gi_format_name info @ [CHR 0x22])))))"

section \<open>From a raw image to a buffer\<close>

definition empty_gst_buffer :: gstreamer_buffer where
  "empty_gst_buffer = \<lparr>gb_caps = [], gb_bytes = []\<rparr>"

definition copy_row :: "string \<Rightarrow> nat \<Rightarrow> nat \<Rightarrow> nat \<Rightarrow> string \<Rightarrow> string outcome" where
  "copy_row src row_size row_stride i bytes =
     (if length src < row_size * (i + 1) then Fatal ''read out of bounds''
      else (case buf_write (row_stride * i) (take row_size (drop (row_size * i) src)) bytes of
              None \<Rightarrow> Fatal ''write out of bounds''
            | Some b \<Rightarrow> Returns b))"

text \<open>\<open>c_rem\<close> is the remainder of C++; an \<open>int\<close> overflow is undefined behaviour.\<close>

definition c_rem :: "int \<Rightarrow> int \<Rightarrow> int" where
  "c_rem a b = a - c_div a b * b"

definition RgbRawImageToGstreamerBuffer :: "gst_lib \<Rightarrow> raw_image \<Rightarrow> gstreamer_buffer outcome" where
  "RgbRawImageToGstreamerBuffer G r =
     (let b = set_caps_string (gl_caps_to_string_rgb G (ri_width r) (ri_height r)) empty_gst_buffer;
          row_size = sint (ri_width r) * sint (ri_channels r)
      in if c_rem row_size 4 = 0 then Returns (gb_assign (ri_data r) b)
         else
           (let row_stride = round_up_4 row_size; total = row_stride * sint (ri_height r) in
            if \<not> fits_int32 row_stride \<or> \<not> fits_int32 total then Fatal ''signed integer overflow''
            else outcome_bind
                   (fold_outcome (copy_row (ri_data r) (nat row_size) (nat row_stride))
                     [0..<nat (sint (ri_height r))] (replicate (nat total) (CHR 0x00)))
                   (\<lambda>bytes. Returns (gb_assign bytes b))))"

fun RawImageFormat_Name :: "raw_image_format \<Rightarrow> string" where
  "RawImageFormat_Name RAW_IMAGE_FORMAT_UNKNOWN = ''RAW_IMAGE_FORMAT_UNKNOWN''"
| "RawImageFormat_Name RAW_IMAGE_FORMAT_SRGB = ''RAW_IMAGE_FORMAT_SRGB''"
| "RawImageFormat_Name (RAW_IMAGE_FORMAT_UNNAMED n) = []"

definition ToGstreamerBuffer_image :: "gst_lib \<Rightarrow> raw_image \<Rightarrow> gstreamer_buffer result outcome" where
  "ToGstreamerBuffer_image G r =
     (if ri_format r \<noteq> RAW_IMAGE_FORMAT_SRGB
      then Returns (Inl (UnimplementedError (''We currently do not support raw images with your given format ('' @
             RawImageFormat_Name (ri_format r) @ '')'')))
      else outcome_bind (RgbRawImageToGstreamerBuffer G r) (\<lambda>b. Returns (Inr b)))"

definition GstreamerBufferPacketToGstreamerBuffer ::
    "proto_lib \<Rightarrow> packet \<Rightarrow> gstreamer_buffer result outcome" where
  "GstreamerBufferPacketToGstreamerBuffer L p =
     outcome_bind (PacketAs (gst_traits L) empty_gst_buffer p) (\<lambda>packet_as.
       if \<not> pa_ok packet_as
       then Returns (Inl (InternalError
         ''Failed to adapt supposedly a GstreamerBuffer packet into a GstreamerBuffer''))
       else outcome_bind (pa_ValueOrDie packet_as) (\<lambda>b. Returns (Inr b)))"

definition JpegPacketToGstreamerBuffer :: "packet \<Rightarrow> gstreamer_buffer result outcome" where
  "JpegPacketToGstreamerBuffer p =
     outcome_bind (PacketAs jpeg_traits (JpegFrame []) p) (\<lambda>packet_as.
       if \<not> pa_ok packet_as
       then Returns (Inl (InternalError ''Failed to adapt supposedly a JpegFrame packet into a JpegFrame''))
       else outcome_bind (pa_ValueOrDie packet_as) (\<lambda>jpeg_frame.
         Returns (Inr (gb_assign (jf_bytes jpeg_frame)
                         (set_caps_string kJpegGstreamerMimeType empty_gst_buffer)))))"

definition RawImagePacketToGstreamerBuffer ::
    "proto_lib \<Rightarrow> gst_lib \<Rightarrow> packet \<Rightarrow> gstreamer_buffer result outcome" where
  "RawImagePacketToGstreamerBuffer L G p =
     outcome_bind RawImage_default (\<lambda>d.
     outcome_bind (PacketAs (raw_image_traits L) d p) (\<lambda>packet_as.
       if \<not> pa_ok packet_as
       then Returns (Inl (InternalError ''Failed to adapt supposedly a RawImage packet into a RawImage''))
       else outcome_bind (pa_ValueOrDie packet_as) (ToGstreamerBuffer_image G)))"

definition ToGstreamerBuffer_packet ::
    "proto_lib \<Rightarrow> gst_lib \<Rightarrow> packet \<Rightarrow> gstreamer_buffer result outcome" where
  "ToGstreamerBuffer_packet L G p = (case GetPacketTypeId p of
      PACKET_TYPE_GSTREAMER_BUFFER \<Rightarrow> GstreamerBufferPacketToGstreamerBuffer L p
    | PACKET_TYPE_JPEG \<Rightarrow> JpegPacketToGstreamerBuffer p
    | PACKET_TYPE_RAW_IMAGE \<Rightarrow> RawImagePacketToGstreamerBuffer L G p
    | t \<Rightarrow> Returns (Inl (InvalidArgumentError (''The given Packet has a type ('' @ PacketTypeId_Name t @
               '') that cannot be converted into a GstreamerBuffer''))))"

section \<open>The loops\<close>

lemma concat_rows_upt:
  "concat (map (\<lambda>i. map (\<lambda>k. m * i + k) [0..<m]) [0..<n]) = [0..<n * m]"
proof (induction n)
  case 0
  then show ?case by simp
next
  case (Suc n)
  have "map (\<lambda>k. m * n + k) [0..<m] = [n * m..<n * m + m]"
    by (rule nth_equalityI) (simp_all add: mult.commute)
  with Suc show ?case by (simp add: upt_add_eq_append [of 0 "n * m" m] add.commute [of m])
qed

definition src_index :: "gst_raw_image_info \<Rightarrow> nat \<times> nat \<times> nat \<Rightarrow> int" where
  "src_index info t = (case t of (i, j, k) \<Rightarrow> gi_rstride info * int i + gi_pstride info * int j + int k)"

definition dst_index :: "gst_raw_image_info \<Rightarrow> nat \<times> nat \<times> nat \<Rightarrow> int" where
  "dst_index info t = (case t of (i, j, k) \<Rightarrow>
     gi_width info * gi_components info * int i + gi_components info * int j + int k)"

lemma copy_byte_eq:
  assumes "0 \<le> src_index info t" "src_index info t < int (length src)"
    "dst_index info t = int n" "n < length (ri_data r)"
  shows "copy_byte info src t r =
    Returns (r\<lparr>ri_data := (ri_data r)[n := src ! nat (src_index info t)]\<rparr>)"
proof -
  obtain i j k where t: "t = (i, j, k)" by (cases t)
  show ?thesis using assms by (simp add: t copy_byte_def src_index_def dst_index_def ri_set_def)
qed

text \<open>Writes at consecutive positions lay down the bytes read, in order.\<close>

lemma fold_copy_byte:
  assumes "map (dst_index info) ts = map int [0..<length ts]"
    and "\<forall>t \<in> set ts. 0 \<le> src_index info t \<and> src_index info t < int (length src)"
    and "length ts \<le> length (ri_data r)"
  shows "fold_outcome (copy_byte info src) ts r = Returns (r\<lparr>ri_data :=
     map (\<lambda>t. src ! nat (src_index info t)) ts @ drop (length ts) (ri_data r)\<rparr>)"
  using assms
proof (induction ts rule: rev_induct)
  case Nil
  then show ?case by simp
next
  case (snoc t ts)
  let ?d = "map (\<lambda>t. src ! nat (src_index info t)) ts"
  have d: "map (dst_index info) ts = map int [0..<length ts]" "dst_index info t = int (length ts)"
    using snoc.prems(1) by simp_all
  with snoc have IH: "fold_outcome (copy_byte info src) ts r =
      Returns (r\<lparr>ri_data := ?d @ drop (length ts) (ri_data r)\<rparr>)" by simp
  have "drop (length ts) (ri_data r) = ri_data r ! length ts # drop (Suc (length ts)) (ri_data r)"
    using snoc.prems(3) by (simp add: Cons_nth_drop_Suc)
  then have upd: "(?d @ drop (length ts) (ri_data r))[length ts := c] =
      ?d @ c # drop (Suc (length ts)) (ri_data r)" for c
    by (simp add: list_update_append)
  show ?case using snoc.prems(2,3) d(2)
    by (simp add: fold_outcome_append IH copy_byte_eq [where n = "length ts"] upd)
qed

lemma length_loop_indices: "length (loop_indices h w c) = h * (w * c)"
  by (simp add: loop_indices_def length_concat comp_def sum_list_triv)

lemma map_dst_loop_indices:
  assumes "gi_width info = int w" "gi_components info = int c"
  shows "map (dst_index info) (loop_indices h w c) = map int [0..<length (loop_indices h w c)]"
proof -
  have inner: "map (dst_index info) (concat (map (\<lambda>j. map (\<lambda>k. (i, j, k)) [0..<c]) [0..<w])) =
     map int (map (\<lambda>k. w * c * i + k) [0..<w * c])" for i
  proof -
    have "map (dst_index info) (concat (map (\<lambda>j. map (\<lambda>k. (i, j, k)) [0..<c]) [0..<w])) =
       map (\<lambda>x. int (w * c * i + x)) (concat (map (\<lambda>j. map (\<lambda>k. c * j + k) [0..<c]) [0..<w]))"
      using assms by (simp add: map_concat comp_def dst_index_def add.assoc)
    then show ?thesis by (simp add: concat_rows_upt)
  qed
  have "map (dst_index info) (loop_indices h w c) =
      map int (concat (map (\<lambda>i. map (\<lambda>k. w * c * i + k) [0..<w * c]) [0..<h]))"
    using inner by (simp add: loop_indices_def map_concat comp_def)
  also have "\<dots> = map int [0..<h * (w * c)]" by (simp add: concat_rows_upt)
  finally show ?thesis by (simp add: length_loop_indices)
qed

text \<open>The bytes read from a buffer whose pixels are contiguous: its rows without the padding.\<close>

lemma map_src_loop_indices:
  assumes "gi_rstride info = int rs" "gi_pstride info = int c"
  shows "map (\<lambda>t. src ! nat (src_index info t)) (loop_indices h w c) =
     concat (map (\<lambda>i. map (\<lambda>x. src ! (rs * i + x)) [0..<w * c]) [0..<h])"
proof -
  have inner: "map (\<lambda>t. src ! nat (src_index info t)) (concat (map (\<lambda>j. map (\<lambda>k. (i, j, k)) [0..<c]) [0..<w])) =
     map (\<lambda>x. src ! (rs * i + x)) [0..<w * c]" for i
  proof -
    have "map (\<lambda>t. src ! nat (src_index info t)) (concat (map (\<lambda>j. map (\<lambda>k. (i, j, k)) [0..<c]) [0..<w])) =
       map (\<lambda>x. src ! (rs * i + x)) (concat (map (\<lambda>j. map (\<lambda>k. c * j + k) [0..<c]) [0..<w]))"
      using assms by (simp add: map_concat comp_def src_index_def nat_add_distrib nat_mult_distrib add.assoc)
    then show ?thesis by (simp add: concat_rows_upt)
  qed
  show ?thesis using inner by (simp add: loop_indices_def map_concat comp_def)
qed

section \<open>Padding\<close>

text \<open>The rows of a contiguous image, each filled up to the stride.\<close>

definition padded_rows :: "string \<Rightarrow> nat \<Rightarrow> nat \<Rightarrow> nat \<Rightarrow> string" where
  "padded_rows src row_size row_stride n =
     concat (map (\<lambda>i. take row_size (drop (row_size * i) src) @
                      replicate (row_stride - row_size) (CHR 0x00)) [0..<n])"

lemma length_concat_uniform:
  "\<forall>i < n. length (f i) = m \<Longrightarrow> length (concat (map f [0..<n])) = m * n"
  by (induction n) simp_all

lemma nth_concat_uniform:
  "\<forall>i < n. length (f i) = m \<Longrightarrow> i < n \<Longrightarrow> x < m \<Longrightarrow> concat (map f [0..<n]) ! (m * i + x) = f i ! x"
proof (induction n)
  case 0
  then show ?case by simp
next
  case (Suc n)
  have len: "length (concat (map f [0..<n])) = m * n"
    using Suc.prems(1) by (intro length_concat_uniform) simp
  show ?case
  proof (cases "i = n")
    case True
    then show ?thesis using len by (simp add: nth_append)
  next
    case False
    with Suc.prems have i: "i < n" by simp
    then have "m * i + m \<le> m * n" by (metis Suc_leI mult_Suc_right mult_le_mono2 add.commute)
    with Suc.prems(3) have "m * i + x < m * n" by simp
    with len Suc i show ?thesis by (simp add: nth_append)
  qed
qed

lemma padded_row_length:
  assumes "row_size * n \<le> length src" "row_size \<le> row_stride" "i < n"
  shows "length (take row_size (drop (row_size * i) src) @
                 replicate (row_stride - row_size) (CHR 0x00)) = row_stride"
proof -
  have "row_size * i + row_size \<le> row_size * n"
    using assms(3) by (metis Suc_leI mult_Suc_right mult_le_mono2 add.commute)
  with assms(1,2) show ?thesis by simp
qed

lemma length_padded_rows:
  assumes "row_size * n \<le> length src" "row_size \<le> row_stride"
  shows "length (padded_rows src row_size row_stride n) = row_stride * n"
  unfolding padded_rows_def using padded_row_length [OF assms] by (intro length_concat_uniform) blast

lemma nth_padded_rows:
  assumes "row_size * n \<le> length src" "row_size \<le> row_stride" "i < n" "x < row_size"
  shows "padded_rows src row_size row_stride n ! (row_stride * i + x) = src ! (row_size * i + x)"
proof -
  have "row_size * i + row_size \<le> row_size * n"
    using assms(3) by (metis Suc_leI mult_Suc_right mult_le_mono2 add.commute)
  with assms have "row_size * i + x < length src" by simp
  then have "x < length src - row_size * i" by simp
  moreover have "padded_rows src row_size row_stride n ! (row_stride * i + x) =
      (take row_size (drop (row_size * i) src) @ replicate (row_stride - row_size) (CHR 0x00)) ! x"
    unfolding padded_rows_def
    using padded_row_length [OF assms(1,2)] assms by (intro nth_concat_uniform) auto
  ultimately show ?thesis using assms(4) by (simp add: nth_append)
qed

lemma fold_copy_row:
  assumes "row_size * h \<le> length src" "row_size \<le> row_stride" "n \<le> h"
  shows "fold_outcome (copy_row src row_size row_stride) [0..<n] (replicate (row_stride * h) (CHR 0x00)) =
     Returns (padded_rows src row_size row_stride n @ replicate (row_stride * (h - n)) (CHR 0x00))"
  using assms(3)
proof (induction n)
  case 0
  then show ?case by (simp add: padded_rows_def)
next
  case (Suc n)
  let ?row = "take row_size (drop (row_size * n) src)"
  have "row_size * (n + 1) \<le> row_size * h" using Suc.prems by (intro mult_le_mono2) simp
  then have src: "row_size * (n + 1) \<le> length src" using assms(1) by simp
  then have row: "length ?row = row_size" by simp
  have len: "length (padded_rows src row_size row_stride n) = row_stride * n"
    using src assms(2) by (intro length_padded_rows) simp_all
  have room: "row_stride * (h - n) = row_stride + row_stride * (h - Suc n)"
    using Suc.prems by (simp add: Suc_diff_Suc flip: mult_Suc_right)
  have "buf_write (row_stride * n) ?row
      (padded_rows src row_size row_stride n @ replicate (row_stride * (h - n)) (CHR 0x00)) =
    Some (padded_rows src row_size row_stride (Suc n) @ replicate (row_stride * (h - Suc n)) (CHR 0x00))"
    using len row room assms(2)
    by (simp add: buf_write_def padded_rows_def replicate_add [symmetric])
  with Suc src show ?case by (simp add: fold_outcome_append copy_row_def)
qed

lemma round_up_4_bounds: "n \<le> round_up_4 n \<and> round_up_4 n < n + 4 \<and> (round_up_4 n = n \<longleftrightarrow> n mod 4 = 0)"
  unfolding round_up_4_def by presburger

lemma c_rem_nonneg: "0 \<le> a \<Longrightarrow> c_rem a 4 = a mod 4"
  by (cases "a = 0") (simp_all add: c_rem_def c_div_def minus_div_mult_eq_mod)

text \<open>The buffer that stands for an RGB image: its rows padded to a multiple of four bytes.\<close>

definition rgb_bytes :: "raw_image \<Rightarrow> string" where
  "rgb_bytes r = (let row = nat (sint (ri_width r) * 3) in
     padded_rows (ri_data r) row (nat (round_up_4 (int row))) (nat (sint (ri_height r))))"

definition rgb_convertible :: "raw_image \<Rightarrow> bool" where
  "rgb_convertible r \<longleftrightarrow> raw_image_inv r \<and> ri_format r = RAW_IMAGE_FORMAT_SRGB \<and>
     0 < sint (ri_width r) \<and> 0 < sint (ri_height r) \<and>
     round_up_4 (3 * sint (ri_width r)) * sint (ri_height r) \<le> int_max"

lemma rgb_convertible_facts:
  assumes "rgb_convertible r"
  defines "w \<equiv> nat (sint (ri_width r))" and "h \<equiv> nat (sint (ri_height r))"
  shows "sint (ri_width r) = int w" "sint (ri_height r) = int h" "0 < w" "0 < h"
    "ri_channels r = 3" "length (ri_data r) = 3 * w * h"
    "round_up_4 (3 * int w) * int h \<le> int_max"
proof -
  have inv: "raw_image_inv r" "ri_format r = RAW_IMAGE_FORMAT_SRGB" "0 < sint (ri_width r)"
    "0 < sint (ri_height r)" "round_up_4 (3 * sint (ri_width r)) * sint (ri_height r) \<le> int_max"
    using assms(1) by (simp_all add: rgb_convertible_def)
  then show wh: "sint (ri_width r) = int w" "sint (ri_height r) = int h" "0 < w" "0 < h"
    by (simp_all add: w_def h_def)
  show "ri_channels r = 3" using inv by (simp add: raw_image_inv_def)
  have "int (length (ri_data r)) = int h * int w * 3"
    using inv wh by (simp add: raw_image_inv_def pixel_bytes_def descriptor_of_image_def)
  then have "int (length (ri_data r)) = int (3 * w * h)" by simp
  then show "length (ri_data r) = 3 * w * h" by (simp only: of_nat_eq_iff)
  show "round_up_4 (3 * int w) * int h \<le> int_max" using inv(5) wh by simp
qed

lemma stride_facts:
  fixes row :: nat
  shows "int (nat (round_up_4 (int row))) = round_up_4 (int row)" "row \<le> nat (round_up_4 (int row))"
    "nat (round_up_4 (int row)) = row \<longleftrightarrow> row mod 4 = 0"
proof -
  have r: "round_up_4 (int row) = int (((row + 3) div 4) * 4)" by (simp add: round_up_4_def zdiv_int)
  then show "int (nat (round_up_4 (int row))) = round_up_4 (int row)" by simp
  from r have n: "nat (round_up_4 (int row)) = ((row + 3) div 4) * 4" by simp
  show "row \<le> nat (round_up_4 (int row))" unfolding n by presburger
  show "nat (round_up_4 (int row)) = row \<longleftrightarrow> row mod 4 = 0" unfolding n by presburger
qed

lemma padded_rows_same:
  assumes "length src = row * h"
  shows "padded_rows src row row h = src"
proof (rule nth_equalityI)
  have le: "row * h \<le> length src" using assms by simp
  show len: "length (padded_rows src row row h) = length src"
    using length_padded_rows [OF le order_refl] assms by simp
  fix n assume "n < length (padded_rows src row row h)"
  then have n: "n < row * h" using len assms by simp
  then have "0 < row" by (cases row) simp_all
  with n have "n div row < h" "n mod row < row" by (simp_all add: less_mult_imp_div_less mult.commute)
  from nth_padded_rows [OF le order_refl this]
  show "padded_rows src row row h ! n = src ! n" by simp
qed

lemma rgb_to_buffer:
  assumes "rgb_convertible r"
  shows "RgbRawImageToGstreamerBuffer G r = Returns
           \<lparr>gb_caps = gl_caps_to_string_rgb G (ri_width r) (ri_height r), gb_bytes = rgb_bytes r\<rparr>"
proof -
  define w h where "w = nat (sint (ri_width r))" and "h = nat (sint (ri_height r))"
  note f = rgb_convertible_facts [OF assms, folded w_def h_def]
  define row where "row = 3 * w"
  define stride where "stride = nat (round_up_4 (int row))"
  note stride = stride_facts [of row, folded stride_def]
  have bytes: "rgb_bytes r = padded_rows (ri_data r) row stride h"
    using f(1,2) by (simp add: rgb_bytes_def row_def stride_def mult.commute nat_mult_distrib)
  have row_int: "sint (ri_width r) * sint (ri_channels r) = int row" using f by (simp add: row_def)
  have rem: "c_rem (int row) 4 = 0 \<longleftrightarrow> row mod 4 = 0"
  proof -
    have "int row mod 4 = int (row mod 4)" by (simp add: zmod_int)
    then show ?thesis using c_rem_nonneg [of "int row"] by simp
  qed
  have src: "row * h \<le> length (ri_data r)" "length (ri_data r) = row * h" using f(6) by (simp_all add: row_def)
  show ?thesis
  proof (cases "row mod 4 = 0")
    case True
    have "padded_rows (ri_data r) row row h = ri_data r" using src(2) by (rule padded_rows_same)
    with True stride(3) bytes rem row_int show ?thesis
      by (simp add: RgbRawImageToGstreamerBuffer_def set_caps_string_def gb_assign_def
          empty_gst_buffer_def)
  next
    case False
    have tot: "int stride * int h \<le> int_max" using f(7) stride(1) by (simp add: row_def)
    have "stride \<le> stride * h" using f(4) by (cases h) simp_all
    then have "int stride \<le> int stride * int h" by (metis of_nat_le_iff of_nat_mult)
    with tot have fits: "fits_int32 (int stride)" "fits_int32 (int stride * int h)"
      by (auto simp: fits_int32_def int_max_def)
    have tot_nat: "nat (int stride * int h) = stride * h" by (simp add: nat_mult_distrib)
    have "c_rem (int row) 4 \<noteq> 0" using False rem by simp
    then show ?thesis
      using fits fold_copy_row [OF src(1) stride(2) order_refl]
      unfolding RgbRawImageToGstreamerBuffer_def Let_def row_int stride(1) [symmetric] f(2) bytes
        tot_nat nat_int
      by (simp add: set_caps_string_def gb_assign_def empty_gst_buffer_def)
  qed
qed

text \<open>\<open>ToRgbRawImage\<close> on a buffer laid out as gstreamer lays out RGB.\<close>

lemma rgb_from_buffer:
  assumes conv: "rgb_convertible r"
    and info: "gi_height info = sint (ri_height r)" "gi_width info = sint (ri_width r)"
      "gi_components info = 3" "gi_pstride info = 3" "gi_rstride info = round_up_4 (3 * sint (ri_width r))"
    and bytes: "gb_bytes b = rgb_bytes r"
  shows "ToRgbRawImage info b = Returns r"
proof -
  define w h where "w = nat (sint (ri_width r))" and "h = nat (sint (ri_height r))"
  note f = rgb_convertible_facts [OF conv, folded w_def h_def]
  define row where "row = 3 * w"
  define stride where "stride = nat (round_up_4 (int row))"
  note stride = stride_facts [of row, folded stride_def]
  have bb: "gb_bytes b = padded_rows (ri_data r) row stride h"
    using f(1,2) bytes by (simp add: rgb_bytes_def row_def stride_def mult.commute nat_mult_distrib)
  have src: "row * h \<le> length (ri_data r)" "length (ri_data r) = row * h" using f(6) by (simp_all add: row_def)
  have len: "length (gb_bytes b) = stride * h" using bb length_padded_rows [OF src(1) stride(2)] by simp
  have inv: "raw_image_inv r" "ri_format r = RAW_IMAGE_FORMAT_SRGB"
    using conv by (simp_all add: rgb_convertible_def)
  let ?d = "\<lparr>rid_format = RAW_IMAGE_FORMAT_SRGB, rid_height = ri_height r, rid_width = ri_width r\<rparr>"
  have d: "descriptor_of_image r = ?d" using inv(2) by (simp add: descriptor_of_image_def)
  have dok: "desc_ok ?d" "int (length (ri_data r)) = pixel_bytes ?d"
    using inv(1) unfolding raw_image_inv_def d by simp_all
  have data: "concat (map (\<lambda>i. map (\<lambda>x. gb_bytes b ! (stride * i + x)) [0..<row]) [0..<h]) = ri_data r"
  proof -
    have rows: "map (\<lambda>i. map (\<lambda>x. gb_bytes b ! (stride * i + x)) [0..<row]) [0..<h] =
          map (map ((!) (ri_data r))) (map (\<lambda>i. map (\<lambda>x. row * i + x) [0..<row]) [0..<h])"
      using nth_padded_rows [OF src(1) stride(2)] bb by simp
    have "concat (map (\<lambda>i. map (\<lambda>x. gb_bytes b ! (stride * i + x)) [0..<row]) [0..<h]) =
          map ((!) (ri_data r)) (concat (map (\<lambda>i. map (\<lambda>x. row * i + x) [0..<row]) [0..<h]))"
      by (simp only: rows map_concat)
    also have "\<dots> = map ((!) (ri_data r)) [0..<length (ri_data r)]"
      by (simp only: concat_rows_upt src(2) mult.commute [of row h])
    finally show ?thesis by (simp only: map_nth)
  qed
  have small: "int (stride * h) \<le> int_max" using f(7) stride(1) by (simp add: row_def)
  then have fits: "fits_int32 (int (stride * h))" unfolding fits_int32_def int_max_def by linarith
  have "(word_of_nat (length (gb_bytes b)) :: int32) = word_of_int (int (stride * h))"
    unfolding len by (simp only: of_int_of_nat_eq)
  then have size: "sint (word_of_nat (length (gb_bytes b)) :: int32) = int (stride * h)"
    by (simp only: sint_word_of_int_fits [OF fits])
  have rs: "gi_rstride info = int stride" using info(5) f(1) stride(1) by (simp add: row_def)
  have fast: "gi_pstride info = gi_components info \<and>
       gi_rstride info = gi_width info * gi_pstride info \<and>
       sint (word_of_nat (length (gb_bytes b)) :: int32) = gi_height info * gi_rstride info \<longleftrightarrow>
     row mod 4 = 0"
    using info f(1,2) stride(3) rs size by (simp add: row_def) linarith
  show ?thesis
  proof (cases "row mod 4 = 0")
    case True
    then have "gb_bytes b = ri_data r" using bb stride(3) padded_rows_same [OF src(2)] by simp
    with True fast RawImage_bytes_ok [OF dok] inv info(1,2) show ?thesis
      by (cases r) (simp add: ToRgbRawImage_def Let_def raw_image_inv_def)
  next
    case False
    obtain img where img: "RawImage_desc ?d = Returns img" "raw_image_inv img"
      "descriptor_of_image img = ?d" "ri_data img = replicate (nat (pixel_bytes ?d)) (CHR 0x00)"
      using RawImage_desc_ok [OF dok(1)] by blast
    have li: "length (ri_data img) = row * h" using img(4) src(2) by (simp add: nat_mult_distrib flip: dok(2))
    let ?ts = "loop_indices h w 3"
    have lts: "length ?ts = row * h" by (simp add: length_loop_indices row_def)
    have "\<forall>t \<in> set ?ts. 0 \<le> src_index info t \<and> src_index info t < int (length (gb_bytes b))"
    proof
      fix t assume "t \<in> set ?ts"
      then obtain i j k where t: "t = (i, j, k)" "i < h" "j < w" "k < 3"
        by (auto simp: loop_indices_def)
      then have si: "src_index info t = int (stride * i + (3 * j + k))"
        using rs info(4) by (simp add: src_index_def)
      have "3 * j + k < row" using t by (simp add: row_def)
      moreover have "stride * i + stride \<le> stride * h"
        using t(2) by (metis Suc_leI mult_Suc_right mult_le_mono2 add.commute)
      ultimately have "stride * i + (3 * j + k) < stride * h" using stride(2) by simp
      then show "0 \<le> src_index info t \<and> src_index info t < int (length (gb_bytes b))"
        unfolding len si by (simp only: of_nat_0_le_iff of_nat_less_iff simp_thms)
    qed
    then have "fold_outcome (copy_byte info (gb_bytes b)) ?ts img = Returns (img\<lparr>ri_data :=
        map (\<lambda>t. gb_bytes b ! nat (src_index info t)) ?ts @ drop (length ?ts) (ri_data img)\<rparr>)"
      using info f(1) li lts
      by (intro fold_copy_byte map_dst_loop_indices) simp_all
    moreover have "map (\<lambda>t. gb_bytes b ! nat (src_index info t)) ?ts = ri_data r"
    proof -
      have "gi_pstride info = int 3" using info(4) by simp
      from map_src_loop_indices [OF rs this, of "gb_bytes b" h w] data show ?thesis
        by (simp only: mult.commute [of w 3] row_def)
    qed
    ultimately have "fold_outcome (copy_byte info (gb_bytes b)) ?ts img = Returns (img\<lparr>ri_data := ri_data r\<rparr>)"
      using li lts by simp
    moreover have "img\<lparr>ri_data := ri_data r\<rparr> = r"
      using img(2,3) inv d by (cases r, cases img) (simp add: raw_image_inv_def descriptor_of_image_def)
    ultimately have fold: "fold_outcome (copy_byte info (gb_bytes b)) ?ts img = Returns r" by simp
    have hw: "(word_of_int (gi_height info) :: int32) = ri_height r"
      "(word_of_int (gi_width info) :: int32) = ri_width r"
      "nat (gi_height info) = h" "nat (gi_width info) = w" "nat (gi_components info) = 3"
      unfolding info(1-3) by (simp_all add: h_def w_def)
    have slow: "(row mod 4 = 0) = False" using False by simp
    show ?thesis
      unfolding ToRgbRawImage_def Let_def fast slow hw if_False RawImage_dims_def img(1)
      by (simp add: fold)
  qed
qed

section \<open>Properties\<close>

text \<open>
  C23. An RGB image converted into a gstreamer buffer and back is the same image, whatever its
  width: the padding to multiples of four bytes put in by one function is exactly what the
  other closes. In the buffer every row starts at a multiple of the stride. Neither direction
  crashes or leaves its buffers. (The image must have pixels and its padded size fit an \<open>int\<close>.)
\<close>

theorem rgb_buffer_roundtrip:
  assumes "gst_laws G" and "rgb_convertible r"
  shows "\<exists>b. ToGstreamerBuffer_image G r = Returns (Inr b) \<and>
      ToRawImage G b = Returns (Inr r) \<and>
      int (length (gb_bytes b)) = round_up_4 (3 * sint (ri_width r)) * sint (ri_height r) \<and>
      (\<forall>i x. i < nat (sint (ri_height r)) \<and> x < nat (3 * sint (ri_width r)) \<longrightarrow>
         gb_bytes b ! (nat (round_up_4 (3 * sint (ri_width r))) * i + x) =
         ri_data r ! (nat (3 * sint (ri_width r)) * i + x))"
proof -
  define w h where "w = nat (sint (ri_width r))" and "h = nat (sint (ri_height r))"
  note f = rgb_convertible_facts [OF assms(2), folded w_def h_def]
  define b where "b = \<lparr>gb_caps = gl_caps_to_string_rgb G (ri_width r) (ri_height r), gb_bytes = rgb_bytes r\<rparr>"
  have to: "ToGstreamerBuffer_image G r = Returns (Inr b)"
    using rgb_to_buffer [OF assms(2), of G] assms(2)
    by (simp add: ToGstreamerBuffer_image_def b_def rgb_convertible_def)
  have pre: "0 < sint (ri_width r) \<and> 0 < sint (ri_height r) \<and>
      round_up_4 (3 * sint (ri_width r)) * sint (ri_height r) \<le> int_max"
    using assms(2) by (simp add: rgb_convertible_def)
  then obtain size name where caps: "gl_caps_from_string G (gb_caps b) =
        Some \<lparr>caps_name = ''video/x-raw'', caps_video_info = Some
          \<lparr>vi_format = GST_VIDEO_FORMAT_RGB, vi_name = name, vi_planes = 1, vi_components = 3,
           vi_height = sint (ri_height r), vi_width = sint (ri_width r), vi_size = size,
           vi_plane_stride = round_up_4 (3 * sint (ri_width r)), vi_comp_pstride = 3\<rparr>\<rparr>"
    "CHR 0x00 \<notin> set (gb_caps b)"
    using assms(1) unfolding gst_laws_def b_def by fastforce
  have cstr: "c_str (gb_caps b) = gb_caps b"
    unfolding c_str_def using caps(2) by (intro takeWhile_eq_all_conv [THEN iffD2]) auto
  have "ToRgbRawImage info b = Returns r"
    if "gi_height info = sint (ri_height r)" "gi_width info = sint (ri_width r)"
      "gi_components info = 3" "gi_pstride info = 3" "gi_rstride info = round_up_4 (3 * sint (ri_width r))"
    for info
    using rgb_from_buffer [OF assms(2) that] by (simp add: b_def)
  then have from_b: "ToRawImage G b = Returns (Inr r)"
    by (simp add: ToRawImage_def ParseAsRawImageCaps_def cstr caps(1) kRawImageGstreamerMimeType_def)
  have src: "3 * w * h \<le> length (ri_data r)" using f(6) by simp
  note st = stride_facts [of "3 * w"]
  have bytes: "gb_bytes b = padded_rows (ri_data r) (3 * w) (nat (round_up_4 (int (3 * w)))) h"
    using f(1,2) by (simp add: b_def rgb_bytes_def mult.commute nat_mult_distrib)
  have "length (gb_bytes b) = nat (round_up_4 (int (3 * w))) * h"
    unfolding bytes by (rule length_padded_rows [OF src st(2)])
  then have len: "int (length (gb_bytes b)) = round_up_4 (3 * sint (ri_width r)) * sint (ri_height r)"
    using st(1) f(1,2) by (simp add: mult.commute)
  have "gb_bytes b ! (nat (round_up_4 (int (3 * w))) * i + x) = ri_data r ! (3 * w * i + x)"
    if "i < h" "x < 3 * w" for i x
    unfolding bytes using that by (intro nth_padded_rows [OF src st(2)])
  then have "\<forall>i x. i < nat (sint (ri_height r)) \<and> x < nat (3 * sint (ri_width r)) \<longrightarrow>
         gb_bytes b ! (nat (round_up_4 (3 * sint (ri_width r))) * i + x) =
         ri_data r ! (nat (3 * sint (ri_width r)) * i + x)"
    using f(1,2) by (simp add: nat_mult_distrib)
  with to from_b len show ?thesis by blast
qed

text \<open>A gstreamer that knows RGB caps only, encoding the dimensions in unary.\<close>

definition unary_gst :: gst_lib where
  "unary_gst = \<lparr>gl_caps_from_string = (\<lambda>s.
       let w = int (length (takeWhile (\<lambda>c. c = CHR ''w'') s)); h = int (length s) - w in
       Some \<lparr>caps_name = ''video/x-raw'', caps_video_info = Some
          \<lparr>vi_format = GST_VIDEO_FORMAT_RGB, vi_name = ''RGB'', vi_planes = 1, vi_components = 3,
           vi_height = h, vi_width = w, vi_size = 0,
           vi_plane_stride = round_up_4 (3 * w), vi_comp_pstride = 3\<rparr>\<rparr>),
     gl_caps_to_string_rgb = (\<lambda>w h. replicate (nat (sint w)) (CHR ''w'') @ replicate (nat (sint h)) (CHR ''h''))\<rparr>"

lemma unary_gst_laws: "gst_laws unary_gst"
proof -
  have "takeWhile (\<lambda>c. c = CHR ''w'') (replicate n (CHR ''w'') @ replicate m (CHR ''h'')) = replicate n (CHR ''w'')"
    for n m
    by (cases m) (simp_all add: takeWhile_append)
  then show ?thesis by (simp add: gst_laws_def unary_gst_def Let_def)
qed

theorem rgb_buffer_roundtrip_witness:
  "\<exists>b. ToGstreamerBuffer_image unary_gst \<lparr>ri_height = 2, ri_width = 1, ri_channels = 3,
          ri_format = RAW_IMAGE_FORMAT_SRGB, ri_data = ''abcdef''\<rparr> = Returns (Inr b) \<and>
       ToRawImage unary_gst b = Returns (Inr \<lparr>ri_height = 2, ri_width = 1, ri_channels = 3,
          ri_format = RAW_IMAGE_FORMAT_SRGB, ri_data = ''abcdef''\<rparr>) \<and>
       int (length (gb_bytes b)) = 8"
proof -
  let ?r = "\<lparr>ri_height = 2, ri_width = 1, ri_channels = 3,
          ri_format = RAW_IMAGE_FORMAT_SRGB, ri_data = ''abcdef''\<rparr> :: raw_image"
  have "rgb_convertible ?r"
    by (simp add: rgb_convertible_def raw_image_inv_def desc_ok_def pixel_bytes_def
        descriptor_of_image_def int_max_def round_up_4_def)
  from rgb_buffer_roundtrip [OF unary_gst_laws this] show ?thesis by (auto simp: round_up_4_def)
qed

text \<open>
  The slow path reads the buffer at the positions the caps imply without looking at its size:
  a buffer shorter than its caps promise is read out of bounds.
\<close>

lemma short_buffer_read_out_of_bounds:
  "is_fatal (ToRgbRawImage \<lparr>gi_gst_format_id = Some GST_VIDEO_FORMAT_RGB, gi_format_name = ''RGB'',
      gi_height = 1, gi_width = 1, gi_size = 4, gi_planes = 1, gi_components = 3, gi_rstride = 4,
      gi_pstride = 3\<rparr> empty_gst_buffer)"
  by (simp add: ToRgbRawImage_def empty_gst_buffer_def loop_indices_def copy_byte_def Let_def
      RawImage_dims_def RawImage_desc_def Validate_def GetBufferSize_def mul_overflow_def
      fits_int32_def upt_conv_Cons)

text \<open>The caps of an image with several planes are never unreferenced.\<close>

lemma planar_caps_leak:
  "gl_caps_from_string G (c_str s) = Some \<lparr>caps_name = ''video/x-raw'', caps_video_info = Some info\<rparr> \<Longrightarrow>
   1 < vi_planes info \<Longrightarrow> snd (snd (ParseAsRawImageCaps G s new_raw_image_info)) = 1"
  by (simp add: ParseAsRawImageCaps_def kRawImageGstreamerMimeType_def Let_def)

end
