(* ===== verification/Stream_Channel.thy ===== *)
theory Stream_Channel
  imports Gst_Type_Utils
begin

text \<open>
  Connecting to a server: \<open>base/connection_options.h\<close>, \<open>base/offset_options.h\<close>,
  \<open>base/util/grpc_helpers.cc\<close>, \<open>base/util/auth_helpers.cc\<close> and
  \<open>base/stream_channel.h\<close>, \<open>stream_channel.cc\<close>.

  \<open>absl::Duration\<close> counts quarters of a nanosecond and has two infinite values; an
  \<open>absl::Time\<close> is the duration since the Unix epoch. gRPC, the IAM service, the JSON parser and
  the operating system are the record \<open>rpc_env\<close>, where \<open>re_uniform k\<close> is the random source of
  the \<open>k\<close>-th random string. A channel is what was asked of gRPC to create it, a
  client context what was set in it.
\<close>

section \<open>Durations\<close>

datatype duration = InfinitePastDuration | Ticks int | InfiniteDuration

type_synonym absl_time = duration

fun duration_le :: "duration \<Rightarrow> duration \<Rightarrow> bool" where
  "duration_le InfinitePastDuration _ = True"
| "duration_le (Ticks _) InfinitePastDuration = False"
| "duration_le (Ticks a) (Ticks b) = (a \<le> b)"
| "duration_le (Ticks _) InfiniteDuration = True"
| "duration_le InfiniteDuration d = (d = InfiniteDuration)"

instantiation duration :: linorder
begin

definition less_eq_duration :: "duration \<Rightarrow> duration \<Rightarrow> bool" where
  "less_eq_duration a b = duration_le a b"

definition less_duration :: "duration \<Rightarrow> duration \<Rightarrow> bool" where
  "less_duration a b = (duration_le a b \<and> a \<noteq> b)"

instance
proof
  fix x y z :: duration
  show "(x < y) = (x \<le> y \<and> \<not> y \<le> x)"
    by (cases x; cases y) (auto simp: less_duration_def less_eq_duration_def)
  show "x \<le> x" by (cases x) (auto simp: less_eq_duration_def)
  show "x \<le> y \<Longrightarrow> y \<le> z \<Longrightarrow> x \<le> z"
    by (cases x; cases y; cases z) (auto simp: less_eq_duration_def)
  show "x \<le> y \<Longrightarrow> y \<le> x \<Longrightarrow> x = y"
    by (cases x; cases y) (auto simp: less_eq_duration_def)
  show "x \<le> y \<or> y \<le> x" by (cases x; cases y) (auto simp: less_eq_duration_def)
qed

end

definition ticks_per_second :: int where
  "ticks_per_second = 4000000000"

definition ZeroDuration :: duration where
  "ZeroDuration = Ticks 0"

definition Seconds :: "int \<Rightarrow> duration" where
  "Seconds n = Ticks (n * ticks_per_second)"

text \<open>The finite durations: the count of whole seconds is an \<open>int64_t\<close>.\<close>

definition duration_wf :: "duration \<Rightarrow> bool" where
  "duration_wf d = (case d of
      Ticks t \<Rightarrow> - (2 ^ 63) \<le> t div ticks_per_second \<and> t div ticks_per_second < 2 ^ 63
    | _ \<Rightarrow> True)"

text \<open>Sums and differences that leave the range become infinite; so does one with an infinite left operand.\<close>

definition saturate :: "int \<Rightarrow> duration" where
  "saturate t = (if duration_wf (Ticks t) then Ticks t
                 else if t < 0 then InfinitePastDuration else InfiniteDuration)"

fun dplus :: "duration \<Rightarrow> duration \<Rightarrow> duration" where
  "dplus (Ticks a) (Ticks b) = saturate (a + b)"
| "dplus (Ticks a) d = d"
| "dplus d _ = d"

fun dminus :: "duration \<Rightarrow> duration \<Rightarrow> duration" where
  "dminus (Ticks a) (Ticks b) = saturate (a - b)"
| "dminus (Ticks a) InfiniteDuration = InfinitePastDuration"
| "dminus (Ticks a) InfinitePastDuration = InfiniteDuration"
| "dminus d _ = d"

text \<open>
  The quotient of two durations is an \<open>int64_t\<close>; it truncates towards zero and is the least or
  the greatest value when it is not representable.
\<close>

definition clamp64 :: "int \<Rightarrow> int" where
  "clamp64 i = max (- (2 ^ 63)) (min (2 ^ 63 - 1) i)"

fun ddiv :: "duration \<Rightarrow> int \<Rightarrow> int" where
  "ddiv (Ticks a) unit = clamp64 (c_div a unit)"
| "ddiv InfiniteDuration unit = 2 ^ 63 - 1"
| "ddiv InfinitePastDuration unit = - (2 ^ 63)"

text \<open>\<open>ToUnixSeconds\<close> rounds down; \<open>ToChronoTime\<close> gives nanoseconds, rounded down.\<close>

fun ToUnixSeconds :: "absl_time \<Rightarrow> int" where
  "ToUnixSeconds (Ticks t) = t div ticks_per_second"
| "ToUnixSeconds InfiniteDuration = 2 ^ 63 - 1"
| "ToUnixSeconds InfinitePastDuration = - (2 ^ 63)"

fun ToChronoTime :: "absl_time \<Rightarrow> int" where
  "ToChronoTime (Ticks t) = clamp64 (t div 4)"
| "ToChronoTime InfiniteDuration = 2 ^ 63 - 1"
| "ToChronoTime InfinitePastDuration = - (2 ^ 63)"

section \<open>Options\<close>

record ssl_options =
  so_use_insecure_channel :: bool
  so_ssl_domain_name :: string
  so_ssl_root_cert_path :: string

record rpc_options =
  ro_timeout :: duration
  ro_wait_for_ready :: bool

record connection_options =
  co_target_address :: string
  co_authenticate_with_google :: bool
  co_ssl_options :: ssl_options
  co_rpc_options :: rpc_options

definition default_connection_options :: connection_options where
  "default_connection_options = \<lparr>co_target_address = [], co_authenticate_with_google = False,
     co_ssl_options = \<lparr>so_use_insecure_channel = False,
        so_ssl_domain_name = ''aistreams.googleapis.com'', so_ssl_root_cert_path = []\<rparr>,
     co_rpc_options = \<lparr>ro_timeout = InfiniteDuration, ro_wait_for_ready = False\<rparr>\<rparr>"

datatype special_offset = kOffsetBeginning | kOffsetEnd

datatype position_type = SpecialPosition special_offset | SeekPosition int64 | SeekTime absl_time

record offset_options =
  oo_reset_offset :: bool
  oo_offset_position :: position_type

definition default_offset_options :: offset_options where
  "default_offset_options =
     \<lparr>oo_reset_offset = False, oo_offset_position = SpecialPosition kOffsetBeginning\<rparr>"

section \<open>The environment\<close>

datatype credentials = InsecureChannelCredentials | SslCredentials string

record grpc_channel =
  ch_target :: string
  ch_credentials :: credentials
  ch_max_receive :: int
  ch_max_send :: int
  ch_ssl_target_name :: "string option"

record client_context =
  cc_metadata :: "(string \<times> string) list"
  cc_wait_for_ready :: bool
  cc_deadline :: "int option"

definition new_client_context :: client_context where
  "new_client_context = \<lparr>cc_metadata = [], cc_wait_for_ready = False, cc_deadline = None\<rparr>"

definition AddMetadata :: "string \<Rightarrow> string \<Rightarrow> client_context \<Rightarrow> client_context" where
  "AddMetadata k v ctx = ctx\<lparr>cc_metadata := cc_metadata ctx @ [(k, v)]\<rparr>"

datatype json_value = JsonObject "(string \<times> json_value) list" | JsonString string | JsonOther

record id_token_request =
  itr_name :: string
  itr_audience :: string
  itr_include_email :: bool

record rpc_env =
  re_now :: absl_time
  re_fs :: file_system
  re_getenv :: "string \<Rightarrow> string option"
  re_generate_id_token :: "id_token_request \<Rightarrow> grpc_status \<times> string"
  re_parse_json :: "string \<Rightarrow> json_value"
  re_custom_channel :: "grpc_channel \<Rightarrow> bool"
  re_uniform :: "nat \<Rightarrow> nat \<Rightarrow> nat \<Rightarrow> nat \<Rightarrow> nat"

section \<open>Channels\<close>

definition SetCommonChannelArgs :: "grpc_channel \<Rightarrow> grpc_channel" where
  "SetCommonChannelArgs ch = ch\<lparr>ch_max_receive := -1, ch_max_send := -1\<rparr>"

text \<open>gRPC's own limits, before they are lifted: 4 MB to receive, none to send.\<close>

definition new_channel :: "string \<Rightarrow> credentials \<Rightarrow> grpc_channel" where
  "new_channel target cred = \<lparr>ch_target = target, ch_credentials = cred,
     ch_max_receive = 4194304, ch_max_send = -1, ch_ssl_target_name = None\<rparr>"

definition CreateCustomChannel :: "rpc_env \<Rightarrow> grpc_channel \<Rightarrow> grpc_channel option" where
  "CreateCustomChannel E ch = (if re_custom_channel E ch then Some ch else None)"

definition CreateInsecureGrpcChannel :: "rpc_env \<Rightarrow> string \<Rightarrow> grpc_channel option" where
  "CreateInsecureGrpcChannel E target =
     CreateCustomChannel E (SetCommonChannelArgs (new_channel target InsecureChannelCredentials))"

definition CreateSecureGrpcChannel ::
    "rpc_env \<Rightarrow> string \<Rightarrow> string \<Rightarrow> string \<Rightarrow> grpc_channel option" where
  "CreateSecureGrpcChannel E target domain cert_path =
     (case GetContents (re_fs E) cert_path [] of (st, pem) \<Rightarrow>
        if \<not> status_ok st then None
        else CreateCustomChannel E
               ((SetCommonChannelArgs (new_channel target (SslCredentials pem)))
                  \<lparr>ch_ssl_target_name := Some domain\<rparr>))"

definition CreateGrpcChannel :: "rpc_env \<Rightarrow> connection_options \<Rightarrow> grpc_channel option" where
  "CreateGrpcChannel E opts = (let ssl = co_ssl_options opts in
     if so_use_insecure_channel ssl then CreateInsecureGrpcChannel E (co_target_address opts)
     else CreateSecureGrpcChannel E (co_target_address opts)
            (so_ssl_domain_name ssl) (so_ssl_root_cert_path ssl))"

definition FillGrpcClientContext :: "rpc_env \<Rightarrow> rpc_options \<Rightarrow> client_context \<Rightarrow> status \<times> client_context" where
  "FillGrpcClientContext E opts ctx =
     (let ctx1 = ctx\<lparr>cc_wait_for_ready := ro_wait_for_ready opts\<rparr> in
      (OkStatus,
       if ZeroDuration < ro_timeout opts \<and> ro_timeout opts < InfiniteDuration
       then ctx1\<lparr>cc_deadline := Some (ToChronoTime (dplus (re_now E) (ro_timeout opts)))\<rparr>
       else ctx1))"

section \<open>Identity tokens\<close>

definition GetIdToken :: "rpc_env \<Rightarrow> string \<Rightarrow> string result" where
  "GetIdToken E service_account =
     (case re_generate_id_token E
             \<lparr>itr_name = ''projects/-/serviceAccounts/'' @ service_account,
              itr_audience = ''https://aistreams.googleapis.com/'', itr_include_email = True\<rparr> of
        (st, token) \<Rightarrow>
          if \<not> grpc_ok st
          then Inl (InternalError
            ''Encountered error while calling IAM service to generate ID token.'')
          else Inr token)"

text \<open>
  \<open>HasMember\<close> and \<open>operator[]\<close> assert that the value is an object, \<open>GetString\<close> that it
  is a string.
\<close>

fun json_HasMember :: "json_value \<Rightarrow> string \<Rightarrow> bool outcome" where
  "json_HasMember (JsonObject ms) k = Returns (map_of ms k \<noteq> None)"
| "json_HasMember _ k = Fatal ''Assertion failed: IsObject()''"

fun json_member :: "json_value \<Rightarrow> string \<Rightarrow> json_value outcome" where
  "json_member (JsonObject ms) k =
     (case map_of ms k of Some v \<Rightarrow> Returns v | None \<Rightarrow> Fatal ''Assertion failed: false'')"
| "json_member _ k = Fatal ''Assertion failed: IsObject()''"

fun json_GetString :: "json_value \<Rightarrow> string outcome" where
  "json_GetString (JsonString s) = Returns s"
| "json_GetString _ = Fatal ''Assertion failed: IsString()''"

definition GetIdTokenWithDefaultServiceAccount :: "rpc_env \<Rightarrow> string result outcome" where
  "GetIdTokenWithDefaultServiceAccount E =
     (case re_getenv E ''GOOGLE_APPLICATION_CREDENTIALS'' of
        None \<Rightarrow> Returns (Inl (InternalError (''GOOGLE_APPLICATION_CREDENTIALS is not set. Please follow '' @
          ''https://cloud.google.com/docs/authentication/getting-started to setup '' @ ''authentication.'')))
      | Some cred_path \<Rightarrow>
          (case GetContents (re_fs E) cred_path [] of (st, file_contents) \<Rightarrow>
             if \<not> status_ok st
             then Returns (Inl (InvalidArgumentError (''Failed to get contents from file '' @ cred_path)))
             else (let doc = re_parse_json E file_contents in
               outcome_bind (json_HasMember doc ''client_email'') (\<lambda>has.
                 if \<not> has
                 then Returns (Inl (InternalError ''Failed to find client_email from the file.''))
                 else outcome_bind (json_member doc ''client_email'') (\<lambda>v.
                   outcome_bind (json_GetString v) (\<lambda>account. Returns (GetIdToken E (c_str account))))))))"

section \<open>Stream channels\<close>

definition kStreamMetadataKeyName :: string where
  "kStreamMetadataKeyName = ''stream''"

record stream_channel_options =
  sc_connection_options :: connection_options
  sc_stream_name :: string

record stream_channel =
  sc_options :: stream_channel_options
  sc_grpc_channel :: grpc_channel

definition StreamChannel_Create :: "rpc_env \<Rightarrow> stream_channel_options \<Rightarrow> stream_channel result" where
  "StreamChannel_Create E opts = (case CreateGrpcChannel E (sc_connection_options opts) of
      None \<Rightarrow> Inl (UnknownError ''Failed to create a gRPC channel'')
    | Some ch \<Rightarrow> Inr \<lparr>sc_options = opts, sc_grpc_channel = ch\<rparr>)"

definition MakeClientContext :: "rpc_env \<Rightarrow> stream_channel \<Rightarrow> client_context result outcome" where
  "MakeClientContext E sc =
     (let opts = sc_options sc; conn = sc_connection_options opts;
          ctx = (if sc_stream_name opts \<noteq> [] then
                   AddMetadata kStreamMetadataKeyName (sc_stream_name opts) new_client_context
                 else new_client_context)
      in outcome_bind
           (if co_authenticate_with_google conn
            then outcome_bind (GetIdTokenWithDefaultServiceAccount E) (\<lambda>token.
                   case token of
                     Inl st \<Rightarrow> Returns ctx
                   | Inr t \<Rightarrow> Returns (AddMetadata ''authorization'' (''Bearer '' @ t) ctx))
            else Returns ctx)
           (\<lambda>ctx1.
              case FillGrpcClientContext E (co_rpc_options conn) ctx1 of
                (st, ctx2) \<Rightarrow> Returns (if \<not> status_ok st then Inl st else Inr ctx2)))"

section \<open>Lemmas\<close>

lemma duration_less_simps [simp]:
  "Ticks a < Ticks b \<longleftrightarrow> a < b" "Ticks a < InfiniteDuration" "\<not> InfiniteDuration < d"
  "\<not> Ticks a < InfinitePastDuration" "\<not> d < InfinitePastDuration"
  by (cases d; auto simp: less_duration_def)+

lemma positive_finite_iff:
  "ZeroDuration < d \<and> d < InfiniteDuration \<longleftrightarrow> (\<exists>t. d = Ticks t \<and> 0 < t)"
  by (cases d) (auto simp: ZeroDuration_def)

lemma read_loop_ok_OkStatus: "status_ok (fst (read_loop name fp out)) \<Longrightarrow> fst (read_loop name fp out) = OkStatus"
proof (induction name fp out rule: read_loop.induct)
  case (1 name fp out)
  then show ?case
    by (subst read_loop.simps, subst (asm) (3) read_loop.simps)
       (auto split: prod.splits if_splits)
qed

lemma GetContents_ok_OkStatus: "GetContents fs name out = (st, bytes) \<Longrightarrow> status_ok st \<longleftrightarrow> st = OkStatus"
  using read_loop_ok_OkStatus [of name _ "[]"]
  by (auto simp: GetContents_def split: option.splits) (metis fst_conv)

text \<open>A channel keeps the address, lifts the size limits and has the credentials asked for.\<close>

lemma CreateGrpcChannel_Some:
  assumes "CreateGrpcChannel E opts = Some ch"
  shows "ch_target ch = co_target_address opts" "ch_max_receive ch = - 1" "ch_max_send ch = - 1"
    and "so_use_insecure_channel (co_ssl_options opts) \<Longrightarrow>
           ch_credentials ch = InsecureChannelCredentials \<and> ch_ssl_target_name ch = None"
    and "\<not> so_use_insecure_channel (co_ssl_options opts) \<Longrightarrow>
           (\<exists>pem. GetContents (re_fs E) (so_ssl_root_cert_path (co_ssl_options opts)) [] = (OkStatus, pem) \<and>
             ch_credentials ch = SslCredentials pem) \<and>
           ch_ssl_target_name ch = Some (so_ssl_domain_name (co_ssl_options opts))"
  using assms
  by (auto simp: CreateGrpcChannel_def CreateInsecureGrpcChannel_def CreateSecureGrpcChannel_def Let_def
      CreateCustomChannel_def SetCommonChannelArgs_def new_channel_def GetContents_ok_OkStatus
      split: prod.splits if_splits)

lemma CreateGrpcChannel_exists:
  assumes "\<And>ch. re_custom_channel E ch"
  shows "(\<exists>ch. CreateGrpcChannel E opts = Some ch) \<longleftrightarrow>
         so_use_insecure_channel (co_ssl_options opts) \<or>
         status_ok (fst (GetContents (re_fs E) (so_ssl_root_cert_path (co_ssl_options opts)) []))"
  using assms
  by (auto simp: CreateGrpcChannel_def CreateInsecureGrpcChannel_def CreateSecureGrpcChannel_def Let_def
      CreateCustomChannel_def split: prod.splits)

text \<open>
  A credentials file that is not a JSON object, or whose \<open>client_email\<close> is not a string, ends the
  process: neither the result of the parse nor the kind of the value is checked.
\<close>

lemma malformed_credentials_abort:
  assumes "re_getenv E ''GOOGLE_APPLICATION_CREDENTIALS'' = Some path"
    and "GetContents (re_fs E) path [] = (OkStatus, text)" and "re_parse_json E text = JsonOther"
  shows "is_fatal (GetIdTokenWithDefaultServiceAccount E)"
  using assms by (simp add: GetIdTokenWithDefaultServiceAccount_def)

section \<open>Properties\<close>

definition bearer_token :: "rpc_env \<Rightarrow> string option" where
  "bearer_token E = (case GetIdTokenWithDefaultServiceAccount E of
      Returns (Inr t) \<Rightarrow> Some (''Bearer '' @ t) | _ \<Rightarrow> None)"

text \<open>
  C32. A client context carries the name of the stream exactly when there is one, a bearer token
  exactly when authentication is on and a token was issued (a failure to get one is not an error),
  the wish to wait for the connection, and a deadline exactly when the timeout is positive and
  finite: the current time plus the timeout. It is never refused with a status, and only a
  malformed credentials file, read when authentication is on, ends the process.
\<close>

theorem client_context_contents:
  "let conn = sc_connection_options (sc_options sc) in
    case MakeClientContext E sc of
      Fatal m \<Rightarrow> co_authenticate_with_google conn \<and> is_fatal (GetIdTokenWithDefaultServiceAccount E)
    | Returns (Inl st) \<Rightarrow> False
    | Returns (Inr ctx) \<Rightarrow>
        map_of (cc_metadata ctx) ''stream'' =
          (if sc_stream_name (sc_options sc) = [] then None else Some (sc_stream_name (sc_options sc))) \<and>
        map_of (cc_metadata ctx) ''authorization'' =
          (if co_authenticate_with_google conn then bearer_token E else None) \<and>
        cc_wait_for_ready ctx = ro_wait_for_ready (co_rpc_options conn) \<and>
        cc_deadline ctx =
          (case ro_timeout (co_rpc_options conn) of
             Ticks t \<Rightarrow> if 0 < t then Some (ToChronoTime (dplus (re_now E) (Ticks t))) else None
           | _ \<Rightarrow> None)"
proof -
  have key: "kStreamMetadataKeyName = ''stream''" by (simp add: kStreamMetadataKeyName_def)
  have dl: "(ZeroDuration < d \<and> d < InfiniteDuration) = (case d of Ticks t \<Rightarrow> 0 < t | _ \<Rightarrow> False)" for d
    by (cases d) (simp_all add: ZeroDuration_def)
  show ?thesis
    by (cases "GetIdTokenWithDefaultServiceAccount E")
       (auto simp: MakeClientContext_def FillGrpcClientContext_def Let_def bearer_token_def key
          AddMetadata_def new_client_context_def dl split: duration.splits sum.splits)
qed

end
