(* ===== verification/Packet_Receiver.thy ===== *)
theory Packet_Receiver
  imports Stream_Channel
begin

text \<open>
  \<open>base/packet_receiver.h\<close>, \<open>packet_receiver.cc\<close> with the messages of
  \<open>proto/stream.proto\<close> it uses: one-packet calls, streams, replay and the automatic mode that
  switches to replay.

  The server is the record \<open>stream_server\<close>: for a request, the packets that a stream will
  deliver and the status that ends it, or the response of the n-th one-packet call. A
  \<open>ClientReader\<close> is such a stream, whose \<open>Finish\<close> may be called once, as gRPC documents. The
  dereference of a null pointer is \<open>Fatal\<close>.
\<close>

section \<open>Messages\<close>

datatype proto_special_offset = OFFSET_BEGINNING | OFFSET_END

datatype offset_config =
    OffsetConfigNotSet
  | OffsetConfigSpecial proto_special_offset
  | OffsetConfigSeekPosition int64
  | OffsetConfigSeekTime timestamp

record proto_duration =
  pd_seconds :: int64
  pd_nanos :: int32

record receive_packets_request =
  rpr_consumer_name :: string
  rpr_offset_config :: "offset_config option"
  rpr_timeout :: "proto_duration option"

record replay_stream_request =
  rsr_consumer_name :: string
  rsr_offset_config :: "offset_config option"
  rsr_timeout :: "proto_duration option"

record receive_one_packet_request =
  ror_consumer_name :: string
  ror_blocking :: bool
  ror_offset_config :: "offset_config option"

record receive_one_packet_response =
  rs_valid :: bool
  rs_packet :: packet

section \<open>The server and the readers\<close>

record client_reader =
  rd_packets :: "packet list"
  rd_status :: grpc_status
  rd_finished :: bool

definition rd_Read :: "client_reader \<Rightarrow> packet option \<times> client_reader" where
  "rd_Read r = (case rd_packets r of
      [] \<Rightarrow> (None, r) | p # ps \<Rightarrow> (Some p, r\<lparr>rd_packets := ps\<rparr>))"

definition rd_Finish :: "client_reader \<Rightarrow> (grpc_status \<times> client_reader) outcome" where
  "rd_Finish r = (if rd_finished r then Fatal ''Finish was called twice''
     else Returns (rd_status r, r\<lparr>rd_finished := True\<rparr>))"

record stream_server =
  ss_stub :: "grpc_channel \<Rightarrow> bool"
  ss_receive_packets :: "client_context \<Rightarrow> receive_packets_request \<Rightarrow> (packet list \<times> grpc_status) option"
  ss_replay_stream :: "client_context \<Rightarrow> replay_stream_request \<Rightarrow> (packet list \<times> grpc_status) option"
  ss_receive_one_packet ::
    "nat \<Rightarrow> client_context \<Rightarrow> receive_one_packet_request \<Rightarrow> grpc_status \<times> receive_one_packet_response"

definition new_reader :: "packet list \<times> grpc_status \<Rightarrow> client_reader" where
  "new_reader s = \<lparr>rd_packets = fst s, rd_status = snd s, rd_finished = False\<rparr>"

section \<open>Options and state\<close>

datatype receiver_mode = StreamingReceiveMode | UnaryReceiveMode | ReplayMode | AutoMode

record receiver_options =
  pro_connection_options :: connection_options
  pro_offset_options :: offset_options
  pro_stream_name :: string
  pro_receiver_name :: string
  pro_unary_rpc_poll_interval :: duration
  pro_timeout :: duration
  pro_receiver_mode :: receiver_mode

definition default_receiver_options :: receiver_options where
  "default_receiver_options = \<lparr>pro_connection_options = default_connection_options,
     pro_offset_options = default_offset_options, pro_stream_name = [], pro_receiver_name = [],
     pro_unary_rpc_poll_interval = ZeroDuration, pro_timeout = InfiniteDuration,
     pro_receiver_mode = StreamingReceiveMode\<rparr>"

text \<open>
  \<open>pr_current_mode\<close> is not initialised by the constructor; \<open>pr_cancelled\<close> records the calls that were
  cancelled with \<open>TryCancel\<close>, and \<open>pr_calls\<close> numbers the one-packet calls.
\<close>

record packet_receiver =
  pr_options :: receiver_options
  pr_current_mode :: "receiver_mode option"
  pr_stream_channel :: "stream_channel option"
  pr_stub :: bool
  pr_ctx :: "receiver_mode \<Rightarrow> client_context option"
  pr_readers :: "receiver_mode \<Rightarrow> client_reader option"
  pr_unary_packets_received :: int32
  pr_first_receiving :: bool
  pr_cancelled :: "receiver_mode list"
  pr_calls :: nat

definition PacketReceiver :: "receiver_options \<Rightarrow> packet_receiver" where
  "PacketReceiver opts = \<lparr>pr_options = opts, pr_current_mode = None, pr_stream_channel = None,
     pr_stub = False, pr_ctx = (\<lambda>_. None), pr_readers = (\<lambda>_. None),
     pr_unary_packets_received = 0, pr_first_receiving = True, pr_cancelled = [], pr_calls = 0\<rparr>"

section \<open>Conversions\<close>

definition kRandomConsumerNameLength :: nat where
  "kRandomConsumerNameLength = 8"

definition RandomConsumerName :: "rpc_env \<Rightarrow> nat \<Rightarrow> string" where
  "RandomConsumerName E k = RandomString (re_uniform E k) kRandomConsumerNameLength"

fun ToProtoOffsetConfig :: "position_type \<Rightarrow> offset_config" where
  "ToProtoOffsetConfig (SpecialPosition kOffsetBeginning) = OffsetConfigSpecial OFFSET_BEGINNING"
| "ToProtoOffsetConfig (SpecialPosition kOffsetEnd) = OffsetConfigSpecial OFFSET_END"
| "ToProtoOffsetConfig (SeekPosition n) = OffsetConfigSeekPosition n"
| "ToProtoOffsetConfig (SeekTime t) =
     (let s = ToUnixSeconds t in
      OffsetConfigSeekTime \<lparr>ts_seconds = word_of_int s,
        ts_nanos = word_of_int (ddiv (dminus t (Seconds s)) 4)\<rparr>)"

definition ToProtoDuration :: "duration \<Rightarrow> proto_duration" where
  "ToProtoDuration d = (let s = ddiv d ticks_per_second in
     \<lparr>pd_seconds = word_of_int s, pd_nanos = word_of_int (ddiv (dminus d (Seconds s)) 4)\<rparr>)"

definition finite_timeout :: "duration \<Rightarrow> bool" where
  "finite_timeout d \<longleftrightarrow> ZeroDuration < d \<and> d < InfiniteDuration"

section \<open>Initialization\<close>

text \<open>The name, offset and timeout of a request; \<open>k\<close> tells the random names of the two requests apart.\<close>

definition receiver_consumer_name :: "rpc_env \<Rightarrow> nat \<Rightarrow> receiver_options \<Rightarrow> string" where
  "receiver_consumer_name E k opts =
     (if pro_receiver_name opts = [] then RandomConsumerName E k else pro_receiver_name opts)"

definition receiver_offset_config :: "receiver_options \<Rightarrow> offset_config option" where
  "receiver_offset_config opts = (let oo = pro_offset_options opts in
     if oo_reset_offset oo then Some (ToProtoOffsetConfig (oo_offset_position oo)) else None)"

definition receiver_timeout :: "receiver_options \<Rightarrow> proto_duration option" where
  "receiver_timeout opts =
     (if finite_timeout (pro_timeout opts) then Some (ToProtoDuration (pro_timeout opts)) else None)"

definition make_receive_packets_request :: "rpc_env \<Rightarrow> receiver_options \<Rightarrow> receive_packets_request" where
  "make_receive_packets_request E opts =
     \<lparr>rpr_consumer_name = receiver_consumer_name E 1 opts,
      rpr_offset_config = receiver_offset_config opts, rpr_timeout = receiver_timeout opts\<rparr>"

definition InitializeReceivePacket ::
    "rpc_env \<Rightarrow> stream_server \<Rightarrow> packet_receiver \<Rightarrow> (status \<times> packet_receiver) outcome" where
  "InitializeReceivePacket E S pr =
     (let request = make_receive_packets_request E (pr_options pr)
      in case pr_stream_channel pr of
           None \<Rightarrow> Fatal ''null pointer: stream_channel_''
         | Some sc \<Rightarrow> outcome_bind (MakeClientContext E sc) (\<lambda>ctx_status_or.
             case ctx_status_or of
               Inl st \<Rightarrow> Returns (InternalError ''Failed to create a grpc client context'', pr)
             | Inr ctx \<Rightarrow>
                 (let pr1 = pr\<lparr>pr_ctx := (pr_ctx pr)(StreamingReceiveMode \<mapsto> ctx)\<rparr> in
                  if \<not> pr_stub pr then Fatal ''null pointer: stub_''
                  else case ss_receive_packets S ctx request of
                    None \<Rightarrow> Returns (UnknownError ''Failed to create a ClientReader for streaming RPC'',
                              pr1\<lparr>pr_readers := (pr_readers pr)(StreamingReceiveMode := None)\<rparr>)
                  | Some r \<Rightarrow> Returns (OkStatus,
                              pr1\<lparr>pr_readers := (pr_readers pr)(StreamingReceiveMode \<mapsto> new_reader r)\<rparr>))))"

definition make_replay_stream_request :: "rpc_env \<Rightarrow> receiver_options \<Rightarrow> replay_stream_request" where
  "make_replay_stream_request E opts =
     \<lparr>rsr_consumer_name = receiver_consumer_name E 0 opts,
      rsr_offset_config = receiver_offset_config opts, rsr_timeout = receiver_timeout opts\<rparr>"

definition InitializeReplayStream ::
    "rpc_env \<Rightarrow> stream_server \<Rightarrow> packet_receiver \<Rightarrow> (status \<times> packet_receiver) outcome" where
  "InitializeReplayStream E S pr =
     (let request = make_replay_stream_request E (pr_options pr)
      in case pr_stream_channel pr of
           None \<Rightarrow> Fatal ''null pointer: stream_channel_''
         | Some sc \<Rightarrow> outcome_bind (MakeClientContext E sc) (\<lambda>ctx_status_or.
             case ctx_status_or of
               Inl st \<Rightarrow> Returns (InternalError ''Failed to create a grpc client context'', pr)
             | Inr ctx \<Rightarrow>
                 (let pr1 = pr\<lparr>pr_ctx := (pr_ctx pr)(ReplayMode \<mapsto> ctx)\<rparr> in
                  if \<not> pr_stub pr then Fatal ''null pointer: stub_''
                  else case ss_replay_stream S ctx request of
                    None \<Rightarrow> Returns (UnknownError ''Failed to create a ClientReader for streaming RPC'',
                              pr1\<lparr>pr_readers := (pr_readers pr)(ReplayMode := None)\<rparr>)
                  | Some r \<Rightarrow> Returns (OkStatus,
                              pr1\<lparr>pr_readers := (pr_readers pr)(ReplayMode \<mapsto> new_reader r)\<rparr>))))"

text \<open>In the one-packet mode the timeout of the receiver bounds that of the calls.\<close>

definition receiver_channel_options :: "receiver_options \<Rightarrow> stream_channel_options" where
  "receiver_channel_options opts =
     (let conn = pro_connection_options opts; rpc = co_rpc_options conn in
      \<lparr>sc_connection_options =
         (if pro_receiver_mode opts = UnaryReceiveMode \<and> finite_timeout (pro_timeout opts)
          then conn\<lparr>co_rpc_options := rpc\<lparr>ro_timeout := min (ro_timeout rpc) (pro_timeout opts)\<rparr>\<rparr>
          else conn),
       sc_stream_name = pro_stream_name opts\<rparr>)"

text \<open>\<open>AIS_RETURN_IF_ERROR\<close> between two steps that may end the process.\<close>

definition then_if_ok ::
    "(status \<times> 's) outcome \<Rightarrow> ('s \<Rightarrow> (status \<times> 's) outcome) \<Rightarrow> (status \<times> 's) outcome" where
  "then_if_ok r f = outcome_bind r (\<lambda>(st, s). if \<not> status_ok st then Returns (st, s) else f s)"

definition InitializeReaders ::
    "rpc_env \<Rightarrow> stream_server \<Rightarrow> packet_receiver \<Rightarrow> (status \<times> packet_receiver) outcome" where
  "InitializeReaders E S pr = (let mode = pro_receiver_mode (pr_options pr) in
     then_if_ok
       (if mode = AutoMode \<or> mode = ReplayMode
        then InitializeReplayStream E S (pr\<lparr>pr_current_mode := Some ReplayMode\<rparr>)
        else Returns (OkStatus, pr))
       (\<lambda>pr1. then_if_ok
          (if mode = AutoMode \<or> mode = StreamingReceiveMode
           then InitializeReceivePacket E S (pr1\<lparr>pr_current_mode := Some StreamingReceiveMode\<rparr>)
           else Returns (OkStatus, pr1))
          (\<lambda>pr2. Returns (OkStatus, pr2))))"

definition PacketReceiver_Initialize ::
    "rpc_env \<Rightarrow> stream_server \<Rightarrow> packet_receiver \<Rightarrow> (status \<times> packet_receiver) outcome" where
  "PacketReceiver_Initialize E S pr =
     (case StreamChannel_Create E (receiver_channel_options (pr_options pr)) of
        Inl st \<Rightarrow> Returns (UnknownError ''Failed to create a StreamChannel'', pr)
      | Inr sc \<Rightarrow>
          (let pr1 = pr\<lparr>pr_stream_channel := Some sc, pr_stub := ss_stub S (sc_grpc_channel sc)\<rparr> in
           if \<not> pr_stub pr1 then Returns (UnknownError ''Failed to create a gRPC stub'', pr1)
           else InitializeReaders E S pr1))"

definition PacketReceiver_Create ::
    "rpc_env \<Rightarrow> stream_server \<Rightarrow> receiver_options \<Rightarrow> packet_receiver result outcome" where
  "PacketReceiver_Create E S opts =
     outcome_bind (PacketReceiver_Initialize E S (PacketReceiver opts)) (\<lambda>(st, pr).
       Returns (if \<not> status_ok st then Inl st else Inr pr))"

section \<open>Receiving\<close>

definition UnaryReceive ::
    "rpc_env \<Rightarrow> stream_server \<Rightarrow> packet \<Rightarrow> packet_receiver \<Rightarrow> (status \<times> packet \<times> packet_receiver) outcome" where
  "UnaryReceive E S out pr = (case pr_stream_channel pr of
      None \<Rightarrow> Fatal ''null pointer: stream_channel_''
    | Some sc \<Rightarrow> outcome_bind (MakeClientContext E sc) (\<lambda>ctx_status_or.
        case ctx_status_or of
          Inl st \<Rightarrow> Returns (InternalError ''Failed to create a grpc client context'', out, pr)
        | Inr ctx \<Rightarrow>
            (let opts = pr_options pr; oo = pro_offset_options opts;
                 request = \<lparr>ror_consumer_name = pro_receiver_name opts, ror_blocking = True,
                   ror_offset_config =
                     (if pr_unary_packets_received pr = 0 \<and> oo_reset_offset oo
                      then Some (ToProtoOffsetConfig (oo_offset_position oo)) else None)\<rparr>
             in if \<not> pr_stub pr then Fatal ''null pointer: stub_''
                else case ss_receive_one_packet S (pr_calls pr) ctx request of
                  (g, response) \<Rightarrow>
                    (let pr1 = pr\<lparr>pr_calls := pr_calls pr + 1\<rparr> in
                     if \<not> grpc_ok g then Returns (MakeStatusFromRpcStatus g, out, pr1)
                     else
                       (let pr2 = pr1\<lparr>pr_unary_packets_received := pr_unary_packets_received pr + 1\<rparr> in
                        if \<not> rs_valid response
                        then Returns (NotFoundError ''The response does not contain a packet.'', out, pr2)
                        else Returns (OkStatus, rs_packet response, pr2))))))"

definition dispose :: "receiver_mode \<Rightarrow> packet_receiver \<Rightarrow> packet_receiver outcome" where
  "dispose mode pr = (case pr_ctx pr mode of
      None \<Rightarrow> Fatal ''null pointer: ctx_''
    | Some ctx \<Rightarrow> Returns (pr\<lparr>pr_cancelled := pr_cancelled pr @ [mode],
        pr_readers := (pr_readers pr)(mode := None), pr_ctx := (pr_ctx pr)(mode := None)\<rparr>))"

definition DisposeUnusedClientReader :: "packet_receiver \<Rightarrow> packet_receiver outcome" where
  "DisposeUnusedClientReader pr =
     outcome_bind
       (if pr_current_mode pr = Some ReplayMode then dispose StreamingReceiveMode pr else Returns pr)
       (\<lambda>pr1. if pr_current_mode pr1 = Some StreamingReceiveMode then dispose ReplayMode pr1
               else Returns pr1)"

function StreamingReceive ::
    "packet \<Rightarrow> packet_receiver \<Rightarrow> (status \<times> packet \<times> packet_receiver) outcome" where
  "StreamingReceive out pr0 =
     (let first_receiving = pr_first_receiving pr0;
          pr = pr0\<lparr>pr_first_receiving := False\<rparr>;
          auto_mode = (pro_receiver_mode (pr_options pr) = AutoMode)
      in case pr_current_mode pr of
           None \<Rightarrow> Fatal ''null pointer: streaming_readers_''
         | Some mode \<Rightarrow>
             (case pr_readers pr mode of
                None \<Rightarrow> Fatal ''null pointer: streaming_readers_''
              | Some r \<Rightarrow>
                  (case rd_Read r of
                     (Some p, r1) \<Rightarrow>
                       (let pr1 = pr\<lparr>pr_readers := (pr_readers pr)(mode \<mapsto> r1)\<rparr> in
                        if first_receiving \<and> auto_mode
                        then outcome_bind (DisposeUnusedClientReader pr1) (\<lambda>pr2. Returns (OkStatus, p, pr2))
                        else Returns (OkStatus, p, pr1))
                   | (None, r1) \<Rightarrow>
                       (case rd_Finish r1 of
                          Fatal m \<Rightarrow> Fatal m
                        | Returns (g, r2) \<Rightarrow>
                            (let pr1 = pr\<lparr>pr_readers := (pr_readers pr)(mode \<mapsto> r2)\<rparr> in
                             if first_receiving \<and> auto_mode \<and> mode = StreamingReceiveMode \<and>
                                g_code g = GRPC_OUT_OF_RANGE
                             then
                               (case DisposeUnusedClientReader (pr1\<lparr>pr_current_mode := Some ReplayMode\<rparr>) of
                                  Fatal m \<Rightarrow> Fatal m
                                | Returns pr2 \<Rightarrow> StreamingReceive out pr2)
                             else Returns (MakeStatusFromRpcStatus g, out, pr1))))))"
  by pat_completeness auto

lemma DisposeUnused_first_receiving:
  "DisposeUnusedClientReader pr = Returns pr' \<Longrightarrow> pr_first_receiving pr' = pr_first_receiving pr"
  by (auto simp: DisposeUnusedClientReader_def dispose_def split: if_splits option.splits)

termination StreamingReceive
  by (relation "measure (\<lambda>(out, pr). if pr_first_receiving pr then 1 else 0)")
     (auto dest!: DisposeUnused_first_receiving)

declare StreamingReceive.simps [simp del]

definition Receive ::
    "rpc_env \<Rightarrow> stream_server \<Rightarrow> packet \<Rightarrow> packet_receiver \<Rightarrow> (status \<times> packet \<times> packet_receiver) outcome" where
  "Receive E S out pr =
     (if pro_receiver_mode (pr_options pr) = UnaryReceiveMode then UnaryReceive E S out pr
      else StreamingReceive out pr)"

text \<open>
  \<open>Subscribe\<close> with a callback over a state of its own. \<open>E\<close> gives the environment of each turn;
  the loop runs until an error or a cancellation, hence the fuel: \<open>None\<close> when it did not end in that
  many turns. The durations slept are collected.
\<close>

fun Subscribe ::
    "nat \<Rightarrow> (nat \<Rightarrow> rpc_env) \<Rightarrow> stream_server \<Rightarrow> (packet \<Rightarrow> 's \<Rightarrow> status \<times> 's) \<Rightarrow> 's \<Rightarrow> duration list \<Rightarrow>
     packet_receiver \<Rightarrow> (status \<times> 's \<times> duration list \<times> packet_receiver) outcome option" where
  "Subscribe 0 E S cb s slept pr = None"
| "Subscribe (Suc n) E S cb s slept pr =
     (case Receive (E n) S empty_packet pr of
        Fatal m \<Rightarrow> Some (Fatal m)
      | Returns (st, p, pr1) \<Rightarrow>
          if \<not> status_ok st then Some (Returns (st, s, slept, pr1))
          else (case cb p s of (st2, s') \<Rightarrow>
            if \<not> status_ok st2 \<and> IsCancelled st2 then Some (Returns (OkStatus, s', slept, pr1))
            else
              (let opts = pr_options pr1 in
               Subscribe n E S cb s'
                 (if pro_receiver_mode opts = UnaryReceiveMode \<and>
                     ZeroDuration < pro_unary_rpc_poll_interval opts
                  then slept @ [pro_unary_rpc_poll_interval opts] else slept) pr1)))"

section \<open>The stream a receiver delivers\<close>

text \<open>
  \<open>remaining\<close>: the packets still to come and the status after them. In the automatic mode, as long as
  nothing was received, an empty stream that is out of range stands for the replay.
\<close>

definition pending :: "packet_receiver \<Rightarrow> receiver_mode \<Rightarrow> packet list \<times> grpc_status" where
  "pending pr mode = (case pr_readers pr mode of
      Some r \<Rightarrow> (rd_packets r, rd_status r) | None \<Rightarrow> ([], \<lparr>g_code = GRPC_UNKNOWN, g_message = []\<rparr>))"

definition auto_choice ::
    "packet list \<times> grpc_status \<Rightarrow> packet list \<times> grpc_status \<Rightarrow> packet list \<times> grpc_status" where
  "auto_choice live replay =
     (if fst live = [] \<and> g_code (snd live) = GRPC_OUT_OF_RANGE then replay else live)"

definition undecided :: "packet_receiver \<Rightarrow> bool" where
  "undecided pr \<longleftrightarrow> pro_receiver_mode (pr_options pr) = AutoMode \<and> pr_first_receiving pr"

definition remaining :: "packet_receiver \<Rightarrow> packet list \<times> grpc_status" where
  "remaining pr =
     (if undecided pr then auto_choice (pending pr StreamingReceiveMode) (pending pr ReplayMode)
      else pending pr (the (pr_current_mode pr)))"

definition open_reader :: "packet_receiver \<Rightarrow> receiver_mode \<Rightarrow> bool" where
  "open_reader pr mode \<longleftrightarrow> pr_ctx pr mode \<noteq> None \<and>
     (\<exists>r. pr_readers pr mode = Some r \<and> \<not> rd_finished r)"

definition receiver_ready :: "packet_receiver \<Rightarrow> bool" where
  "receiver_ready pr \<longleftrightarrow>
     (if pro_receiver_mode (pr_options pr) = UnaryReceiveMode
      then pr_stream_channel pr \<noteq> None \<and> pr_stub pr
      else if undecided pr
      then pr_current_mode pr = Some StreamingReceiveMode \<and>
           open_reader pr StreamingReceiveMode \<and> open_reader pr ReplayMode
      else \<exists>m. pr_current_mode pr = Some m \<and> open_reader pr m)"

lemma dispose_ctx: "pr_ctx pr mode \<noteq> None \<Longrightarrow> dispose mode pr =
    Returns (pr\<lparr>pr_cancelled := pr_cancelled pr @ [mode],
        pr_readers := (pr_readers pr)(mode := None), pr_ctx := (pr_ctx pr)(mode := None)\<rparr>)"
  by (auto simp: dispose_def)

lemmas receiving_defs = receiver_ready_def undecided_def open_reader_def remaining_def pending_def
  auto_choice_def rd_Read_def rd_Finish_def DisposeUnusedClientReader_def

text \<open>One call of \<open>StreamingReceive\<close>, by what the current reader has.\<close>

lemma StreamingReceive_packet:
  assumes "pr_current_mode pr = Some m" and "pr_readers pr m = Some r" and "rd_packets r = p # ps"
  shows "StreamingReceive out pr =
    (let pr1 = pr\<lparr>pr_first_receiving := False,
                  pr_readers := (pr_readers pr)(m \<mapsto> r\<lparr>rd_packets := ps\<rparr>)\<rparr>
     in if undecided pr then outcome_bind (DisposeUnusedClientReader pr1) (\<lambda>pr2. Returns (OkStatus, p, pr2))
        else Returns (OkStatus, p, pr1))"
  using assms by (subst StreamingReceive.simps) (simp add: rd_Read_def undecided_def Let_def conj_commute)

lemma StreamingReceive_end:
  assumes "pr_current_mode pr = Some m" and "pr_readers pr m = Some r" and "rd_packets r = []"
    and "\<not> rd_finished r"
    and "\<not> (undecided pr \<and> m = StreamingReceiveMode \<and> g_code (rd_status r) = GRPC_OUT_OF_RANGE)"
  shows "StreamingReceive out pr = Returns (MakeStatusFromRpcStatus (rd_status r), out,
     pr\<lparr>pr_first_receiving := False, pr_readers := (pr_readers pr)(m \<mapsto> r\<lparr>rd_finished := True\<rparr>)\<rparr>)"
  using assms(5)
  by (subst StreamingReceive.simps)
     (simp add: assms(1-4) rd_Read_def rd_Finish_def undecided_def Let_def if_not_P)

lemma StreamingReceive_switch:
  assumes "pr_current_mode pr = Some StreamingReceiveMode"
    and "pr_readers pr StreamingReceiveMode = Some r" and "rd_packets r = []"
    and "\<not> rd_finished r" and "undecided pr" and "g_code (rd_status r) = GRPC_OUT_OF_RANGE"
    and "pr_ctx pr StreamingReceiveMode \<noteq> None"
  shows "StreamingReceive out pr = StreamingReceive out
    (pr\<lparr>pr_first_receiving := False, pr_current_mode := Some ReplayMode,
        pr_cancelled := pr_cancelled pr @ [StreamingReceiveMode],
        pr_readers := (pr_readers pr)(StreamingReceiveMode := None),
        pr_ctx := (pr_ctx pr)(StreamingReceiveMode := None)\<rparr>)"
  using assms
  by (subst StreamingReceive.simps)
     (auto simp: rd_Read_def rd_Finish_def undecided_def Let_def DisposeUnusedClientReader_def dispose_def)

definition streaming_ready :: "packet_receiver \<Rightarrow> bool" where
  "streaming_ready pr \<longleftrightarrow>
     receiver_ready pr \<and> pro_receiver_mode (pr_options pr) \<noteq> UnaryReceiveMode"

text \<open>The stream has ended and the current reader has been finished: a further call finishes it again.\<close>

definition stream_ended :: "packet_receiver \<Rightarrow> bool" where
  "stream_ended pr \<longleftrightarrow> pro_receiver_mode (pr_options pr) \<noteq> UnaryReceiveMode \<and>
     (\<exists>m r. pr_current_mode pr = Some m \<and> pr_readers pr m = Some r \<and> rd_packets r = [] \<and> rd_finished r)"

lemma StreamingReceive_after_end: "stream_ended pr \<Longrightarrow> StreamingReceive out pr = Fatal ''Finish was called twice''"
  by (subst StreamingReceive.simps) (auto simp: stream_ended_def Let_def rd_Read_def rd_Finish_def)

lemma decided_step:
  assumes "streaming_ready pr" and "\<not> undecided pr"
  shows "case remaining pr of
      (p # ps, g) \<Rightarrow> \<exists>pr'. StreamingReceive out pr = Returns (OkStatus, p, pr') \<and> streaming_ready pr' \<and>
         pr_options pr' = pr_options pr \<and> remaining pr' = (ps, g)
    | ([], g) \<Rightarrow> \<exists>pr'. StreamingReceive out pr = Returns (MakeStatusFromRpcStatus g, out, pr') \<and> stream_ended pr'"
proof -
  obtain m r where m: "pr_current_mode pr = Some m" "pr_readers pr m = Some r" "\<not> rd_finished r"
      "pr_ctx pr m \<noteq> None" "pro_receiver_mode (pr_options pr) \<noteq> UnaryReceiveMode"
    using assms by (auto simp: streaming_ready_def receiver_ready_def open_reader_def)
  have rem: "remaining pr = (rd_packets r, rd_status r)"
    using assms(2) m by (simp add: remaining_def pending_def)
  show ?thesis
  proof (cases "rd_packets r")
    case Nil
    then show ?thesis using StreamingReceive_end [OF m(1,2) Nil m(3)] assms(2) rem m by (auto simp: stream_ended_def)
  next
    case (Cons p ps)
    then show ?thesis
      using StreamingReceive_packet [OF m(1,2) Cons] assms(2) m rem
      by (auto simp: Let_def undecided_def remaining_def pending_def streaming_ready_def
          receiver_ready_def open_reader_def)
  qed
qed

lemma streaming_step:
  assumes "streaming_ready pr"
  shows "case remaining pr of
      (p # ps, g) \<Rightarrow> \<exists>pr'. StreamingReceive out pr = Returns (OkStatus, p, pr') \<and> streaming_ready pr' \<and>
         pr_options pr' = pr_options pr \<and> remaining pr' = (ps, g)
    | ([], g) \<Rightarrow> \<exists>pr'. StreamingReceive out pr = Returns (MakeStatusFromRpcStatus g, out, pr') \<and> stream_ended pr'"
proof (cases "undecided pr")
  case False
  with assms show ?thesis by (rule decided_step)
next
  case True
  obtain r r' where m: "pr_current_mode pr = Some StreamingReceiveMode"
      "pr_readers pr StreamingReceiveMode = Some r" "\<not> rd_finished r" "pr_ctx pr StreamingReceiveMode \<noteq> None"
      "pr_readers pr ReplayMode = Some r'" "\<not> rd_finished r'" "pr_ctx pr ReplayMode \<noteq> None"
      "pro_receiver_mode (pr_options pr) = AutoMode"
    using assms True by (auto simp: streaming_ready_def receiver_ready_def open_reader_def undecided_def)
  have rem: "remaining pr = auto_choice (rd_packets r, rd_status r) (rd_packets r', rd_status r')"
    using True m by (simp add: remaining_def pending_def)
  show ?thesis
  proof (cases "rd_packets r")
    case (Cons p ps)
    have "DisposeUnusedClientReader (pr\<lparr>pr_first_receiving := False,
             pr_readers := (pr_readers pr)(StreamingReceiveMode \<mapsto> r\<lparr>rd_packets := ps\<rparr>)\<rparr>) =
           Returns (pr\<lparr>pr_first_receiving := False, pr_cancelled := pr_cancelled pr @ [ReplayMode],
             pr_readers := (pr_readers pr)(StreamingReceiveMode \<mapsto> r\<lparr>rd_packets := ps\<rparr>, ReplayMode := None),
             pr_ctx := (pr_ctx pr)(ReplayMode := None)\<rparr>)"
      using m by (simp add: DisposeUnusedClientReader_def dispose_ctx)
    then show ?thesis
      using StreamingReceive_packet [OF m(1,2) Cons, of out] True m rem Cons
      by (simp add: auto_choice_def undecided_def remaining_def pending_def streaming_ready_def
          receiver_ready_def open_reader_def)
  next
    case Nil
    show ?thesis
    proof (cases "g_code (rd_status r) = GRPC_OUT_OF_RANGE")
      case False
      then show ?thesis
        using StreamingReceive_end [OF m(1,2) Nil m(3), of out] rem Nil m
        by (auto simp: auto_choice_def stream_ended_def)
    next
      case range: True
      define pr' where "pr' = pr\<lparr>pr_first_receiving := False, pr_current_mode := Some ReplayMode,
          pr_cancelled := pr_cancelled pr @ [StreamingReceiveMode],
          pr_readers := (pr_readers pr)(StreamingReceiveMode := None),
          pr_ctx := (pr_ctx pr)(StreamingReceiveMode := None)\<rparr>"
      have facts: "streaming_ready pr'" "\<not> undecided pr'" "pr_options pr' = pr_options pr"
          "remaining pr' = remaining pr"
        using m rem Nil range
        by (simp_all add: pr'_def streaming_ready_def receiver_ready_def open_reader_def undecided_def
            remaining_def pending_def auto_choice_def)
      have "StreamingReceive out pr = StreamingReceive out pr'"
        using StreamingReceive_switch [OF m(1,2) Nil m(3) True range m(4), of out] unfolding pr'_def .
      then show ?thesis
        using decided_step [OF facts(1,2), of out] facts(3,4) by (auto split: prod.splits list.splits)
    qed
  qed
qed

section \<open>What a subscription delivers\<close>

text \<open>
  The specification of \<open>Subscribe\<close> on a stream: the callback is applied to the packets in order
  until it cancels; the status after the last packet ends the subscription.
\<close>

fun subscription ::
    "(packet \<Rightarrow> 's \<Rightarrow> status \<times> 's) \<Rightarrow> 's \<Rightarrow> packet list \<Rightarrow> grpc_status \<Rightarrow> status \<times> 's" where
  "subscription cb s [] g = (MakeStatusFromRpcStatus g, s)"
| "subscription cb s (p # ps) g = (case cb p s of (st, s') \<Rightarrow>
     if \<not> status_ok st \<and> IsCancelled st then (OkStatus, s') else subscription cb s' ps g)"

lemma Subscribe_streaming:
  assumes "streaming_ready pr" and "remaining pr = (ps, g)" and "\<not> grpc_ok g" and "length ps < n"
  shows "\<exists>pr'. Subscribe n E S cb s slept pr =
    Some (Returns (fst (subscription cb s ps g), snd (subscription cb s ps g), slept, pr'))"
  using assms
proof (induction ps arbitrary: n s pr)
  case Nil
  then obtain k where "n = Suc k" by (cases n) auto
  moreover have "\<not> status_ok (MakeStatusFromRpcStatus g)"
    using Nil.prems(3) by (cases "g_code g")
      (auto simp: grpc_ok_def MakeStatusFromRpcStatus_def MakeStatusFromRpcCode_def mk_Status_def status_ok_def)
  ultimately show ?case
    using streaming_step [OF Nil.prems(1), of empty_packet] Nil.prems
    by (auto simp: Receive_def streaming_ready_def)
next
  case (Cons p ps)
  then obtain k where k: "n = Suc k" by (cases n) auto
  obtain pr1 where pr1: "StreamingReceive empty_packet pr = Returns (OkStatus, p, pr1)"
      "streaming_ready pr1" "remaining pr1 = (ps, g)" "pr_options pr1 = pr_options pr"
    using streaming_step [OF Cons.prems(1), of empty_packet] Cons.prems(2) by auto
  have mode: "pro_receiver_mode (pr_options pr) \<noteq> UnaryReceiveMode"
    using Cons.prems(1) by (simp add: streaming_ready_def)
  have IH: "\<exists>pr'. Subscribe k E S cb s' slept pr1 =
      Some (Returns (fst (subscription cb s' ps g), snd (subscription cb s' ps g), slept, pr'))" for s'
    using Cons.IH [OF pr1(2,3)] Cons.prems(3,4) k by simp
  show ?case
    using IH [of "snd (cb p s)"] by (auto simp: k Receive_def mode pr1 split: prod.splits)
qed

section \<open>Creation\<close>

text \<open>The stream that the server offers to the requests of a receiver.\<close>

definition offered ::
    "rpc_env \<Rightarrow> stream_server \<Rightarrow> receiver_options \<Rightarrow> client_context \<Rightarrow> (packet list \<times> grpc_status) option" where
  "offered E S opts ctx =
     (let live = ss_receive_packets S ctx (make_receive_packets_request E opts);
          replay = ss_replay_stream S ctx (make_replay_stream_request E opts)
      in case pro_receiver_mode opts of
           StreamingReceiveMode \<Rightarrow> live
         | ReplayMode \<Rightarrow> replay
         | UnaryReceiveMode \<Rightarrow> None
         | AutoMode \<Rightarrow> (case (live, replay) of
             (Some l, Some r) \<Rightarrow> Some (auto_choice l r) | _ \<Rightarrow> None))"

lemma init_receive_packet:
  assumes "InitializeReceivePacket E S pr = Returns (st, pr')" and "status_ok st"
  shows "\<exists>sc ctx r. pr_stream_channel pr = Some sc \<and> MakeClientContext E sc = Returns (Inr ctx) \<and>
     ss_receive_packets S ctx (make_receive_packets_request E (pr_options pr)) = Some r \<and>
     pr' = pr\<lparr>pr_ctx := (pr_ctx pr)(StreamingReceiveMode \<mapsto> ctx),
              pr_readers := (pr_readers pr)(StreamingReceiveMode \<mapsto> new_reader r)\<rparr>"
  using assms
  by (auto simp: InitializeReceivePacket_def Let_def UnknownError_def InternalError_def mk_Status_def
      status_ok_def split: option.splits sum.splits if_splits)

lemma init_replay_stream:
  assumes "InitializeReplayStream E S pr = Returns (st, pr')" and "status_ok st"
  shows "\<exists>sc ctx r. pr_stream_channel pr = Some sc \<and> MakeClientContext E sc = Returns (Inr ctx) \<and>
     ss_replay_stream S ctx (make_replay_stream_request E (pr_options pr)) = Some r \<and>
     pr' = pr\<lparr>pr_ctx := (pr_ctx pr)(ReplayMode \<mapsto> ctx),
              pr_readers := (pr_readers pr)(ReplayMode \<mapsto> new_reader r)\<rparr>"
  using assms
  by (auto simp: InitializeReplayStream_def Let_def UnknownError_def InternalError_def mk_Status_def
      status_ok_def split: option.splits sum.splits if_splits)

lemma then_if_ok_Returns:
  "then_if_ok r f = Returns (st, s) \<longleftrightarrow>
     (r = Returns (st, s) \<and> \<not> status_ok st) \<or>
     (\<exists>st1 s1. r = Returns (st1, s1) \<and> status_ok st1 \<and> f s1 = Returns (st, s))"
  by (cases r) (auto simp: then_if_ok_def split: if_splits)

lemma Create_connected:
  assumes "PacketReceiver_Create E S opts = Returns (Inr pr)"
  shows "\<exists>sc st. StreamChannel_Create E (receiver_channel_options opts) = Inr sc \<and> status_ok st \<and>
     InitializeReaders E S ((PacketReceiver opts)\<lparr>pr_stream_channel := Some sc, pr_stub := True\<rparr>) =
       Returns (st, pr)"
proof -
  obtain st where ini: "PacketReceiver_Initialize E S (PacketReceiver opts) = Returns (st, pr)" "status_ok st"
    using assms by (auto simp: PacketReceiver_Create_def split: if_splits)
  moreover obtain sc where "StreamChannel_Create E (receiver_channel_options opts) = Inr sc"
      "ss_stub S (sc_grpc_channel sc)"
    using ini by (auto simp: PacketReceiver_Initialize_def PacketReceiver_def Let_def UnknownError_def
        mk_Status_def status_ok_def split: sum.splits if_splits)
  ultimately show ?thesis by (auto simp: PacketReceiver_Initialize_def PacketReceiver_def)
qed

lemma Create_ready:
  assumes "PacketReceiver_Create E S opts = Returns (Inr pr)"
  shows "receiver_ready pr \<and> pr_options pr = opts"
proof -
  obtain sc st where "status_ok st" and steps:
      "InitializeReaders E S ((PacketReceiver opts)\<lparr>pr_stream_channel := Some sc, pr_stub := True\<rparr>) = Returns (st, pr)"
    using Create_connected [OF assms] by blast
  then show ?thesis
    by (cases "pro_receiver_mode opts")
       (auto simp: InitializeReaders_def Let_def PacketReceiver_def then_if_ok_Returns receiver_ready_def
          undecided_def open_reader_def new_reader_def dest!: init_receive_packet init_replay_stream)
qed

lemma init_receive_packet_ok:
  assumes "pr_stream_channel pr = Some sc" and "pr_stub pr" and "MakeClientContext E sc = Returns (Inr ctx)"
    and "ss_receive_packets S ctx (make_receive_packets_request E (pr_options pr)) = Some r"
  shows "InitializeReceivePacket E S pr = Returns (OkStatus,
     pr\<lparr>pr_ctx := (pr_ctx pr)(StreamingReceiveMode \<mapsto> ctx),
        pr_readers := (pr_readers pr)(StreamingReceiveMode \<mapsto> new_reader r)\<rparr>)"
  using assms by (simp add: InitializeReceivePacket_def Let_def del: outcome_bind_Returns_iff)

lemma init_replay_stream_ok:
  assumes "pr_stream_channel pr = Some sc" and "pr_stub pr" and "MakeClientContext E sc = Returns (Inr ctx)"
    and "ss_replay_stream S ctx (make_replay_stream_request E (pr_options pr)) = Some r"
  shows "InitializeReplayStream E S pr = Returns (OkStatus,
     pr\<lparr>pr_ctx := (pr_ctx pr)(ReplayMode \<mapsto> ctx),
        pr_readers := (pr_readers pr)(ReplayMode \<mapsto> new_reader r)\<rparr>)"
  using assms by (simp add: InitializeReplayStream_def Let_def del: outcome_bind_Returns_iff)

lemma then_if_ok_ok [simp]: "then_if_ok (Returns (OkStatus, s)) f = f s"
  by (simp add: then_if_ok_def)

lemma InitializeReaders_offered:
  assumes "pr_stream_channel pr = Some sc" and "pr_stub pr" and "MakeClientContext E sc = Returns (Inr ctx)"
    and "offered E S (pr_options pr) ctx = Some s" and "pr_first_receiving pr"
  shows "\<exists>pr'. InitializeReaders E S pr = Returns (OkStatus, pr') \<and> remaining pr' = s"
proof (cases "pro_receiver_mode (pr_options pr)")
  case StreamingReceiveMode
  with assms obtain r where "ss_receive_packets S ctx (make_receive_packets_request E (pr_options pr)) = Some r" "r = s"
    by (auto simp: offered_def Let_def)
  with assms StreamingReceiveMode show ?thesis
    by (simp add: InitializeReaders_def init_receive_packet_ok remaining_def undecided_def pending_def new_reader_def)
next
  case UnaryReceiveMode
  with assms show ?thesis by (simp add: offered_def Let_def)
next
  case ReplayMode
  with assms obtain r where "ss_replay_stream S ctx (make_replay_stream_request E (pr_options pr)) = Some r" "r = s"
    by (auto simp: offered_def Let_def)
  with assms ReplayMode show ?thesis
    by (simp add: InitializeReaders_def init_replay_stream_ok remaining_def undecided_def pending_def new_reader_def)
next
  case AutoMode
  with assms obtain l r where "ss_receive_packets S ctx (make_receive_packets_request E (pr_options pr)) = Some l"
      "ss_replay_stream S ctx (make_replay_stream_request E (pr_options pr)) = Some r" "s = auto_choice l r"
    by (auto simp: offered_def Let_def split: option.splits)
  with assms AutoMode show ?thesis
    by (simp add: InitializeReaders_def init_receive_packet_ok init_replay_stream_ok remaining_def
        undecided_def pending_def new_reader_def)
qed

lemma Create_offered:
  assumes "StreamChannel_Create E (receiver_channel_options opts) = Inr sc"
    and "ss_stub S (sc_grpc_channel sc)" and "MakeClientContext E sc = Returns (Inr ctx)"
    and "offered E S opts ctx = Some s"
  shows "\<exists>pr. PacketReceiver_Create E S opts = Returns (Inr pr) \<and> remaining pr = s"
proof -
  have "\<exists>pr'. InitializeReaders E S (PacketReceiver opts\<lparr>pr_stream_channel := Some sc, pr_stub := True\<rparr>) =
      Returns (OkStatus, pr') \<and> remaining pr' = s"
    using assms by (intro InitializeReaders_offered) (auto simp: PacketReceiver_def)
  then show ?thesis
    using assms(1,2)
    by (auto simp: PacketReceiver_Create_def PacketReceiver_Initialize_def PacketReceiver_def
        simp del: outcome_bind_Returns_iff)
qed

section \<open>Properties\<close>

text \<open>
  C4. When the channel, the stub and the client context can be made and the server offers the
  streams that the mode asks for, the receiver is created and a subscription terminates: its
  callback sees exactly the packets of the stream in their order, until it cancels (then the
  subscription is OK) or the stream ends (then it has the status of the stream). In the automatic
  mode the stream is the replay when the live stream is out of range before its first packet, and
  the live stream otherwise. The server ends its streams with an error status.
\<close>

theorem subscription_delivers_stream:
  assumes "StreamChannel_Create E (receiver_channel_options opts) = Inr sc"
    and "ss_stub S (sc_grpc_channel sc)" and "MakeClientContext E sc = Returns (Inr ctx)"
    and "offered E S opts ctx = Some (ps, g)" and "\<not> grpc_ok g" and "length ps < n"
  shows "\<exists>pr pr'. PacketReceiver_Create E S opts = Returns (Inr pr) \<and>
    Subscribe n Es S cb s [] pr =
      Some (Returns (fst (subscription cb s ps g), snd (subscription cb s ps g), [], pr'))"
proof -
  obtain pr where pr: "PacketReceiver_Create E S opts = Returns (Inr pr)" "remaining pr = (ps, g)"
    using Create_offered [OF assms(1-4)] by auto
  have "streaming_ready pr"
    using Create_ready [OF pr(1)] assms(4) by (auto simp: streaming_ready_def offered_def Let_def)
  then show ?thesis
    using Subscribe_streaming [OF _ pr(2) assms(5,6), of Es S cb s "[]"] pr(1) by auto
qed

lemma MakeStatusFromRpcStatus_ok [simp]: "status_ok (MakeStatusFromRpcStatus g) \<longleftrightarrow> grpc_ok g"
  by (cases "g_code g")
     (auto simp: grpc_ok_def MakeStatusFromRpcStatus_def MakeStatusFromRpcCode_def mk_Status_def status_ok_def)

lemma MakeClientContext_fatal:
  "MakeClientContext E sc = Fatal m \<Longrightarrow> is_fatal (GetIdTokenWithDefaultServiceAccount E)"
  by (cases "GetIdTokenWithDefaultServiceAccount E")
     (auto simp: MakeClientContext_def Let_def FillGrpcClientContext_def split: if_splits sum.splits)

text \<open>
  The request of a one-packet call: its offset is set exactly while no call has been answered, and its
  consumer name is the receiver's even when that is empty.
\<close>

lemma UnaryReceive_request:
  assumes "pr_stream_channel pr = Some sc" and "pr_stub pr" and "MakeClientContext E sc = Returns (Inr ctx)"
    and "ss_receive_one_packet S (pr_calls pr) ctx
           \<lparr>ror_consumer_name = pro_receiver_name (pr_options pr), ror_blocking = True,
            ror_offset_config = (if pr_unary_packets_received pr = 0
               then receiver_offset_config (pr_options pr) else None)\<rparr> = (g, response)"
  shows "UnaryReceive E S out pr = Returns
    (if \<not> grpc_ok g then MakeStatusFromRpcStatus g
     else if rs_valid response then OkStatus else NotFoundError ''The response does not contain a packet.'',
     if grpc_ok g \<and> rs_valid response then rs_packet response else out,
     pr\<lparr>pr_calls := pr_calls pr + 1,
        pr_unary_packets_received := pr_unary_packets_received pr + (if grpc_ok g then 1 else 0)\<rparr>)"
proof -
  have "(if pr_unary_packets_received pr = 0 \<and> oo_reset_offset (pro_offset_options (pr_options pr))
         then Some (ToProtoOffsetConfig (oo_offset_position (pro_offset_options (pr_options pr)))) else None) =
        (if pr_unary_packets_received pr = 0 then receiver_offset_config (pr_options pr) else None)"
    by (simp add: receiver_offset_config_def Let_def)
  then show ?thesis using assms by (simp add: UnaryReceive_def Let_def del: outcome_bind_Returns_iff)
qed

lemma UnaryReceive_ready:
  assumes "receiver_ready pr" and "pro_receiver_mode (pr_options pr) = UnaryReceiveMode"
  shows "(\<not> is_fatal (GetIdTokenWithDefaultServiceAccount E) \<longrightarrow>
           (\<exists>st p pr'. UnaryReceive E S out pr = Returns (st, p, pr'))) \<and>
         (\<forall>st p pr'. UnaryReceive E S out pr = Returns (st, p, pr') \<longrightarrow>
           receiver_ready pr' \<and> pr_options pr' = pr_options pr)"
proof -
  obtain sc where sc: "pr_stream_channel pr = Some sc" "pr_stub pr"
    using assms by (auto simp: receiver_ready_def)
  show ?thesis
  proof (cases "MakeClientContext E sc")
    case (Fatal m)
    then show ?thesis using MakeClientContext_fatal [OF Fatal] sc by (simp add: UnaryReceive_def)
  next
    case (Returns r)
    have "\<exists>st p k n. UnaryReceive E S out pr =
        Returns (st, p, pr\<lparr>pr_calls := k, pr_unary_packets_received := n\<rparr>)"
    proof (cases r)
      case (Inl st)
      then have "UnaryReceive E S out pr =
          Returns (InternalError ''Failed to create a grpc client context'', out, pr)"
        using Returns sc by (simp add: UnaryReceive_def del: outcome_bind_Returns_iff)
      then have "UnaryReceive E S out pr = Returns (InternalError ''Failed to create a grpc client context'', out,
          pr\<lparr>pr_calls := pr_calls pr, pr_unary_packets_received := pr_unary_packets_received pr\<rparr>)" by simp
      then show ?thesis by blast
    next
      case (Inr ctx)
      show ?thesis
        using UnaryReceive_request [OF sc _ prod.collapse [symmetric]] Returns Inr by blast
    qed
    then show ?thesis using assms by (auto simp: receiver_ready_def)
  qed
qed

text \<open>The stream of a created receiver is the one that the server offers to it.\<close>

lemma Create_stream:
  assumes "PacketReceiver_Create E S opts = Returns (Inr pr)" and "pro_receiver_mode opts \<noteq> UnaryReceiveMode"
  shows "\<exists>sc ctx. StreamChannel_Create E (receiver_channel_options opts) = Inr sc \<and>
    MakeClientContext E sc = Returns (Inr ctx) \<and> offered E S opts ctx = Some (remaining pr)"
proof -
  obtain sc st where sc: "StreamChannel_Create E (receiver_channel_options opts) = Inr sc" "status_ok st"
      "InitializeReaders E S ((PacketReceiver opts)\<lparr>pr_stream_channel := Some sc, pr_stub := True\<rparr>) = Returns (st, pr)"
    using Create_connected [OF assms(1)] by blast
  then show ?thesis
    using assms(2)
    by (cases "pro_receiver_mode opts")
       (auto simp: InitializeReaders_def Let_def PacketReceiver_def then_if_ok_Returns remaining_def undecided_def
          pending_def new_reader_def offered_def dest!: init_receive_packet init_replay_stream)
qed

text \<open>
  Calls of \<open>Receive\<close> in a row, whatever they return, each with its environment and the packet that it is given. The
  answers of a stream: its packets, and after them its status, which leaves the packet as it was.
\<close>

fun receive_calls ::
    "stream_server \<Rightarrow> (rpc_env \<times> packet) list \<Rightarrow> packet_receiver \<Rightarrow> ((status \<times> packet) list \<times> packet_receiver) outcome" where
  "receive_calls S [] pr = Returns ([], pr)"
| "receive_calls S ((E, out) # calls) pr = (case Receive E S out pr of
      Fatal m \<Rightarrow> Fatal m
    | Returns (st, p, pr1) \<Rightarrow> (case receive_calls S calls pr1 of
        Fatal m \<Rightarrow> Fatal m
      | Returns (answers, pr2) \<Rightarrow> Returns ((st, p) # answers, pr2)))"

fun stream_answers :: "packet list \<Rightarrow> grpc_status \<Rightarrow> packet list \<Rightarrow> (status \<times> packet) list" where
  "stream_answers ps g [] = []"
| "stream_answers (p # ps) g (out # outs) = (OkStatus, p) # stream_answers ps g outs"
| "stream_answers [] g (out # outs) = [(MakeStatusFromRpcStatus g, out)]"

lemma receive_calls_stream:
  assumes "streaming_ready pr" and "remaining pr = (ps, g)"
  shows "if length calls \<le> Suc (length ps)
    then \<exists>pr'. receive_calls S calls pr = Returns (stream_answers ps g (map snd calls), pr')
    else receive_calls S calls pr = Fatal ''Finish was called twice''"
  using assms
proof (induction calls arbitrary: ps pr)
  case Nil
  then show ?case by simp
next
  case (Cons call calls)
  obtain E out where call: "call = (E, out)" by (cases call)
  have mode: "pro_receiver_mode (pr_options pr) \<noteq> UnaryReceiveMode" using Cons.prems(1) by (simp add: streaming_ready_def)
  show ?case
  proof (cases ps)
    case Nil
    then obtain pr1 where pr1: "StreamingReceive out pr = Returns (MakeStatusFromRpcStatus g, out, pr1)" "stream_ended pr1"
      using streaming_step [OF Cons.prems(1), of out] Cons.prems(2) by auto
    have "receive_calls S (c # cs) pr1 = Fatal ''Finish was called twice''" for c cs
      using StreamingReceive_after_end [OF pr1(2)] pr1(2) by (cases c) (simp add: Receive_def stream_ended_def)
    with pr1 Nil mode show ?thesis by (cases calls) (simp_all add: call Receive_def)
  next
    case (Cons q qs)
    then obtain pr1 where pr1: "StreamingReceive out pr = Returns (OkStatus, q, pr1)" "streaming_ready pr1" "remaining pr1 = (qs, g)"
      using streaming_step [OF Cons.prems(1), of out] Cons.prems(2) by auto
    from Cons.IH [OF pr1(2,3)] pr1(1) Cons mode show ?thesis
      by (auto simp: call Receive_def split: if_splits)
  qed
qed

lemma receive_calls_unary:
  assumes "receiver_ready pr" and "pro_receiver_mode (pr_options pr) = UnaryReceiveMode"
    and "\<forall>c \<in> set calls. \<not> is_fatal (GetIdTokenWithDefaultServiceAccount (fst c))"
  shows "\<exists>answers pr'. receive_calls S calls pr = Returns (answers, pr') \<and> length answers = length calls"
  using assms
proof (induction calls arbitrary: pr)
  case Nil
  then show ?case by simp
next
  case (Cons call calls)
  obtain E out where call: "call = (E, out)" by (cases call)
  note ready = UnaryReceive_ready [OF Cons.prems(1,2), of E S out]
  have "\<not> is_fatal (GetIdTokenWithDefaultServiceAccount E)" using Cons.prems(3) call by simp
  then obtain st p pr1 where r: "UnaryReceive E S out pr = Returns (st, p, pr1)" using ready by blast
  then have "receiver_ready pr1" "pr_options pr1 = pr_options pr" using ready by blast+
  then obtain answers pr' where "receive_calls S calls pr1 = Returns (answers, pr')" "length answers = length calls"
    using Cons.IH [of pr1] Cons.prems(2,3) by auto
  with r Cons.prems(2) show ?case by (simp add: call Receive_def)
qed

text \<open>
  C5. What any number of calls of \<open>Receive\<close> on a created receiver do, whatever the calls before returned and however the server
  ends its streams. In the one-packet mode every call returns, if the token can be asked for. In the other modes the receiver has the
  stream that the server offers to the mode, through the switch to replay; the calls return its packets
  in their order, one more call returns the status of its end, ok or not, and finishes the
  reader, and any call after that one ends the process by finishing the reader a second time. Nothing else
  crashes: no null pointer is followed.
\<close>

theorem receive_crashes_only_after_end:
  assumes "PacketReceiver_Create E S opts = Returns (Inr pr)"
  shows "if pro_receiver_mode opts = UnaryReceiveMode
    then (\<forall>c \<in> set calls. \<not> is_fatal (GetIdTokenWithDefaultServiceAccount (fst c))) \<longrightarrow>
      (\<exists>answers pr'. receive_calls S calls pr = Returns (answers, pr') \<and> length answers = length calls)
    else (\<exists>sc ctx ps g. StreamChannel_Create E (receiver_channel_options opts) = Inr sc \<and>
      MakeClientContext E sc = Returns (Inr ctx) \<and> offered E S opts ctx = Some (ps, g) \<and>
      (if length calls \<le> length ps + 1
       then \<exists>pr'. receive_calls S calls pr = Returns (stream_answers ps g (map snd calls), pr')
       else receive_calls S calls pr = Fatal ''Finish was called twice''))"
proof (cases "pro_receiver_mode opts = UnaryReceiveMode")
  case True
  with Create_ready [OF assms] receive_calls_unary [of pr calls S] show ?thesis by simp
next
  case False
  then have "streaming_ready pr" using Create_ready [OF assms] by (simp add: streaming_ready_def)
  moreover obtain ps g where rem: "remaining pr = (ps, g)" by (cases "remaining pr")
  ultimately have "if length calls \<le> Suc (length ps)
      then \<exists>pr'. receive_calls S calls pr = Returns (stream_answers ps g (map snd calls), pr')
      else receive_calls S calls pr = Fatal ''Finish was called twice''"
    by (rule receive_calls_stream)
  moreover obtain sc ctx where "StreamChannel_Create E (receiver_channel_options opts) = Inr sc"
      "MakeClientContext E sc = Returns (Inr ctx)" "offered E S opts ctx = Some (ps, g)"
    using Create_stream [OF assms False] rem by auto
  ultimately show ?thesis using False by simp
qed

text \<open>
  When a server ends its stream with the status OK, the end of the stream is taken for a packet: \<open>Receive\<close> is OK and leaves its argument as
  it was, and the next call finishes the stream a second time.
\<close>

lemma end_of_stream_taken_for_packet:
  assumes "streaming_ready pr" and "\<not> undecided pr" and "remaining pr = ([], \<lparr>g_code = GRPC_OK, g_message = []\<rparr>)"
  shows "\<exists>st pr'. Receive E S out pr = Returns (st, out, pr') \<and> status_ok st \<and>
           is_fatal (Receive E S out pr')"
proof -
  obtain m r where m: "pr_current_mode pr = Some m" "pr_readers pr m = Some r" "\<not> rd_finished r"
      "rd_packets r = []" "rd_status r = \<lparr>g_code = GRPC_OK, g_message = []\<rparr>"
      "pro_receiver_mode (pr_options pr) \<noteq> UnaryReceiveMode"
    using assms by (auto simp: streaming_ready_def receiver_ready_def open_reader_def remaining_def pending_def)
  define pr' where "pr' = pr\<lparr>pr_first_receiving := False,
      pr_readers := (pr_readers pr)(m \<mapsto> r\<lparr>rd_finished := True\<rparr>)\<rparr>"
  have "Receive E S out pr = Returns (MakeStatusFromRpcStatus (rd_status r), out, pr')"
    using StreamingReceive_end [OF m(1,2,4,3)] m(5,6) by (simp add: Receive_def pr'_def)
  moreover have "is_fatal (StreamingReceive out pr')"
    using m by (subst StreamingReceive.simps) (simp add: pr'_def Let_def rd_Read_def rd_Finish_def)
  ultimately show ?thesis using m by (auto simp: Receive_def pr'_def grpc_ok_def)
qed

section \<open>Conversions of times\<close>

lemma sint_word64: "- (2 ^ 63) \<le> i \<Longrightarrow> i < 2 ^ 63 \<Longrightarrow> sint (word_of_int i :: int64) = i"
  by (simp add: signed_take_bit_int_eq_self sint_sbintrunc')

lemma saturate_small: "0 \<le> t \<Longrightarrow> t < ticks_per_second \<Longrightarrow> saturate t = Ticks t"
  by (simp add: saturate_def duration_wf_def ticks_per_second_def)

lemma c_div_nonneg: "0 \<le> a \<Longrightarrow> 0 < b \<Longrightarrow> c_div a b = a div b"
  by (cases "a = 0") (simp_all add: c_div_def)

text \<open>The nanoseconds below a second, for a fraction of a second in ticks.\<close>

lemma nanos_of_fraction:
  assumes "0 \<le> f" and "f < ticks_per_second"
  shows "sint (word_of_int (ddiv (saturate f) 4) :: int32) = f div 4 \<and> 0 \<le> f div 4 \<and> f div 4 < 1000000000"
proof -
  have "f div 4 < 1000000000" "0 \<le> f div 4" using assms by (simp_all add: ticks_per_second_def)
  moreover have "ddiv (saturate f) 4 = f div 4"
    using assms calculation by (simp add: saturate_small c_div_nonneg clamp64_def)
  ultimately show ?thesis by (simp add: sint_word_of_int_fits fits_int32_def)
qed

text \<open>
  C34. A positive finite timeout and any finite seek time are sent exactly, to the nanosecond
  (rounded down), as whole seconds and a number of nanoseconds below one second; the seconds do
  not overflow.
\<close>

theorem times_sent_exactly:
  assumes "duration_wf (Ticks t)"
  shows "(0 < t \<longrightarrow> (let d = ToProtoDuration (Ticks t) in
            0 \<le> sint (pd_nanos d) \<and> sint (pd_nanos d) < 1000000000 \<and>
            sint (pd_seconds d) * 1000000000 + sint (pd_nanos d) = t div 4)) \<and>
         (\<exists>ts. ToProtoOffsetConfig (SeekTime (Ticks t)) = OffsetConfigSeekTime ts \<and>
            0 \<le> sint (ts_nanos ts) \<and> sint (ts_nanos ts) < 1000000000 \<and>
            sint (ts_seconds ts) * 1000000000 + sint (ts_nanos ts) = t div 4)"
proof -
  let ?q = "t div ticks_per_second" and ?f = "t mod ticks_per_second"
  have pos: "0 < ticks_per_second" by (simp add: ticks_per_second_def)
  have q: "- (2 ^ 63) \<le> ?q" "?q < 2 ^ 63" using assms by (simp_all add: duration_wf_def)
  have f: "t - ?q * ticks_per_second = ?f" by (simp add: minus_div_mult_eq_mod)
  have frac: "0 \<le> ?f" "?f < ticks_per_second" using pos by simp_all
  have total: "?q * 1000000000 + ?f div 4 = t div 4"
  proof -
    have "t div 4 = (?q * ticks_per_second + ?f) div 4" by simp
    also have "\<dots> = (?q * 1000000000 * 4 + ?f) div 4" by (simp add: ticks_per_second_def)
    finally show ?thesis by simp
  qed
  note nanos = nanos_of_fraction [OF frac]
  have sq: "sint (word_of_int ?q :: int64) = ?q" using sint_word64 q by simp
  have "\<exists>ts. ToProtoOffsetConfig (SeekTime (Ticks t)) = OffsetConfigSeekTime ts \<and>
      0 \<le> sint (ts_nanos ts) \<and> sint (ts_nanos ts) < 1000000000 \<and>
      sint (ts_seconds ts) * 1000000000 + sint (ts_nanos ts) = t div 4"
    using nanos sq total by (simp add: Seconds_def f Let_def)
  moreover have "let d = ToProtoDuration (Ticks t) in
      0 \<le> sint (pd_nanos d) \<and> sint (pd_nanos d) < 1000000000 \<and>
      sint (pd_seconds d) * 1000000000 + sint (pd_nanos d) = t div 4" if "0 < t"
  proof -
    have "ddiv (Ticks t) ticks_per_second = ?q"
      using that q pos by (simp add: c_div_nonneg clamp64_def)
    then show ?thesis using nanos sq total by (simp add: ToProtoDuration_def Seconds_def f Let_def)
  qed
  ultimately show ?thesis by blast
qed

theorem times_sent_exactly_witness:
  "ToProtoDuration (Ticks 6000000001) = \<lparr>pd_seconds = 1, pd_nanos = 500000000\<rparr> \<and>
   sint (pd_seconds (ToProtoDuration (Ticks 6000000001))) * 1000000000 +
     sint (pd_nanos (ToProtoDuration (Ticks 6000000001))) = 1500000000"
  using times_sent_exactly [of 6000000001]
  by (simp add: duration_wf_def ticks_per_second_def Let_def)
     (simp add: ToProtoDuration_def Let_def ticks_per_second_def c_div_def clamp64_def Seconds_def saturate_def
       duration_wf_def)

text \<open>An infinite seek time gives a number of nanoseconds that no timestamp may have.\<close>

lemma infinite_seek_time:
  "ToProtoOffsetConfig (SeekTime InfiniteDuration) =
     OffsetConfigSeekTime \<lparr>ts_seconds = word_of_int (2 ^ 63 - 1), ts_nanos = - 1\<rparr>"
  by (simp add: Seconds_def Let_def)

section \<open>Witnesses\<close>

definition example_env :: rpc_env where
  "example_env = \<lparr>re_now = Ticks 0,
     re_fs = \<lparr>fs_files = (\<lambda>_. None), fs_readable = (\<lambda>_. True), fs_writable = (\<lambda>_. True),
              fs_searchable = (\<lambda>_. True)\<rparr>,
     re_getenv = (\<lambda>_. None), re_generate_id_token = (\<lambda>_. (\<lparr>g_code = GRPC_OK, g_message = []\<rparr>, [])),
     re_parse_json = (\<lambda>_. JsonOther), re_custom_channel = (\<lambda>_. True), re_uniform = (\<lambda>_ _ lo _. lo)\<rparr>"

definition insecure_options :: connection_options where
  "insecure_options = default_connection_options\<lparr>co_ssl_options :=
     (co_ssl_options default_connection_options)\<lparr>so_use_insecure_channel := True\<rparr>\<rparr>"

definition text_packet :: "string \<Rightarrow> packet" where
  "text_packet s = empty_packet\<lparr>p_payload := s\<rparr>"

definition example_server :: stream_server where
  "example_server = \<lparr>ss_stub = (\<lambda>_. True),
     ss_receive_packets = (\<lambda>_ _. Some ([], \<lparr>g_code = GRPC_OUT_OF_RANGE, g_message = []\<rparr>)),
     ss_replay_stream = (\<lambda>_ _. Some ([text_packet ''a'', text_packet ''b''],
        \<lparr>g_code = GRPC_DEADLINE_EXCEEDED, g_message = ''late''\<rparr>)),
     ss_receive_one_packet = (\<lambda>_ _ _. (\<lparr>g_code = GRPC_OK, g_message = []\<rparr>,
        \<lparr>rs_valid = True, rs_packet = text_packet ''c''\<rparr>))\<rparr>"

definition example_receiver_options :: receiver_options where
  "example_receiver_options = default_receiver_options\<lparr>pro_connection_options := insecure_options,
     pro_receiver_mode := AutoMode\<rparr>"

definition collect :: "packet \<Rightarrow> string list \<Rightarrow> status \<times> string list" where
  "collect p s = (OkStatus, s @ [p_payload p])"

lemmas example_defs = example_env_def insecure_options_def default_connection_options_def
  example_receiver_options_def default_receiver_options_def example_server_def text_packet_def

definition example_channel :: stream_channel where
  "example_channel = \<lparr>sc_options = receiver_channel_options example_receiver_options,
     sc_grpc_channel = SetCommonChannelArgs (new_channel [] InsecureChannelCredentials)\<rparr>"

lemma example_channel_created:
  "StreamChannel_Create example_env (receiver_channel_options example_receiver_options) = Inr example_channel"
  by (simp add: StreamChannel_Create_def example_channel_def receiver_channel_options_def CreateGrpcChannel_def
      CreateInsecureGrpcChannel_def CreateCustomChannel_def example_defs Let_def)

lemma example_context:
  "MakeClientContext example_env example_channel = Returns (Inr new_client_context)"
  by (simp add: MakeClientContext_def example_channel_def receiver_channel_options_def example_defs Let_def
      FillGrpcClientContext_def new_client_context_def del: outcome_bind_Returns_iff)

lemma example_offered:
  "offered example_env example_server example_receiver_options new_client_context =
     Some ([text_packet ''a'', text_packet ''b''], \<lparr>g_code = GRPC_DEADLINE_EXCEEDED, g_message = ''late''\<rparr>)"
  by (simp add: offered_def Let_def auto_choice_def example_defs)

theorem subscription_delivers_stream_witness:
  "\<exists>pr pr'. PacketReceiver_Create example_env example_server example_receiver_options = Returns (Inr pr) \<and>
     Subscribe 3 (\<lambda>_. example_env) example_server collect [] [] pr =
       Some (Returns (DeadlineExceededError ''late'', [''a'', ''b''], [], pr'))"
proof -
  show ?thesis
    using subscription_delivers_stream [OF example_channel_created _ example_context example_offered,
      of 3 "\<lambda>_. example_env" collect "[]"]
    by (simp add: example_server_def grpc_ok_def collect_def text_packet_def MakeStatusFromRpcStatus_def
        MakeStatusFromRpcCode_def DeadlineExceededError_def)
qed

theorem receive_crashes_only_after_end_witness:
  "\<exists>pr pr'. PacketReceiver_Create example_env example_server example_receiver_options = Returns (Inr pr) \<and>
     receive_calls example_server (replicate 3 (example_env, empty_packet)) pr =
       Returns ([(OkStatus, text_packet ''a''), (OkStatus, text_packet ''b''),
         (DeadlineExceededError ''late'', empty_packet)], pr') \<and>
     receive_calls example_server (replicate 4 (example_env, empty_packet)) pr = Fatal ''Finish was called twice''"
proof -
  obtain pr where pr: "PacketReceiver_Create example_env example_server example_receiver_options = Returns (Inr pr)"
    using Create_offered [OF example_channel_created _ example_context example_offered]
    by (auto simp: example_server_def)
  have mode: "pro_receiver_mode example_receiver_options \<noteq> UnaryReceiveMode"
    by (simp add: example_receiver_options_def)
  have "if length calls \<le> 3
      then \<exists>pr'. receive_calls example_server calls pr = Returns (stream_answers [text_packet ''a'', text_packet ''b'']
        \<lparr>g_code = GRPC_DEADLINE_EXCEEDED, g_message = ''late''\<rparr> (map snd calls), pr')
      else receive_calls example_server calls pr = Fatal ''Finish was called twice''" for calls
    using receive_crashes_only_after_end [OF pr, of calls] mode
    by (simp add: example_channel_created example_context example_offered numeral_3_eq_3)
  from this [of "replicate 3 (example_env, empty_packet)"] this [of "replicate 4 (example_env, empty_packet)"] pr
  show ?thesis
    by (simp add: numeral_eq_Suc MakeStatusFromRpcStatus_def MakeStatusFromRpcCode_def DeadlineExceededError_def)
qed

end
