(* ===== verification/Receiver_Wrappers.thy ===== *)
theory Receiver_Wrappers
  imports Packet_Receiver
begin

text \<open>
  \<open>base/wrappers/receiver_queue.h\<close>, \<open>receivers.h\<close>, \<open>receivers.cc\<close>: a background thread
  that receives packets into a queue shared with the consumer, and the loop that gives them to a
  callback.

  The two threads interleave: a step of the relation \<open>receiver_step\<close> is one stretch of code of the
  worker between two points where the other thread can interfere, one \<open>TryPop\<close> of the consumer
  or the end of the consumer's share. A timed \<open>TryPush\<close> or \<open>TryPop\<close> is seen at the moment it
  decides, so it is the method without waiting; a step is absent while a thread waits.
\<close>

section \<open>The receiver queue\<close>

text \<open>A share of the queue: null in a default constructed \<open>ReceiverQueue\<close>.\<close>

record receiver_queue =
  rq_pcqueue :: "packet pc_queue option"

definition rq_TryPop ::
    "packet \<Rightarrow> receiver_queue \<Rightarrow> (bool \<times> packet \<times> receiver_queue) outcome option" where
  "rq_TryPop elem rq = (case rq_pcqueue rq of
      None \<Rightarrow> Some (Fatal ''null pointer: pcqueue_'')
    | Some q \<Rightarrow> map_option (\<lambda>r. outcome_bind r (\<lambda>(ok, x, q').
        Returns (ok, x, \<lparr>rq_pcqueue = Some q'\<rparr>))) (TryPop elem q))"

definition rq_capacity :: "receiver_queue \<Rightarrow> int32 outcome" where
  "rq_capacity rq = (case rq_pcqueue rq of
      None \<Rightarrow> Fatal ''null pointer: pcqueue_'' | Some q \<Rightarrow> Returns (queue_capacity q))"

section \<open>Making the queue and its worker\<close>

record wrapper_options =
  wo_connection_options :: connection_options
  wo_offset_options :: offset_options
  wo_stream_name :: string
  wo_receiver_name :: string
  wo_buffer_capacity :: int32
  wo_receiver_mode :: receiver_mode

definition kDefaultBufferCapacity :: int32 where
  "kDefaultBufferCapacity = 300"

definition wrapper_receiver_options :: "wrapper_options \<Rightarrow> receiver_options" where
  "wrapper_receiver_options opts = default_receiver_options
     \<lparr>pro_connection_options := wo_connection_options opts, pro_stream_name := wo_stream_name opts,
      pro_receiver_name := wo_receiver_name opts, pro_offset_options := wo_offset_options opts,
      pro_receiver_mode := wo_receiver_mode opts\<rparr>"

text \<open>The status, what \<open>receiver_queue\<close> points to afterwards, and the receiver of the thread that runs.\<close>

definition MakePacketReceiverQueue ::
    "rpc_env \<Rightarrow> stream_server \<Rightarrow> wrapper_options \<Rightarrow>
     (status \<times> receiver_queue \<times> packet_receiver option) outcome" where
  "MakePacketReceiverQueue E S opts =
     (let capacity = (if sint (wo_buffer_capacity opts) \<le> 0 then kDefaultBufferCapacity
                      else wo_buffer_capacity opts)
      in case new_pc_queue capacity of
           Fatal m \<Rightarrow> Fatal m
         | Returns packet_queue \<Rightarrow>
             (let rq = \<lparr>rq_pcqueue = Some packet_queue\<rparr> in
              case PacketReceiver_Create E S (wrapper_receiver_options opts) of
                Fatal m \<Rightarrow> Fatal m
              | Returns (Inl st) \<Rightarrow> Returns (UnknownError ''Failed to create a PacketReceiver'', rq, None)
              | Returns (Inr pr) \<Rightarrow> Returns (OkStatus, rq, Some pr)))"

section \<open>The worker\<close>

text \<open>
  Where the worker is: at the test of its loop, in \<open>TryPush\<close>, in \<open>Emplace\<close> of the packet that ends
  the stream, or at its end. \<open>wk_consumer\<close> tells that the consumer still holds its share
  (\<open>use_count() > 1\<close>), \<open>wk_popped\<close> is the history of what it took.
\<close>

datatype worker_pc = Testing | Pushing | EmplacingEos packet | Exited | Crashed string

record receiver_system =
  wk_queue :: "packet pc_queue"
  wk_consumer :: bool
  wk_receiver :: packet_receiver
  wk_p :: "packet option"
  wk_pc :: worker_pc
  wk_popped :: "packet list"

definition receiver_system_init :: "packet pc_queue \<Rightarrow> packet_receiver \<Rightarrow> receiver_system" where
  "receiver_system_init q pr = \<lparr>wk_queue = q, wk_consumer = True, wk_receiver = pr, wk_p = None,
     wk_pc = Testing, wk_popped = []\<rparr>"

definition worker_eos_reason :: "status \<Rightarrow> string" where
  "worker_eos_reason s = ''Could not receive a packet from the server: '' @ error_message s"

definition worker_receive ::
    "proto_lib \<Rightarrow> stream_server \<Rightarrow> rpc_env \<Rightarrow> clock \<Rightarrow> receiver_system \<Rightarrow> receiver_system" where
  "worker_receive L S E now w = (case Receive E S empty_packet (wk_receiver w) of
      Fatal m \<Rightarrow> w\<lparr>wk_pc := Crashed m\<rparr>
    | Returns (s, p, pr) \<Rightarrow>
        if \<not> status_ok s
        then (case MakeEosPacket L now (worker_eos_reason s) of
                Inl e \<Rightarrow> w\<lparr>wk_receiver := pr, wk_pc := Crashed (error_message e)\<rparr>
              | Inr eos \<Rightarrow> w\<lparr>wk_receiver := pr, wk_p := Some p, wk_pc := EmplacingEos eos\<rparr>)
        else w\<lparr>wk_receiver := pr, wk_p := Some p, wk_pc := Pushing\<rparr>)"

definition worker_step ::
    "proto_lib \<Rightarrow> stream_server \<Rightarrow> rpc_env \<Rightarrow> clock \<Rightarrow> receiver_system \<Rightarrow> receiver_system option" where
  "worker_step L S E now w = (case wk_pc w of
      Testing \<Rightarrow>
        if \<not> wk_consumer w then Some (w\<lparr>wk_pc := Exited\<rparr>)
        else if wk_p w = None then Some (worker_receive L S E now w)
        else Some (w\<lparr>wk_pc := Pushing\<rparr>)
    | Pushing \<Rightarrow>
        (case TryPush (wk_p w) (wk_queue w) of
           None \<Rightarrow> None
         | Some (Fatal m) \<Rightarrow> Some (w\<lparr>wk_pc := Crashed m\<rparr>)
         | Some (Returns r) \<Rightarrow>
             Some (w\<lparr>wk_queue := pushed_queue r, wk_p := pushed_ptr r, wk_pc := Testing\<rparr>))
    | EmplacingEos eos \<Rightarrow>
        (case Emplace [] eos (wk_queue w) of
           None \<Rightarrow> None
         | Some (q, _) \<Rightarrow> Some (w\<lparr>wk_queue := q, wk_pc := Exited\<rparr>))
    | Exited \<Rightarrow> None
    | Crashed _ \<Rightarrow> None)"

definition consumer_pop :: "receiver_system \<Rightarrow> receiver_system option" where
  "consumer_pop w =
     (if \<not> wk_consumer w then None
      else case TryPop empty_packet (wk_queue w) of
        Some (Returns (True, x, q)) \<Rightarrow> Some (w\<lparr>wk_queue := q, wk_popped := wk_popped w @ [x]\<rparr>)
      | _ \<Rightarrow> None)"

text \<open>The clock is assumed to work: \<open>MakeEosPacket\<close> reads it.\<close>

inductive receiver_step :: "proto_lib \<Rightarrow> stream_server \<Rightarrow> receiver_system \<Rightarrow> receiver_system \<Rightarrow> bool"
  for L S where
  worker: "worker_step L S E (Some now) w = Some w' \<Longrightarrow> receiver_step L S w w'"
| pop: "consumer_pop w = Some w' \<Longrightarrow> receiver_step L S w w'"
| release: "receiver_step L S w (w\<lparr>wk_consumer := False\<rparr>)"

section \<open>Receiving with a callback\<close>

text \<open>
  The loop of \<open>ReceivePackets\<close>: \<open>pops\<close> gives for each \<open>TryPop\<close> the packet, or \<open>None\<close> when it timed
  out, and the clock. \<open>None\<close> when the loop still runs after the last of them.
\<close>

fun receive_packets_loop ::
    "proto_lib \<Rightarrow> (packet \<Rightarrow> 's \<Rightarrow> status \<times> 's) \<Rightarrow> (packet option \<times> clock) list \<Rightarrow> 's \<Rightarrow> (status \<times> 's) option"
where
  "receive_packets_loop L cb [] s = None"
| "receive_packets_loop L cb ((got, now) # pops) s = (case got of
      None \<Rightarrow>
        (case MakeEosPacket L now ''Timed out waiting for a new packet'' of
           Inl e \<Rightarrow> Some (InternalError ''Failed to create an EOS packet'', s)
         | Inr eos \<Rightarrow> (case cb eos s of (st, s') \<Rightarrow>
             if IsCancelled st then Some (OkStatus, s') else receive_packets_loop L cb pops s'))
    | Some p \<Rightarrow> (case cb p s of (st, s') \<Rightarrow>
        if IsCancelled st then Some (OkStatus, s') else receive_packets_loop L cb pops s'))"

definition ReceivePackets ::
    "proto_lib \<Rightarrow> rpc_env \<Rightarrow> stream_server \<Rightarrow> wrapper_options \<Rightarrow> (packet \<Rightarrow> 's \<Rightarrow> status \<times> 's) \<Rightarrow>
     (packet option \<times> clock) list \<Rightarrow> 's \<Rightarrow> (status \<times> 's) outcome option" where
  "ReceivePackets L E S opts cb pops s = (case MakePacketReceiverQueue E S opts of
      Fatal m \<Rightarrow> Some (Fatal m)
    | Returns (st, _, _) \<Rightarrow>
        if \<not> status_ok st then Some (Returns (UnknownError ''Failed to create a packet receiver queue'', s))
        else map_option Returns (receive_packets_loop L cb pops s))"

section \<open>The invariant\<close>

text \<open>A packet that ends the stream, with the reason the worker gives for the status \<open>g\<close>.\<close>

definition ends_stream :: "proto_lib \<Rightarrow> grpc_status \<Rightarrow> packet \<Rightarrow> bool" where
  "ends_stream L g eos \<longleftrightarrow> IsEos L eos = Returns True \<and>
     IsEos_reason L eos (Some []) = Returns (True, Some (worker_eos_reason (MakeStatusFromRpcStatus g)))"

definition held :: "receiver_system \<Rightarrow> packet list" where
  "held w = (case wk_p w of None \<Rightarrow> [] | Some p \<Rightarrow> [p])"

definition delivered :: "receiver_system \<Rightarrow> packet list" where
  "delivered w = wk_popped w @ q_items (wk_queue w)"

definition streaming_rest :: "packet list \<Rightarrow> grpc_status \<Rightarrow> receiver_system \<Rightarrow> bool" where
  "streaming_rest ps g w \<longleftrightarrow> streaming_ready (wk_receiver w) \<and>
     (\<exists>rest. remaining (wk_receiver w) = (rest, g) \<and> delivered w @ held w @ rest = ps)"

definition worker_inv :: "proto_lib \<Rightarrow> packet list \<Rightarrow> grpc_status \<Rightarrow> receiver_system \<Rightarrow> bool" where
  "worker_inv L ps g w \<longleftrightarrow> queue_inv (wk_queue w) \<and>
     (case wk_pc w of
        Testing \<Rightarrow> streaming_rest ps g w
      | Pushing \<Rightarrow> streaming_rest ps g w \<and> wk_p w \<noteq> None
      | EmplacingEos eos \<Rightarrow> ends_stream L g eos \<and> delivered w = ps
      | Exited \<Rightarrow> (\<exists>eos. ends_stream L g eos \<and> delivered w = ps @ [eos]) \<or>
                  (\<not> wk_consumer w \<and> (\<exists>rest. delivered w @ rest = ps))
      | Crashed m \<Rightarrow> False)"

lemma fifo_put_TryPush:
  "TryPush (Some p) q = Some (Returns
     (case fifo_put p q of
        None \<Rightarrow> \<lparr>pushed_ok = False, pushed_ptr = Some p, pushed_leaks = 0, pushed_queue = q\<rparr>
      | Some q' \<Rightarrow> \<lparr>pushed_ok = True, pushed_ptr = None, pushed_leaks = 1, pushed_queue = q'\<rparr>))"
  by (simp add: TryPush_eq fifo_put_def TryEmplace_def is_full_def InternalEmplace_def)

lemma fifo_put_Emplace: "Emplace [] p q = map_option (\<lambda>q'. (q', cv_not_empty)) (fifo_put p q)"
  by (simp add: Emplace_def fifo_put_def TryEmplace_def InternalEmplace_def wait_while.simps)

lemma fifo_get_TryPop:
  "TryPop e q = Some (Returns (case fifo_get q of None \<Rightarrow> (False, e, q) | Some (x, q') \<Rightarrow> (True, x, q')))"
  by (cases "q_items q")
     (simp_all add: TryPop_eq fifo_get_def Pop_def wait_while_now wait_while_asleep InternalPop_def)

text \<open>The three outcomes of an attempt to put, by the laws of the queue.\<close>

lemma fifo_put_items:
  assumes "queue_inv q" and "fifo_put p q = Some q'"
  shows "queue_inv q' \<and> q_items q' = q_items q @ [p]"
  using pcq.put_full [OF assms(1), of p] pcq.put_room [OF assms(1), of p] assms(2) by (cases "is_full q") auto

lemma fifo_get_items:
  assumes "queue_inv q" and "fifo_get q = Some (x, q')"
  shows "queue_inv q' \<and> q_items q = x # q_items q'"
  using pcq.get_empty [OF assms(1)] pcq.get_head [OF assms(1)] assms(2) by (cases "q_items q") auto

lemma error_message_rpc: "\<not> grpc_ok g \<Longrightarrow> error_message (MakeStatusFromRpcStatus g) = g_message g"
  using MakeStatusFromRpcStatus_ok [of g]
  by (simp add: error_message_def MakeStatusFromRpcStatus_def MakeStatusFromRpcCode_def mk_Status_def)

lemma worker_receive_inv:
  assumes inv: "queue_inv (wk_queue w)" "streaming_rest ps g w" "wk_p w = None" "wk_pc w = Testing"
    and L: "proto_laws L" "eos_wf L (Eos (worker_eos_reason (MakeStatusFromRpcStatus g)))" "\<not> grpc_ok g"
  shows "worker_inv L ps g (worker_receive L S E (Some now) w)"
proof -
  obtain rest where r: "remaining (wk_receiver w) = (rest, g)" "delivered w @ rest = ps"
      "streaming_ready (wk_receiver w)"
    using inv(2,3) by (auto simp: streaming_rest_def held_def)
  have mode: "pro_receiver_mode (pr_options (wk_receiver w)) \<noteq> UnaryReceiveMode"
    using r(3) by (simp add: streaming_ready_def)
  show ?thesis
  proof (cases rest)
    case Nil
    obtain eos where "MakeEosPacket L (Some now) (worker_eos_reason (MakeStatusFromRpcStatus g)) = Inr eos"
        "ends_stream L g eos"
      using make_eos_packet [OF L(1,2)] unfolding ends_stream_def by blast
    then show ?thesis
      using streaming_step [OF r(3), of empty_packet] r Nil L(3) mode inv(1)
      by (auto simp: worker_receive_def Receive_def worker_inv_def delivered_def)
  next
    case (Cons p ps')
    then show ?thesis
      using streaming_step [OF r(3), of empty_packet] r mode inv(1)
      by (auto simp: worker_receive_def Receive_def worker_inv_def delivered_def streaming_rest_def held_def)
  qed
qed

lemma worker_step_inv:
  assumes "worker_inv L ps g w" and "worker_step L S E (Some now) w = Some w'"
    and "proto_laws L" "eos_wf L (Eos (worker_eos_reason (MakeStatusFromRpcStatus g)))" "\<not> grpc_ok g"
  shows "worker_inv L ps g w'"
proof (cases "wk_pc w")
  case Testing
  then have t: "queue_inv (wk_queue w)" "streaming_rest ps g w" using assms(1) by (simp_all add: worker_inv_def)
  show ?thesis
  proof (cases "wk_consumer w")
    case False
    then have "w' = w\<lparr>wk_pc := Exited\<rparr>" using assms(2) Testing by (simp add: worker_step_def)
    with t False show ?thesis by (auto simp: worker_inv_def streaming_rest_def delivered_def)
  next
    case True
    show ?thesis
    proof (cases "wk_p w")
      case None
      then have "w' = worker_receive L S E (Some now) w"
        using assms(2) Testing True by (simp add: worker_step_def)
      then show ?thesis using worker_receive_inv [OF t None Testing assms(3-5)] by simp
    next
      case (Some p)
      then have "w' = w\<lparr>wk_pc := Pushing\<rparr>" using assms(2) Testing True by (simp add: worker_step_def)
      with t Some show ?thesis by (simp add: worker_inv_def streaming_rest_def delivered_def held_def)
    qed
  qed
next
  case Pushing
  then obtain p where p: "wk_p w = Some p" "queue_inv (wk_queue w)" "streaming_rest ps g w"
    using assms(1) by (auto simp: worker_inv_def)
  show ?thesis
  proof (cases "fifo_put p (wk_queue w)")
    case None
    then have "w' = w\<lparr>wk_pc := Testing\<rparr>"
      using assms(2) Pushing p by (auto simp: worker_step_def fifo_put_TryPush)
    with p show ?thesis by (simp add: worker_inv_def streaming_rest_def delivered_def held_def)
  next
    case (Some q)
    then have "w' = w\<lparr>wk_queue := q, wk_p := None, wk_pc := Testing\<rparr>"
      using assms(2) Pushing p by (simp add: worker_step_def fifo_put_TryPush)
    with p fifo_put_items [OF p(2) Some] show ?thesis
      by (simp add: worker_inv_def streaming_rest_def delivered_def held_def)
  qed
next
  case (EmplacingEos eos)
  then have e: "ends_stream L g eos" "delivered w = ps" "queue_inv (wk_queue w)"
    using assms(1) by (auto simp: worker_inv_def)
  obtain q where q: "fifo_put eos (wk_queue w) = Some q" "w' = w\<lparr>wk_queue := q, wk_pc := Exited\<rparr>"
    using assms(2) EmplacingEos by (auto simp: worker_step_def fifo_put_Emplace split: option.splits)
  from e fifo_put_items [OF e(3) q(1)] q(2) show ?thesis
    by (auto simp: worker_inv_def delivered_def)
qed (use assms(2) in \<open>simp_all add: worker_step_def\<close>)

lemma consumer_pop_delivered:
  assumes "queue_inv (wk_queue w)" and "consumer_pop w = Some w'"
  shows "delivered w' = delivered w \<and> queue_inv (wk_queue w') \<and>
     wk_receiver w' = wk_receiver w \<and> wk_p w' = wk_p w \<and> wk_pc w' = wk_pc w \<and> wk_consumer w' = wk_consumer w"
  using assms fifo_get_items [OF assms(1)]
  by (auto simp: consumer_pop_def fifo_get_TryPop delivered_def split: if_splits option.splits)

lemma receiver_step_inv:
  assumes "receiver_step L S w w'" and "worker_inv L ps g w"
    and "proto_laws L" "eos_wf L (Eos (worker_eos_reason (MakeStatusFromRpcStatus g)))" "\<not> grpc_ok g"
  shows "worker_inv L ps g w'"
  using assms(1)
proof cases
  case (worker E now)
  then show ?thesis using worker_step_inv [OF assms(2) worker assms(3-5)] by simp
next
  case pop
  then show ?thesis
    using consumer_pop_delivered [OF _ pop] assms(2)
    by (auto simp: worker_inv_def streaming_rest_def held_def split: worker_pc.splits)
next
  case release
  then show ?thesis
    using assms(2) by (auto simp: worker_inv_def streaming_rest_def held_def delivered_def split: worker_pc.splits)
qed

lemma receiver_reach_inv:
  assumes "(receiver_step L S)\<^sup>*\<^sup>* w w'" and "worker_inv L ps g w"
    and "proto_laws L" "eos_wf L (Eos (worker_eos_reason (MakeStatusFromRpcStatus g)))" "\<not> grpc_ok g"
  shows "worker_inv L ps g w'"
  using assms(1)
proof (induction rule: rtranclp_induct)
  case base
  show ?case by (rule assms(2))
next
  case (step y z)
  then show ?case using receiver_step_inv assms(3-5) by blast
qed

section \<open>Progress\<close>

text \<open>A bound on the steps until the consumer has everything.\<close>

definition work_left :: "receiver_system \<Rightarrow> nat" where
  "work_left w = length (q_items (wk_queue w)) + (case wk_pc w of
      Testing \<Rightarrow> 6 * length (fst (remaining (wk_receiver w))) + 3 * length (held w) + 10
    | Pushing \<Rightarrow> 6 * length (fst (remaining (wk_receiver w))) + 3 * length (held w) + 9
    | EmplacingEos eos \<Rightarrow> 5
    | Exited \<Rightarrow> 0
    | Crashed m \<Rightarrow> 0)"

definition all_taken :: "receiver_system \<Rightarrow> bool" where
  "all_taken w \<longleftrightarrow> wk_pc w = Exited \<and> q_items (wk_queue w) = []"

lemma pop_progress:
  assumes "queue_inv (wk_queue w)" and "wk_consumer w" and "q_items (wk_queue w) \<noteq> []"
  shows "\<exists>w'. consumer_pop w = Some w' \<and> wk_consumer w' \<and> work_left w' < work_left w"
proof -
  obtain x xs where x: "q_items (wk_queue w) = x # xs" using assms(3) by (cases "q_items (wk_queue w)") auto
  have "consumer_pop w = Some (w\<lparr>wk_queue := (wk_queue w)\<lparr>q_items := xs\<rparr>, wk_popped := wk_popped w @ [x]\<rparr>)"
    using assms(2) x by (simp add: consumer_pop_def TryPop_eq)
  then show ?thesis using assms(2) x by (simp add: work_left_def held_def split: worker_pc.split)
qed

lemma fifo_put_empty:
  assumes "queue_inv q" and "q_items q = []"
  shows "\<exists>q'. fifo_put p q = Some q' \<and> q_items q' = [p]"
  using pcq.put_room [OF assms(1) pcq.empty_has_room [OF assms], of p] assms(2) by auto

lemma worker_progress:
  assumes inv: "worker_inv L ps g w" and c: "wk_consumer w" and e: "q_items (wk_queue w) = []" "wk_pc w \<noteq> Exited"
    and L: "proto_laws L" "eos_wf L (Eos (worker_eos_reason (MakeStatusFromRpcStatus g)))" "\<not> grpc_ok g"
  shows "\<exists>w'. worker_step L S E (Some now) w = Some w' \<and> wk_consumer w' \<and> work_left w' < work_left w"
proof (cases "wk_pc w")
  case Testing
  then have t: "queue_inv (wk_queue w)" "streaming_rest ps g w" using inv by (simp_all add: worker_inv_def)
  show ?thesis
  proof (cases "wk_p w")
    case (Some p)
    then show ?thesis using Testing c e by (simp add: worker_step_def work_left_def held_def)
  next
    case None
    let ?w = "worker_receive L S E (Some now) w"
    obtain rest where r: "remaining (wk_receiver w) = (rest, g)" "streaming_ready (wk_receiver w)"
      using t(2) by (auto simp: streaming_rest_def)
    have mode: "pro_receiver_mode (pr_options (wk_receiver w)) \<noteq> UnaryReceiveMode"
      using r(2) by (simp add: streaming_ready_def)
    have "wk_consumer ?w \<and> work_left ?w < work_left w"
    proof (cases rest)
      case Nil
      obtain eos where "MakeEosPacket L (Some now) (worker_eos_reason (MakeStatusFromRpcStatus g)) = Inr eos"
        using make_eos_packet [OF L(1,2)] by blast
      then show ?thesis
        using streaming_step [OF r(2), of empty_packet] r Nil L(3) mode c e Testing None
        by (auto simp: worker_receive_def Receive_def work_left_def)
    next
      case (Cons p ps')
      then show ?thesis
        using streaming_step [OF r(2), of empty_packet] r mode c e Testing None
        by (auto simp: worker_receive_def Receive_def work_left_def held_def)
    qed
    then show ?thesis using Testing c None by (simp add: worker_step_def)
  qed
next
  case Pushing
  then obtain p where p: "wk_p w = Some p" "queue_inv (wk_queue w)" using inv by (auto simp: worker_inv_def)
  obtain q where "fifo_put p (wk_queue w) = Some q" "q_items q = [p]"
    using fifo_put_empty [OF p(2) e(1)] by blast
  then show ?thesis
    using Pushing p c e by (simp add: worker_step_def fifo_put_TryPush work_left_def held_def)
next
  case (EmplacingEos eos)
  have "queue_inv (wk_queue w)" using inv by (simp add: worker_inv_def)
  then obtain q where "fifo_put eos (wk_queue w) = Some q" "q_items q = [eos]"
    using fifo_put_empty [OF _ e(1)] by blast
  then show ?thesis
    using EmplacingEos c e by (simp add: worker_step_def fifo_put_Emplace work_left_def)
next
  case Exited
  with e show ?thesis by simp
next
  case (Crashed m)
  with inv show ?thesis by (simp add: worker_inv_def)
qed

lemma everything_delivered:
  assumes "worker_inv L ps g w" and "wk_consumer w"
    and L: "proto_laws L" "eos_wf L (Eos (worker_eos_reason (MakeStatusFromRpcStatus g)))" "\<not> grpc_ok g"
  shows "\<exists>w'. (receiver_step L S)\<^sup>*\<^sup>* w w' \<and> wk_consumer w' \<and> all_taken w'"
  using assms(1,2)
proof (induction "work_left w" arbitrary: w rule: less_induct)
  case less
  show ?case
  proof (cases "all_taken w")
    case True
    with less.prems show ?thesis by blast
  next
    case False
    have "\<exists>w1. receiver_step L S w w1 \<and> wk_consumer w1 \<and> work_left w1 < work_left w"
    proof (cases "q_items (wk_queue w) = []")
      case True
      then show ?thesis
        using worker_progress [OF less.prems(1,2) True _ L, of S "undefined" "(0, 0)"] False
        by (auto simp: all_taken_def intro: receiver_step.worker)
    next
      case False
      then show ?thesis
        using pop_progress [OF _ less.prems(2) False] less.prems(1)
        by (auto simp: worker_inv_def intro: receiver_step.pop)
    qed
    then obtain w1 where w1: "receiver_step L S w w1" "wk_consumer w1" "work_left w1 < work_left w" by blast
    from less.hyps [OF w1(3) receiver_step_inv [OF w1(1) less.prems(1) L] w1(2)] w1(1)
    show ?thesis by (meson converse_rtranclp_into_rtranclp)
  qed
qed

section \<open>Properties\<close>

lemma MakePacketReceiverQueue_receiver:
  assumes "MakePacketReceiverQueue E S opts = Returns (st, rq, Some pr)"
  shows "\<exists>q. rq_pcqueue rq = Some q \<and> queue_inv q \<and> q_items q = [] \<and> receiver_ready pr \<and>
     pro_receiver_mode (pr_options pr) = wo_receiver_mode opts \<and>
     queue_capacity q = (if sint (wo_buffer_capacity opts) \<le> 0 then 300 else wo_buffer_capacity opts)"
proof -
  obtain q where q: "new_pc_queue (if sint (wo_buffer_capacity opts) \<le> 0 then kDefaultBufferCapacity
        else wo_buffer_capacity opts) = Returns q" "rq_pcqueue rq = Some q"
      "PacketReceiver_Create E S (wrapper_receiver_options opts) = Returns (Inr pr)"
    using assms by (auto simp: MakePacketReceiverQueue_def Let_def
        split: outcome.splits sum.splits)
  have "pro_receiver_mode (wrapper_receiver_options opts) = wo_receiver_mode opts"
    by (simp add: wrapper_receiver_options_def)
  with q Create_ready [OF q(3)] new_pc_queue_inv [OF q(1)] show ?thesis
    by (auto simp: queue_capacity_def new_pc_queue_def kDefaultBufferCapacity_def split: if_splits)
qed

lemma worker_inv_init:
  assumes "MakePacketReceiverQueue E S opts = Returns (st, rq, Some pr)" and "rq_pcqueue rq = Some q"
    and "wo_receiver_mode opts \<noteq> UnaryReceiveMode" and "remaining pr = (ps, g)"
  shows "worker_inv L ps g (receiver_system_init q pr)"
  using MakePacketReceiverQueue_receiver [OF assms(1)] assms(2-4)
  by (auto simp: worker_inv_def receiver_system_init_def streaming_rest_def delivered_def held_def
      streaming_ready_def)

lemma delivered_prefix:
  assumes "worker_inv L ps g w"
  shows "(\<exists>rest. delivered w @ rest = ps) \<or> (\<exists>eos. ends_stream L g eos \<and> delivered w = ps @ [eos])"
  using assms by (auto simp: worker_inv_def streaming_rest_def split: worker_pc.splits)

text \<open>
  C1. The promises of the header, for every interleaving of the worker and the consumer, in the
  three streaming modes: what the consumer took, followed by what is in the queue, is a prefix of
  the packets of the stream, without gap and in order, or all of them followed by one packet that
  \<open>IsEos\<close> recognises and that gives the status of the stream as its reason. The queue never
  exceeds its capacity and the worker does not crash. The server ends its stream with an error status, as the
  servers in the tests of the receiver do; a stream that ends with \<open>OK\<close> is taken for a packet without content
  (\<open>end_of_stream_taken_for_packet\<close>).
\<close>

theorem received_in_order_without_gaps:
  assumes "MakePacketReceiverQueue E S opts = Returns (st, rq, Some pr)" and "rq_pcqueue rq = Some q"
    and "wo_receiver_mode opts \<noteq> UnaryReceiveMode" and "remaining pr = (ps, g)" and "\<not> grpc_ok g"
    and "proto_laws L" and "eos_wf L (Eos (worker_eos_reason (MakeStatusFromRpcStatus g)))"
    and "(receiver_step L S)\<^sup>*\<^sup>* (receiver_system_init q pr) w"
  shows "((\<exists>rest. wk_popped w @ q_items (wk_queue w) @ rest = ps) \<or>
          (\<exists>eos. IsEos L eos = Returns True \<and>
             IsEos_reason L eos (Some []) = Returns (True, Some (worker_eos_reason (MakeStatusFromRpcStatus g))) \<and>
             wk_popped w @ q_items (wk_queue w) = ps @ [eos])) \<and>
         queue_inv (wk_queue w) \<and> (\<forall>m. wk_pc w \<noteq> Crashed m)"
proof -
  have inv: "worker_inv L ps g w"
    using receiver_reach_inv [OF assms(8) worker_inv_init [OF assms(1-4)] assms(6,7,5)] .
  from delivered_prefix [OF inv] inv show ?thesis
    by (auto simp: delivered_def ends_stream_def worker_inv_def)
qed

text \<open>
  C2. Nothing can get stuck while the consumer holds its share: from every state that the threads
  can reach, a consumer that goes on popping gets the whole stream and then the packet that ends
  it, and the worker thread ends. The server ends its stream with an error status.
\<close>

theorem whole_stream_is_delivered:
  assumes "MakePacketReceiverQueue E S opts = Returns (st, rq, Some pr)" and "rq_pcqueue rq = Some q"
    and "wo_receiver_mode opts \<noteq> UnaryReceiveMode" and "remaining pr = (ps, g)" and "\<not> grpc_ok g"
    and "proto_laws L" and "eos_wf L (Eos (worker_eos_reason (MakeStatusFromRpcStatus g)))"
    and "(receiver_step L S)\<^sup>*\<^sup>* (receiver_system_init q pr) w" and "wk_consumer w"
  shows "\<exists>w' eos. (receiver_step L S)\<^sup>*\<^sup>* w w' \<and> wk_pc w' = Exited \<and>
    wk_popped w' = ps @ [eos] \<and> IsEos L eos = Returns True"
proof -
  have inv: "worker_inv L ps g w"
    using receiver_reach_inv [OF assms(8) worker_inv_init [OF assms(1-4)] assms(6,7,5)] .
  obtain w' where w': "(receiver_step L S)\<^sup>*\<^sup>* w w'" "wk_consumer w'" "all_taken w'"
    using everything_delivered [OF inv assms(9,6,7,5)] by blast
  have "worker_inv L ps g w'" using receiver_reach_inv [OF w'(1) inv assms(6,7,5)] .
  with w' show ?thesis by (auto simp: worker_inv_def all_taken_def delivered_def ends_stream_def)
qed

text \<open>
  Without a consumer that is not so: a worker that ends the stream waits in \<open>Emplace\<close> for room in
  the full queue, which nobody will make, and does not look at the number of shares again.
\<close>

lemma worker_stuck_without_consumer:
  assumes "wk_pc w = EmplacingEos eos" and "is_full (wk_queue w)" and "queue_inv (wk_queue w)"
    and "\<not> wk_consumer w" and "(receiver_step L S)\<^sup>*\<^sup>* w w'"
  shows "w' = w"
  using assms(5)
proof (induction rule: rtranclp_induct)
  case base
  show ?case by simp
next
  case (step y z)
  from step.hyps(2) show ?case
  proof cases
    case (worker E now)
    then show ?thesis
      using step.IH assms(1-3) pcq.put_full [OF assms(3,2)] by (simp add: worker_step_def fifo_put_Emplace)
  next
    case pop
    then show ?thesis using step.IH assms(4) by (simp add: consumer_pop_def)
  next
    case release
    then show ?thesis using step.IH assms(4) by simp
  qed
qed

text \<open>The callback sees what was popped in order, with an end-of-stream packet for each timeout.\<close>

fun until_cancelled :: "(packet \<Rightarrow> 's \<Rightarrow> status \<times> 's) \<Rightarrow> packet list \<Rightarrow> 's \<Rightarrow> (status \<times> 's) option" where
  "until_cancelled cb [] s = None"
| "until_cancelled cb (p # ps) s = (case cb p s of (st, s') \<Rightarrow>
     if IsCancelled st then Some (OkStatus, s') else until_cancelled cb ps s')"

lemma receive_packets_loop_callback:
  assumes "\<And>got now. (got, now) \<in> set pops \<Longrightarrow>
      MakeEosPacket L now ''Timed out waiting for a new packet'' = Inr eos"
  shows "receive_packets_loop L cb pops s =
    until_cancelled cb (map (\<lambda>x. case fst x of None \<Rightarrow> eos | Some p \<Rightarrow> p) pops) s"
  using assms
proof (induction pops arbitrary: s)
  case Nil
  then show ?case by simp
next
  case (Cons a pops)
  obtain got now where a: "a = (got, now)" by (cases a)
  have "MakeEosPacket L now ''Timed out waiting for a new packet'' = Inr eos" using Cons.prems a by auto
  moreover have "receive_packets_loop L cb pops s' =
      until_cancelled cb (map (\<lambda>x. case fst x of None \<Rightarrow> eos | Some p \<Rightarrow> p) pops) s'" for s'
    by (rule Cons.IH) (meson Cons.prems list.set_intros(2))
  ultimately show ?case by (simp add: a split: option.split prod.split)
qed

section \<open>Witnesses\<close>

definition example_wrapper_options :: wrapper_options where
  "example_wrapper_options = \<lparr>wo_connection_options = insecure_options,
     wo_offset_options = default_offset_options, wo_stream_name = [], wo_receiver_name = [],
     wo_buffer_capacity = 1, wo_receiver_mode = AutoMode\<rparr>"

definition example_lib :: proto_lib where
  "example_lib = table_lib [ControlSignalPacketTypeDescriptor CONTROL_SIGNAL_EOS,
     EosValue ''Could not receive a packet from the server: late'']"

lemma example_queue:
  "\<exists>pr. MakePacketReceiverQueue example_env example_server example_wrapper_options =
      Returns (OkStatus, \<lparr>rq_pcqueue = Some \<lparr>q_capacity = 1, q_items = []\<rparr>\<rparr>, Some pr) \<and>
     remaining pr = ([text_packet ''a'', text_packet ''b''], \<lparr>g_code = GRPC_DEADLINE_EXCEEDED, g_message = ''late''\<rparr>)"
proof -
  have "wrapper_receiver_options example_wrapper_options = example_receiver_options"
    by (simp add: wrapper_receiver_options_def example_wrapper_options_def example_receiver_options_def
        default_receiver_options_def)
  then show ?thesis
    using Create_offered [OF example_channel_created _ example_context example_offered]
    by (auto simp: MakePacketReceiverQueue_def Let_def example_wrapper_options_def new_pc_queue_def
        example_server_def)
qed

lemma example_reason:
  "eos_wf example_lib (Eos (worker_eos_reason (MakeStatusFromRpcStatus \<lparr>g_code = GRPC_DEADLINE_EXCEEDED, g_message = ''late''\<rparr>)))"
  by (simp add: error_message_rpc grpc_ok_def worker_eos_reason_def eos_wf_def example_lib_def table_lib_def)

theorem received_in_order_without_gaps_witness:
  "\<exists>pr w. remaining pr = ([text_packet ''a'', text_packet ''b''], \<lparr>g_code = GRPC_DEADLINE_EXCEEDED, g_message = ''late''\<rparr>) \<and>
     w = receiver_system_init \<lparr>q_capacity = 1, q_items = []\<rparr> pr \<and> queue_inv (wk_queue w) \<and>
     (\<forall>m. wk_pc w \<noteq> Crashed m)"
proof -
  obtain pr where pr: "MakePacketReceiverQueue example_env example_server example_wrapper_options =
      Returns (OkStatus, \<lparr>rq_pcqueue = Some \<lparr>q_capacity = 1, q_items = []\<rparr>\<rparr>, Some pr)"
      "remaining pr = ([text_packet ''a'', text_packet ''b''], \<lparr>g_code = GRPC_DEADLINE_EXCEEDED, g_message = ''late''\<rparr>)"
    using example_queue by blast
  show ?thesis
    using received_in_order_without_gaps [OF pr(1) _ _ pr(2) _ _ example_reason rtranclp.rtrancl_refl] pr(2)
    by (auto simp: example_wrapper_options_def grpc_ok_def example_lib_def table_lib_laws)
qed

theorem whole_stream_is_delivered_witness:
  "\<exists>pr w' eos. (receiver_step example_lib example_server)\<^sup>*\<^sup>*
       (receiver_system_init \<lparr>q_capacity = 1, q_items = []\<rparr> pr) w' \<and>
     wk_popped w' = [text_packet ''a'', text_packet ''b'', eos] \<and> IsEos example_lib eos = Returns True"
proof -
  obtain pr where pr: "MakePacketReceiverQueue example_env example_server example_wrapper_options =
      Returns (OkStatus, \<lparr>rq_pcqueue = Some \<lparr>q_capacity = 1, q_items = []\<rparr>\<rparr>, Some pr)"
      "remaining pr = ([text_packet ''a'', text_packet ''b''], \<lparr>g_code = GRPC_DEADLINE_EXCEEDED, g_message = ''late''\<rparr>)"
    using example_queue by blast
  show ?thesis
    using whole_stream_is_delivered [OF pr(1) _ _ pr(2) _ _ example_reason rtranclp.rtrancl_refl]
    by (force simp: example_wrapper_options_def grpc_ok_def example_lib_def table_lib_laws receiver_system_init_def)
qed

end
