(* ===== verification/Management_Client.thy ===== *)
theory Management_Client
  imports Receiver_Wrappers Complex_Main
begin

text \<open>
  \<open>base/util/exponential_backoff.h\<close>, \<open>exponential_backoff.cc\<close>, the messages of
  \<open>proto/management.proto\<close> and \<open>base/management_client.h\<close>, \<open>management_client.cc\<close>: the managers of
  streams (on-premises and managed) and of clusters, and the polling of long-running
  operations.

  The services called over gRPC are the records \<open>onprem_service\<close> and \<open>google_service\<close>: for each call,
  what it answers to a request. Time passes only in \<open>ExponentialBackoff::Wait\<close>, whose durations
  are collected.
\<close>

section \<open>Exponential backoff\<close>

record exponential_backoff =
  eb_initial_wait_time :: duration
  eb_current_wait_time :: duration
  eb_max_wait_time :: duration
  eb_wait_time_multiplier :: rat

text \<open>The product of a number and a duration, to the nearest tick; it saturates.\<close>

fun dscale :: "rat \<Rightarrow> duration \<Rightarrow> duration" where
  "dscale m (Ticks t) = saturate (round (m * of_int t))"
| "dscale m d = d"

definition ExponentialBackoff :: "duration \<Rightarrow> duration \<Rightarrow> rat \<Rightarrow> exponential_backoff" where
  "ExponentialBackoff initial_wait_time max_wait_time wait_time_multiplier =
     (let i = max initial_wait_time ZeroDuration in
      \<lparr>eb_initial_wait_time = i, eb_current_wait_time = i, eb_max_wait_time = max max_wait_time i,
       eb_wait_time_multiplier = max wait_time_multiplier 1\<rparr>)"

text \<open>The duration slept and the new state.\<close>

definition eb_Wait :: "exponential_backoff \<Rightarrow> duration \<times> exponential_backoff" where
  "eb_Wait eb = (eb_current_wait_time eb,
     if eb_current_wait_time eb < eb_max_wait_time eb
     then eb\<lparr>eb_current_wait_time :=
        min (dscale (eb_wait_time_multiplier eb) (eb_current_wait_time eb)) (eb_max_wait_time eb)\<rparr>
     else eb)"

fun eb_waits :: "nat \<Rightarrow> exponential_backoff \<Rightarrow> duration list" where
  "eb_waits 0 eb = []"
| "eb_waits (Suc n) eb = (case eb_Wait eb of (d, eb') \<Rightarrow> d # eb_waits n eb')"

section \<open>Messages\<close>

record cluster_msg =
  cl_name :: string
  cl_service_endpoint :: string
  cl_certificate :: string

record stream_msg =
  sr_name :: string
  sr_retention_period :: "proto_duration option"

record onprem_config =
  oc_target_address :: string
  oc_use_insecure_channel :: bool
  oc_ssl_domain_name :: string
  oc_ssl_root_cert_path :: string
  oc_timeout :: proto_duration
  oc_wait_for_ready :: bool

record managed_config =
  mc_target_address :: string
  mc_project :: string
  mc_location :: string
  mc_cluster :: string

datatype stream_manager_config =
    StreamManagerOnPremConfig onprem_config
  | StreamManagerManagedConfig managed_config
  | StreamManagerConfigNotSet

record cluster_manager_config =
  kc_target_address :: string
  kc_project :: string
  kc_location :: string

record create_stream_request =
  csr_stream_name :: string
  csr_retention_period :: proto_duration

text \<open>Reading a submessage that is not set gives its default.\<close>

definition get_retention_period :: "stream_msg \<Rightarrow> proto_duration" where
  "get_retention_period s = (case sr_retention_period s of
      None \<Rightarrow> \<lparr>pd_seconds = 0, pd_nanos = 0\<rparr> | Some d \<Rightarrow> d)"

section \<open>The services\<close>

record operation =
  op_name :: string
  op_error :: "string option"
  op_done :: bool
  op_response :: any

text \<open>
  \<open>os_stub\<close> and \<open>gs_stub\<close> tell whether the stub is made, \<open>gs_channel\<close> whether a channel with the
  default credentials is. The calls take the context with its metadata and the fields of the
  request; \<open>gs_get_operation k\<close> is the answer to the \<open>k\<close>-th poll of an operation.
\<close>

record onprem_service =
  os_stub :: "grpc_channel \<Rightarrow> bool"
  os_create_stream :: "client_context \<Rightarrow> create_stream_request \<Rightarrow> grpc_status"
  os_delete_stream :: "client_context \<Rightarrow> string \<Rightarrow> grpc_status"
  os_list_stream :: "client_context \<Rightarrow> grpc_status \<times> string list"

record google_service =
  gs_channel :: "string \<Rightarrow> bool"
  gs_stub :: "string \<Rightarrow> bool"
  gs_get_operation :: "nat \<Rightarrow> client_context \<Rightarrow> string \<Rightarrow> grpc_status \<times> operation"
  gs_create_stream :: "client_context \<Rightarrow> string \<Rightarrow> string \<Rightarrow> grpc_status \<times> operation"
  gs_delete_stream :: "client_context \<Rightarrow> string \<Rightarrow> grpc_status \<times> operation"
  gs_list_streams :: "client_context \<Rightarrow> string \<Rightarrow> grpc_status \<times> string list"
  gs_create_cluster :: "client_context \<Rightarrow> string \<Rightarrow> string \<Rightarrow> grpc_status \<times> operation"
  gs_delete_cluster :: "client_context \<Rightarrow> string \<Rightarrow> grpc_status \<times> operation"
  gs_list_clusters :: "client_context \<Rightarrow> string \<Rightarrow> grpc_status \<times> cluster_msg list"
  gs_get_cluster :: "client_context \<Rightarrow> string \<Rightarrow> grpc_status \<times> cluster_msg"
  gs_unpack_stream :: "any \<Rightarrow> string option"
  gs_unpack_cluster :: "any \<Rightarrow> cluster_msg option"

section \<open>Endpoints\<close>

text \<open>\<open>std::string::find\<close>\<close>

fun str_find :: "string \<Rightarrow> string \<Rightarrow> nat option" where
  "str_find pat [] = (if pat = [] then Some 0 else None)"
| "str_find pat (c # cs) =
     (if take (length pat) (c # cs) = pat then Some 0 else map_option Suc (str_find pat cs))"

definition str_replace :: "nat \<Rightarrow> nat \<Rightarrow> string \<Rightarrow> string \<Rightarrow> string" where
  "str_replace pos n new s = take pos s @ new @ drop (pos + n) s"

definition ReplaceServiceEndpointPort :: "string \<Rightarrow> string" where
  "ReplaceServiceEndpointPort endpoint = (let target_port = '':80'' in
     case str_find target_port endpoint of
       None \<Rightarrow> endpoint
     | Some pos \<Rightarrow> str_replace pos (length target_port) '':443'' endpoint)"

section \<open>Long-running operations\<close>

definition kMaxTrials :: nat where
  "kMaxTrials = 15"

definition parent_context :: "string \<Rightarrow> client_context" where
  "parent_context parent =
     AddMetadata ''x-goog-request-params'' (''parent='' @ parent) new_client_context"

text \<open>The polling loop; the second component collects the waits.\<close>

function poll_operation ::
    "google_service \<Rightarrow> string \<Rightarrow> string \<Rightarrow> nat \<Rightarrow> exponential_backoff \<Rightarrow> duration list \<Rightarrow>
     operation result \<times> duration list" where
  "poll_operation G operation_name parent num_trials eb waits =
     (case gs_get_operation G num_trials (parent_context parent) operation_name of (st, response) \<Rightarrow>
        if \<not> grpc_ok st then (Inl (UnknownError ''Encountered error calling RPC WaitOperation''), waits)
        else if op_error response \<noteq> None then (Inl (UnknownError ''Operation failed.''), waits)
        else if op_done response then (Inr response, waits)
        else if kMaxTrials < num_trials + 1
        then (Inl (DeadlineExceededError ''Failed waiting for operation.''), waits)
        else (case eb_Wait eb of (d, eb') \<Rightarrow>
                poll_operation G operation_name parent (num_trials + 1) eb' (waits @ [d])))"
  by pat_completeness auto
termination
  by (relation "measure (\<lambda>(G, name, parent, n, eb, waits). Suc kMaxTrials - n)") (auto simp: kMaxTrials_def)

declare poll_operation.simps [simp del]

definition operation_backoff :: exponential_backoff where
  "operation_backoff = ExponentialBackoff (Seconds 2) (Seconds 120) 2"

definition WaitOperation ::
    "google_service \<Rightarrow> string \<Rightarrow> string \<Rightarrow> string \<Rightarrow> operation result \<times> duration list" where
  "WaitOperation G operation_name service_name parent =
     (if \<not> gs_channel G service_name then (Inl (UnknownError ''Failed to create a gRPC channel''), [])
      else if \<not> gs_stub G service_name then (Inl (UnknownError ''Failed to create a gRPC stub''), [])
      else poll_operation G operation_name parent 0 operation_backoff [])"

section \<open>The stream manager on premises\<close>

record onprem_manager =
  om_options :: connection_options

definition duration_of_proto :: "proto_duration \<Rightarrow> duration" where
  "duration_of_proto d =
     dplus (Seconds (sint (pd_seconds d))) (Ticks (sint (pd_nanos d) * 4))"

definition OnPremStreamManagerImpl :: "onprem_config \<Rightarrow> onprem_manager" where
  "OnPremStreamManagerImpl config = \<lparr>om_options = default_connection_options
     \<lparr>co_target_address := oc_target_address config,
      co_ssl_options := \<lparr>so_use_insecure_channel = oc_use_insecure_channel config,
        so_ssl_domain_name = oc_ssl_domain_name config,
        so_ssl_root_cert_path = oc_ssl_root_cert_path config\<rparr>,
      co_rpc_options := \<lparr>ro_timeout = duration_of_proto (oc_timeout config),
        ro_wait_for_ready = oc_wait_for_ready config\<rparr>\<rparr>\<rparr>"

definition onprem_Initialize :: "rpc_env \<Rightarrow> onprem_service \<Rightarrow> onprem_manager \<Rightarrow> status" where
  "onprem_Initialize E B om = (case CreateGrpcChannel E (om_options om) of
      None \<Rightarrow> UnknownError ''Failed to create a gRPC channel''
    | Some ch \<Rightarrow> if \<not> os_stub B ch then UnknownError ''Failed to create a gRPC stub'' else OkStatus)"

definition onprem_CreateStreamManager ::
    "rpc_env \<Rightarrow> onprem_service \<Rightarrow> onprem_config \<Rightarrow> onprem_manager result" where
  "onprem_CreateStreamManager E B config = (let om = OnPremStreamManagerImpl config;
     st = onprem_Initialize E B om in if \<not> status_ok st then Inl st else Inr om)"

definition onprem_CreateStream ::
    "rpc_env \<Rightarrow> onprem_service \<Rightarrow> onprem_manager \<Rightarrow> stream_msg \<Rightarrow> stream_msg result" where
  "onprem_CreateStream E B om stream =
     (case FillGrpcClientContext E (co_rpc_options (om_options om)) new_client_context of (st, context) \<Rightarrow>
        if \<not> status_ok st then Inl st
        else if \<not> grpc_ok (os_create_stream B context
               \<lparr>csr_stream_name = sr_name stream, csr_retention_period = get_retention_period stream\<rparr>)
        then Inl (UnknownError ''Encountered error calling RPC CreateStream'')
        else Inr stream)"

definition onprem_DeleteStream ::
    "rpc_env \<Rightarrow> onprem_service \<Rightarrow> onprem_manager \<Rightarrow> string \<Rightarrow> status" where
  "onprem_DeleteStream E B om stream_name =
     (case FillGrpcClientContext E (co_rpc_options (om_options om)) new_client_context of (st, context) \<Rightarrow>
        if \<not> status_ok st then st
        else if \<not> grpc_ok (os_delete_stream B context stream_name)
        then UnknownError ''Encountered error calling RPC DeleteStream''
        else OkStatus)"

definition named_stream :: "string \<Rightarrow> stream_msg" where
  "named_stream name = \<lparr>sr_name = name, sr_retention_period = None\<rparr>"

definition onprem_ListStreams ::
    "rpc_env \<Rightarrow> onprem_service \<Rightarrow> onprem_manager \<Rightarrow> stream_msg list result" where
  "onprem_ListStreams E B om =
     (case FillGrpcClientContext E (co_rpc_options (om_options om)) new_client_context of (st, context) \<Rightarrow>
        if \<not> status_ok st then Inl st
        else (case os_list_stream B context of (g, stream_names) \<Rightarrow>
                if \<not> grpc_ok g then Inl (UnknownError ''Encountered error calling RPC ListStreams'')
                else Inr (map named_stream stream_names)))"

section \<open>The stream manager of the managed service\<close>

record managed_manager =
  mm_target_address :: string
  mm_parent :: string

definition ManagedStreamManagerImpl :: "managed_config \<Rightarrow> managed_manager" where
  "ManagedStreamManagerImpl config = \<lparr>mm_target_address = mc_target_address config,
     mm_parent = ''projects/'' @ mc_project config @ ''/locations/'' @ mc_location config @
                 ''/clusters/'' @ mc_cluster config\<rparr>"

definition google_Initialize :: "google_service \<Rightarrow> string \<Rightarrow> status" where
  "google_Initialize G target_address =
     (if \<not> gs_channel G target_address then UnknownError ''Failed to create a gRPC channel''
      else if \<not> gs_stub G target_address then UnknownError ''Failed to create a gRPC stub''
      else OkStatus)"

definition managed_CreateStreamManager :: "google_service \<Rightarrow> managed_config \<Rightarrow> managed_manager result" where
  "managed_CreateStreamManager G config = (let mm = ManagedStreamManagerImpl config;
     st = google_Initialize G (mm_target_address mm) in if \<not> status_ok st then Inl st else Inr mm)"

definition managed_CreateStream ::
    "google_service \<Rightarrow> managed_manager \<Rightarrow> stream_msg \<Rightarrow> stream_msg result \<times> duration list" where
  "managed_CreateStream G mm stream =
     (case gs_create_stream G (parent_context (mm_parent mm)) (mm_parent mm) (sr_name stream) of
        (g, operation) \<Rightarrow>
          if \<not> grpc_ok g then (Inl (UnknownError ''Encountered error calling RPC CreateStream''), [])
          else (case WaitOperation G (op_name operation) (mm_target_address mm) (mm_parent mm) of
                  (Inl st, waits) \<Rightarrow> (Inl (UnknownError ''Encountered error deleting stream''), waits)
                | (Inr op, waits) \<Rightarrow>
                    (case gs_unpack_stream G (op_response op) of
                       None \<Rightarrow> (Inl (UnknownError
                         ''Encountered error while unpack response to stream message.''), waits)
                     | Some name \<Rightarrow> (Inr (named_stream name), waits))))"

definition managed_DeleteStream ::
    "google_service \<Rightarrow> managed_manager \<Rightarrow> string \<Rightarrow> status \<times> duration list" where
  "managed_DeleteStream G mm stream_name =
     (case gs_delete_stream G (parent_context (mm_parent mm)) (mm_parent mm @ ''/streams/'' @ stream_name) of
        (g, operation) \<Rightarrow>
          if \<not> grpc_ok g then (UnknownError ''Encountered error calling RPC DeleteStream'', [])
          else (case WaitOperation G (op_name operation) (mm_target_address mm) (mm_parent mm) of
                  (Inl st, waits) \<Rightarrow> (UnknownError ''Encountered error deleting stream'', waits)
                | (Inr op, waits) \<Rightarrow> (OkStatus, waits)))"

definition managed_ListStreams :: "google_service \<Rightarrow> managed_manager \<Rightarrow> stream_msg list result" where
  "managed_ListStreams G mm =
     (case gs_list_streams G (parent_context (mm_parent mm)) (mm_parent mm) of (g, streams) \<Rightarrow>
        if \<not> grpc_ok g then Inl (UnknownError ''Encountered error calling RPC ListStreams'')
        else Inr (map named_stream streams))"

section \<open>The cluster manager\<close>

record cluster_manager =
  km_target_address :: string
  km_parent :: string

definition ClusterManagerImpl :: "cluster_manager_config \<Rightarrow> cluster_manager" where
  "ClusterManagerImpl config = \<lparr>km_target_address = kc_target_address config,
     km_parent = ''projects/'' @ kc_project config @ ''/locations/'' @ kc_location config\<rparr>"

definition CreateClusterManager :: "google_service \<Rightarrow> cluster_manager_config \<Rightarrow> cluster_manager result" where
  "CreateClusterManager G config = (let km = ClusterManagerImpl config;
     st = google_Initialize G (km_target_address km) in if \<not> status_ok st then Inl st else Inr km)"

text \<open>The message of this library for a cluster of the service.\<close>

definition cluster_result :: "cluster_msg \<Rightarrow> cluster_msg" where
  "cluster_result c = \<lparr>cl_name = cl_name c,
     cl_service_endpoint = ReplaceServiceEndpointPort (cl_service_endpoint c),
     cl_certificate = cl_certificate c\<rparr>"

text \<open>\<open>CreateCluster\<close> converts the cluster of the response, and returns its argument.\<close>

definition km_CreateCluster ::
    "google_service \<Rightarrow> cluster_manager \<Rightarrow> cluster_msg \<Rightarrow> cluster_msg result \<times> duration list" where
  "km_CreateCluster G km cluster =
     (case gs_create_cluster G (parent_context (km_parent km)) (km_parent km) (cl_name cluster) of
        (g, operation) \<Rightarrow>
          if \<not> grpc_ok g then (Inl (UnknownError ''Encountered error calling RPC CreateCluster''), [])
          else (case WaitOperation G (op_name operation) (km_target_address km) (km_parent km) of
                  (Inl st, waits) \<Rightarrow> (Inl (UnknownError ''Encountered error creating cluster''), waits)
                | (Inr op, waits) \<Rightarrow>
                    (case gs_unpack_cluster G (op_response op) of
                       None \<Rightarrow> (Inl (UnknownError
                         ''Encountered error while unpack response to cluster message.''), waits)
                     | Some c \<Rightarrow> (let result = cluster_result c in (Inr cluster, waits)))))"

definition km_DeleteCluster ::
    "google_service \<Rightarrow> cluster_manager \<Rightarrow> string \<Rightarrow> status \<times> duration list" where
  "km_DeleteCluster G km cluster_name =
     (case gs_delete_cluster G (parent_context (km_parent km)) (km_parent km @ ''/clusters/'' @ cluster_name) of
        (g, operation) \<Rightarrow>
          if \<not> grpc_ok g then (UnknownError ''Encountered error calling RPC DeleteCluster'', [])
          else (case WaitOperation G (op_name operation) (km_target_address km) (km_parent km) of
                  (Inl st, waits) \<Rightarrow> (UnknownError ''Encountered error deleting cluster'', waits)
                | (Inr op, waits) \<Rightarrow> (OkStatus, waits)))"

definition km_ListClusters :: "google_service \<Rightarrow> cluster_manager \<Rightarrow> cluster_msg list result" where
  "km_ListClusters G km =
     (case gs_list_clusters G (parent_context (km_parent km)) (km_parent km) of (g, clusters) \<Rightarrow>
        if \<not> grpc_ok g then Inl (UnknownError ''Encountered error calling RPC ListClusters'')
        else Inr (map cluster_result clusters))"

definition km_GetCluster :: "google_service \<Rightarrow> cluster_manager \<Rightarrow> string \<Rightarrow> cluster_msg result" where
  "km_GetCluster G km cluster_name =
     (case gs_get_cluster G (parent_context (km_parent km)) cluster_name of (g, cluster) \<Rightarrow>
        if \<not> grpc_ok g then Inl (UnknownError ''Encountered error calling RPC GetCluster'')
        else Inr (cluster_result cluster))"

section \<open>The factory and the virtual methods\<close>

datatype stream_manager = OnPremManager onprem_manager | ManagedManager managed_manager

definition CreateStreamManager ::
    "rpc_env \<Rightarrow> onprem_service \<Rightarrow> google_service \<Rightarrow> stream_manager_config \<Rightarrow> stream_manager result" where
  "CreateStreamManager E B G config = (case config of
      StreamManagerOnPremConfig c \<Rightarrow> map_sum id OnPremManager (onprem_CreateStreamManager E B c)
    | StreamManagerManagedConfig c \<Rightarrow> map_sum id ManagedManager (managed_CreateStreamManager G c)
    | StreamManagerConfigNotSet \<Rightarrow> Inl (InvalidArgumentError
        (''Input config is invalid. Either stream_manager_onprem_config or '' @
         ''stream_manager_managed_config should be specified.'')))"

fun sm_CreateStream ::
    "rpc_env \<Rightarrow> onprem_service \<Rightarrow> google_service \<Rightarrow> stream_manager \<Rightarrow> stream_msg \<Rightarrow>
     stream_msg result \<times> duration list" where
  "sm_CreateStream E B G (OnPremManager om) stream = (onprem_CreateStream E B om stream, [])"
| "sm_CreateStream E B G (ManagedManager mm) stream = managed_CreateStream G mm stream"

fun sm_DeleteStream ::
    "rpc_env \<Rightarrow> onprem_service \<Rightarrow> google_service \<Rightarrow> stream_manager \<Rightarrow> string \<Rightarrow> status \<times> duration list" where
  "sm_DeleteStream E B G (OnPremManager om) name = (onprem_DeleteStream E B om name, [])"
| "sm_DeleteStream E B G (ManagedManager mm) name = managed_DeleteStream G mm name"

fun sm_ListStreams ::
    "rpc_env \<Rightarrow> onprem_service \<Rightarrow> google_service \<Rightarrow> stream_manager \<Rightarrow> stream_msg list result" where
  "sm_ListStreams E B G (OnPremManager om) = onprem_ListStreams E B om"
| "sm_ListStreams E B G (ManagedManager mm) = managed_ListStreams G mm"

section \<open>Waiting times\<close>

lemma duration_le_simps [simp]:
  "Ticks a \<le> Ticks b \<longleftrightarrow> a \<le> b" "d \<le> InfiniteDuration" "InfinitePastDuration \<le> d"
  by (cases d; simp add: less_eq_duration_def)+

definition eb_inv :: "exponential_backoff \<Rightarrow> bool" where
  "eb_inv eb \<longleftrightarrow> ZeroDuration \<le> eb_current_wait_time eb \<and>
     eb_current_wait_time eb \<le> eb_max_wait_time eb \<and> 1 \<le> eb_wait_time_multiplier eb"

lemma dscale_ge:
  assumes "1 \<le> m" and "ZeroDuration \<le> d"
  shows "d \<le> dscale m d"
proof (cases d)
  case (Ticks t)
  with assms(2) have t: "0 \<le> t" by (simp add: ZeroDuration_def)
  have "(of_int t :: rat) \<le> m * of_int t" using assms(1) t by (simp add: mult_le_cancel_right1)
  then have "round (of_int t :: rat) \<le> round (m * of_int t)" by (rule round_mono)
  then have "t \<le> round (m * of_int t)" by simp
  then show ?thesis using Ticks t by (simp add: saturate_def)
qed (use assms in simp_all)

lemma eb_Wait_inv:
  assumes "eb_inv eb" and "eb_Wait eb = (d, eb')"
  shows "eb_inv eb' \<and> d = eb_current_wait_time eb \<and> d \<le> eb_current_wait_time eb' \<and>
     eb_max_wait_time eb' = eb_max_wait_time eb"
  using assms dscale_ge [of "eb_wait_time_multiplier eb" "eb_current_wait_time eb"]
  by (auto simp: eb_inv_def eb_Wait_def min_def split: if_splits)

lemma eb_waits_sorted:
  "eb_inv eb \<Longrightarrow> sorted (eb_waits n eb) \<and>
     set (eb_waits n eb) \<subseteq> {eb_current_wait_time eb .. eb_max_wait_time eb}"
proof (induction n arbitrary: eb)
  case 0
  then show ?case by simp
next
  case (Suc n)
  obtain d eb' where w: "eb_Wait eb = (d, eb')" by (cases "eb_Wait eb")
  note f = eb_Wait_inv [OF Suc.prems w]
  from Suc.IH [of eb'] f have ih: "sorted (eb_waits n eb')"
      "set (eb_waits n eb') \<subseteq> {eb_current_wait_time eb' .. eb_max_wait_time eb'}" by simp_all
  have "d \<le> eb_max_wait_time eb" using Suc.prems f by (simp add: eb_inv_def)
  moreover have "d \<le> x" "x \<le> eb_max_wait_time eb" if "x \<in> set (eb_waits n eb')" for x
    using that ih(2) f by (auto dest!: subsetD)
  ultimately show ?case using ih(1) f by (auto simp: w)
qed

lemma ExponentialBackoff_inv: "eb_inv (ExponentialBackoff i m k)"
  by (simp add: ExponentialBackoff_def eb_inv_def Let_def)

text \<open>
  C36. Whatever the arguments of the constructor, the waits never get shorter and stay between the
  initial wait (or zero) and the maximum (or the initial wait, when that is longer).
\<close>

theorem backoff_waits_grow:
  "sorted (eb_waits n (ExponentialBackoff i m k)) \<and>
   set (eb_waits n (ExponentialBackoff i m k)) \<subseteq> {max i ZeroDuration .. max m (max i ZeroDuration)}"
  using eb_waits_sorted [OF ExponentialBackoff_inv, of n i m k]
  by (simp add: ExponentialBackoff_def Let_def)

section \<open>Polling\<close>

definition operation_pending :: "grpc_status \<times> operation \<Rightarrow> bool" where
  "operation_pending r \<longleftrightarrow> grpc_ok (fst r) \<and> op_error (snd r) = None \<and> \<not> op_done (snd r)"

definition operation_result :: "grpc_status \<times> operation \<Rightarrow> operation result" where
  "operation_result r =
     (if \<not> grpc_ok (fst r) then Inl (UnknownError ''Encountered error calling RPC WaitOperation'')
      else if op_error (snd r) \<noteq> None then Inl (UnknownError ''Operation failed.'')
      else Inr (snd r))"

definition operation_waits :: "duration list" where
  "operation_waits = map Seconds [2, 4, 8, 16, 32, 64, 120, 120, 120, 120, 120, 120, 120, 120, 120]"

text \<open>The backoff of the polling loop when its next wait is \<open>c\<close> seconds.\<close>

definition backoff_at :: "int \<Rightarrow> exponential_backoff" where
  "backoff_at c = \<lparr>eb_initial_wait_time = Seconds 2, eb_current_wait_time = Seconds c,
     eb_max_wait_time = Seconds 120, eb_wait_time_multiplier = 2\<rparr>"

lemma Seconds_less [simp]: "Seconds a < Seconds b \<longleftrightarrow> a < b"
  by (simp add: Seconds_def ticks_per_second_def)

lemma Seconds_le [simp]: "Seconds a \<le> Seconds b \<longleftrightarrow> a \<le> b"
  by (simp add: Seconds_def ticks_per_second_def)

lemma dscale_Seconds: "0 \<le> c \<Longrightarrow> c < 1000 \<Longrightarrow> dscale 2 (Seconds c) = Seconds (2 * c)"
proof -
  assume c: "0 \<le> c" "c < 1000"
  have "round (2 * of_int (c * ticks_per_second) :: rat) = round (of_int (2 * (c * ticks_per_second)) :: rat)"
    by simp
  then have "round (2 * of_int (c * ticks_per_second) :: rat) = 2 * c * ticks_per_second"
    by (simp only: round_of_int)
  then show ?thesis
    using c by (simp add: Seconds_def saturate_def duration_wf_def ticks_per_second_def)
qed

lemma eb_Wait_backoff_at:
  "0 \<le> c \<Longrightarrow> c \<le> 120 \<Longrightarrow> eb_Wait (backoff_at c) = (Seconds c, backoff_at (min (2 * c) 120))"
  by (auto simp: eb_Wait_def backoff_at_def dscale_Seconds min_def)

lemma operation_backoff_at: "operation_backoff = backoff_at 2"
  by (simp add: operation_backoff_def ExponentialBackoff_def backoff_at_def Let_def max_def ZeroDuration_def
      less_eq_duration_def Seconds_def ticks_per_second_def)

lemma eb_waits_at:
  "0 \<le> c \<Longrightarrow> c \<le> 120 \<Longrightarrow>
   eb_waits (Suc n) (backoff_at c) = Seconds c # eb_waits n (backoff_at (min (2 * c) 120))"
  by (simp add: eb_Wait_backoff_at)

lemma operation_backoff_waits: "eb_waits 15 operation_backoff = operation_waits"
proof -
  have "15 = Suc (Suc (Suc (Suc (Suc (Suc (Suc (Suc (Suc (Suc (Suc (Suc (Suc (Suc (Suc 0))))))))))))))" by simp
  then show ?thesis
    unfolding operation_waits_def operation_backoff_at
    by (simp only:) ((subst eb_waits_at, simp, simp)+, simp)
qed

lemma dplus_Seconds:
  "0 \<le> a \<Longrightarrow> a < 1000000 \<Longrightarrow> 0 \<le> b \<Longrightarrow> b < 1000000 \<Longrightarrow> dplus (Seconds a) (Seconds b) = Seconds (a + b)"
  by (simp add: Seconds_def saturate_def duration_wf_def ticks_per_second_def)

lemma poll_operation_step:
  "poll_operation G name parent n eb ws =
     (let r = gs_get_operation G n (parent_context parent) name in
      if \<not> operation_pending r then (operation_result r, ws)
      else if kMaxTrials < n + 1 then (Inl (DeadlineExceededError ''Failed waiting for operation.''), ws)
      else poll_operation G name parent (n + 1) (snd (eb_Wait eb)) (ws @ [fst (eb_Wait eb)]))"
  by (subst poll_operation.simps)
     (auto simp: operation_pending_def operation_result_def Let_def split: prod.splits)

lemma poll_operation_find:
  assumes "n \<le> 15"
  shows "poll_operation G name parent n eb ws =
     (case find (\<lambda>k. \<not> operation_pending (gs_get_operation G k (parent_context parent) name)) [n..<16] of
        Some k \<Rightarrow> (operation_result (gs_get_operation G k (parent_context parent) name), ws @ eb_waits (k - n) eb)
      | None \<Rightarrow> (Inl (DeadlineExceededError ''Failed waiting for operation.''), ws @ eb_waits (15 - n) eb))"
  using assms
proof (induction "15 - n" arbitrary: n eb ws)
  case 0
  then have n: "n = 15" by simp
  have "[n..<16] = [15]" by (simp add: n upt_conv_Cons)
  then show ?case by (subst poll_operation_step) (simp add: n kMaxTrials_def Let_def)
next
  case (Suc m)
  then have n: "n < 15" "m = 15 - Suc n" by simp_all
  have upt: "[n..<16] = n # [Suc n..<16]" using n by (simp add: upt_conv_Cons)
  have ws: "eb_waits (Suc j) eb = fst (eb_Wait eb) # eb_waits j (snd (eb_Wait eb))" for j
    by (simp split: prod.split)
  have k: "k - n = Suc (k - Suc n)"
    if "find (\<lambda>k. \<not> operation_pending (gs_get_operation G k (parent_context parent) name)) [Suc n..<16] = Some k" for k
    using that n by (auto simp: find_Some_iff)
  have m: "15 - n = Suc (15 - Suc n)" using n by simp
  show ?case
    using Suc.hyps(1) [OF n(2), of "snd (eb_Wait eb)" "ws @ [fst (eb_Wait eb)]"] n k
    by (subst poll_operation_step) (auto simp: upt kMaxTrials_def Let_def ws m split: option.split prod.split)
qed

definition total_seconds :: "duration list \<Rightarrow> duration" where
  "total_seconds ds = foldr dplus ds ZeroDuration"

text \<open>
  C21. Waiting for an operation always ends. The answer is that of the first of sixteen polls that
  is not pending, or \<open>DeadlineExceeded\<close> when all of them are; before the \<open>k\<close>-th further poll the
  \<open>k\<close>-th of the waits of 2, 4, 8, 16, 32, 64 and nine times 120 seconds has passed: 1206 seconds,
  the twenty minutes of the comment, in all.
\<close>

theorem wait_operation_bounded:
  assumes "gs_channel G service" and "gs_stub G service"
  shows "WaitOperation G name service parent =
    (case find (\<lambda>k. \<not> operation_pending (gs_get_operation G k (parent_context parent) name)) [0..<16] of
       Some k \<Rightarrow> (operation_result (gs_get_operation G k (parent_context parent) name), eb_waits k operation_backoff)
     | None \<Rightarrow> (Inl (DeadlineExceededError ''Failed waiting for operation.''), operation_waits)) \<and>
    eb_waits 15 operation_backoff = operation_waits \<and>
    length operation_waits = 15 \<and> total_seconds operation_waits = Seconds 1206"
proof -
  have "total_seconds operation_waits = foldr dplus operation_waits (Seconds 0)"
    by (simp add: total_seconds_def ZeroDuration_def Seconds_def)
  then have "total_seconds operation_waits = Seconds 1206"
    by (simp add: operation_waits_def dplus_Seconds)
  then show ?thesis
    using assms poll_operation_find [of 0 G name parent operation_backoff "[]"] operation_backoff_waits
    by (simp add: WaitOperation_def operation_waits_def split: option.split)
qed

definition slow_service :: google_service where
  "slow_service = \<lparr>gs_channel = (\<lambda>_. True), gs_stub = (\<lambda>_. True),
     gs_get_operation = (\<lambda>k _ name. (\<lparr>g_code = GRPC_OK, g_message = []\<rparr>,
       \<lparr>op_name = name, op_error = None, op_done = (2 \<le> k), op_response = empty_any\<rparr>)),
     gs_create_stream = (\<lambda>_ _ _. (\<lparr>g_code = GRPC_OK, g_message = []\<rparr>,
       \<lparr>op_name = ''op'', op_error = None, op_done = False, op_response = empty_any\<rparr>)),
     gs_delete_stream = (\<lambda>_ _. (\<lparr>g_code = GRPC_UNAVAILABLE, g_message = []\<rparr>,
       \<lparr>op_name = [], op_error = None, op_done = False, op_response = empty_any\<rparr>)),
     gs_list_streams = (\<lambda>_ _. (\<lparr>g_code = GRPC_OK, g_message = []\<rparr>, [])),
     gs_create_cluster = (\<lambda>_ _ _. (\<lparr>g_code = GRPC_OK, g_message = []\<rparr>,
       \<lparr>op_name = ''op'', op_error = None, op_done = False, op_response = empty_any\<rparr>)),
     gs_delete_cluster = (\<lambda>_ _. (\<lparr>g_code = GRPC_UNAVAILABLE, g_message = []\<rparr>,
       \<lparr>op_name = [], op_error = None, op_done = False, op_response = empty_any\<rparr>)),
     gs_list_clusters = (\<lambda>_ _. (\<lparr>g_code = GRPC_OK, g_message = []\<rparr>, [])),
     gs_get_cluster = (\<lambda>_ n. (\<lparr>g_code = GRPC_OK, g_message = []\<rparr>,
       \<lparr>cl_name = n, cl_service_endpoint = [], cl_certificate = []\<rparr>)),
     gs_unpack_stream = (\<lambda>_. Some ''projects/p/streams/s''),
     gs_unpack_cluster = (\<lambda>_. Some
       \<lparr>cl_name = ''c'', cl_service_endpoint = ''1.2.3.4:80'', cl_certificate = ''pem''\<rparr>)\<rparr>"

theorem wait_operation_bounded_witness:
  "\<exists>op. WaitOperation slow_service ''op'' ''host'' ''p'' = (Inr op, [Seconds 2, Seconds 4])"
proof -
  have "eb_waits 2 operation_backoff = [Seconds 2, Seconds 4]"
    by (simp add: numeral_2_eq_2 operation_backoff_at eb_waits_at del: eb_waits.simps(2))
  moreover have "[0..<16] = 0 # 1 # 2 # [3..<16 :: nat]" by (simp add: upt_conv_Cons)
  ultimately show ?thesis
    using wait_operation_bounded [of slow_service "''host''" "''op''" "''p''"]
    by (simp add: slow_service_def operation_pending_def operation_result_def grpc_ok_def)
qed

section \<open>Ports\<close>

lemma str_find_skip: "c \<notin> set s \<Longrightarrow> str_find (c # pat) (s @ rest) = map_option (\<lambda>n. length s + n) (str_find (c # pat) rest)"
proof (induction s)
  case Nil
  then show ?case by (simp add: option.map_id0 [unfolded id_def] option.map_ident)
next
  case (Cons x s)
  then show ?case by (auto simp: option.map_comp comp_def intro!: option.map_cong)
qed

lemma str_find_none: "c \<notin> set s \<Longrightarrow> str_find (c # pat) s = None"
  by (induction s) auto

text \<open>
  The service endpoint \<open>host:port\<close>, with no other colon, keeps its host. The port 80 becomes
  443, and a port that does not begin with 80 stays; a port that only begins with 80 gets its first
  two digits replaced by 443, so that 8080 becomes 44380.
\<close>

theorem endpoint_port_replaced:
  assumes "CHR '':'' \<notin> set host" and "CHR '':'' \<notin> set port"
  shows "ReplaceServiceEndpointPort (host @ '':'' @ port) =
           (if take 2 port = ''80'' then host @ '':443'' @ drop 2 port else host @ '':'' @ port) \<and>
         ReplaceServiceEndpointPort host = host"
proof -
  have "str_find '':80'' (host @ '':'' @ port) = (if take 2 port = ''80'' then Some (length host) else None)"
    using assms by (simp add: str_find_skip str_find_none numeral_2_eq_2)
  moreover have "str_find '':80'' host = None" using assms(1) by (rule str_find_none)
  ultimately show ?thesis
    by (simp add: ReplaceServiceEndpointPort_def str_replace_def Let_def numeral_3_eq_3 numeral_2_eq_2)
qed

theorem endpoint_port_replaced_witness:
  "ReplaceServiceEndpointPort ''10.0.0.1:80'' = ''10.0.0.1:443'' \<and>
   ReplaceServiceEndpointPort ''10.0.0.1:8080'' = ''10.0.0.1:44380''"
  using endpoint_port_replaced [of "''10.0.0.1''" "''80''"] endpoint_port_replaced [of "''10.0.0.1''" "''8080''"]
  by simp

section \<open>Errors\<close>

text \<open>The first failing step decides; every failure of a service is \<open>Unknown\<close>.\<close>

definition operation_done :: "google_service \<Rightarrow> string \<Rightarrow> string \<Rightarrow> grpc_status \<times> operation \<Rightarrow> operation option" where
  "operation_done G service parent r =
     (if grpc_ok (fst r)
      then (case fst (WaitOperation G (op_name (snd r)) service parent) of Inr op \<Rightarrow> Some op | Inl _ \<Rightarrow> None)
      else None)"

lemma Unknown_code [simp]: "status_code_of (UnknownError m) = kUnknown"
  by (simp_all add: UnknownError_def mk_Status_def status_code_of_def status_ok_def)

lemma eb_waits_take: "k \<le> n \<Longrightarrow> eb_waits k eb = take k (eb_waits n eb)"
proof (induction k arbitrary: n eb)
  case 0
  then show ?case by simp
next
  case (Suc k)
  then obtain m where "n = Suc m" by (cases n) auto
  with Suc show ?case by (simp split: prod.split)
qed

lemma WaitOperation_waits: "\<exists>k. snd (WaitOperation G name service parent) = take k operation_waits"
proof -
  let ?f = "find (\<lambda>k. \<not> operation_pending (gs_get_operation G k (parent_context parent) name)) [0..<16]"
  have take: "eb_waits k operation_backoff = take k operation_waits" if "k \<le> 15" for k
    using eb_waits_take [OF that, of operation_backoff] by (simp add: operation_backoff_waits)
  have "k \<le> 15" if "?f = Some k" for k using that by (auto simp: find_Some_iff)
  then have "snd (poll_operation G name parent 0 operation_backoff []) =
      (case ?f of Some k \<Rightarrow> take k operation_waits | None \<Rightarrow> take 15 operation_waits)"
    using poll_operation_find [of 0 G name parent operation_backoff "[]"] take
    by (auto split: option.split)
  then have "\<exists>k. snd (poll_operation G name parent 0 operation_backoff []) = take k operation_waits"
    by (cases ?f) auto
  then show ?thesis by (auto simp: WaitOperation_def intro: exI [of _ 0])
qed

text \<open>
  C26. The calls that change something in the managed service. A stream or a cluster is created
  exactly when the service accepts the call, its operation is done without an error in time and
  the response unpacks; a stream or a cluster is deleted exactly when the operation is done. Every
  other case is an error with the code \<open>Unknown\<close>, also an operation that is not done in time. A call
  never sleeps beyond the 1206 seconds of the schedule.
\<close>

theorem managed_changes_succeed_iff:
  "let cs = gs_create_stream G (parent_context (mm_parent mm)) (mm_parent mm) (sr_name stream);
       ds = gs_delete_stream G (parent_context (mm_parent mm)) (mm_parent mm @ ''/streams/'' @ name);
       cc = gs_create_cluster G (parent_context (km_parent km)) (km_parent km) (cl_name cluster);
       dc = gs_delete_cluster G (parent_context (km_parent km)) (km_parent km @ ''/clusters/'' @ name)
   in (case operation_done G (mm_target_address mm) (mm_parent mm) cs of
            None \<Rightarrow> (\<exists>m. fst (managed_CreateStream G mm stream) = Inl (UnknownError m))
          | Some op \<Rightarrow> (case gs_unpack_stream G (op_response op) of
              None \<Rightarrow> (\<exists>m. fst (managed_CreateStream G mm stream) = Inl (UnknownError m))
            | Some n \<Rightarrow> fst (managed_CreateStream G mm stream) = Inr (named_stream n))) \<and>
         (case operation_done G (mm_target_address mm) (mm_parent mm) ds of
            None \<Rightarrow> (\<exists>m. fst (managed_DeleteStream G mm name) = UnknownError m)
          | Some op \<Rightarrow> fst (managed_DeleteStream G mm name) = OkStatus) \<and>
         (case operation_done G (km_target_address km) (km_parent km) cc of
            None \<Rightarrow> (\<exists>m. fst (km_CreateCluster G km cluster) = Inl (UnknownError m))
          | Some op \<Rightarrow> (case gs_unpack_cluster G (op_response op) of
              None \<Rightarrow> (\<exists>m. fst (km_CreateCluster G km cluster) = Inl (UnknownError m))
            | Some c \<Rightarrow> fst (km_CreateCluster G km cluster) = Inr cluster)) \<and>
         (case operation_done G (km_target_address km) (km_parent km) dc of
            None \<Rightarrow> (\<exists>m. fst (km_DeleteCluster G km name) = UnknownError m)
          | Some op \<Rightarrow> fst (km_DeleteCluster G km name) = OkStatus) \<and>
         (\<exists>k. snd (managed_CreateStream G mm stream) = take k operation_waits) \<and>
         (\<exists>k. snd (managed_DeleteStream G mm name) = take k operation_waits) \<and>
         (\<exists>k. snd (km_CreateCluster G km cluster) = take k operation_waits) \<and>
         (\<exists>k. snd (km_DeleteCluster G km name) = take k operation_waits)"
  unfolding Let_def
proof (intro conjI)
  have none: "\<exists>k. [] = take k operation_waits" by (rule exI [of _ 0]) simp
  show "\<exists>k. snd (managed_CreateStream G mm stream) = take k operation_waits"
    using none WaitOperation_waits
    by (auto simp: managed_CreateStream_def split: prod.split sum.split option.split) (metis snd_conv)+
  show "\<exists>k. snd (managed_DeleteStream G mm name) = take k operation_waits"
    using none WaitOperation_waits
    by (auto simp: managed_DeleteStream_def split: prod.split sum.split) (metis snd_conv)+
  show "\<exists>k. snd (km_CreateCluster G km cluster) = take k operation_waits"
    using none WaitOperation_waits
    by (auto simp: km_CreateCluster_def split: prod.split sum.split option.split) (metis snd_conv)+
  show "\<exists>k. snd (km_DeleteCluster G km name) = take k operation_waits"
    using none WaitOperation_waits
    by (auto simp: km_DeleteCluster_def split: prod.split sum.split) (metis snd_conv)+
qed (auto simp: operation_done_def managed_CreateStream_def managed_DeleteStream_def
      km_CreateCluster_def km_DeleteCluster_def split: prod.split sum.split option.split)

text \<open>A created cluster comes back without the endpoint and the certificate of the service.\<close>

lemma created_cluster_is_argument:
  "fst (km_CreateCluster slow_service \<lparr>km_target_address = ''host'', km_parent = ''p''\<rparr>
     \<lparr>cl_name = ''c'', cl_service_endpoint = [], cl_certificate = []\<rparr>) =
     Inr \<lparr>cl_name = ''c'', cl_service_endpoint = [], cl_certificate = []\<rparr>"
proof -
  have "fst (WaitOperation slow_service ''op'' ''host'' ''p'') =
      Inr \<lparr>op_name = ''op'', op_error = None, op_done = True, op_response = empty_any\<rparr>"
    by (simp add: WaitOperation_def poll_operation_step slow_service_def operation_pending_def
        operation_result_def grpc_ok_def kMaxTrials_def Let_def)
  then show ?thesis
    by (cases "WaitOperation slow_service ''op'' ''host'' ''p''")
       (simp add: km_CreateCluster_def slow_service_def grpc_ok_def Let_def)
qed

end
