(* ===== verification/Packet_Sender.thy ===== *)
theory Packet_Sender
  imports Management_Client
begin

text \<open>
  \<open>trace/instrumentation.cc\<close>, \<open>base/packet_sender.h\<close>, \<open>packet_sender.cc\<close> and
  \<open>base/wrappers/senders.h\<close>, \<open>senders.cc\<close>: sending packets over one streaming call or one call per
  packet, and the trace context written into the header of every packet sent.

  The server is the record \<open>send_server\<close>; a \<open>ClientWriter\<close> is the list of the calls made on it.
  OpenCensus is the function \<open>start_span\<close>: the trace parent of the \<open>n\<close>-th start_span for the probability of a
  sampler. A finite \<open>double\<close> is a rational; the rounding of the product with the scale is left out.
\<close>

section \<open>Tracing\<close>

definition kProbabilityScaleMultiplier :: rat where
  "kProbabilityScaleMultiplier = 10000"

text \<open>The samplers made so far, by scaled probability, and the number of spans started.\<close>

record trace_state =
  ts_samplers :: "int \<Rightarrow> rat option"
  ts_spans :: nat

definition cast_to_int :: "rat \<Rightarrow> int" where
  "cast_to_int x = (if x < 0 then - \<lfloor>- x\<rfloor> else \<lfloor>x\<rfloor>)"

definition GetProbabilitySampler :: "rat \<Rightarrow> trace_state \<Rightarrow> rat \<times> trace_state" where
  "GetProbabilitySampler probability t =
     (let scaled_probability = cast_to_int (probability * kProbabilityScaleMultiplier) in
      case ts_samplers t scaled_probability of
        Some s \<Rightarrow> (s, t)
      | None \<Rightarrow> (probability, t\<lparr>ts_samplers := (ts_samplers t)(scaled_probability \<mapsto> probability)\<rparr>))"

definition set_trace_context :: "string \<Rightarrow> packet_header \<Rightarrow> packet_header" where
  "set_trace_context c h = h\<lparr>h_trace_context := c\<rparr>"

definition Instrument ::
    "(rat \<Rightarrow> nat \<Rightarrow> string) \<Rightarrow> packet_header option \<Rightarrow> rat \<Rightarrow> trace_state \<Rightarrow> packet_header option \<times> trace_state" where
  "Instrument start_span packet_header probability t =
     (if probability < 0 \<or> 1 < probability then (packet_header, t)
      else case packet_header of
        None \<Rightarrow> (None, t)
      | Some h \<Rightarrow>
          (case GetProbabilitySampler probability t of (sampler, t') \<Rightarrow>
             (Some (set_trace_context (start_span sampler (ts_spans t')) h), t'\<lparr>ts_spans := ts_spans t' + 1\<rparr>)))"

section \<open>The server and the writer\<close>

record send_server =
  sv_stub :: "grpc_channel \<Rightarrow> bool"
  sv_send_packets :: "client_context \<Rightarrow> bool"
  sv_write :: "nat \<Rightarrow> packet \<Rightarrow> bool"
  sv_writes_done :: bool
  sv_finish :: grpc_status
  sv_send_one_packet :: "nat \<Rightarrow> client_context \<Rightarrow> packet \<Rightarrow> grpc_status \<times> bool"

datatype writer_call = CallWrite packet bool | CallWritesDone bool | CallFinish grpc_status

text \<open>The packets that the streaming call took.\<close>

fun written :: "writer_call list \<Rightarrow> packet list" where
  "written [] = []"
| "written (CallWrite p True # cs) = p # written cs"
| "written (c # cs) = written cs"

section \<open>The sender\<close>

record sender_options =
  pso_connection_options :: connection_options
  pso_stream_name :: string
  pso_enable_unary_rpc :: bool
  pso_trace_probability :: rat

definition default_sender_options :: sender_options where
  "default_sender_options = \<lparr>pso_connection_options = default_connection_options, pso_stream_name = [],
     pso_enable_unary_rpc = False, pso_trace_probability = 0\<rparr>"

text \<open>
  \<open>ps_writer\<close>: the calls on the writer, \<open>None\<close> for the null pointer. \<open>ps_unary\<close> collects the packets of the
  one-packet calls with what the server said.
\<close>

record packet_sender =
  ps_options :: sender_options
  ps_stream_channel :: "stream_channel option"
  ps_stub :: bool
  ps_ctx :: "client_context option"
  ps_writer :: "writer_call list option"
  ps_unary :: "(packet \<times> grpc_status \<times> bool) list"

definition PacketSender :: "sender_options \<Rightarrow> packet_sender" where
  "PacketSender opts = \<lparr>ps_options = opts, ps_stream_channel = None, ps_stub = False, ps_ctx = None,
     ps_writer = None, ps_unary = []\<rparr>"

definition PacketSender_Initialize ::
    "rpc_env \<Rightarrow> send_server \<Rightarrow> packet_sender \<Rightarrow> (status \<times> packet_sender) outcome" where
  "PacketSender_Initialize E S s =
     (case StreamChannel_Create E \<lparr>sc_connection_options = pso_connection_options (ps_options s),
                                   sc_stream_name = pso_stream_name (ps_options s)\<rparr> of
        Inl st \<Rightarrow> Returns (UnknownError ''Failed to create a StreamChannel'', s)
      | Inr sc \<Rightarrow>
          (let s1 = s\<lparr>ps_stream_channel := Some sc, ps_stub := sv_stub S (sc_grpc_channel sc)\<rparr> in
           if \<not> ps_stub s1 then Returns (UnknownError ''Failed to create a gRPC stub'', s1)
           else if pso_enable_unary_rpc (ps_options s) then Returns (OkStatus, s1)
           else outcome_bind (MakeClientContext E sc) (\<lambda>ctx_status_or.
             case ctx_status_or of
               Inl st \<Rightarrow> Returns (InternalError ''Failed to create a grpc client context'', s1)
             | Inr ctx \<Rightarrow>
                 (let s2 = s1\<lparr>ps_ctx := Some ctx\<rparr> in
                  if \<not> sv_send_packets S ctx
                  then Returns (UnknownError ''Failed to create a ClientWriter for streaming RPC'', s2)
                  else Returns (OkStatus, s2\<lparr>ps_writer := Some []\<rparr>)))))"

definition PacketSender_Create ::
    "rpc_env \<Rightarrow> send_server \<Rightarrow> sender_options \<Rightarrow> packet_sender result outcome" where
  "PacketSender_Create E S opts =
     outcome_bind (PacketSender_Initialize E S (PacketSender opts)) (\<lambda>(st, s).
       Returns (if \<not> status_ok st then Inl st else Inr s))"

definition UnarySend ::
    "rpc_env \<Rightarrow> send_server \<Rightarrow> packet \<Rightarrow> packet_sender \<Rightarrow> (status \<times> packet_sender) outcome" where
  "UnarySend E S p s = (case ps_stream_channel s of
      None \<Rightarrow> Fatal ''null pointer: stream_channel_''
    | Some sc \<Rightarrow> outcome_bind (MakeClientContext E sc) (\<lambda>ctx_status_or.
        case ctx_status_or of
          Inl st \<Rightarrow> Returns (InternalError ''Failed to create a grpc client context'', s)
        | Inr ctx \<Rightarrow>
            if \<not> ps_stub s then Fatal ''null pointer: stub_''
            else (case sv_send_one_packet S (length (ps_unary s)) ctx p of (g, accepted) \<Rightarrow>
              (let s1 = s\<lparr>ps_ctx := Some ctx, ps_unary := ps_unary s @ [(p, g, accepted)]\<rparr> in
               if \<not> grpc_ok g then Returns (UnknownError ''Encountered error calling RPC SendOnePacket'', s1)
               else Returns (OkStatus, s1)))))"

definition StreamingSend :: "send_server \<Rightarrow> packet \<Rightarrow> packet_sender \<Rightarrow> (status \<times> packet_sender) outcome" where
  "StreamingSend S p s = (case ps_writer s of
      None \<Rightarrow> Fatal ''null pointer: streaming_writer_''
    | Some calls \<Rightarrow>
        (let ok = sv_write S (length calls) p; s1 = s\<lparr>ps_writer := Some (calls @ [CallWrite p ok])\<rparr> in
         if \<not> ok then Returns (UnknownError ''Failed to Write a packet into the RPC stream'', s1)
         else Returns (OkStatus, s1)))"

text \<open>\<open>Send\<close> writes the trace context into the packet of the caller, although that is \<open>const\<close>.\<close>

definition Send ::
    "(rat \<Rightarrow> nat \<Rightarrow> string) \<Rightarrow> rpc_env \<Rightarrow> send_server \<Rightarrow> packet \<Rightarrow> trace_state \<Rightarrow> packet_sender \<Rightarrow>
     (status \<times> packet \<times> trace_state \<times> packet_sender) outcome" where
  "Send start_span E S p t s =
     (case Instrument start_span (Some (p_header p)) (pso_trace_probability (ps_options s)) t of (h, t') \<Rightarrow>
        let p' = (case h of None \<Rightarrow> p | Some h' \<Rightarrow> p\<lparr>p_header := h'\<rparr>) in
        outcome_bind (if ps_writer s = None then UnarySend E S p' s else StreamingSend S p' s)
          (\<lambda>(st, s'). Returns (st, p', t', s')))"

definition PacketSender_destroy :: "send_server \<Rightarrow> packet_sender \<Rightarrow> writer_call list" where
  "PacketSender_destroy S s = (case ps_writer s of
      None \<Rightarrow> []
    | Some calls \<Rightarrow> calls @ [CallWritesDone (sv_writes_done S)] @ [CallFinish (sv_finish S)])"

section \<open>The wrapper\<close>

record wrapper_sender_options =
  wso_connection_options :: connection_options
  wso_stream_name :: string
  wso_trace_probability :: rat

text \<open>The status and what \<open>sender\<close> points to, unchanged on failure.\<close>

definition MakePacketSender ::
    "rpc_env \<Rightarrow> send_server \<Rightarrow> wrapper_sender_options \<Rightarrow> packet_sender option \<Rightarrow>
     (status \<times> packet_sender option) outcome" where
  "MakePacketSender E S opts sender =
     outcome_bind (PacketSender_Create E S (default_sender_options
         \<lparr>pso_connection_options := wso_connection_options opts, pso_stream_name := wso_stream_name opts,
          pso_trace_probability := wso_trace_probability opts\<rparr>)) (\<lambda>r.
       case r of
         Inl st \<Rightarrow> Returns (UnknownError ''Failed to create a PacketSender'', sender)
       | Inr s \<Rightarrow> Returns (OkStatus, Some s))"

section \<open>Lemmas\<close>

definition same_but_trace :: "packet \<Rightarrow> packet \<Rightarrow> bool" where
  "same_but_trace p q \<longleftrightarrow> (\<exists>c. q = p\<lparr>p_header := set_trace_context c (p_header p)\<rparr>)"

lemma same_but_trace_refl [simp]: "same_but_trace p p"
  by (simp add: same_but_trace_def set_trace_context_def exI [of _ "h_trace_context (p_header p)"])

text \<open>The packet that \<open>Send\<close> gives to gRPC.\<close>

definition traced :: "(rat \<Rightarrow> nat \<Rightarrow> string) \<Rightarrow> rat \<Rightarrow> packet \<Rightarrow> trace_state \<Rightarrow> packet \<times> trace_state" where
  "traced start_span probability p t = (case Instrument start_span (Some (p_header p)) probability t of
      (h, t') \<Rightarrow> (case h of None \<Rightarrow> p | Some h' \<Rightarrow> p\<lparr>p_header := h'\<rparr>, t'))"

lemma traced_same: "same_but_trace p (fst (traced start_span probability p t))"
  by (auto simp: traced_def Instrument_def same_but_trace_def set_trace_context_def
      split: prod.split option.split intro: exI [of _ "h_trace_context (p_header p)"])

lemma Send_eq:
  "Send start_span E S p t s = (case traced start_span (pso_trace_probability (ps_options s)) p t of (p', t') \<Rightarrow>
     outcome_bind (if ps_writer s = None then UnarySend E S p' s else StreamingSend S p' s)
       (\<lambda>(st, s'). Returns (st, p', t', s')))"
  by (simp add: Send_def traced_def Let_def split: prod.split)

text \<open>
  The sampler for a probability is the one made first for its ten-thousandth: a probability below
  1 / 10000 gets the sampler that never samples once a packet was sent with the default of 0.
\<close>

lemma sampler_of_another_probability:
  assumes "0 < p" and "p < 1 / 10000" and "ts_samplers t = (\<lambda>_. None)"
  shows "fst (GetProbabilitySampler p (snd (GetProbabilitySampler 0 t))) = 0"
proof -
  have "\<lfloor>p * 10000\<rfloor> = 0" using assms by (simp add: floor_eq_iff)
  then show ?thesis using assms
    by (simp add: GetProbabilitySampler_def cast_to_int_def kProbabilityScaleMultiplier_def Let_def)
qed

text \<open>With the default probability of 0, too, the trace context of the packet is replaced.\<close>

lemma trace_context_always_replaced:
  assumes "0 \<le> probability" and "probability \<le> 1"
  shows "\<exists>sampler n. h_trace_context (p_header (fst (traced start_span probability p t))) = start_span sampler n"
  using assms by (auto simp: traced_def Instrument_def set_trace_context_def split: prod.split)

fun send_all ::
    "(rat \<Rightarrow> nat \<Rightarrow> string) \<Rightarrow> rpc_env \<Rightarrow> send_server \<Rightarrow> packet list \<Rightarrow> trace_state \<Rightarrow> packet_sender \<Rightarrow>
     (status list \<times> trace_state \<times> packet_sender) outcome" where
  "send_all start_span E S [] t s = Returns ([], t, s)"
| "send_all start_span E S (p # ps) t s = (case Send start_span E S p t s of
      Fatal m \<Rightarrow> Fatal m
    | Returns (st, p', t', s') \<Rightarrow>
        (case send_all start_span E S ps t' s' of
           Fatal m \<Rightarrow> Fatal m
         | Returns (sts, t'', s'') \<Rightarrow> Returns (st # sts, t'', s'')))"

definition sent_ok :: "packet list \<Rightarrow> status list \<Rightarrow> packet list" where
  "sent_ok ps sts = map fst (filter (\<lambda>x. status_ok (snd x)) (zip ps sts))"

definition only_writes :: "writer_call list \<Rightarrow> bool" where
  "only_writes calls \<longleftrightarrow> list_all (\<lambda>c. case c of CallWrite p b \<Rightarrow> True | _ \<Rightarrow> False) calls"

lemma written_append: "written (xs @ ys) = written xs @ written ys"
  by (induction xs rule: written.induct) auto

lemma StreamingSend_writer:
  assumes "ps_writer s = Some calls"
  shows "\<exists>st ok. StreamingSend S p s = Returns (st, s\<lparr>ps_writer := Some (calls @ [CallWrite p ok])\<rparr>) \<and>
     status_ok st = ok"
  using assms by (auto simp: StreamingSend_def Let_def UnknownError_def mk_Status_def status_ok_def OkStatus_def)

lemma send_all_streaming:
  assumes "ps_writer s = Some calls" and "only_writes calls"
  shows "\<exists>sts t' s' calls'. send_all start_span E S ps t s = Returns (sts, t', s') \<and> length sts = length ps \<and>
     ps_writer s' = Some calls' \<and> only_writes calls' \<and>
     (\<exists>new. written calls' = written calls @ new \<and> list_all2 same_but_trace (sent_ok ps sts) new)"
  using assms
proof (induction ps arbitrary: t s calls)
  case Nil
  then show ?case by (simp add: sent_ok_def)
next
  case (Cons p ps)
  obtain p1 t1 where tr: "traced start_span (pso_trace_probability (ps_options s)) p t = (p1, t1)"
    by (cases "traced start_span (pso_trace_probability (ps_options s)) p t")
  have same: "same_but_trace p p1"
    using traced_same [of p start_span "pso_trace_probability (ps_options s)" t] tr by simp
  obtain st ok where st: "StreamingSend S p1 s = Returns (st, s\<lparr>ps_writer := Some (calls @ [CallWrite p1 ok])\<rparr>)"
      "status_ok st = ok"
    using StreamingSend_writer [OF Cons.prems(1)] by blast
  let ?s = "s\<lparr>ps_writer := Some (calls @ [CallWrite p1 ok])\<rparr>"
  have send: "Send start_span E S p t s = Returns (st, p1, t1, ?s)"
    using st Cons.prems(1) by (simp add: Send_eq tr del: outcome_bind_Returns_iff)
  have "only_writes (calls @ [CallWrite p1 ok])" using Cons.prems(2) by (simp add: only_writes_def)
  from Cons.IH [OF _ this, of ?s t1] obtain sts t' s' calls' new where ih:
      "send_all start_span E S ps t1 ?s = Returns (sts, t', s')" "length sts = length ps"
      "ps_writer s' = Some calls'" "only_writes calls'"
      "written calls' = written (calls @ [CallWrite p1 ok]) @ new" "list_all2 same_but_trace (sent_ok ps sts) new"
    by auto
  have "written calls' = written calls @ (if ok then p1 # new else new)"
    using ih(5) by (cases ok) (simp_all add: written_append)
  moreover have "list_all2 same_but_trace (sent_ok (p # ps) (st # sts)) (if ok then p1 # new else new)"
    using ih(6) same st(2) by (simp add: sent_ok_def)
  ultimately show ?case using ih(1-4) send by auto
qed

lemma Create_streaming:
  assumes "PacketSender_Create E S opts = Returns (Inr s)" and "\<not> pso_enable_unary_rpc opts"
  shows "ps_writer s = Some [] \<and> ps_options s = opts"
proof -
  obtain st where ini: "PacketSender_Initialize E S (PacketSender opts) = Returns (st, s)" "status_ok st"
    using assms(1) by (auto simp: PacketSender_Create_def split: if_splits)
  obtain sc where sc: "StreamChannel_Create E \<lparr>sc_connection_options = pso_connection_options opts,
        sc_stream_name = pso_stream_name opts\<rparr> = Inr sc" "sv_stub S (sc_grpc_channel sc)"
    using ini by (auto simp: PacketSender_Initialize_def PacketSender_def Let_def UnknownError_def
        mk_Status_def status_ok_def split: sum.splits if_splits)
  show ?thesis
  proof (cases "MakeClientContext E sc")
    case (Fatal m)
    with ini sc assms(2) show ?thesis
      by (simp add: PacketSender_Initialize_def PacketSender_def Let_def del: outcome_bind_Returns_iff)
  next
    case (Returns r)
    with ini sc assms(2) show ?thesis
      by (auto simp: PacketSender_Initialize_def PacketSender_def Let_def UnknownError_def InternalError_def
          mk_Status_def status_ok_def simp del: outcome_bind_Returns_iff split: sum.splits if_splits)
  qed
qed

text \<open>
  C33. A streaming sender hands over exactly the packets whose \<open>Send\<close> was OK, in order and unchanged but
  for the trace context, and never crashes; its destructor then ends the call with one
  \<open>WritesDone\<close> followed by one \<open>Finish\<close>.
\<close>

theorem sender_streams_in_order:
  assumes "PacketSender_Create E S opts = Returns (Inr s)" and "\<not> pso_enable_unary_rpc opts"
  shows "\<exists>sts t' s' calls. send_all start_span E S ps t s = Returns (sts, t', s') \<and> length sts = length ps \<and>
    list_all2 same_but_trace (sent_ok ps sts) (written calls) \<and> only_writes calls \<and>
    PacketSender_destroy S s' = calls @ [CallWritesDone (sv_writes_done S), CallFinish (sv_finish S)]"
  using send_all_streaming [of s "[]" start_span E S ps t] Create_streaming [OF assms]
  by (auto simp: only_writes_def PacketSender_destroy_def)

definition flaky_server :: send_server where
  "flaky_server = \<lparr>sv_stub = (\<lambda>_. True), sv_send_packets = (\<lambda>_. True), sv_write = (\<lambda>n _. n \<noteq> 1),
     sv_writes_done = True, sv_finish = \<lparr>g_code = GRPC_OK, g_message = []\<rparr>,
     sv_send_one_packet = (\<lambda>_ _ _. (\<lparr>g_code = GRPC_OK, g_message = []\<rparr>, False))\<rparr>"

text \<open>A sender over an insecure channel is made whenever the server takes the call.\<close>

lemma insecure_sender_created:
  assumes "\<And>c. sv_stub S c" and "\<And>c. sv_send_packets S c"
  shows "\<exists>s. PacketSender_Create example_env S
    (default_sender_options\<lparr>pso_connection_options := insecure_options\<rparr>) = Returns (Inr s)"
proof -
  have sc: "StreamChannel_Create example_env \<lparr>sc_connection_options = insecure_options, sc_stream_name = []\<rparr> =
      Inr \<lparr>sc_options = \<lparr>sc_connection_options = insecure_options, sc_stream_name = []\<rparr>,
           sc_grpc_channel = SetCommonChannelArgs (new_channel [] InsecureChannelCredentials)\<rparr>"
    by (simp add: StreamChannel_Create_def CreateGrpcChannel_def CreateInsecureGrpcChannel_def
        CreateCustomChannel_def example_defs Let_def)
  have ctx: "MakeClientContext example_env
      \<lparr>sc_options = \<lparr>sc_connection_options = insecure_options, sc_stream_name = []\<rparr>, sc_grpc_channel = c\<rparr> =
      Returns (Inr new_client_context)" for c
    by (simp add: MakeClientContext_def example_defs Let_def FillGrpcClientContext_def new_client_context_def
        del: outcome_bind_Returns_iff)
  show ?thesis
    by (simp add: PacketSender_Create_def PacketSender_Initialize_def PacketSender_def default_sender_options_def
        sc ctx assms Let_def del: outcome_bind_Returns_iff)
qed

theorem sender_streams_in_order_witness:
  "\<exists>s sts t' s'. PacketSender_Create example_env flaky_server
       (default_sender_options\<lparr>pso_connection_options := insecure_options\<rparr>) = Returns (Inr s) \<and>
     send_all (\<lambda>_ _. ''trace'') example_env flaky_server [text_packet ''a'', text_packet ''b'']
       \<lparr>ts_samplers = (\<lambda>_. None), ts_spans = 0\<rparr> s =
       Returns (sts, t', s') \<and> length sts = 2"
proof -
  let ?o = "default_sender_options\<lparr>pso_connection_options := insecure_options\<rparr>"
  obtain s where s: "PacketSender_Create example_env flaky_server ?o = Returns (Inr s)"
    using insecure_sender_created [of flaky_server] by (auto simp: flaky_server_def)
  have "\<not> pso_enable_unary_rpc ?o" by (simp add: default_sender_options_def)
  from sender_streams_in_order [OF s this, of "\<lambda>_ _. ''trace''" "[text_packet ''a'', text_packet ''b'']"
      "\<lparr>ts_samplers = (\<lambda>_. None), ts_spans = 0\<rparr>"] s
  show ?thesis by auto
qed

end
