(* ===== verification/C_Api.thy ===== *)
theory C_Api
  imports Receiver_Wrappers Packet_Sender Gst_Type_Utils
begin

text \<open>
  The C interface: \<open>c/c_api.cc\<close>, \<open>ais_packet.cc\<close>, \<open>ais_packet_as.cc\<close>, \<open>ais_gstreamer_buffer.cc\<close>,
  \<open>ais_logging.cc\<close> and \<open>gstreamer/ais_type_utils.cc\<close> (\<open>ais_status.cc\<close> is in \<open>Status_Core\<close>).

  A C string is \<open>None\<close> for \<open>NULL\<close> and otherwise the bytes before the terminating zero; what
  \<open>c_str\<close> of a \<open>std::string\<close> shows to C is \<open>c_str\<close>. The opaque structs hold one C++ object each, and
  a function that returns a pointer to a new struct returns an option. The status a function
  writes through its argument is returned. Memory that a caller hands over by address and count
  is the list of the bytes readable there.
\<close>

section \<open>C strings and logging\<close>

type_synonym cstring = "string option"

text \<open>A \<open>std::string\<close> made of \<open>NULL\<close> is undefined behaviour.\<close>

definition string_of_cstr :: "cstring \<Rightarrow> string outcome" where
  "string_of_cstr s = (case s of None \<Rightarrow> Fatal ''std::string of NULL'' | Some x \<Rightarrow> Returns x)"

definition ToString :: "cstring \<Rightarrow> string" where
  "ToString s = (case s of None \<Rightarrow> [] | Some x \<Rightarrow> x)"

datatype ais_log_level = AIS_INFO | AIS_WARNING | AIS_ERROR | AIS_FATAL | AIS_LEVEL_OTHER int

type_synonym log_lines = "(ais_log_level \<times> string) list"

definition AIS_Log :: "ais_log_level \<Rightarrow> string \<Rightarrow> log_lines \<Rightarrow> log_lines outcome" where
  "AIS_Log level message out = (case level of
      AIS_LEVEL_OTHER _ \<Rightarrow> Returns out
    | AIS_FATAL \<Rightarrow> Fatal message
    | _ \<Rightarrow> Returns (out @ [(level, message)]))"

section \<open>Connection options\<close>

type_synonym uchar = "8 word"

definition AIS_NewConnectionOptions :: connection_options where
  "AIS_NewConnectionOptions = default_connection_options"

definition AIS_SetTargetAddress :: "cstring \<Rightarrow> connection_options \<Rightarrow> connection_options" where
  "AIS_SetTargetAddress a o' = o'\<lparr>co_target_address := ToString a\<rparr>"

definition AIS_SetAuthenticateWithGoogle :: "uchar \<Rightarrow> connection_options \<Rightarrow> connection_options" where
  "AIS_SetAuthenticateWithGoogle b o' = o'\<lparr>co_authenticate_with_google := b \<noteq> 0\<rparr>"

definition AIS_SetUseInsecureChannel :: "uchar \<Rightarrow> connection_options \<Rightarrow> connection_options" where
  "AIS_SetUseInsecureChannel b o' =
     o'\<lparr>co_ssl_options := (co_ssl_options o')\<lparr>so_use_insecure_channel := b \<noteq> 0\<rparr>\<rparr>"

definition AIS_SetSslDomainName :: "cstring \<Rightarrow> connection_options \<Rightarrow> connection_options" where
  "AIS_SetSslDomainName d o' =
     o'\<lparr>co_ssl_options := (co_ssl_options o')\<lparr>so_ssl_domain_name := ToString d\<rparr>\<rparr>"

definition AIS_SetSslRootCertPath :: "cstring \<Rightarrow> connection_options \<Rightarrow> connection_options outcome" where
  "AIS_SetSslRootCertPath path o' = outcome_bind (string_of_cstr path) (\<lambda>p.
     Returns (o'\<lparr>co_ssl_options := (co_ssl_options o')\<lparr>so_ssl_root_cert_path := p\<rparr>\<rparr>))"

section \<open>Senders\<close>

record ais_sender =
  as_packet_sender :: "packet_sender option"

definition AIS_NewSender ::
    "rpc_env \<Rightarrow> send_server \<Rightarrow> connection_options \<Rightarrow> cstring \<Rightarrow> rat \<Rightarrow> (ais_sender option \<times> status) outcome" where
  "AIS_NewSender E S options stream_name trace_probability =
     outcome_bind (MakePacketSender E S \<lparr>wso_connection_options = options,
         wso_stream_name = ToString stream_name, wso_trace_probability = trace_probability\<rparr> None)
       (\<lambda>(status, sender).
         if \<not> status_ok status then Returns (None, status)
         else Returns (Some \<lparr>as_packet_sender = sender\<rparr>, OkStatus))"

definition AIS_DeleteSender :: "send_server \<Rightarrow> ais_sender option \<Rightarrow> writer_call list" where
  "AIS_DeleteSender S ais_sender = (case ais_sender of
      None \<Rightarrow> []
    | Some a \<Rightarrow> (case as_packet_sender a of None \<Rightarrow> [] | Some s \<Rightarrow> PacketSender_destroy S s))"

definition AIS_SendPacket ::
    "(rat \<Rightarrow> nat \<Rightarrow> string) \<Rightarrow> rpc_env \<Rightarrow> send_server \<Rightarrow> ais_sender option \<Rightarrow> packet option \<Rightarrow> trace_state \<Rightarrow>
     (status \<times> ais_sender \<times> packet \<times> trace_state) outcome" where
  "AIS_SendPacket start_span E S ais_sender ais_packet t = (case (ais_sender, ais_packet) of
      (Some a, Some p) \<Rightarrow> (case as_packet_sender a of
          None \<Rightarrow> Fatal ''null pointer: packet_sender''
        | Some s \<Rightarrow> outcome_bind (Send start_span E S p t s) (\<lambda>(st, p', t', s').
            Returns (st, \<lparr>as_packet_sender = Some s'\<rparr>, p', t')))
    | _ \<Rightarrow> Fatal ''null pointer: ais_sender or ais_packet'')"

section \<open>Receivers\<close>

record ais_receiver =
  ar_receiver_queue :: "receiver_queue option"

definition default_wrapper_options :: wrapper_options where
  "default_wrapper_options = \<lparr>wo_connection_options = default_connection_options,
     wo_offset_options = default_offset_options, wo_stream_name = [], wo_receiver_name = [],
     wo_buffer_capacity = 0, wo_receiver_mode = StreamingReceiveMode\<rparr>"

text \<open>Also the receiver that the thread of the queue works with.\<close>

definition AIS_NewReceiver ::
    "rpc_env \<Rightarrow> stream_server \<Rightarrow> connection_options \<Rightarrow> cstring \<Rightarrow> cstring \<Rightarrow>
     (ais_receiver option \<times> status \<times> packet_receiver option) outcome" where
  "AIS_NewReceiver E S options stream_name receiver_name =
     outcome_bind (MakePacketReceiverQueue E S (default_wrapper_options
         \<lparr>wo_connection_options := options, wo_stream_name := ToString stream_name,
          wo_receiver_name := ToString receiver_name\<rparr>))
       (\<lambda>(status, receiver_queue, worker).
         if \<not> status_ok status then Returns (None, status, worker)
         else Returns (Some \<lparr>ar_receiver_queue = Some receiver_queue\<rparr>, OkStatus, worker))"

text \<open>
  \<open>TryPop\<close> with a timeout: the wake-ups are the queues found with the time left then, which stays
  positive for an infinite timeout.
\<close>

definition time_left :: "duration \<Rightarrow> int \<Rightarrow> int" where
  "time_left timeout left = (case timeout of InfiniteDuration \<Rightarrow> 1 | _ \<Rightarrow> left)"

definition rq_TryPop_timed ::
    "(packet pc_queue \<times> int) list \<Rightarrow> packet \<Rightarrow> duration \<Rightarrow> receiver_queue \<Rightarrow>
     (bool \<times> packet \<times> receiver_queue) outcome option" where
  "rq_TryPop_timed wakes elem timeout rq = (case rq_pcqueue rq of
      None \<Rightarrow> Some (Fatal ''null pointer: pcqueue_'')
    | Some q \<Rightarrow> map_option (\<lambda>r. outcome_bind r (\<lambda>(ok, x, q'). Returns (ok, x, \<lparr>rq_pcqueue = Some q'\<rparr>)))
        (TryPop_timed (map (\<lambda>(q', left). (q', time_left timeout left)) wakes) elem
           (case timeout of InfinitePastDuration \<Rightarrow> 0 | Ticks n \<Rightarrow> n | InfiniteDuration \<Rightarrow> 1) q))"

definition receive_timeout :: "int32 \<Rightarrow> duration" where
  "receive_timeout timeout_in_sec =
     (if sint timeout_in_sec < 0 then InfiniteDuration else Seconds (sint timeout_in_sec))"

text \<open>\<open>None\<close>: the call still waits after the wake-ups.\<close>

definition AIS_ReceivePacket ::
    "(packet pc_queue \<times> int) list \<Rightarrow> ais_receiver option \<Rightarrow> packet option \<Rightarrow> int32 \<Rightarrow>
     (status \<times> packet \<times> ais_receiver) outcome option" where
  "AIS_ReceivePacket wakes ais_receiver ais_packet timeout_in_sec = (case (ais_receiver, ais_packet) of
      (Some r, Some elem) \<Rightarrow> (case ar_receiver_queue r of
          None \<Rightarrow> Some (Fatal ''null pointer: receiver_queue'')
        | Some rq \<Rightarrow> map_option (\<lambda>res. outcome_bind res (\<lambda>(ok, p, rq').
            Returns (if \<not> ok
                     then DeadlineExceededError
                            (''The server did not deliver a packet within the given timeout ('' @
                             show_int (sint timeout_in_sec) @ '' seconds)'')
                     else OkStatus, p, \<lparr>ar_receiver_queue = Some rq'\<rparr>)))
            (rq_TryPop_timed wakes elem (receive_timeout timeout_in_sec) rq))
    | _ \<Rightarrow> Some (Fatal ''null pointer: ais_receiver or ais_packet''))"

section \<open>Gstreamer buffers\<close>

definition AIS_NewGstreamerBuffer :: gstreamer_buffer where
  "AIS_NewGstreamerBuffer = empty_gst_buffer"

definition AIS_GstreamerBufferSetCapsString ::
    "cstring \<Rightarrow> gstreamer_buffer \<Rightarrow> gstreamer_buffer outcome" where
  "AIS_GstreamerBufferSetCapsString caps_cstr b =
     outcome_bind (string_of_cstr caps_cstr) (\<lambda>s. Returns (set_caps_string s b))"

definition AIS_GstreamerBufferGetCapsString :: "gstreamer_buffer \<Rightarrow> string" where
  "AIS_GstreamerBufferGetCapsString b = c_str (gb_caps b)"

definition read_memory :: "string \<Rightarrow> nat \<Rightarrow> string outcome" where
  "read_memory src count =
     (if length src < count then Fatal ''read out of bounds'' else Returns (take count src))"

definition AIS_GstreamerBufferAssign ::
    "string \<Rightarrow> size_t \<Rightarrow> gstreamer_buffer \<Rightarrow> gstreamer_buffer outcome" where
  "AIS_GstreamerBufferAssign src count b =
     outcome_bind (read_memory src (unat count)) (\<lambda>s. Returns (gb_assign s b))"

definition AIS_GstreamerBufferSize :: "gstreamer_buffer \<Rightarrow> size_t" where
  "AIS_GstreamerBufferSize b = word_of_nat (length (gb_bytes b))"

definition AIS_GstreamerBufferCopyTo :: "gstreamer_buffer \<Rightarrow> string \<Rightarrow> string outcome" where
  "AIS_GstreamerBufferCopyTo b dst =
     (if length dst < length (gb_bytes b) then Fatal ''write out of bounds''
      else Returns (gb_bytes b @ drop (length (gb_bytes b)) dst))"

section \<open>Packets\<close>

definition AIS_NewPacket :: "packet option \<times> status" where
  "AIS_NewPacket = (Some empty_packet, OkStatus)"

text \<open>What every constructor of a packet does with the \<open>StatusOr\<close> it gets.\<close>

definition new_packet_of :: "packet result \<Rightarrow> packet option \<times> status" where
  "new_packet_of r = (case r of Inl st \<Rightarrow> (None, st) | Inr p \<Rightarrow> (Some p, OkStatus))"

definition AIS_NewEosPacket :: "proto_lib \<Rightarrow> clock \<Rightarrow> cstring \<Rightarrow> (packet option \<times> status) outcome" where
  "AIS_NewEosPacket L now reason =
     outcome_bind (string_of_cstr reason) (\<lambda>r. Returns (new_packet_of (MakeEosPacket L now r)))"

definition AIS_NewStringPacket :: "clock \<Rightarrow> cstring \<Rightarrow> (packet option \<times> status) outcome" where
  "AIS_NewStringPacket now cstr =
     outcome_bind (string_of_cstr cstr) (\<lambda>s. Returns (new_packet_of (MakePacket string_traits now s)))"

definition AIS_NewBytesPacket :: "clock \<Rightarrow> string \<Rightarrow> size_t \<Rightarrow> (packet option \<times> status) outcome" where
  "AIS_NewBytesPacket now src count =
     outcome_bind (read_memory src (unat count)) (\<lambda>s. Returns (new_packet_of (MakePacket string_traits now s)))"

definition AIS_NewGstreamerBufferPacket ::
    "proto_lib \<Rightarrow> clock \<Rightarrow> gstreamer_buffer \<Rightarrow> packet option \<times> status" where
  "AIS_NewGstreamerBufferPacket L now b = new_packet_of (MakePacket (gst_traits L) now b)"

text \<open>
  \<open>reason\<close> is \<open>None\<close> for a null pointer; otherwise the text \<open>strdup\<close> puts behind it is returned,
  which the caller has to free.
\<close>

definition AIS_IsEos :: "proto_lib \<Rightarrow> packet \<Rightarrow> bool \<Rightarrow> (bool \<times> cstring) outcome" where
  "AIS_IsEos L p with_reason =
     (if \<not> with_reason then outcome_bind (IsEos L p) (\<lambda>b. Returns (b, None))
      else outcome_bind (IsEos_reason L p (Some [])) (\<lambda>(b, r).
        Returns (b, map_option c_str r)))"

definition AIS_SetIsKeyFrame :: "uchar \<Rightarrow> packet \<Rightarrow> packet" where
  "AIS_SetIsKeyFrame b p = (if b \<noteq> 0 then SetPacketFlags kIsKeyFrame p else UnsetPacketFlags kIsKeyFrame p)"

definition AIS_SetIsFrameHead :: "uchar \<Rightarrow> packet \<Rightarrow> packet" where
  "AIS_SetIsFrameHead b p = (if b \<noteq> 0 then SetPacketFlags kIsFrameHead p else UnsetPacketFlags kIsFrameHead p)"

record ais_packet_as =
  ap_packet_header :: packet_header
  ap_value :: gstreamer_buffer

definition AIS_PacketAsValue :: "ais_packet_as \<Rightarrow> gstreamer_buffer" where
  "AIS_PacketAsValue a = ap_value a"

definition AIS_NewGstreamerBufferPacketAs ::
    "proto_lib \<Rightarrow> packet \<Rightarrow> (ais_packet_as option \<times> status) outcome" where
  "AIS_NewGstreamerBufferPacketAs L p =
     outcome_bind (PacketAs (gst_traits L) empty_gst_buffer p) (\<lambda>packet_as.
       if \<not> pa_ok packet_as then Returns (None, pa_status packet_as)
       else outcome_bind (pa_ValueOrDie packet_as) (\<lambda>b.
         Returns (Some \<lparr>ap_packet_header = pa_header packet_as, ap_value = b\<rparr>, OkStatus)))"

definition AIS_ToGstreamerBuffer ::
    "proto_lib \<Rightarrow> gst_lib \<Rightarrow> packet \<Rightarrow> (gstreamer_buffer option \<times> status) outcome" where
  "AIS_ToGstreamerBuffer L G p =
     outcome_bind (ToGstreamerBuffer_packet L G p) (\<lambda>r. Returns (case r of
         Inl st \<Rightarrow> (None, st)
       | Inr b \<Rightarrow> (Some b, OkStatus)))"

section \<open>Lemmas\<close>

text \<open>A packet that went through the server may have another header, but the type and descriptor.\<close>

lemma same_content_refl [simp]: "same_content p p"
  by (simp add: same_content_def)

lemma same_content_trans: "same_content p q \<Longrightarrow> same_content q r \<Longrightarrow> same_content p r"
  by (simp add: same_content_def)

lemma same_but_trace_content: "same_but_trace p q \<Longrightarrow> same_content p q"
  by (auto simp: same_but_trace_def same_content_def set_trace_context_def)

lemma same_content_flags [simp]:
  "same_content p (AIS_SetIsKeyFrame b p)" "same_content p (AIS_SetIsFrameHead b p)"
  by (simp_all add: same_content_def AIS_SetIsKeyFrame_def AIS_SetIsFrameHead_def SetPacketFlags_def
      UnsetPacketFlags_def set_flags_def)

lemma flags_set:
  "IsKeyFrame (AIS_SetIsFrameHead h (AIS_SetIsKeyFrame k p)) \<longleftrightarrow> k \<noteq> 0"
  "IsFrameHead (AIS_SetIsFrameHead h (AIS_SetIsKeyFrame k p)) \<longleftrightarrow> h \<noteq> 0"
proof -
  have d: "and kIsFrameHead kIsKeyFrame = 0" "kIsKeyFrame \<noteq> 0" "kIsFrameHead \<noteq> 0"
    by (simp_all add: kIsFrameHead_def kIsKeyFrame_def)
  then show "IsKeyFrame (AIS_SetIsFrameHead h (AIS_SetIsKeyFrame k p)) \<longleftrightarrow> k \<noteq> 0"
    "IsFrameHead (AIS_SetIsFrameHead h (AIS_SetIsKeyFrame k p)) \<longleftrightarrow> h \<noteq> 0"
    by (simp_all add: IsKeyFrame_def IsFrameHead_def AIS_SetIsKeyFrame_def AIS_SetIsFrameHead_def
        IsPacketFlagsSet_def SetPacketFlags_def UnsetPacketFlags_def set_flags_def or_and_absorb unset_and
        disjoint_after_set [OF d(1)] disjoint_after_unset [OF d(1)])
qed

text \<open>A buffer survives the packet that the C interface makes of it.\<close>

lemma unpack_gst_same:
  assumes "same_content p q"
  shows "Unpack_move (gst_traits L) q d = Unpack_move (gst_traits L) p d"
  using assms by (cases d) (simp_all add: same_content_def Unpack_move_def ValidateUnpackArgs_def gst_traits_def
      UnpackPayload_gst_def GetTypeDescriptor_def Let_def split: sum.split)

lemma buffer_packet:
  assumes "proto_laws L" and "gst_wf L b"
  shows "\<exists>p. AIS_NewGstreamerBufferPacket L (Some now) b = (Some p, OkStatus) \<and>
    (\<forall>q G. same_content p q \<longrightarrow> AIS_IsEos L q True = Returns (False, Some []) \<and>
         AIS_ToGstreamerBuffer L G q = Returns (Some b, OkStatus) \<and>
         AIS_NewGstreamerBufferPacketAs L q =
           Returns (Some \<lparr>ap_packet_header = p_header q, ap_value = b\<rparr>, OkStatus))"
proof -
  obtain p where p: "MakePacket_header (gst_traits L) (Some now) b empty_header = Inr p"
    "carries (gst_traits L) empty_gst_buffer b empty_header now p"
    using gst_type.make_packet [OF assms, where d = empty_gst_buffer and now = now and header = empty_header] by auto
  have made: "AIS_NewGstreamerBufferPacket L (Some now) b = (Some p, OkStatus)"
    using p(1) by (simp add: AIS_NewGstreamerBufferPacket_def new_packet_of_def MakePacket_def MakePacket_header_def)
  have ty: "packet_type_of p = PACKET_TYPE_GSTREAMER_BUFFER"
    using p(2) by (simp add: carries_def gst_traits_def)
  have adapts: "PacketAs (gst_traits L) empty_gst_buffer q =
      Returns \<lparr>pa_status = OkStatus, pa_packet = empty_packet\<lparr>p_header := p_header q\<rparr>, pa_value = b\<rparr>"
    if "same_content p q" for q
  proof -
    obtain st v where u: "Unpack_move (gst_traits L) p (Some empty_gst_buffer) = Returns (st, Some v)"
      using gst_type.unpack_move_total by blast
    with p(2) have "status_ok st" "v = b"
      by (auto simp: carries_def PacketAs_def pa_ok_def pa_ValueOrDie_def)
    moreover from this have "st = OkStatus"
      using u by (auto simp: Unpack_move_def Let_def unpack_status_def split: if_splits prod.splits)
    ultimately show ?thesis
      using u unpack_gst_same [OF that, of L "Some empty_gst_buffer"] by (simp add: PacketAs_def)
  qed
  have "AIS_IsEos L q True = Returns (False, Some []) \<and> AIS_ToGstreamerBuffer L G q = Returns (Some b, OkStatus) \<and>
      AIS_NewGstreamerBufferPacketAs L q = Returns (Some \<lparr>ap_packet_header = p_header q, ap_value = b\<rparr>, OkStatus)"
    if s: "same_content p q" for q G
  proof -
    have "GetPacketTypeId q = PACKET_TYPE_GSTREAMER_BUFFER"
      using s ty by (simp add: GetPacketTypeId_def same_content_def)
    then show ?thesis
      by (simp add: AIS_IsEos_def IsEos_reason_def GetControlSignalTypeId_def IsControlSignal_def
          AIS_ToGstreamerBuffer_def ToGstreamerBuffer_packet_def GstreamerBufferPacketToGstreamerBuffer_def
          AIS_NewGstreamerBufferPacketAs_def adapts [OF s] pa_ok_def pa_ValueOrDie_def pa_header_def c_str_def
          del: outcome_bind_Returns_iff)
  qed
  with made show ?thesis by blast
qed

lemma unpack_eos_same:
  assumes "same_content p q"
  shows "Unpack_move (eos_traits L) q d = Unpack_move (eos_traits L) p d"
  using assms by (cases d) (simp_all add: same_content_def Unpack_move_def ValidateUnpackArgs_def eos_traits_def
      UnpackPayload_eos_def ValidateTypeDescriptor_def GetControlSignalTypeId_def IsControlSignal_def
      GetPacketTypeId_def Let_def)

lemma eos_packet:
  assumes "proto_laws L" and "eos_wf L (Eos reason)"
  shows "\<exists>p. AIS_NewEosPacket L (Some now) (Some reason) = Returns (Some p, OkStatus) \<and>
    (\<forall>q. same_content p q \<longrightarrow> AIS_IsEos L q True = Returns (True, Some (c_str reason)))"
proof -
  obtain p where p: "MakeEosPacket L (Some now) reason = Inr p"
      "IsEos_reason L p (Some []) = Returns (True, Some reason)"
    using make_eos_packet [OF assms, of now "[]"] by blast
  have "IsEos_reason L q (Some []) = Returns (True, Some reason)" if "same_content p q" for q
  proof -
    have "GetControlSignalTypeId L q = GetControlSignalTypeId L p"
      using that by (simp add: same_content_def GetControlSignalTypeId_def IsControlSignal_def GetPacketTypeId_def)
    moreover obtain st v where "Unpack_move (eos_traits L) p (Some (Eos [])) = Returns (st, Some v)"
      using eos_type.unpack_move_total by blast
    ultimately show ?thesis
      using p(2) unpack_eos_same [OF that, of L "Some (Eos [])"]
      by (auto simp: IsEos_reason_def PacketAs_def pa_ok_def pa_ValueOrDie_def split: sum.splits if_splits)
  qed
  then show ?thesis
    using p(1) by (auto simp: AIS_NewEosPacket_def string_of_cstr_def new_packet_of_def AIS_IsEos_def
        del: outcome_bind_Returns_iff intro!: exI [of _ p])
qed

text \<open>A packet that waits is received at once, whatever the timeout; with none, a time-out is reported.\<close>

lemma receive_waiting:
  "AIS_ReceivePacket wakes (Some \<lparr>ar_receiver_queue = Some \<lparr>rq_pcqueue = Some \<lparr>q_capacity = c, q_items = p # ps\<rparr>\<rparr>\<rparr>)
     (Some e) timeout =
   Some (Returns (OkStatus, p, \<lparr>ar_receiver_queue = Some \<lparr>rq_pcqueue = Some \<lparr>q_capacity = c, q_items = ps\<rparr>\<rparr>\<rparr>))"
  by (simp add: AIS_ReceivePacket_def rq_TryPop_timed_def TryPop_timed_def timed_wait_while_now InternalPop_def)

lemma receive_times_out:
  assumes "0 \<le> sint timeout" and "left \<le> 0" and "q_items q' = []"
  shows "\<exists>st r. AIS_ReceivePacket [(q', left)]
     (Some \<lparr>ar_receiver_queue = Some \<lparr>rq_pcqueue = Some \<lparr>q_capacity = c, q_items = []\<rparr>\<rparr>\<rparr>) (Some e) timeout =
     Some (Returns (st, e, r)) \<and> AIS_GetCode st = Some AIS_DEADLINE_EXCEEDED"
  using assms
  by (cases "sint timeout = 0")
     (simp_all add: AIS_ReceivePacket_def rq_TryPop_timed_def TryPop_timed_def timed_wait_while.simps
       receive_timeout_def Seconds_def ticks_per_second_def time_left_def DeadlineExceededError_def
       AIS_GetCode_def cast_to_AIS_Code_def all_ais_codes_def)

lemma receive_forever:
  assumes "sint timeout < 0" and "\<forall>w \<in> set wakes. q_items (fst w) = []"
  shows "AIS_ReceivePacket wakes
     (Some \<lparr>ar_receiver_queue = Some \<lparr>rq_pcqueue = Some \<lparr>q_capacity = c, q_items = []\<rparr>\<rparr>\<rparr>) (Some e) timeout = None"
proof -
  have "timed_wait_while (\<lambda>q. q_items q = []) (map (\<lambda>(q', left). (q', time_left InfiniteDuration left)) wakes) 1 q = None"
    if "q_items q = []" for q :: "packet pc_queue"
    using that assms(2)
    by (induction wakes arbitrary: q) (auto simp: timed_wait_while.simps time_left_def)
  then show ?thesis
    using assms(1) by (simp add: AIS_ReceivePacket_def rq_TryPop_timed_def TryPop_timed_def receive_timeout_def)
qed

text \<open>Only the path of the root certificate does not take \<open>NULL\<close> for the empty text.\<close>

lemma null_root_cert_path:
  "is_fatal (AIS_SetSslRootCertPath None o')" "so_ssl_domain_name (co_ssl_options (AIS_SetSslDomainName None o')) = []"
  by (simp_all add: AIS_SetSslRootCertPath_def string_of_cstr_def AIS_SetSslDomainName_def ToString_def)

text \<open>A reason with a zero byte reaches C only up to it.\<close>

lemma reason_is_cut:
  "c_str (''end'' @ CHR 0x00 # rest) = ''end''"
  by (simp add: c_str_def)

end
