(* ===== verification/Gst_Plugins.thy ===== *)
theory Gst_Plugins
  imports C_Api
begin

text \<open>
  The gstreamer elements \<open>aissink\<close> (\<open>gst-plugins/aissink.c\<close>) and \<open>aissrc\<close> (\<open>aissrc.c\<close>): their
  properties, their start and stop, and the buffers that they pass to and take from the C interface.

  A pointer of an element is null, points to a live object or is left over after the object
  was deleted; the use of the latter is \<open>Fatal\<close>. What an element posts on its bus, logs and prints is a list
  of events. GLib guarantees that a value handed to \<open>set_property\<close> has the type and the range of the
  property. What gstreamer does with caps and memory is the argument \<open>gst_pads\<close>.
\<close>

section \<open>Pointers, values and events\<close>

datatype 'a pointer = NullPtr | Live 'a | Freed

definition deref :: "'a pointer \<Rightarrow> 'a option outcome" where
  "deref p = (case p of NullPtr \<Rightarrow> Returns None | Live x \<Rightarrow> Returns (Some x) | Freed \<Rightarrow> Fatal ''use after free'')"

fun to_pointer :: "'a option \<Rightarrow> 'a pointer" where
  "to_pointer None = NullPtr"
| "to_pointer (Some x) = Live x"

text \<open>An object that must be there.\<close>

definition object :: "'a pointer \<Rightarrow> 'a outcome" where
  "object p = (case p of Live x \<Rightarrow> Returns x | NullPtr \<Rightarrow> Fatal ''null pointer'' | Freed \<Rightarrow> Fatal ''use after free'')"

datatype g_value = GString cstring | GBoolean bool | GInt int32 | GDouble rat

fun g_value_get_string :: "g_value \<Rightarrow> cstring" where
  "g_value_get_string (GString s) = s"
| "g_value_get_string v = None"

fun g_value_get_boolean :: "g_value \<Rightarrow> bool" where
  "g_value_get_boolean (GBoolean b) = b"
| "g_value_get_boolean v = False"

fun g_value_get_int :: "g_value \<Rightarrow> int32" where
  "g_value_get_int (GInt i) = i"
| "g_value_get_int v = 0"

fun g_value_get_double :: "g_value \<Rightarrow> rat" where
  "g_value_get_double (GDouble d) = d"
| "g_value_get_double v = 0"

definition guchar :: "bool \<Rightarrow> uchar" where
  "guchar b = (if b then 1 else 0)"

datatype element_event =
    PostError string | PostWarning string | Logged ais_log_level string | Printed string | WarnInvalidPropertyId

datatype gst_flow = GST_FLOW_OK | GST_FLOW_EOS | GST_FLOW_ERROR

text \<open>What C code sees of the message of a status.\<close>

definition status_text :: "status \<Rightarrow> string" where
  "status_text st = c_str (AIS_Message st)"

section \<open>The state of the sink\<close>

datatype sink_property = SINK_PROP_TARGET_ADDRESS | SINK_PROP_STREAM_NAME | SINK_PROP_AUTHENTICATE_WITH_GOOGLE
  | SINK_PROP_USE_INSECURE_CHANNEL | SINK_PROP_SSL_DOMAIN_NAME | SINK_PROP_SSL_ROOT_CERT_PATH
  | SINK_PROP_TRACE_PROBABILITY | SINK_PROP_OTHER nat

record ais_sink =
  sk_target_address :: string
  sk_stream_name :: string
  sk_authenticate_with_google :: bool
  sk_use_insecure_channel :: bool
  sk_ssl_domain_name :: string
  sk_ssl_root_cert_path :: string
  sk_trace_probability :: rat
  sk_sender :: "ais_sender pointer"
  sk_options :: "connection_options pointer"
  sk_status :: "status pointer"

definition ais_sink_properties :: "(string \<times> sink_property \<times> g_value) list" where
  "ais_sink_properties =
     [(''target-address'', SINK_PROP_TARGET_ADDRESS, GString None),
      (''stream-name'', SINK_PROP_STREAM_NAME, GString None),
      (''authenticate-with-google'', SINK_PROP_AUTHENTICATE_WITH_GOOGLE, GBoolean False),
      (''use-insecure-channel'', SINK_PROP_USE_INSECURE_CHANNEL, GBoolean False),
      (''ssl-domain-name'', SINK_PROP_SSL_DOMAIN_NAME, GString None),
      (''ssl-root-cert-path'', SINK_PROP_SSL_ROOT_CERT_PATH, GString None),
      (''trace-probability'', SINK_PROP_TRACE_PROBABILITY, GDouble 0)]"

definition ais_sink_init :: ais_sink where
  "ais_sink_init = \<lparr>sk_target_address = [], sk_stream_name = [], sk_authenticate_with_google = False,
     sk_use_insecure_channel = False, sk_ssl_domain_name = ''aistreams.googleapis.com'',
     sk_ssl_root_cert_path = [], sk_trace_probability = 0, sk_sender = NullPtr, sk_options = NullPtr,
     sk_status = NullPtr\<rparr>"

definition ais_sink_set_target_address ::
    "cstring \<Rightarrow> ais_sink \<Rightarrow> bool \<times> ais_sink \<times> element_event list" where
  "ais_sink_set_target_address address s =
     (if sk_sender s \<noteq> NullPtr then (False, s, [])
      else case address of
        None \<Rightarrow> (False, s, [PostError ''A NULL target address was specified.''])
      | Some a \<Rightarrow> (True, s\<lparr>sk_target_address := a\<rparr>, []))"

definition ais_sink_set_stream_name :: "cstring \<Rightarrow> ais_sink \<Rightarrow> bool \<times> ais_sink" where
  "ais_sink_set_stream_name stream_name s =
     (if sk_sender s \<noteq> NullPtr then (False, s) else (True, s\<lparr>sk_stream_name := ToString stream_name\<rparr>))"

definition ais_sink_set_ssl_domain_name :: "cstring \<Rightarrow> ais_sink \<Rightarrow> bool \<times> ais_sink" where
  "ais_sink_set_ssl_domain_name d s =
     (if sk_sender s \<noteq> NullPtr then (False, s) else (True, s\<lparr>sk_ssl_domain_name := ToString d\<rparr>))"

definition ais_sink_set_ssl_root_cert_path :: "cstring \<Rightarrow> ais_sink \<Rightarrow> bool \<times> ais_sink" where
  "ais_sink_set_ssl_root_cert_path path s =
     (if sk_sender s \<noteq> NullPtr then (False, s) else (True, s\<lparr>sk_ssl_root_cert_path := ToString path\<rparr>))"

fun ais_sink_set_property :: "sink_property \<Rightarrow> g_value \<Rightarrow> ais_sink \<Rightarrow> ais_sink \<times> element_event list" where
  "ais_sink_set_property SINK_PROP_TARGET_ADDRESS v s =
     snd (ais_sink_set_target_address (g_value_get_string v) s)"
| "ais_sink_set_property SINK_PROP_STREAM_NAME v s =
     (snd (ais_sink_set_stream_name (g_value_get_string v) s), [])"
| "ais_sink_set_property SINK_PROP_AUTHENTICATE_WITH_GOOGLE v s =
     (s\<lparr>sk_authenticate_with_google := g_value_get_boolean v\<rparr>, [])"
| "ais_sink_set_property SINK_PROP_USE_INSECURE_CHANNEL v s =
     (s\<lparr>sk_use_insecure_channel := g_value_get_boolean v\<rparr>, [])"
| "ais_sink_set_property SINK_PROP_SSL_DOMAIN_NAME v s =
     (snd (ais_sink_set_ssl_domain_name (g_value_get_string v) s), [])"
| "ais_sink_set_property SINK_PROP_SSL_ROOT_CERT_PATH v s =
     (snd (ais_sink_set_ssl_root_cert_path (g_value_get_string v) s), [])"
| "ais_sink_set_property SINK_PROP_TRACE_PROBABILITY v s = (s\<lparr>sk_trace_probability := g_value_get_double v\<rparr>, [])"
| "ais_sink_set_property (SINK_PROP_OTHER n) v s = (s, [WarnInvalidPropertyId])"

fun ais_sink_get_property :: "sink_property \<Rightarrow> ais_sink \<Rightarrow> g_value option \<times> element_event list" where
  "ais_sink_get_property SINK_PROP_TARGET_ADDRESS s = (Some (GString (Some (sk_target_address s))), [])"
| "ais_sink_get_property SINK_PROP_STREAM_NAME s = (Some (GString (Some (sk_stream_name s))), [])"
| "ais_sink_get_property SINK_PROP_AUTHENTICATE_WITH_GOOGLE s = (Some (GBoolean (sk_authenticate_with_google s)), [])"
| "ais_sink_get_property SINK_PROP_USE_INSECURE_CHANNEL s = (Some (GBoolean (sk_use_insecure_channel s)), [])"
| "ais_sink_get_property SINK_PROP_SSL_DOMAIN_NAME s = (Some (GString (Some (sk_ssl_domain_name s))), [])"
| "ais_sink_get_property SINK_PROP_SSL_ROOT_CERT_PATH s = (Some (GString (Some (sk_ssl_root_cert_path s))), [])"
| "ais_sink_get_property SINK_PROP_TRACE_PROBABILITY s = (Some (GDouble (sk_trace_probability s)), [])"
| "ais_sink_get_property (SINK_PROP_OTHER n) s = (None, [WarnInvalidPropertyId])"

definition ais_sink_get_caps :: "('c \<Rightarrow> 'c \<Rightarrow> 'c) \<Rightarrow> 'c \<Rightarrow> 'c option \<Rightarrow> 'c" where
  "ais_sink_get_caps intersect_first template filter_caps = (case filter_caps of
      None \<Rightarrow> template | Some f \<Rightarrow> intersect_first f template)"

section \<open>Starting, rendering and stopping\<close>

text \<open>The connection options that both elements make of their properties.\<close>

definition element_options ::
    "string \<Rightarrow> bool \<Rightarrow> bool \<Rightarrow> string \<Rightarrow> string \<Rightarrow> connection_options outcome" where
  "element_options target_address authenticate insecure domain root_cert_path =
     AIS_SetSslRootCertPath (Some root_cert_path)
       (AIS_SetSslDomainName (Some domain)
         (AIS_SetUseInsecureChannel (guchar insecure)
           (AIS_SetAuthenticateWithGoogle (guchar authenticate)
             (AIS_SetTargetAddress (Some target_address) AIS_NewConnectionOptions))))"

definition ais_sink_start ::
    "rpc_env \<Rightarrow> send_server \<Rightarrow> ais_sink \<Rightarrow> (bool \<times> ais_sink \<times> element_event list) outcome" where
  "ais_sink_start E S s =
     outcome_bind (element_options (sk_target_address s) (sk_authenticate_with_google s)
         (sk_use_insecure_channel s) (sk_ssl_domain_name s) (sk_ssl_root_cert_path s)) (\<lambda>options.
     outcome_bind (AIS_NewSender E S options (Some (sk_stream_name s)) (sk_trace_probability s))
       (\<lambda>(sender, st).
         let s1 = s\<lparr>sk_options := Live options, sk_status := Live st, sk_sender := to_pointer sender\<rparr> in
         Returns (if sender = None
                  then (False, s1, [PostError (status_text st), Logged AIS_ERROR (status_text st),
                                    Logged AIS_ERROR ''Failed to create a new sender''])
                  else (True, s1, []))))"

text \<open>The events of the label \<open>failed_eos_send\<close>.\<close>

definition failed_eos_send :: "status \<Rightarrow> element_event list" where
  "failed_eos_send st = [PostWarning (status_text st), Logged AIS_ERROR (status_text st),
     Logged AIS_ERROR ''Could not send an EOS packet'']"

text \<open>Also the calls on the writer until it was destroyed.\<close>

definition ais_sink_stop ::
    "proto_lib \<Rightarrow> clock \<Rightarrow> (rat \<Rightarrow> nat \<Rightarrow> string) \<Rightarrow> rpc_env \<Rightarrow> send_server \<Rightarrow> trace_state \<Rightarrow> ais_sink \<Rightarrow>
     (bool \<times> ais_sink \<times> element_event list \<times> writer_call list) outcome" where
  "ais_sink_stop L now start_span E S t s =
     outcome_bind (object (sk_status s)) (\<lambda>_.
     outcome_bind (AIS_NewEosPacket L now (Some ''Sender sent EOS'')) (\<lambda>(packet, st).
     outcome_bind (deref (sk_sender s)) (\<lambda>sender.
     outcome_bind
       (if AIS_GetCode st \<noteq> Some AIS_OK then Returns (sender, failed_eos_send st)
        else outcome_bind (AIS_SendPacket start_span E S sender packet t) (\<lambda>(st2, sender', _, _).
          Returns (Some sender', if AIS_GetCode st2 \<noteq> Some AIS_OK then failed_eos_send st2 else [])))
       (\<lambda>(sender2, events).
         outcome_bind (deref (sk_options s)) (\<lambda>_.
         Returns (True, s\<lparr>sk_sender := Freed, sk_status := Freed, sk_options := Freed\<rparr>, events,
                  AIS_DeleteSender S sender2))))))"

text \<open>A buffer that arrives: whether it can be mapped, and the caps of the pad as text.\<close>

record sink_buffer =
  bf_mapped :: bool
  bf_bytes :: string
  bf_delta_unit :: bool
  bf_caps :: string

definition ais_sink_render ::
    "proto_lib \<Rightarrow> clock \<Rightarrow> (rat \<Rightarrow> nat \<Rightarrow> string) \<Rightarrow> rpc_env \<Rightarrow> send_server \<Rightarrow> sink_buffer \<Rightarrow> trace_state \<Rightarrow> ais_sink \<Rightarrow>
     (gst_flow \<times> trace_state \<times> ais_sink \<times> element_event list) outcome" where
  "ais_sink_render L now start_span E S buf t s =
     (if \<not> bf_mapped buf
      then Returns (GST_FLOW_OK, t, s, [PostWarning ''Failed to gst_buffer_map the incoming GstBuffer''])
      else
        outcome_bind (AIS_GstreamerBufferAssign (bf_bytes buf) (word_of_nat (length (bf_bytes buf)))
                        AIS_NewGstreamerBuffer) (\<lambda>b1.
        outcome_bind (AIS_GstreamerBufferSetCapsString (Some (bf_caps buf)) b1) (\<lambda>b2.
        outcome_bind (object (sk_status s)) (\<lambda>_.
          case AIS_NewGstreamerBufferPacket L now b2 of
            (None, st) \<Rightarrow> Returns (GST_FLOW_OK, t, s\<lparr>sk_status := Live st\<rparr>, [PostWarning (status_text st)])
          | (Some packet, st) \<Rightarrow>
              (let packet2 = AIS_SetIsFrameHead 1 (AIS_SetIsKeyFrame (guchar (\<not> bf_delta_unit buf)) packet) in
               outcome_bind (deref (sk_sender s)) (\<lambda>sender.
               outcome_bind (AIS_SendPacket start_span E S sender (Some packet2) t) (\<lambda>(st2, sender2, _, t').
                 let s' = s\<lparr>sk_status := Live st2, sk_sender := Live sender2\<rparr> in
                 Returns (if AIS_GetCode st2 \<noteq> Some AIS_OK
                          then (GST_FLOW_ERROR, t', s', [PostWarning (status_text st2),
                                Logged AIS_ERROR (status_text st2),
                                Logged AIS_ERROR ''Please double check the ingress endpoint and stream name you provided are valid''])
                          else (GST_FLOW_OK, t', s', [])))))))))"

section \<open>The state of the source\<close>

datatype src_property = SRC_PROP_TARGET_ADDRESS | SRC_PROP_AUTHENTICATE_WITH_GOOGLE | SRC_PROP_STREAM_NAME
  | SRC_PROP_RECEIVER_NAME | SRC_PROP_TIMEOUT_IN_SEC | SRC_PROP_USE_INSECURE_CHANNEL | SRC_PROP_SSL_DOMAIN_NAME
  | SRC_PROP_SSL_ROOT_CERT_PATH | SRC_PROP_OTHER nat

text \<open>\<open>sr_pad_caps\<close>: the current caps of the source pad.\<close>

record ais_src =
  sr_target_address :: string
  sr_authenticate_with_google :: bool
  sr_stream_name :: string
  sr_receiver_name :: string
  sr_timeout_in_sec :: int32
  sr_use_insecure_channel :: bool
  sr_ssl_domain_name :: string
  sr_ssl_root_cert_path :: string
  sr_status :: "status pointer"
  sr_options :: "connection_options pointer"
  sr_receiver :: "ais_receiver pointer"
  sr_pad_caps :: "gst_caps option"

definition ais_src_properties :: "(string \<times> src_property \<times> g_value) list" where
  "ais_src_properties =
     [(''target-address'', SRC_PROP_TARGET_ADDRESS, GString None),
      (''authenticate-with-google'', SRC_PROP_AUTHENTICATE_WITH_GOOGLE, GBoolean False),
      (''stream-name'', SRC_PROP_STREAM_NAME, GString None),
      (''receiver-name'', SRC_PROP_RECEIVER_NAME, GString None),
      (''timeout-in-sec'', SRC_PROP_TIMEOUT_IN_SEC, GInt (- 1)),
      (''use-insecure-channel'', SRC_PROP_USE_INSECURE_CHANNEL, GBoolean False),
      (''ssl-domain-name'', SRC_PROP_SSL_DOMAIN_NAME, GString None),
      (''ssl-root-cert-path'', SRC_PROP_SSL_ROOT_CERT_PATH, GString None)]"

definition ais_src_init :: ais_src where
  "ais_src_init = \<lparr>sr_target_address = [], sr_authenticate_with_google = False, sr_stream_name = [],
     sr_receiver_name = [], sr_timeout_in_sec = - 1, sr_use_insecure_channel = False,
     sr_ssl_domain_name = ''aistreams.googleapis.com'', sr_ssl_root_cert_path = [], sr_status = NullPtr,
     sr_options = NullPtr, sr_receiver = NullPtr, sr_pad_caps = None\<rparr>"

definition ais_src_set_target_address :: "cstring \<Rightarrow> ais_src \<Rightarrow> bool \<times> ais_src \<times> element_event list" where
  "ais_src_set_target_address address s =
     (if sr_receiver s \<noteq> NullPtr then (False, s, [])
      else case address of
        None \<Rightarrow> (False, s, [PostError ''A NULL target address was specified.''])
      | Some a \<Rightarrow> (True, s\<lparr>sr_target_address := a\<rparr>, []))"

definition ais_src_set_receiver_name :: "cstring \<Rightarrow> ais_src \<Rightarrow> bool \<times> ais_src" where
  "ais_src_set_receiver_name receiver_name s =
     (if sr_receiver s \<noteq> NullPtr then (False, s) else (True, s\<lparr>sr_receiver_name := ToString receiver_name\<rparr>))"

definition ais_src_set_stream_name :: "cstring \<Rightarrow> ais_src \<Rightarrow> bool \<times> ais_src" where
  "ais_src_set_stream_name stream_name s =
     (if sr_receiver s \<noteq> NullPtr then (False, s) else (True, s\<lparr>sr_stream_name := ToString stream_name\<rparr>))"

definition ais_src_set_ssl_domain_name :: "cstring \<Rightarrow> ais_src \<Rightarrow> bool \<times> ais_src" where
  "ais_src_set_ssl_domain_name d s =
     (if sr_receiver s \<noteq> NullPtr then (False, s) else (True, s\<lparr>sr_ssl_domain_name := ToString d\<rparr>))"

definition ais_src_set_ssl_root_cert_path :: "cstring \<Rightarrow> ais_src \<Rightarrow> bool \<times> ais_src" where
  "ais_src_set_ssl_root_cert_path path s =
     (if sr_receiver s \<noteq> NullPtr then (False, s) else (True, s\<lparr>sr_ssl_root_cert_path := ToString path\<rparr>))"

fun ais_src_set_property :: "src_property \<Rightarrow> g_value \<Rightarrow> ais_src \<Rightarrow> ais_src \<times> element_event list" where
  "ais_src_set_property SRC_PROP_TARGET_ADDRESS v s = snd (ais_src_set_target_address (g_value_get_string v) s)"
| "ais_src_set_property SRC_PROP_AUTHENTICATE_WITH_GOOGLE v s =
     (s\<lparr>sr_authenticate_with_google := g_value_get_boolean v\<rparr>, [])"
| "ais_src_set_property SRC_PROP_STREAM_NAME v s = (snd (ais_src_set_stream_name (g_value_get_string v) s), [])"
| "ais_src_set_property SRC_PROP_RECEIVER_NAME v s = (snd (ais_src_set_receiver_name (g_value_get_string v) s), [])"
| "ais_src_set_property SRC_PROP_TIMEOUT_IN_SEC v s = (s\<lparr>sr_timeout_in_sec := g_value_get_int v\<rparr>, [])"
| "ais_src_set_property SRC_PROP_USE_INSECURE_CHANNEL v s =
     (s\<lparr>sr_use_insecure_channel := g_value_get_boolean v\<rparr>, [])"
| "ais_src_set_property SRC_PROP_SSL_DOMAIN_NAME v s =
     (snd (ais_src_set_ssl_domain_name (g_value_get_string v) s), [])"
| "ais_src_set_property SRC_PROP_SSL_ROOT_CERT_PATH v s =
     (snd (ais_src_set_ssl_root_cert_path (g_value_get_string v) s), [])"
| "ais_src_set_property (SRC_PROP_OTHER n) v s = (s, [WarnInvalidPropertyId])"

fun ais_src_get_property :: "src_property \<Rightarrow> ais_src \<Rightarrow> g_value option \<times> element_event list" where
  "ais_src_get_property SRC_PROP_TARGET_ADDRESS s = (Some (GString (Some (sr_target_address s))), [])"
| "ais_src_get_property SRC_PROP_AUTHENTICATE_WITH_GOOGLE s = (Some (GBoolean (sr_authenticate_with_google s)), [])"
| "ais_src_get_property SRC_PROP_STREAM_NAME s = (Some (GString (Some (sr_stream_name s))), [])"
| "ais_src_get_property SRC_PROP_RECEIVER_NAME s = (Some (GString (Some (sr_receiver_name s))), [])"
| "ais_src_get_property SRC_PROP_TIMEOUT_IN_SEC s = (Some (GInt (sr_timeout_in_sec s)), [])"
| "ais_src_get_property SRC_PROP_USE_INSECURE_CHANNEL s = (Some (GBoolean (sr_use_insecure_channel s)), [])"
| "ais_src_get_property SRC_PROP_SSL_DOMAIN_NAME s = (Some (GString (Some (sr_ssl_domain_name s))), [])"
| "ais_src_get_property SRC_PROP_SSL_ROOT_CERT_PATH s = (Some (GString (Some (sr_ssl_root_cert_path s))), [])"
| "ais_src_get_property (SRC_PROP_OTHER n) s = (None, [WarnInvalidPropertyId])"

section \<open>Starting, creating buffers and stopping\<close>

text \<open>Also the receiver that the thread of the queue works with.\<close>

definition ais_src_start ::
    "rpc_env \<Rightarrow> stream_server \<Rightarrow> ais_src \<Rightarrow>
     (bool \<times> ais_src \<times> element_event list \<times> packet_receiver option) outcome" where
  "ais_src_start E S s =
     outcome_bind (element_options (sr_target_address s) (sr_authenticate_with_google s)
         (sr_use_insecure_channel s) (sr_ssl_domain_name s) (sr_ssl_root_cert_path s)) (\<lambda>options.
     outcome_bind (AIS_NewReceiver E S options (Some (sr_stream_name s)) (Some (sr_receiver_name s)))
       (\<lambda>(receiver, st, worker).
         let s1 = s\<lparr>sr_status := Live st, sr_options := Live options, sr_receiver := to_pointer receiver\<rparr> in
         Returns (if receiver = None
                  then (False, s1, [PostError (status_text st), Logged AIS_ERROR (status_text st),
                                    Logged AIS_ERROR ''Failed to create a new receiver''], worker)
                  else (True, s1, [], worker))))"

definition ais_src_stop :: "ais_src \<Rightarrow> (bool \<times> ais_src) outcome" where
  "ais_src_stop s =
     outcome_bind (deref (sr_receiver s)) (\<lambda>_. outcome_bind (deref (sr_options s)) (\<lambda>_.
     outcome_bind (deref (sr_status s)) (\<lambda>_.
       Returns (True, s\<lparr>sr_receiver := Freed, sr_options := Freed, sr_status := Freed\<rparr>))))"

text \<open>
  \<open>gp_set_caps\<close>: the caps of the pad after \<open>gst_base_src_set_caps\<close> with the parsed caps (\<open>None\<close> for \<open>NULL\<close>);
  \<open>gp_alloc\<close>: the memory of a new buffer of a size, with whatever it holds, or \<open>None\<close> for \<open>NULL\<close>;
  \<open>gp_map\<close>: whether a buffer can be mapped.
\<close>

record gst_pads =
  gp_caps_is_equal :: "gst_caps \<Rightarrow> gst_caps option \<Rightarrow> bool"
  gp_set_caps :: "gst_caps option \<Rightarrow> gst_caps option \<Rightarrow> gst_caps option"
  gp_alloc :: "size_t \<Rightarrow> string option"
  gp_map :: "string \<Rightarrow> bool"

record create_result =
  cr_flow :: gst_flow
  cr_outbuf :: "string option"
  cr_src :: ais_src
  cr_events :: "element_event list"
  cr_leaked :: "string list"

text \<open>The part of \<open>ais_src_create\<close> after the conversion; \<open>r\<close> is the result so far.\<close>

definition create_from_buffer ::
    "gst_lib \<Rightarrow> gst_pads \<Rightarrow> gstreamer_buffer \<Rightarrow> create_result \<Rightarrow> create_result outcome" where
  "create_from_buffer G P b r =
     (let caps_string = AIS_GstreamerBufferGetCapsString b;
          new_caps = gl_caps_from_string G caps_string;
          change = (case sr_pad_caps (cr_src r) of None \<Rightarrow> True | Some c \<Rightarrow> \<not> gp_caps_is_equal P c new_caps);
          r1 = (if change
                then r\<lparr>cr_src := (cr_src r)\<lparr>sr_pad_caps := gp_set_caps P new_caps (sr_pad_caps (cr_src r))\<rparr>,
                       cr_events := cr_events r @ [Printed (''Setting caps to '' @ caps_string @ [CHR 0x0A])]\<rparr>
                else r);
          outbuf = gp_alloc P (AIS_GstreamerBufferSize b);
          r2 = r1\<lparr>cr_outbuf := outbuf\<rparr>;
          failed_buffer_map = r2\<lparr>cr_events := cr_events r2 @ [PostWarning ''Failed to gst_buffer_map the given GstBuffer'']\<rparr>
      in case outbuf of
           None \<Rightarrow> Returns failed_buffer_map
         | Some memory \<Rightarrow>
             if gp_map P memory
             then outcome_bind (AIS_GstreamerBufferCopyTo b memory) (\<lambda>bytes. Returns (r2\<lparr>cr_outbuf := Some bytes\<rparr>))
             else Returns failed_buffer_map)"

text \<open>\<open>None\<close>: the call still waits for a packet. The pointer \<open>outbuf\<close> is null at the call.\<close>

definition ais_src_create ::
    "proto_lib \<Rightarrow> gst_lib \<Rightarrow> gst_pads \<Rightarrow> (packet pc_queue \<times> int) list \<Rightarrow> ais_src \<Rightarrow> create_result outcome option" where
  "ais_src_create L G P wakes s = (case (object (sr_status s), deref (sr_receiver s)) of
      (Returns _, Returns receiver) \<Rightarrow>
        map_option (\<lambda>res. outcome_bind res (\<lambda>(st, packet, receiver').
            let s1 = s\<lparr>sr_status := Live st, sr_receiver := Live receiver'\<rparr>;
                r = \<lparr>cr_flow = GST_FLOW_OK, cr_outbuf = None, cr_src = s1, cr_events = [], cr_leaked = []\<rparr> in
            if AIS_GetCode st \<noteq> Some AIS_OK
            then Returns (r\<lparr>cr_flow := GST_FLOW_ERROR,
                            cr_events := [PostError (status_text st), Logged AIS_ERROR (status_text st),
                                          Logged AIS_ERROR ''Failed to receive packets'']\<rparr>)
            else outcome_bind (AIS_IsEos L packet True) (\<lambda>(is_eos, reason).
              let reason_text = ToString reason in
              if is_eos then Returns (r\<lparr>cr_flow := GST_FLOW_EOS, cr_events := [Logged AIS_INFO reason_text]\<rparr>)
              else outcome_bind (AIS_ToGstreamerBuffer L G packet) (\<lambda>(buffer, st2).
                let r1 = r\<lparr>cr_src := s1\<lparr>sr_status := Live st2\<rparr>, cr_leaked := [reason_text]\<rparr> in
                case buffer of
                  None \<Rightarrow> Returns (r1\<lparr>cr_events := [PostError (status_text st2)]\<rparr>)
                | Some b \<Rightarrow> create_from_buffer G P b r1))))
          (AIS_ReceivePacket wakes receiver (fst AIS_NewPacket) (sr_timeout_in_sec s))
    | _ \<Rightarrow> Some (Fatal ''invalid pointer''))"

text \<open>Disposing an element frees its texts and leaves the pointers as they are.\<close>

fun g_free :: "'a pointer \<Rightarrow> 'a pointer outcome" where
  "g_free NullPtr = Returns NullPtr"
| "g_free (Live x) = Returns Freed"
| "g_free Freed = Fatal ''double free''"

fun free_all :: "'a pointer list \<Rightarrow> 'a pointer list outcome" where
  "free_all [] = Returns []"
| "free_all (p # ps) = outcome_bind (g_free p) (\<lambda>p'. outcome_bind (free_all ps) (\<lambda>ps'. Returns (p' # ps')))"

definition sink_texts :: "ais_sink \<Rightarrow> string pointer list" where
  "sink_texts s = map Live [sk_target_address s, sk_stream_name s, sk_ssl_domain_name s, sk_ssl_root_cert_path s]"

definition ais_sink_dispose :: "string pointer list \<Rightarrow> string pointer list outcome" where
  "ais_sink_dispose texts = free_all texts"

definition src_texts :: "ais_src \<Rightarrow> string pointer list" where
  "src_texts s = map Live [sr_target_address s, sr_stream_name s, sr_receiver_name s, sr_ssl_domain_name s,
     sr_ssl_root_cert_path s]"

definition ais_src_dispose :: "string pointer list \<Rightarrow> string pointer list outcome" where
  "ais_src_dispose texts = free_all texts"

section \<open>A stream from the sink to the source\<close>

fun render_all ::
    "proto_lib \<Rightarrow> (rat \<Rightarrow> nat \<Rightarrow> string) \<Rightarrow> rpc_env \<Rightarrow> send_server \<Rightarrow> (clock \<times> sink_buffer) list \<Rightarrow> trace_state \<Rightarrow>
     ais_sink \<Rightarrow> (gst_flow list \<times> trace_state \<times> ais_sink) outcome" where
  "render_all L start_span E S [] t s = Returns ([], t, s)"
| "render_all L start_span E S ((now, buf) # bufs) t s = (case ais_sink_render L now start_span E S buf t s of
      Fatal m \<Rightarrow> Fatal m
    | Returns (flow, t', s', events) \<Rightarrow> (case render_all L start_span E S bufs t' s' of
        Fatal m \<Rightarrow> Fatal m
      | Returns (flows, t'', s'') \<Rightarrow> Returns (flow # flows, t'', s'')))"

text \<open>What \<open>n\<close> calls of \<open>create\<close> give: the flow, the buffer, and the caps of the pad it goes through.\<close>

fun create_all ::
    "proto_lib \<Rightarrow> gst_lib \<Rightarrow> gst_pads \<Rightarrow> nat \<Rightarrow> ais_src \<Rightarrow>
     (gst_flow \<times> string option \<times> gst_caps option) list outcome option" where
  "create_all L G P 0 s = Some (Returns [])"
| "create_all L G P (Suc n) s = (case ais_src_create L G P [] s of
      None \<Rightarrow> None
    | Some (Fatal m) \<Rightarrow> Some (Fatal m)
    | Some (Returns r) \<Rightarrow> (case create_all L G P n (cr_src r) of
        None \<Rightarrow> None
      | Some (Fatal m) \<Rightarrow> Some (Fatal m)
      | Some (Returns rs) \<Rightarrow> Some (Returns ((cr_flow r, cr_outbuf r, sr_pad_caps (cr_src r)) # rs))))"

definition buffer_of :: "sink_buffer \<Rightarrow> gstreamer_buffer" where
  "buffer_of buf = \<lparr>gb_caps = bf_caps buf, gb_bytes = bf_bytes buf\<rparr>"

text \<open>A buffer that the sink can pass on.\<close>

definition sendable :: "proto_lib \<Rightarrow> sink_buffer \<Rightarrow> bool" where
  "sendable L buf \<longleftrightarrow> bf_mapped buf \<and> gst_wf L (buffer_of buf) \<and> length (bf_bytes buf) < 2 ^ 64 \<and>
     CHR 0x00 \<notin> set (bf_caps buf)"

definition carries_buffer :: "proto_lib \<Rightarrow> sink_buffer \<Rightarrow> packet \<Rightarrow> bool" where
  "carries_buffer L buf p \<longleftrightarrow>
     (\<forall>q G. same_content p q \<longrightarrow> AIS_IsEos L q True = Returns (False, Some []) \<and>
        AIS_ToGstreamerBuffer L G q = Returns (Some (buffer_of buf), OkStatus)) \<and>
     IsKeyFrame p = (\<not> bf_delta_unit buf) \<and> IsFrameHead p"

text \<open>A sink that streams: \<open>calls\<close> were made on its writer so far.\<close>

definition streaming_sink :: "writer_call list \<Rightarrow> ais_sink \<Rightarrow> bool" where
  "streaming_sink calls s \<longleftrightarrow> (\<exists>st o' x. sk_status s = Live st \<and> sk_options s = Live o' \<and>
     sk_sender s = Live \<lparr>as_packet_sender = Some x\<rparr> \<and> ps_writer x = Some calls)"

lemma GetCode_OkStatus [simp]: "AIS_GetCode OkStatus = Some AIS_OK"
  by (simp add: AIS_GetCode_def cast_to_AIS_Code_def all_ais_codes_def)

lemma status_OK [simp]: "status_ok OkStatus"
  by simp

lemma flags_but_trace: "same_but_trace p q \<Longrightarrow> IsKeyFrame q = IsKeyFrame p \<and> IsFrameHead q = IsFrameHead p"
  by (auto simp: same_but_trace_def set_trace_context_def IsKeyFrame_def IsFrameHead_def IsPacketFlagsSet_def)

lemma send_streaming:
  assumes "ps_writer x = Some calls" and "\<And>n p. sv_write S n p"
  shows "\<exists>q t' x'. AIS_SendPacket start_span E S (Some \<lparr>as_packet_sender = Some x\<rparr>) (Some p) t =
      Returns (OkStatus, \<lparr>as_packet_sender = Some x'\<rparr>, q, t') \<and> same_but_trace p q \<and>
      ps_writer x' = Some (calls @ [CallWrite q True])"
proof -
  obtain q t' where q: "traced start_span (pso_trace_probability (ps_options x)) p t = (q, t')"
    by force
  moreover have "same_but_trace p q" using traced_same [of p start_span _ t] q by (metis fst_conv)
  ultimately show ?thesis
    using assms by (simp add: AIS_SendPacket_def Send_eq StreamingSend_def Let_def del: outcome_bind_Returns_iff)
qed

lemma render_streams:
  assumes "proto_laws L" and "sendable L buf" and "\<And>n p. sv_write S n p" and "streaming_sink calls s"
  shows "\<exists>p t' s'. ais_sink_render L (Some now) start_span E S buf t s = Returns (GST_FLOW_OK, t', s', []) \<and>
      streaming_sink (calls @ [CallWrite p True]) s' \<and> carries_buffer L buf p"
proof -
  obtain st o' x where s: "sk_status s = Live st" "sk_options s = Live o'"
      "sk_sender s = Live \<lparr>as_packet_sender = Some x\<rparr>" "ps_writer x = Some calls"
    using assms(4) by (auto simp: streaming_sink_def)
  have b: "bf_mapped buf" "gst_wf L (buffer_of buf)" "unat (word_of_nat (length (bf_bytes buf)) :: size_t) = length (bf_bytes buf)"
    using assms(2) by (simp_all add: sendable_def unat_of_nat)
  obtain p where p: "AIS_NewGstreamerBufferPacket L (Some now) (buffer_of buf) = (Some p, OkStatus)"
      "\<And>q G. same_content p q \<Longrightarrow> AIS_IsEos L q True = Returns (False, Some []) \<and>
        AIS_ToGstreamerBuffer L G q = Returns (Some (buffer_of buf), OkStatus)"
    using buffer_packet [OF assms(1) b(2)] by blast
  let ?p = "AIS_SetIsFrameHead 1 (AIS_SetIsKeyFrame (guchar (\<not> bf_delta_unit buf)) p)"
  obtain q t' x' where q: "AIS_SendPacket start_span E S (Some \<lparr>as_packet_sender = Some x\<rparr>) (Some ?p) t =
      Returns (OkStatus, \<lparr>as_packet_sender = Some x'\<rparr>, q, t')" "same_but_trace ?p q"
      "ps_writer x' = Some (calls @ [CallWrite q True])"
    using send_streaming [OF s(4) assms(3)] by blast
  have "same_content p q"
    using same_but_trace_content [OF q(2)] same_content_flags same_content_trans by blast
  then have "carries_buffer L buf q"
    using p(2) same_content_trans flags_but_trace [OF q(2)]
    by (auto simp: carries_buffer_def flags_set guchar_def)
  moreover have "ais_sink_render L (Some now) start_span E S buf t s =
      Returns (GST_FLOW_OK, t', s\<lparr>sk_status := Live OkStatus, sk_sender := Live \<lparr>as_packet_sender = Some x'\<rparr>\<rparr>, [])"
    using b(1,3) s p(1) q(1)
    by (simp add: ais_sink_render_def AIS_GstreamerBufferAssign_def read_memory_def AIS_NewGstreamerBuffer_def
        AIS_GstreamerBufferSetCapsString_def string_of_cstr_def object_def deref_def buffer_of_def
        empty_gst_buffer_def gb_assign_def set_caps_string_def Let_def del: outcome_bind_Returns_iff)
  ultimately show ?thesis
    using s(2) q(3) by (auto simp: streaming_sink_def)
qed

lemma render_all_streams:
  assumes "proto_laws L" and "\<And>n p. sv_write S n p" and "list_all (sendable L) bufs" and "streaming_sink calls s"
  shows "\<exists>ps t' s'. render_all L start_span E S (map (\<lambda>b. (Some now, b)) bufs) t s =
      Returns (replicate (length bufs) GST_FLOW_OK, t', s') \<and>
      streaming_sink (calls @ map (\<lambda>p. CallWrite p True) ps) s' \<and> list_all2 (carries_buffer L) bufs ps"
  using assms(3,4)
proof (induction bufs arbitrary: t s calls)
  case Nil
  then show ?case by simp
next
  case (Cons b bufs)
  then have b: "sendable L b" "list_all (sendable L) bufs" by simp_all
  obtain p t1 s1 where 1: "ais_sink_render L (Some now) start_span E S b t s = Returns (GST_FLOW_OK, t1, s1, [])"
      "streaming_sink (calls @ [CallWrite p True]) s1" "carries_buffer L b p"
    using render_streams [where now = now and t = t, OF assms(1) b(1) assms(2) Cons.prems(2)] by blast
  obtain ps t' s' where 2: "render_all L start_span E S (map (\<lambda>b. (Some now, b)) bufs) t1 s1 =
      Returns (replicate (length bufs) GST_FLOW_OK, t', s')"
      "streaming_sink ((calls @ [CallWrite p True]) @ map (\<lambda>p. CallWrite p True) ps) s'"
      "list_all2 (carries_buffer L) bufs ps"
    using Cons.IH [OF b(2) 1(2), of t1] by blast
  have "streaming_sink (calls @ map (\<lambda>p. CallWrite p True) (p # ps)) s'" using 2(2) by simp
  moreover have "render_all L start_span E S (map (\<lambda>b. (Some now, b)) (b # bufs)) t s =
      Returns (replicate (length (b # bufs)) GST_FLOW_OK, t', s')"
    using 1(1) 2(1) by simp
  moreover have "list_all2 (carries_buffer L) (b # bufs) (p # ps)" using 1(3) 2(3) by simp
  ultimately show ?case by blast
qed

lemma stop_sends_eos:
  assumes "proto_laws L" and "eos_wf L (Eos ''Sender sent EOS'')" and "\<And>n p. sv_write S n p"
    and "streaming_sink calls s"
  shows "\<exists>p s'. ais_sink_stop L (Some now) start_span E S t s = Returns (True, s', [],
      calls @ [CallWrite p True, CallWritesDone (sv_writes_done S), CallFinish (sv_finish S)]) \<and>
    (\<forall>q. same_content p q \<longrightarrow> AIS_IsEos L q True = Returns (True, Some ''Sender sent EOS''))"
proof -
  obtain st o' x where s: "sk_status s = Live st" "sk_options s = Live o'"
      "sk_sender s = Live \<lparr>as_packet_sender = Some x\<rparr>" "ps_writer x = Some calls"
    using assms(4) by (auto simp: streaming_sink_def)
  obtain p where p: "AIS_NewEosPacket L (Some now) (Some ''Sender sent EOS'') = Returns (Some p, OkStatus)"
      "\<And>q. same_content p q \<Longrightarrow> AIS_IsEos L q True = Returns (True, Some ''Sender sent EOS'')"
    using eos_packet [OF assms(1,2), of now] by (auto simp: c_str_def)
  obtain q t' x' where q: "AIS_SendPacket start_span E S (Some \<lparr>as_packet_sender = Some x\<rparr>) (Some p) t =
      Returns (OkStatus, \<lparr>as_packet_sender = Some x'\<rparr>, q, t')" "same_but_trace p q"
      "ps_writer x' = Some (calls @ [CallWrite q True])"
    using send_streaming [OF s(4) assms(3)] by blast
  have "AIS_IsEos L r True = Returns (True, Some ''Sender sent EOS'')" if "same_content q r" for r
    using p(2) same_but_trace_content [OF q(2)] same_content_trans that by blast
  moreover have "ais_sink_stop L (Some now) start_span E S t s =
      Returns (True, s\<lparr>sk_sender := Freed, sk_status := Freed, sk_options := Freed\<rparr>, [],
        calls @ [CallWrite q True, CallWritesDone (sv_writes_done S), CallFinish (sv_finish S)])"
    using s p(1) q(1,3)
    by (simp add: ais_sink_stop_def object_def deref_def AIS_DeleteSender_def PacketSender_destroy_def
        del: outcome_bind_Returns_iff)
  ultimately show ?thesis by blast
qed

lemma start_streams:
  assumes "ais_sink_start E S s = Returns (True, s1, events)"
  shows "streaming_sink [] s1 \<and> events = []"
proof -
  obtain options where opts: "element_options (sk_target_address s) (sk_authenticate_with_google s)
      (sk_use_insecure_channel s) (sk_ssl_domain_name s) (sk_ssl_root_cert_path s) = Returns options"
    by (simp add: element_options_def AIS_SetSslRootCertPath_def string_of_cstr_def)
  obtain a st where a: "AIS_NewSender E S options (Some (sk_stream_name s)) (sk_trace_probability s) = Returns (Some a, st)"
      "s1 = s\<lparr>sk_options := Live options, sk_status := Live st, sk_sender := Live a\<rparr>" "events = []"
    using assms opts by (auto simp: ais_sink_start_def Let_def split: if_splits)
  let ?w = "\<lparr>wso_connection_options = options, wso_stream_name = sk_stream_name s,
      wso_trace_probability = sk_trace_probability s\<rparr>"
  let ?o = "default_sender_options\<lparr>pso_connection_options := options, pso_stream_name := sk_stream_name s,
      pso_trace_probability := sk_trace_probability s\<rparr>"
  obtain st1 x where x: "MakePacketSender E S ?w None = Returns (st1, x)" "status_ok st1" "a = \<lparr>as_packet_sender = x\<rparr>"
    using a(1) by (auto simp: AIS_NewSender_def ToString_def split: if_splits)
  obtain y where y: "PacketSender_Create E S ?o = Returns (Inr y)" "x = Some y"
  proof (cases "PacketSender_Create E S ?o")
    case (Returns res)
    with x(1,2) that show thesis
      by (cases res) (auto simp: MakePacketSender_def UnknownError_def simp del: outcome_bind_Returns_iff)
  next
    case (Fatal m)
    with x(1) show thesis by (simp add: MakePacketSender_def del: outcome_bind_Returns_iff)
  qed
  have "ps_writer y = Some []"
    using Create_streaming [OF y(1)] by (simp add: default_sender_options_def)
  with a x(3) y(2) show ?thesis by (auto simp: streaming_sink_def)
qed

text \<open>What the model relies on of gstreamer's caps and memory.\<close>

definition gst_pads_ok :: "gst_pads \<Rightarrow> bool" where
  "gst_pads_ok P \<longleftrightarrow> (\<forall>c d. gp_caps_is_equal P c (Some d) = (c = d)) \<and>
     (\<forall>c old. gp_set_caps P (Some c) old = Some c) \<and>
     (\<forall>n. \<exists>memory. gp_alloc P n = Some memory \<and> length memory = unat n \<and> gp_map P memory)"

text \<open>A started source with the packets \<open>qs\<close> in its queue.\<close>

definition waiting_src :: "packet list \<Rightarrow> ais_src \<Rightarrow> bool" where
  "waiting_src qs s \<longleftrightarrow> (\<exists>st c. sr_status s = Live st \<and>
     sr_receiver s = Live \<lparr>ar_receiver_queue = Some \<lparr>rq_pcqueue = Some \<lparr>q_capacity = c, q_items = qs\<rparr>\<rparr>\<rparr>)"

lemma c_str_id: "CHR 0x00 \<notin> set s \<Longrightarrow> c_str s = s"
  by (auto simp: c_str_def takeWhile_eq_all_conv)

lemma create_from_good_buffer:
  assumes "gst_pads_ok P" and "sendable L buf" and "gl_caps_from_string G (bf_caps buf) = Some c"
  shows "\<exists>r'. create_from_buffer G P (buffer_of buf) r = Returns r' \<and> cr_flow r' = cr_flow r \<and>
    cr_outbuf r' = Some (bf_bytes buf) \<and> sr_pad_caps (cr_src r') = Some c \<and>
    sr_status (cr_src r') = sr_status (cr_src r) \<and> sr_receiver (cr_src r') = sr_receiver (cr_src r)"
proof -
  have n: "unat (word_of_nat (length (bf_bytes buf)) :: size_t) = length (bf_bytes buf)"
    using assms(2) by (simp add: sendable_def unat_of_nat)
  obtain m where m: "gp_alloc P (word_of_nat (length (bf_bytes buf))) = Some m"
      "length m = length (bf_bytes buf)" "gp_map P m"
    using assms(1) n unfolding gst_pads_ok_def by metis
  have caps: "c_str (bf_caps buf) = bf_caps buf"
    using assms(2) by (simp add: c_str_id sendable_def)
  have pads: "gp_caps_is_equal P d (Some c) = (d = c)" "gp_set_caps P (Some c) old = Some c" for d old
    using assms(1) by (simp_all add: gst_pads_ok_def)
  show ?thesis
    using m caps assms(3) pads
    by (cases "sr_pad_caps (cr_src r)")
       (auto simp: create_from_buffer_def AIS_GstreamerBufferGetCapsString_def AIS_GstreamerBufferSize_def
         AIS_GstreamerBufferCopyTo_def buffer_of_def Let_def simp del: outcome_bind_Returns_iff)
qed

lemma create_gives_buffer:
  assumes "gst_pads_ok P" and "sendable L buf" and "gl_caps_from_string G (bf_caps buf) = Some c"
    and "carries_buffer L buf p" and "same_content p q" and "waiting_src (q # qs) s"
  shows "\<exists>r. ais_src_create L G P [] s = Some (Returns r) \<and> cr_flow r = GST_FLOW_OK \<and>
    cr_outbuf r = Some (bf_bytes buf) \<and> sr_pad_caps (cr_src r) = Some c \<and> waiting_src qs (cr_src r)"
proof -
  obtain st k where s: "sr_status s = Live st" "sr_receiver s =
      Live \<lparr>ar_receiver_queue = Some \<lparr>rq_pcqueue = Some \<lparr>q_capacity = k, q_items = q # qs\<rparr>\<rparr>\<rparr>"
    using assms(6) by (auto simp: waiting_src_def)
  have q: "AIS_IsEos L q True = Returns (False, Some [])"
      "AIS_ToGstreamerBuffer L G q = Returns (Some (buffer_of buf), OkStatus)"
    using assms(4,5) by (auto simp: carries_buffer_def)
  let ?r = "\<lparr>cr_flow = GST_FLOW_OK, cr_outbuf = None, cr_src = s\<lparr>
      sr_receiver := Live \<lparr>ar_receiver_queue = Some \<lparr>rq_pcqueue = Some \<lparr>q_capacity = k, q_items = qs\<rparr>\<rparr>\<rparr>,
      sr_status := Live OkStatus\<rparr>,
      cr_events = [], cr_leaked = [[]]\<rparr>"
  obtain r' where r': "create_from_buffer G P (buffer_of buf) ?r = Returns r'" "cr_flow r' = GST_FLOW_OK"
      "cr_outbuf r' = Some (bf_bytes buf)" "sr_pad_caps (cr_src r') = Some c"
      "sr_status (cr_src r') = Live OkStatus"
      "sr_receiver (cr_src r') = Live \<lparr>ar_receiver_queue = Some \<lparr>rq_pcqueue = Some \<lparr>q_capacity = k, q_items = qs\<rparr>\<rparr>\<rparr>"
    using create_from_good_buffer [OF assms(1,2,3), of ?r] by auto
  have "ais_src_create L G P [] s = Some (Returns r')"
    using s q r'(1)
    by (simp add: ais_src_create_def object_def deref_def AIS_NewPacket_def receive_waiting ToString_def Let_def
        del: outcome_bind_Returns_iff)
  with r' show ?thesis by (auto simp: waiting_src_def)
qed

lemma create_ends:
  assumes "AIS_IsEos L q True = Returns (True, reason)" and "waiting_src (q # qs) s"
  shows "\<exists>r. ais_src_create L G P wakes s = Some (Returns r) \<and> cr_flow r = GST_FLOW_EOS \<and> cr_outbuf r = None \<and>
    cr_leaked r = []"
  using assms
  by (auto simp: waiting_src_def ais_src_create_def object_def deref_def AIS_NewPacket_def receive_waiting Let_def
      simp del: outcome_bind_Returns_iff)

lemma create_all_gives_stream:
  assumes "gst_pads_ok P" and "AIS_IsEos L eos True = Returns (True, reason)"
    and "list_all (\<lambda>b. sendable L b \<and> gl_caps_from_string G (bf_caps b) \<noteq> None) bufs"
    and "list_all2 (carries_buffer L) bufs ps" and "list_all2 same_content ps qs"
    and "waiting_src (qs @ [eos]) s"
  shows "\<exists>c. create_all L G P (length bufs + 1) s = Some (Returns
     (map (\<lambda>b. (GST_FLOW_OK, Some (bf_bytes b), gl_caps_from_string G (bf_caps b))) bufs @ [(GST_FLOW_EOS, None, c)]))"
  using assms(4,5,3,6)
proof (induction bufs arbitrary: ps qs s)
  case Nil
  then show ?case using create_ends [OF assms(2), of "[]" s G P "[]"] by auto
next
  case (Cons b bufs)
  obtain p ps' q qs' where e: "ps = p # ps'" "qs = q # qs'" "carries_buffer L b p" "same_content p q"
      "list_all2 (carries_buffer L) bufs ps'" "list_all2 same_content ps' qs'"
    using Cons.prems(1,2) by (auto simp: list_all2_Cons1)
  obtain c where c: "sendable L b" "gl_caps_from_string G (bf_caps b) = Some c"
      "list_all (\<lambda>b. sendable L b \<and> gl_caps_from_string G (bf_caps b) \<noteq> None) bufs"
    using Cons.prems(3) by auto
  have "waiting_src (q # (qs' @ [eos])) s" using Cons.prems(4) e(2) by simp
  from create_gives_buffer [OF assms(1) c(1,2) e(3,4) this]
  obtain r where r: "ais_src_create L G P [] s = Some (Returns r)" "cr_flow r = GST_FLOW_OK"
      "cr_outbuf r = Some (bf_bytes b)" "sr_pad_caps (cr_src r) = Some c" "waiting_src (qs' @ [eos]) (cr_src r)"
    by blast
  from Cons.IH [OF e(5,6) c(3) r(5)] r c(2) show ?case by auto
qed

section \<open>Properties\<close>

text \<open>
  C3. A sink that started passes every buffer on: rendering any sendable buffers succeeds, key frames are
  flagged as such, and stopping ends the stream with an EOS packet and closes the call. A source
  that gets these packets in order, whatever was changed in their headers on the way, creates exactly these
  buffers, each through a pad with the caps of its own, and then reports the end of the stream.
\<close>

theorem sink_to_source:
  assumes "proto_laws L" and "eos_wf L (Eos ''Sender sent EOS'')" and "gst_pads_ok P"
    and "\<And>n p. sv_write S n p"
    and "ais_sink_start E S s = Returns (True, s1, events)"
    and "list_all (\<lambda>b. sendable L b \<and> gl_caps_from_string G (bf_caps b) \<noteq> None) bufs"
  shows "\<exists>t' s2 s3 calls ps eos.
    render_all L start_span E S (map (\<lambda>b. (Some now, b)) bufs) t s1 =
      Returns (replicate (length bufs) GST_FLOW_OK, t', s2) \<and>
    ais_sink_stop L (Some now) start_span E S t' s2 = Returns (True, s3, [], calls) \<and>
    calls = map (\<lambda>p. CallWrite p True) (ps @ [eos]) @ [CallWritesDone (sv_writes_done S), CallFinish (sv_finish S)] \<and>
    map IsKeyFrame ps = map (\<lambda>b. \<not> bf_delta_unit b) bufs \<and>
    (\<forall>qs src. list_all2 same_content (ps @ [eos]) qs \<and> waiting_src qs src \<longrightarrow>
       (\<exists>c. create_all L G P (length bufs + 1) src = Some (Returns
          (map (\<lambda>b. (GST_FLOW_OK, Some (bf_bytes b), gl_caps_from_string G (bf_caps b))) bufs @
           [(GST_FLOW_EOS, None, c)]))))"
proof -
  note started = start_streams [OF assms(5)]
  have good: "list_all (sendable L) bufs" using assms(6) by (simp add: list_all_iff)
  obtain ps t' s2 where r: "render_all L start_span E S (map (\<lambda>b. (Some now, b)) bufs) t s1 =
      Returns (replicate (length bufs) GST_FLOW_OK, t', s2)"
      "streaming_sink (map (\<lambda>p. CallWrite p True) ps) s2" "list_all2 (carries_buffer L) bufs ps"
    using render_all_streams [OF assms(1,4) good started [THEN conjunct1], unfolded append_Nil] by blast
  obtain eos s3 where e: "ais_sink_stop L (Some now) start_span E S t' s2 = Returns (True, s3, [],
      map (\<lambda>p. CallWrite p True) ps @ [CallWrite eos True, CallWritesDone (sv_writes_done S), CallFinish (sv_finish S)])"
      "\<And>q. same_content eos q \<Longrightarrow> AIS_IsEos L q True = Returns (True, Some ''Sender sent EOS'')"
    using stop_sends_eos [OF assms(1,2,4) r(2)] by blast
  have keys: "map IsKeyFrame ps = map (\<lambda>b. \<not> bf_delta_unit b) bufs"
    using r(3) by (induction rule: list_all2_induct) (simp_all add: carries_buffer_def)
  have created: "\<exists>c. create_all L G P (length bufs + 1) src = Some (Returns
      (map (\<lambda>b. (GST_FLOW_OK, Some (bf_bytes b), gl_caps_from_string G (bf_caps b))) bufs @ [(GST_FLOW_EOS, None, c)]))"
    if qs: "list_all2 same_content (ps @ [eos]) qs" "waiting_src qs src" for qs src
  proof -
    obtain qs' q where "qs = qs' @ [q]" "list_all2 same_content ps qs'" "same_content eos q"
      using qs(1) by (auto simp: list_all2_append1 list_all2_Cons1)
    with qs(2) show ?thesis
      using create_all_gives_stream [OF assms(3) e(2) assms(6) r(3)] by blast
  qed
  have calls: "map (\<lambda>p. CallWrite p True) ps @ [CallWrite eos True, CallWritesDone (sv_writes_done S), CallFinish (sv_finish S)] =
      map (\<lambda>p. CallWrite p True) (ps @ [eos]) @ [CallWritesDone (sv_writes_done S), CallFinish (sv_finish S)]"
    by simp
  show ?thesis
    by (rule exI [of _ t'], rule exI [of _ s2], rule exI [of _ s3], rule exI, rule exI [of _ ps], rule exI [of _ eos],
        rule conjI [OF r(1)], rule conjI [OF e(1)], rule conjI [OF calls], rule conjI [OF keys])
       (use created in blast)
qed

text \<open>A gstreamer whose new buffers are filled with x.\<close>

definition plain_pads :: gst_pads where
  "plain_pads = \<lparr>gp_caps_is_equal = (\<lambda>c d. d = Some c), gp_set_caps = (\<lambda>c _. c),
     gp_alloc = (\<lambda>n. Some (replicate (unat n) (CHR ''x''))), gp_map = (\<lambda>_. True)\<rparr>"

definition plugin_lib :: proto_lib where
  "plugin_lib = table_lib [GstreamerBufferPacketTypeDescriptor ''wh'', GstreamerBufferPacketTypeDescriptor ''wwh'',
     ControlSignalPacketTypeDescriptor CONTROL_SIGNAL_EOS, EosValue ''Sender sent EOS'']"

definition steady_server :: send_server where
  "steady_server = flaky_server\<lparr>sv_write := (\<lambda>_ _. True)\<rparr>"

definition example_sink :: ais_sink where
  "example_sink = fst (ais_sink_set_property SINK_PROP_USE_INSECURE_CHANNEL (GBoolean True) ais_sink_init)"

lemma example_sink_starts:
  "\<exists>s1. ais_sink_start example_env steady_server example_sink = Returns (True, s1, [])"
proof -
  have opts: "element_options [] False True ''aistreams.googleapis.com'' [] = Returns insecure_options"
    by (simp add: element_options_def AIS_SetSslRootCertPath_def string_of_cstr_def AIS_SetSslDomainName_def
        AIS_SetUseInsecureChannel_def AIS_SetAuthenticateWithGoogle_def AIS_SetTargetAddress_def
        AIS_NewConnectionOptions_def guchar_def ToString_def insecure_options_def default_connection_options_def
        del: outcome_bind_Returns_iff)
  let ?o = "default_sender_options\<lparr>pso_connection_options := insecure_options\<rparr>"
  obtain x where "PacketSender_Create example_env steady_server ?o = Returns (Inr x)"
    using insecure_sender_created [of steady_server] by (auto simp: steady_server_def flaky_server_def)
  then have "AIS_NewSender example_env steady_server insecure_options (Some []) 0 =
      Returns (Some \<lparr>as_packet_sender = Some x\<rparr>, OkStatus)"
    by (simp add: AIS_NewSender_def MakePacketSender_def ToString_def default_sender_options_def
        del: outcome_bind_Returns_iff)
  with opts show ?thesis
    by (simp add: ais_sink_start_def example_sink_def ais_sink_init_def Let_def del: outcome_bind_Returns_iff)
qed

theorem sink_to_source_witness:
  "\<exists>s1 t' s2 ps eos.
    ais_sink_start example_env steady_server example_sink = Returns (True, s1, []) \<and>
    render_all plugin_lib (\<lambda>_ _. ''trace'') example_env steady_server
      [(Some (1, 2), \<lparr>bf_mapped = True, bf_bytes = ''abc'', bf_delta_unit = False, bf_caps = ''wh''\<rparr>),
       (Some (1, 2), \<lparr>bf_mapped = True, bf_bytes = [], bf_delta_unit = True, bf_caps = ''wwh''\<rparr>)]
      \<lparr>ts_samplers = (\<lambda>_. None), ts_spans = 0\<rparr> s1 = Returns ([GST_FLOW_OK, GST_FLOW_OK], t', s2) \<and>
    map IsKeyFrame ps = [True, False] \<and>
    (\<forall>src. waiting_src (ps @ [eos]) src \<longrightarrow>
      (\<exists>c. create_all plugin_lib unary_gst plain_pads 3 src = Some (Returns
         [(GST_FLOW_OK, Some ''abc'', gl_caps_from_string unary_gst ''wh''),
          (GST_FLOW_OK, Some [], gl_caps_from_string unary_gst ''wwh''), (GST_FLOW_EOS, None, c)])))"
proof -
  let ?b = "\<lparr>bf_mapped = True, bf_bytes = ''abc'', bf_delta_unit = False, bf_caps = ''wh''\<rparr>"
  let ?c = "\<lparr>bf_mapped = True, bf_bytes = [], bf_delta_unit = True, bf_caps = ''wwh''\<rparr>"
  obtain s1 where s1: "ais_sink_start example_env steady_server example_sink = Returns (True, s1, [])"
    using example_sink_starts by blast
  have L: "proto_laws plugin_lib" by (simp only: plugin_lib_def table_lib_laws)
  have eos: "eos_wf plugin_lib (Eos ''Sender sent EOS'')"
    by (simp add: eos_wf_def plugin_lib_def table_lib_def)
  have P: "gst_pads_ok plain_pads"
    by (auto simp: gst_pads_ok_def plain_pads_def)
  have S: "sv_write steady_server n p" for n p by (simp add: steady_server_def)
  have bufs: "list_all (\<lambda>b. sendable plugin_lib b \<and> gl_caps_from_string unary_gst (bf_caps b) \<noteq> None) [?b, ?c]"
    by (simp add: sendable_def gst_wf_def buffer_of_def plugin_lib_def table_lib_def unary_gst_def Let_def)
  have same: "list_all2 same_content ps ps" for ps
    by (simp add: list.rel_refl)
  from sink_to_source [OF L eos P S s1 bufs, of "\<lambda>_ _. ''trace''" "(1, 2)" "\<lparr>ts_samplers = (\<lambda>_. None), ts_spans = 0\<rparr>"]
  obtain t' s2 ps e where w: "render_all plugin_lib (\<lambda>_ _. ''trace'') example_env steady_server
      (map (\<lambda>b. (Some (1, 2), b)) [?b, ?c]) \<lparr>ts_samplers = (\<lambda>_. None), ts_spans = 0\<rparr> s1 =
      Returns (replicate (length [?b, ?c]) GST_FLOW_OK, t', s2)"
    "map IsKeyFrame ps = map (\<lambda>b. \<not> bf_delta_unit b) [?b, ?c]"
    "\<And>qs src. list_all2 same_content (ps @ [e]) qs \<and> waiting_src qs src \<Longrightarrow>
       (\<exists>c. create_all plugin_lib unary_gst plain_pads (length [?b, ?c] + 1) src = Some (Returns
          (map (\<lambda>b. (GST_FLOW_OK, Some (bf_bytes b), gl_caps_from_string unary_gst (bf_caps b))) [?b, ?c] @
           [(GST_FLOW_EOS, None, c)])))"
    by blast
  have "\<exists>c. create_all plugin_lib unary_gst plain_pads 3 src = Some (Returns
         [(GST_FLOW_OK, Some ''abc'', gl_caps_from_string unary_gst ''wh''),
          (GST_FLOW_OK, Some [], gl_caps_from_string unary_gst ''wwh''), (GST_FLOW_EOS, None, c)])"
    if "waiting_src (ps @ [e]) src" for src
    using w(3) [of "ps @ [e]" src] that same by (simp add: eval_nat_numeral del: create_all.simps)
  moreover have "map IsKeyFrame ps = [True, False]" using w(2) by simp
  moreover have "render_all plugin_lib (\<lambda>_ _. ''trace'') example_env steady_server [(Some (1, 2), ?b), (Some (1, 2), ?c)]
      \<lparr>ts_samplers = (\<lambda>_. None), ts_spans = 0\<rparr> s1 = Returns ([GST_FLOW_OK, GST_FLOW_OK], t', s2)"
    using w(1) by (simp add: eval_nat_numeral del: render_all.simps)
  ultimately show ?thesis
    using s1
    by (intro exI [of _ s1] exI [of _ t'] exI [of _ s2], intro exI [of _ ps], intro exI [of _ e])
       (intro conjI allI impI; assumption?; blast?)
qed

section \<open>Failures\<close>

text \<open>A packet that is no buffer is reported as an error, but the flow is OK and there is no buffer.\<close>

lemma inconvertible_packet_gives_no_buffer:
  assumes "packet_type_of q = PACKET_TYPE_STRING" and "waiting_src (q # qs) s"
  shows "\<exists>r m. ais_src_create L G P wakes s = Some (Returns r) \<and> cr_flow r = GST_FLOW_OK \<and> cr_outbuf r = None \<and>
    cr_events r = [PostError m]"
proof -
  have "AIS_IsEos L q True = Returns (False, Some [])"
    using assms(1) by (simp add: AIS_IsEos_def IsEos_reason_def GetControlSignalTypeId_def IsControlSignal_def
        GetPacketTypeId_def c_str_def del: outcome_bind_Returns_iff)
  moreover obtain st where "AIS_ToGstreamerBuffer L G q = Returns (None, st)"
    using assms(1) by (simp add: AIS_ToGstreamerBuffer_def ToGstreamerBuffer_packet_def GetPacketTypeId_def
        del: outcome_bind_Returns_iff)
  ultimately show ?thesis
    using assms(2)
    by (auto simp: waiting_src_def ais_src_create_def object_def deref_def AIS_NewPacket_def receive_waiting
        ToString_def Let_def simp del: outcome_bind_Returns_iff)
qed

text \<open>A new buffer that cannot be mapped is passed on as it was allocated.\<close>

lemma unmapped_buffer_passed_on:
  assumes "gp_alloc P (AIS_GstreamerBufferSize b) = Some memory" and "\<not> gp_map P memory"
  shows "\<exists>r'. create_from_buffer G P b r = Returns r' \<and> cr_flow r' = cr_flow r \<and> cr_outbuf r' = Some memory"
  using assms by (simp add: create_from_buffer_def Let_def)

lemma create_from_buffer_leaked:
  assumes "create_from_buffer G P b r = Returns r'"
  shows "cr_leaked r' = cr_leaked r"
proof (cases "gp_alloc P (AIS_GstreamerBufferSize b)")
  case None
  with assms show ?thesis by (auto simp: create_from_buffer_def Let_def)
next
  case (Some memory)
  with assms show ?thesis
    by (cases "gp_map P memory")
       (auto simp: create_from_buffer_def Let_def AIS_GstreamerBufferCopyTo_def split: if_splits)
qed

text \<open>The text behind \<open>reason\<close> is freed at the end of the stream only.\<close>

lemma reason_leaked_per_buffer:
  assumes "carries_buffer L buf p" and "waiting_src (p # qs) s"
    and "ais_src_create L G P wakes s = Some (Returns r)"
  shows "cr_leaked r = [[]]"
proof -
  have "AIS_IsEos L p True = Returns (False, Some [])"
      "AIS_ToGstreamerBuffer L G p = Returns (Some (buffer_of buf), OkStatus)"
    using assms(1) same_content_refl by (auto simp: carries_buffer_def)
  then show ?thesis
    using assms(2,3) create_from_buffer_leaked
    by (force simp: waiting_src_def ais_src_create_def object_def deref_def AIS_NewPacket_def receive_waiting
        ToString_def Let_def simp del: outcome_bind_Returns_iff)
qed

text \<open>After a stop the pointers dangle: text properties are refused, although nothing is connected.\<close>

lemma stopped_sink_refuses:
  assumes "ais_sink_stop L now start_span E S t s = Returns (True, s', events, calls)"
  shows "sk_sender s' = Freed \<and> ais_sink_set_property SINK_PROP_STREAM_NAME v s' = (s', [])"
proof -
  have "sk_sender s' = Freed"
    using assms by (auto simp: ais_sink_stop_def)
  then show ?thesis by (simp add: ais_sink_set_stream_name_def)
qed

lemma new_sink_keeps_properties:
  "ais_sink_get_property SINK_PROP_STREAM_NAME
     (fst (ais_sink_set_property SINK_PROP_STREAM_NAME (GString (Some n)) ais_sink_init)) = (Some (GString (Some n)), [])"
  by (simp add: ais_sink_set_stream_name_def ais_sink_init_def ToString_def)

text \<open>The declared default of the domain name is not the one the element has.\<close>

lemma declared_default_differs:
  "(''ssl-domain-name'', SINK_PROP_SSL_DOMAIN_NAME, GString None) \<in> set ais_sink_properties"
  "fst (ais_sink_get_property SINK_PROP_SSL_DOMAIN_NAME ais_sink_init) = Some (GString (Some ''aistreams.googleapis.com''))"
  by (simp_all add: ais_sink_properties_def ais_sink_init_def)

text \<open>GObject may dispose an object more than once.\<close>

lemma second_dispose_frees_again:
  "is_fatal (outcome_bind (ais_sink_dispose (sink_texts s)) ais_sink_dispose)"
  "is_fatal (outcome_bind (ais_src_dispose (src_texts r)) ais_src_dispose)"
  by (simp_all add: ais_sink_dispose_def sink_texts_def ais_src_dispose_def src_texts_def)

text \<open>A start that failed leaves the status and the options behind, which the next start overwrites.\<close>

lemma failed_start_leaves_objects:
  assumes "ais_sink_start E S s = Returns (False, s1, events)"
  shows "sk_sender s1 = NullPtr \<and> (\<exists>st. sk_status s1 = Live st) \<and> (\<exists>o'. sk_options s1 = Live o')"
  using assms by (auto simp: ais_sink_start_def Let_def split: if_splits)

end
