(* ===== verification/Ppm_Files.thy ===== *)
theory Ppm_Files
  imports Raw_Image File_Path
begin

text \<open>
  \<open>base/util/raw_image_utils.cc\<close>: writing a raw image to a PPM file and reading one back.

  An \<open>istringstream\<close> is its text with a position and the bits \<open>eof\<close> and \<open>fail\<close>. The extractions are those of
  the standard in the C locale: nothing is extracted unless the stream is good, leading white space is
  skipped, and reading up to the end of the text sets \<open>eof\<close>.
\<close>

section \<open>Input streams\<close>

record istream =
  is_text :: string
  is_pos :: nat
  is_eof :: bool
  is_fail :: bool

definition istringstream :: "string \<Rightarrow> istream" where
  "istringstream s = \<lparr>is_text = s, is_pos = 0, is_eof = False, is_fail = False\<rparr>"

definition is_rest :: "istream \<Rightarrow> string" where
  "is_rest i = drop (is_pos i) (is_text i)"

text \<open>\<open>isspace\<close> of the C locale.\<close>

definition is_space :: "char \<Rightarrow> bool" where
  "is_space c \<longleftrightarrow> c = CHR '' '' \<or> (9 \<le> (of_char c :: nat) \<and> (of_char c :: nat) \<le> 13)"

text \<open>The sentry of a formatted input: whether to go on, and the stream.\<close>

definition sentry :: "istream \<Rightarrow> bool \<times> istream" where
  "sentry i =
     (if is_eof i \<or> is_fail i then (False, i\<lparr>is_fail := True\<rparr>)
      else (let blanks = length (takeWhile is_space (is_rest i));
                i' = i\<lparr>is_pos := is_pos i + blanks\<rparr>
            in if is_rest i' = [] then (False, i'\<lparr>is_eof := True, is_fail := True\<rparr>) else (True, i')))"

definition read_string :: "istream \<Rightarrow> string \<Rightarrow> string \<times> istream" where
  "read_string i old = (case sentry i of
      (False, i') \<Rightarrow> (old, i')
    | (True, i') \<Rightarrow>
        (let word = takeWhile (\<lambda>c. \<not> is_space c) (is_rest i');
             i'' = i'\<lparr>is_pos := is_pos i' + length word\<rparr>
         in (word, i''\<lparr>is_eof := is_rest i'' = []\<rparr>)))"

definition digit_value :: "char \<Rightarrow> int" where
  "digit_value c = int (of_char c) - 48"

fun digits_value :: "int \<Rightarrow> string \<Rightarrow> int" where
  "digits_value n [] = n"
| "digits_value n (c # cs) = digits_value (10 * n + digit_value c) cs"

text \<open>
  \<open>operator>>(int&)\<close>: an optional sign and decimal digits. No digit stores 0, a number out of range the
  nearest \<open>int\<close>, and both fail.
\<close>

definition sign_of :: "string \<Rightarrow> string" where
  "sign_of s = (case s of c # cs \<Rightarrow> if c = CHR ''-'' \<or> c = CHR ''+'' then [c] else [] | [] \<Rightarrow> [])"

definition read_int :: "istream \<Rightarrow> int32 \<Rightarrow> int32 \<times> istream" where
  "read_int i old = (case sentry i of
      (False, i') \<Rightarrow> (old, i')
    | (True, i') \<Rightarrow>
        (let sign = sign_of (is_rest i');
             digits = takeWhile is_digit (drop (length sign) (is_rest i'));
             n = (if sign = ''-'' then - digits_value 0 digits else digits_value 0 digits);
             i'' = i'\<lparr>is_pos := is_pos i' + length sign + length digits\<rparr>;
             i3 = i''\<lparr>is_eof := is_rest i'' = []\<rparr>
         in if digits = [] then (0, i3\<lparr>is_fail := True\<rparr>)
            else if n < - 2147483648 then (word_of_int (- 2147483648), i3\<lparr>is_fail := True\<rparr>)
            else if int_max < n then (word_of_int int_max, i3\<lparr>is_fail := True\<rparr>)
            else (word_of_int n, i3)))"

text \<open>\<open>tellg\<close>, whose sentry skips nothing: -1 on a stream that is not good.\<close>

definition tellg :: "istream \<Rightarrow> int" where
  "tellg i = (if is_eof i \<or> is_fail i then - 1 else int (is_pos i))"

section \<open>PPM files\<close>

definition ppm_header :: "raw_image \<Rightarrow> string" where
  "ppm_header img = ''P6'' @ [CHR 0x0A] @ show_int (sint (ri_width img)) @ '' '' @ show_int (sint (ri_height img)) @
     [CHR 0x0A] @ ''255'' @ [CHR 0x0A]"

definition ToPpmFile ::
    "(string \<Rightarrow> string) \<Rightarrow> bool \<Rightarrow> bool \<Rightarrow> file_system \<Rightarrow> string \<Rightarrow> raw_image \<Rightarrow> status \<times> file_system" where
  "ToPpmFile written close_ok stale fs file_name raw_image =
     (let file_contents = ppm_header raw_image @ take (ri_size raw_image) (ri_data raw_image)
      in SetContents written close_ok stale fs file_name file_contents)"

text \<open>
  \<open>garbage\<close>: what the uninitialised integers hold. The status and what \<open>dst\<close> points to afterwards;
  \<open>substr\<close> of a position past the end throws, and nothing catches that.
\<close>

definition ppm_read_header :: "int32 \<Rightarrow> string \<Rightarrow> string \<times> int32 \<times> int32 \<times> int32 \<times> istream" where
  "ppm_read_header garbage file_contents =
     (case read_string (istringstream file_contents) [] of (ppm_version, i1) \<Rightarrow>
      case read_int i1 garbage of (width, i2) \<Rightarrow>
      case read_int i2 garbage of (height, i3) \<Rightarrow>
      case read_int i3 garbage of (max_color_value, i4) \<Rightarrow>
        (ppm_version, width, height, max_color_value, i4))"

definition FromPpmFile ::
    "int32 \<Rightarrow> file_system \<Rightarrow> string \<Rightarrow> raw_image \<Rightarrow> (status \<times> raw_image) outcome" where
  "FromPpmFile garbage fs file_name dst =
     (case GetContents fs file_name [] of (status, file_contents) \<Rightarrow>
      if \<not> status_ok status
      then Returns (InvalidArgumentError (''Failed to get contents from file '' @ file_name), dst)
      else (case ppm_read_header garbage file_contents of
        (ppm_version, width, height, max_color_value, i) \<Rightarrow>
          if is_fail i
          then Returns (InvalidArgumentError (''Failed to read the PPM file header from '' @ file_name @
                 '' (is it written with ToPpmFile?)''), dst)
          else (let position = tellg i + 1 in
            if int (length file_contents) < position then Fatal ''std::out_of_range''
            else outcome_bind
              (RawImage_bytes \<lparr>rid_format = RAW_IMAGE_FORMAT_SRGB, rid_height = height, rid_width = width\<rparr>
                 (drop (nat position) file_contents))
              (\<lambda>img. Returns (OkStatus, img)))))"

section \<open>Reading what was written\<close>

lemma digits_value_snoc: "digits_value n (s @ [c]) = 10 * digits_value n s + digit_value c"
  by (induction s arbitrary: n) simp_all

lemma digits_value_show_nat: "digits_value 0 (show_nat n) = int n"
proof (induction n rule: show_nat.induct)
  case (1 n)
  show ?case
  proof (cases "n < 10")
    case True
    then show ?thesis by (simp add: show_nat.simps [of n] digit_value_def of_char_digit_char)
  next
    case False
    have "10 * int (n div 10) + int (n mod 10) = int n" by (simp add: zdiv_int zmod_int)
    with 1 False show ?thesis
      by (simp add: show_nat.simps [of n] digits_value_snoc digit_value_def of_char_digit_char)
  qed
qed

lemma digit_no_space: "is_digit c \<Longrightarrow> \<not> is_space c"
  by (auto simp: is_digit_def is_space_def)

lemma digit_no_sign: "is_digit c \<Longrightarrow> c \<noteq> CHR ''-'' \<and> c \<noteq> CHR ''+''"
  by (auto simp: is_digit_def)

lemma takeWhile_until: "\<forall>x \<in> set xs. P x \<Longrightarrow> \<not> P y \<Longrightarrow> takeWhile P (xs @ y # ys) = xs"
  by (simp add: takeWhile_append2)

lemma is_rest_advance:
  assumes "is_rest i = xs @ ys"
  shows "is_rest (i\<lparr>is_pos := is_pos i + length xs\<rparr>) = ys"
proof -
  have "drop (is_pos i + length xs) (is_text i) = drop (length xs) (drop (is_pos i) (is_text i))"
    by (simp add: add.commute)
  also have "\<dots> = ys" using assms by (simp add: is_rest_def)
  finally show ?thesis by (simp add: is_rest_def)
qed

text \<open>Skipping blanks before a character that is none.\<close>

lemma sentry_skips:
  assumes "\<not> is_eof i" "\<not> is_fail i" "is_rest i = ws @ c # cs" "\<forall>x \<in> set ws. is_space x" "\<not> is_space c"
  shows "sentry i = (True, i\<lparr>is_pos := is_pos i + length ws\<rparr>)"
    and "is_rest (i\<lparr>is_pos := is_pos i + length ws\<rparr>) = c # cs"
proof -
  show r: "is_rest (i\<lparr>is_pos := is_pos i + length ws\<rparr>) = c # cs"
    using is_rest_advance [OF assms(3)] .
  have "takeWhile is_space (is_rest i) = ws"
    using assms(3,4,5) by (simp add: takeWhile_until)
  with r assms(1,2) show "sentry i = (True, i\<lparr>is_pos := is_pos i + length ws\<rparr>)"
    by (simp add: sentry_def Let_def)
qed

lemma read_int_number:
  assumes "\<not> is_eof i" "\<not> is_fail i" "is_rest i = ws @ show_nat n @ c # cs" "\<forall>x \<in> set ws. is_space x"
    and "\<not> is_digit c" and "int n \<le> int_max"
  shows "read_int i old = (word_of_int (int n), i\<lparr>is_pos := is_pos i + length ws + length (show_nat n)\<rparr>)"
    and "is_rest (i\<lparr>is_pos := is_pos i + length ws + length (show_nat n)\<rparr>) = c # cs"
proof -
  obtain d ds where d: "show_nat n = d # ds" by (cases "show_nat n") auto
  then have dig: "is_digit d" using show_nat_digits [of d n] by simp
  let ?i = "i\<lparr>is_pos := is_pos i + length ws\<rparr>"
  have s: "sentry i = (True, ?i)" and r: "is_rest ?i = show_nat n @ c # cs"
    using sentry_skips [OF assms(1,2), of ws d "ds @ c # cs"] assms(3,4) d digit_no_space [OF dig] by simp_all
  have sign: "sign_of (is_rest ?i) = []"
    using r d digit_no_sign [OF dig] by (simp add: sign_of_def)
  have digits: "takeWhile is_digit (is_rest ?i) = show_nat n"
    using r assms(5) show_nat_digits by (simp add: takeWhile_until)
  show "is_rest (i\<lparr>is_pos := is_pos i + length ws + length (show_nat n)\<rparr>) = c # cs"
    using is_rest_advance [OF r] by simp
  then show "read_int i old = (word_of_int (int n), i\<lparr>is_pos := is_pos i + length ws + length (show_nat n)\<rparr>)"
    using s sign digits assms(1,6) digits_value_show_nat [of n]
    by (simp add: read_int_def Let_def)
qed

text \<open>The header of any file that starts like one written by \<open>ToPpmFile\<close>.\<close>

lemma ppm_header_read:
  assumes "int w \<le> int_max" "int h \<le> int_max" "int m \<le> int_max"
    and "s = ''P6'' @ [CHR 0x0A] @ show_nat w @ '' '' @ show_nat h @ [CHR 0x0A] @ show_nat m @ [CHR 0x0A] @ body"
  shows "\<exists>i. ppm_read_header g s = (''P6'', word_of_int (int w), word_of_int (int h), word_of_int (int m), i) \<and>
    \<not> is_fail i \<and> tellg i + 1 = int (length s - length body) \<and> drop (length s - length body) s = body"
proof -
  let ?nl = "CHR 0x0A"
  have nl: "is_space ?nl" "\<not> is_digit ?nl" "is_space (CHR '' '')" "\<not> is_digit (CHR '' '')"
    by (simp_all add: is_space_def is_digit_def)
  let ?i0 = "istringstream s"
  have r0: "is_rest ?i0 = [] @ CHR ''P'' # (CHR ''6'' # ?nl # show_nat w @ '' '' @ show_nat h @ [?nl] @ show_nat m @ [?nl] @ body)"
    by (simp add: istringstream_def is_rest_def assms(4))
  have p: "\<not> is_space (CHR ''P'')" "\<not> is_space (CHR ''6'')" by (simp_all add: is_space_def)
  let ?i1 = "?i0\<lparr>is_pos := 2\<rparr>"
  have r1: "is_rest ?i1 = [?nl] @ show_nat w @ CHR '' '' # (show_nat h @ [?nl] @ show_nat m @ [?nl] @ body)"
    by (simp add: istringstream_def is_rest_def assms(4))
  have i1: "read_string ?i0 [] = (''P6'', ?i1)"
    using sentry_skips [OF _ _ r0] p nl r1 r0
    by (simp add: read_string_def Let_def istringstream_def is_rest_def numeral_2_eq_2)
  note w = read_int_number(1) [OF _ _ r1 _ nl(4) assms(1), of g] read_int_number(2) [OF _ _ r1 _ nl(4) assms(1)]
  let ?i2 = "?i1\<lparr>is_pos := is_pos ?i1 + 1 + length (show_nat w)\<rparr>"
  have i2: "read_int ?i1 g = (word_of_int (int w), ?i2)"
    and r2: "is_rest ?i2 = '' '' @ show_nat h @ ?nl # (show_nat m @ [?nl] @ body)"
    using w nl by (simp_all add: istringstream_def)
  note h = read_int_number(1) [OF _ _ r2 _ nl(2) assms(2), of g] read_int_number(2) [OF _ _ r2 _ nl(2) assms(2)]
  let ?i3 = "?i2\<lparr>is_pos := is_pos ?i2 + 1 + length (show_nat h)\<rparr>"
  have i3: "read_int ?i2 g = (word_of_int (int h), ?i3)"
    and r3: "is_rest ?i3 = [?nl] @ show_nat m @ ?nl # body"
    using h nl by (simp_all add: istringstream_def)
  note m = read_int_number(1) [OF _ _ r3 _ nl(2) assms(3), of g] read_int_number(2) [OF _ _ r3 _ nl(2) assms(3)]
  let ?i4 = "?i3\<lparr>is_pos := is_pos ?i3 + 1 + length (show_nat m)\<rparr>"
  have i4: "read_int ?i3 g = (word_of_int (int m), ?i4)"
    using m nl by (simp_all add: istringstream_def)
  have "tellg ?i4 + 1 = int (length s - length body)"
    by (simp add: tellg_def istringstream_def assms(4))
  moreover obtain hdr where "s = hdr @ body" using assms(4) by (metis append.assoc)
  then have "drop (length s - length body) s = body" by simp
  moreover have "\<not> is_fail ?i4" by (simp add: istringstream_def)
  ultimately show ?thesis using i1 i2 i3 i4 by (simp add: ppm_read_header_def)
qed

lemma show_int_nonneg: "0 \<le> sint a \<Longrightarrow> show_int (sint a) = show_nat (nat (sint a))"
  by (simp add: show_int_def)

text \<open>A file of this form with the right number of bytes is read, whatever its version and maximal colour.\<close>

lemma ppm_file_read:
  assumes "desc_ok d" "rid_format d = RAW_IMAGE_FORMAT_SRGB" "GetContents fs name [] = (OkStatus, s)"
    and "s = ''P6'' @ [CHR 0x0A] @ show_int (sint (rid_width d)) @ '' '' @ show_int (sint (rid_height d)) @ [CHR 0x0A] @
           ''255'' @ [CHR 0x0A] @ body"
  shows "FromPpmFile g fs name dst = outcome_bind (RawImage_bytes d body) (\<lambda>img. Returns (OkStatus, img))"
proof -
  let ?w = "nat (sint (rid_width d))" and ?h = "nat (sint (rid_height d))"
  have w: "0 \<le> sint (rid_width d)" "0 \<le> sint (rid_height d)" using assms(1) by (simp_all add: desc_ok_def)
  have max: "int ?w \<le> int_max" "int ?h \<le> int_max" "int 255 \<le> int_max"
    using w sint_int32_bounds(2) [of "rid_width d"] sint_int32_bounds(2) [of "rid_height d"]
    by (simp_all add: int_max_def)
  have m: "''255'' = show_nat 255"
    by (simp add: show_nat.simps [of 255] show_nat.simps [of 25] show_nat.simps [of 2] digit_char_def)
  have s: "s = ''P6'' @ [CHR 0x0A] @ show_nat ?w @ '' '' @ show_nat ?h @ [CHR 0x0A] @ show_nat 255 @ [CHR 0x0A] @ body"
    using assms(4) w unfolding m by (simp add: show_int_nonneg)
  have words: "(word_of_int (int ?w) :: int32) = rid_width d" "(word_of_int (int ?h) :: int32) = rid_height d"
    using w by simp_all
  obtain i where i: "ppm_read_header g s = (''P6'', rid_width d, rid_height d, word_of_int 255, i)" "\<not> is_fail i"
      "tellg i + 1 = int (length s - length body)" "drop (length s - length body) s = body"
    using ppm_header_read [OF max s, of g] unfolding words by auto
  have "d = \<lparr>rid_format = RAW_IMAGE_FORMAT_SRGB, rid_height = rid_height d, rid_width = rid_width d\<rparr>"
    using assms(2) by simp
  moreover have "\<not> length s < length s - length body" by simp
  ultimately show ?thesis
    using i assms(3) by (simp add: FromPpmFile_def Let_def del: outcome_bind_Returns_iff)
qed

lemma written_file_read:
  assumes "fs_writable fs (c_str name)" "fs_readable fs (c_str name)" "fs_searchable fs (c_str name)"
  shows "\<exists>fs'. SetContents id True False fs name s = (OkStatus, fs') \<and> GetContents fs' name [] = (OkStatus, s)"
  using assms by (simp add: SetContents_def GetContents_def fopen_read_def Let_def read_loop_good)

lemma sentry_text: "is_text (snd (sentry i)) = is_text i"
  by (simp add: sentry_def Let_def)

lemma read_int_end:
  assumes "read_int i old = (n, i')"
  shows "is_text i' = is_text i \<and> (is_fail i' \<or> is_eof i' \<or> is_pos i' < length (is_text i))"
proof (cases "sentry i")
  case (Pair ok j)
  with sentry_text [of i] have j: "is_text j = is_text i" by simp
  show ?thesis
  proof (cases ok)
    case True
    with Pair j assms show ?thesis
      by (auto simp: read_int_def Let_def is_rest_def split: if_splits)
  next
    case False
    with Pair assms j show ?thesis
      by (auto simp: read_int_def sentry_def Let_def split: if_splits)
  qed
qed

lemma read_string_text: "is_text (snd (read_string i old)) = is_text i"
  using sentry_text [of i] by (auto simp: read_string_def Let_def split: prod.split bool.split)

lemma ppm_position_in_file:
  assumes "ppm_read_header g s = (v, w, h, m, i)" "\<not> is_fail i"
  shows "tellg i + 1 \<le> int (length s)"
proof -
  obtain v1 i1 w1 i2 h1 i3 m1 where r: "read_string (istringstream s) [] = (v1, i1)" "read_int i1 g = (w1, i2)"
      "read_int i2 g = (h1, i3)" "read_int i3 g = (m1, i)"
    using assms(1) by (auto simp: ppm_read_header_def split: prod.splits)
  have "is_text i1 = s"
    using read_string_text [of "istringstream s" "[]"] r(1) by (simp add: istringstream_def)
  with read_int_end [OF r(2)] read_int_end [OF r(3)] read_int_end [OF r(4)] assms(2) show ?thesis
    by (auto simp: tellg_def)
qed

lemma RawImage_bytes_inv:
  assumes "RawImage_bytes d s = Returns img"
  shows "raw_image_inv img \<and> descriptor_of_image img = d"
proof (cases "desc_ok d")
  case True
  then obtain n where n: "GetBufferSize d = Inr n" "sint n = pixel_bytes d" using GetBufferSize_ok by blast
  have "0 \<le> pixel_bytes d"
    using True sint_num_channels [of "rid_format d"] by (auto simp: desc_ok_def pixel_bytes_def)
  moreover have "descriptor_of_image img = d"
    using assms by (cases d) (auto simp: RawImage_bytes_def descriptor_of_image_def split: if_splits sum.splits)
  moreover have "ri_channels img = GetNumChannels (ri_format img)" "size_of_int n = length (ri_data img)"
    using n assms by (auto simp: RawImage_bytes_def split: if_splits)
  ultimately show ?thesis using n True by (simp add: raw_image_inv_def size_of_int_nat)
next
  case False
  from GetBufferSize_error [OF this] assms show ?thesis by (auto simp: RawImage_bytes_def split: if_splits)
qed

lemma invalid_argument_text:
  "IsInvalidArgument st \<Longrightarrow> \<exists>m. status_ToString st = CHR ''I'' # m"
  by (cases st) (auto simp: IsInvalidArgument_def status_ToString_def status_code_of_def status_ok_def
      split: option.splits)

lemma Validate_error: "\<not> status_ok (Validate d) \<Longrightarrow> IsInvalidArgument (Validate d)"
  by (auto simp: Validate_def)

lemma RawImage_bytes_fatal:
  assumes "RawImage_bytes d s = Fatal e"
  shows "e \<noteq> ''std::out_of_range''"
proof (cases "GetBufferSize d")
  case (Inl st)
  then have "IsInvalidArgument st" using GetBufferSize_ok [of d] GetBufferSize_error [of d] by auto
  with Inl assms show ?thesis
    using invalid_argument_text [of st] invalid_argument_text [OF Validate_error [of d]]
    by (auto simp: RawImage_bytes_def split: if_splits)
next
  case (Inr n)
  with assms show ?thesis
    using invalid_argument_text [OF Validate_error [of d]] by (auto simp: RawImage_bytes_def split: if_splits)
qed

lemma ppm_read_any:
  "case FromPpmFile g fs name dst of
     Returns (st, img) \<Rightarrow> if status_ok st then raw_image_inv img \<and> ri_format img = RAW_IMAGE_FORMAT_SRGB
                         else IsInvalidArgument st \<and> img = dst
   | Fatal e \<Rightarrow> e \<noteq> ''std::out_of_range''"
proof (cases "GetContents fs name []")
  case (Pair st s)
  obtain v w h m i where r: "ppm_read_header g s = (v, w, h, m, i)" by (cases "ppm_read_header g s") auto
  let ?d = "\<lparr>rid_format = RAW_IMAGE_FORMAT_SRGB, rid_height = h, rid_width = w\<rparr>"
  show ?thesis
  proof (cases "status_ok st \<and> \<not> is_fail i")
    case True
    with ppm_position_in_file [OF r] have pos: "tellg i + 1 \<le> int (length s)" by simp
    show ?thesis
    proof (cases "RawImage_bytes ?d (drop (nat (tellg i + 1)) s)")
      case (Returns img)
      with RawImage_bytes_inv [OF this] Pair r True pos show ?thesis
        by (auto simp: FromPpmFile_def Let_def descriptor_of_image_def simp del: outcome_bind_Returns_iff)
    next
      case (Fatal e)
      note RawImage_bytes_fatal [OF this]
      with Fatal Pair r True pos show ?thesis
        by (simp add: FromPpmFile_def Let_def del: outcome_bind_Returns_iff)
    qed
  next
    case False
    with Pair r show ?thesis by (auto simp: FromPpmFile_def Let_def)
  qed
qed

text \<open>
  C24. An image written with \<open>ToPpmFile\<close> is read back by \<open>FromPpmFile\<close>, dimensions and every byte. From any file
  at all \<open>FromPpmFile\<close> gives a valid colour image or an invalid-argument error that leaves the destination
  alone; the position after the header never lies outside of the text.
\<close>

theorem ppm_files_roundtrip:
  assumes "fs_writable fs (c_str name)" "fs_readable fs (c_str name)" "fs_searchable fs (c_str name)"
    and "raw_image_inv img" "ri_format img = RAW_IMAGE_FORMAT_SRGB"
  shows "(\<exists>fs'. ToPpmFile id True False fs name img = (OkStatus, fs') \<and>
            FromPpmFile g fs' name dst = Returns (OkStatus, img)) \<and>
    (case FromPpmFile g fs2 name2 dst of
       Returns (st, img') \<Rightarrow> if status_ok st then raw_image_inv img' \<and> ri_format img' = RAW_IMAGE_FORMAT_SRGB
                            else IsInvalidArgument st \<and> img' = dst
     | Fatal e \<Rightarrow> e \<noteq> ''std::out_of_range'')"
proof -
  let ?d = "descriptor_of_image img"
  have d: "desc_ok ?d" "int (length (ri_data img)) = pixel_bytes ?d" "ri_channels img = GetNumChannels (ri_format img)"
    using assms(4) by (simp_all add: raw_image_inv_def)
  obtain fs' where f: "SetContents id True False fs name (ppm_header img @ ri_data img) = (OkStatus, fs')"
      "GetContents fs' name [] = (OkStatus, ppm_header img @ ri_data img)"
    using written_file_read [OF assms(1,2,3)] by blast
  have "FromPpmFile g fs' name dst = outcome_bind (RawImage_bytes ?d (ri_data img)) (\<lambda>img. Returns (OkStatus, img))"
    using ppm_file_read [OF d(1) _ f(2), of "ri_data img"] assms(5)
    by (simp add: descriptor_of_image_def ppm_header_def)
  also have "\<dots> = Returns (OkStatus, img)"
    using RawImage_bytes_ok [OF d(1,2)] d(3) by (simp add: descriptor_of_image_def del: outcome_bind_Returns_iff)
  finally have "FromPpmFile g fs' name dst = Returns (OkStatus, img)" .
  with f(1) ppm_read_any show ?thesis by (simp add: ToPpmFile_def Let_def ri_size_def)
qed

text \<open>The two texts of the witness share a file system in which everything is allowed.\<close>

theorem ppm_files_roundtrip_witness:
  "\<exists>fs'. ToPpmFile id True False \<lparr>fs_files = (\<lambda>_. None), fs_readable = (\<lambda>_. True), fs_writable = (\<lambda>_. True),
        fs_searchable = (\<lambda>_. True)\<rparr> ''a.ppm'' \<lparr>ri_height = 2, ri_width = 1, ri_channels = 3,
        ri_format = RAW_IMAGE_FORMAT_SRGB, ri_data = ''abcdef''\<rparr> = (OkStatus, fs') \<and>
     FromPpmFile 7 fs' ''a.ppm'' \<lparr>ri_height = 0, ri_width = 0, ri_channels = 3,
        ri_format = RAW_IMAGE_FORMAT_SRGB, ri_data = []\<rparr> =
       Returns (OkStatus, \<lparr>ri_height = 2, ri_width = 1, ri_channels = 3,
        ri_format = RAW_IMAGE_FORMAT_SRGB, ri_data = ''abcdef''\<rparr>)"
proof -
  let ?fs = "\<lparr>fs_files = (\<lambda>_. None), fs_readable = (\<lambda>_. True), fs_writable = (\<lambda>_. True), fs_searchable = (\<lambda>_. True)\<rparr>"
  let ?img = "\<lparr>ri_height = 2, ri_width = 1, ri_channels = 3, ri_format = RAW_IMAGE_FORMAT_SRGB, ri_data = ''abcdef''\<rparr>"
  have "raw_image_inv ?img"
    by (simp add: raw_image_inv_def desc_ok_def pixel_bytes_def descriptor_of_image_def int_max_def)
  from ppm_files_roundtrip [OF _ _ _ this, of ?fs "''a.ppm''"] show ?thesis by auto
qed

section \<open>Where the code falls short\<close>

text \<open>A file whose body has another size than its header says ends the process.\<close>

lemma truncated_ppm_crashes:
  assumes "desc_ok d" "rid_format d = RAW_IMAGE_FORMAT_SRGB" "GetContents fs name [] = (OkStatus, s)"
    and "s = ''P6'' @ [CHR 0x0A] @ show_int (sint (rid_width d)) @ '' '' @ show_int (sint (rid_height d)) @ [CHR 0x0A] @
           ''255'' @ [CHR 0x0A] @ body"
    and "int (length body) \<noteq> pixel_bytes d"
  shows "is_fatal (FromPpmFile g fs name dst)"
proof -
  obtain n where n: "GetBufferSize d = Inr n" "sint n = pixel_bytes d"
    using GetBufferSize_ok [OF assms(1)] by blast
  have "0 \<le> pixel_bytes d"
    using assms(1) sint_num_channels [of "rid_format d"] by (auto simp: desc_ok_def pixel_bytes_def)
  with n assms(5) have "size_of_int n \<noteq> length body" by (simp add: size_of_int_nat)
  with n assms(1) have "\<exists>e. RawImage_bytes d body = Fatal e"
    by (simp add: RawImage_bytes_def Validate_ok_iff desc_ok_def)
  with ppm_file_read [OF assms(1-4)] show ?thesis by auto
qed

text \<open>The version and the maximal colour are read and ignored: this is not a PPM file.\<close>

lemma ppm_magic_ignored:
  "\<exists>i. ppm_read_header g ''GIF 0 0 -7 '' = (''GIF'', 0, 0, - 7, i) \<and> \<not> is_fail i \<and> tellg i + 1 = 11"
  by (simp add: ppm_read_header_def read_string_def read_int_def sentry_def istringstream_def is_rest_def is_space_def
      is_digit_def sign_of_def digit_value_def int_max_def tellg_def Let_def)

text \<open>Without a character after the header the position is not known, and the whole text is taken for the data.\<close>

lemma ppm_header_at_end:
  "\<exists>i. ppm_read_header g ''P6 0 0 255'' = (''P6'', 0, 0, 255, i) \<and> \<not> is_fail i \<and> tellg i + 1 = 0"
  by (simp add: ppm_read_header_def read_string_def read_int_def sentry_def istringstream_def is_rest_def is_space_def
      is_digit_def sign_of_def digit_value_def int_max_def tellg_def Let_def)

end
