(* ===== verification/Gst_Runner.thy ===== *)
theory Gst_Runner
  imports Packet_Sender
begin

text \<open>
  \<open>gstreamer/gstreamer_utils.cc\<close>, \<open>gstreamer_runner.h\<close>, \<open>gstreamer_runner.cc\<close>,
  \<open>gstreamer_raw_image_yielder.h\<close> and \<open>gstreamer_raw_image_yielder.cc\<close>: running a GStreamer
  pipeline, feeding it buffers and receiving what it yields.

  GStreamer is the record \<open>gst_runtime\<close>. What the code asks of it is recorded in the state of the
  runner: the buffers pushed and the events sent. Messages on the bus and new samples come from
  other threads; they are functions on the state that the runtime may call at any time.
\<close>

section \<open>GStreamer\<close>

record gst_runtime =
  gx_init_error :: "string option option"
  gx_parse_error :: "string \<Rightarrow> string option"
  gx_parse_launch :: "string \<Rightarrow> bool"
  gx_has_element :: "string \<Rightarrow> string \<Rightarrow> bool"
  gx_caps_ok :: "string \<Rightarrow> bool"
  gx_play :: "string \<Rightarrow> bool"
  gx_has_bus :: "string \<Rightarrow> bool"
  gx_push_ok :: "nat \<Rightarrow> gstreamer_buffer \<Rightarrow> bool"

text \<open>
  \<open>gx_init_error\<close> is the failure of \<open>gst_init_check\<close> with its error, if it gave one;
  \<open>print_gerror\<close> takes the printed error.
\<close>

definition print_gerror :: "string option \<Rightarrow> string" where
  "print_gerror gerr = (case gerr of None \<Rightarrow> [] | Some e \<Rightarrow> e)"

definition GstInit :: "gst_runtime \<Rightarrow> status" where
  "GstInit X = (case gx_init_error X of
      Some gerr \<Rightarrow> InternalError (print_gerror gerr) | None \<Rightarrow> OkStatus)"

text \<open>
  \<open>GstLaunchPipeline\<close> gives the status and what was done with the pipeline. The thread that
  stops it sends an end of stream after the given time.
\<close>

datatype launch_action =
    SetPlaying
  | StopAfter int
  | AwaitErrorOrEos
  | UnrefMessage
  | UnrefBus
  | SetNull
  | UnrefPipeline

definition GstLaunchPipeline_duration ::
    "gst_runtime \<Rightarrow> bool \<Rightarrow> string \<Rightarrow> int32 \<Rightarrow> status \<times> launch_action list" where
  "GstLaunchPipeline_duration X got_message gst_pipeline play_duration_in_seconds =
     (let p = c_str gst_pipeline in
      if \<not> status_ok (GstInit X) then (InternalError ''Could not initialize Gstreamer'', [])
      else (case gx_parse_error X p of
        Some e \<Rightarrow> (InternalError (print_gerror (Some e)), [])
      | None \<Rightarrow>
          if \<not> gx_play X p then (InternalError ''Failed to start playing the pipeline'', [SetPlaying])
          else
            (let stop = (if 0 \<le> sint play_duration_in_seconds
                         then [StopAfter (sint play_duration_in_seconds)] else []) in
             if \<not> gx_has_bus X p then (InternalError ''Failed to get the message bus'', SetPlaying # stop)
             else (OkStatus, [SetPlaying] @ stop @ [AwaitErrorOrEos] @
                     (if got_message then [UnrefMessage] else []) @ [UnrefBus, SetNull, UnrefPipeline]))))"

definition GstLaunchPipeline :: "gst_runtime \<Rightarrow> bool \<Rightarrow> string \<Rightarrow> status \<times> launch_action list" where
  "GstLaunchPipeline X got_message gst_pipeline = GstLaunchPipeline_duration X got_message gst_pipeline (- 1)"

section \<open>The runner\<close>

definition kAppSrcName :: string where
  "kAppSrcName = ''feed''"

definition kAppSinkName :: string where
  "kAppSinkName = ''fetch''"

record runner_options =
  gro_processing_pipeline_string :: string
  gro_appsrc_caps_string :: string
  gro_receiver_callback :: bool
  gro_appsink_sync :: bool

definition ValidateOptions :: "runner_options \<Rightarrow> status" where
  "ValidateOptions opts =
     (if gro_processing_pipeline_string opts = []
      then InvalidArgumentError ''Given an empty processing pipeline string'' else OkStatus)"

record gst_pipeline =
  gp_string :: string
  gp_appsrc :: "string option"
  gp_appsink :: "bool option"

definition pipeline_string :: "runner_options \<Rightarrow> string" where
  "pipeline_string opts = str_join '' ! ''
     ((if gro_appsrc_caps_string opts \<noteq> []
       then [''appsrc name='' @ kAppSrcName @ '' is-live=true do-timestamp=true format=3''] else []) @
      [gro_processing_pipeline_string opts] @
      (if gro_receiver_callback opts then [''appsink name='' @ kAppSinkName] else []))"

text \<open>\<open>gp_appsrc\<close> is the caps of the appsrc, \<open>gp_appsink\<close> whether the appsink synchronizes.\<close>

definition GstreamerPipeline_Create :: "gst_runtime \<Rightarrow> runner_options \<Rightarrow> gst_pipeline result" where
  "GstreamerPipeline_Create X opts =
     (if \<not> status_ok (ValidateOptions opts)
      then Inl (InvalidArgumentError ''The given GstreamerRunner::Options has errors'')
      else if gro_processing_pipeline_string opts = []
      then Inl (InvalidArgumentError ''Given an empty processing pipeline string'')
      else
        (let p = pipeline_string opts; caps = gro_appsrc_caps_string opts in
         if \<not> gx_parse_launch X (c_str p)
         then Inl (InvalidArgumentError (''Failed to create a gstreamer pipeline using \"'' @ p @
                ''\". Make sure you've given a valid processing pipeline string''))
         else if caps \<noteq> [] \<and> \<not> gx_has_element X (c_str p) kAppSrcName
         then Inl (InternalError ''Failed to get a pointer to the appsrc element'')
         else if caps \<noteq> [] \<and> \<not> gx_caps_ok X (c_str caps)
         then Inl (InvalidArgumentError (''Failed to create a GstCaps from \"'' @ caps @
                ''\"; make sure it is a valid cap string''))
         else if gro_receiver_callback opts \<and> \<not> gx_has_element X (c_str p) kAppSinkName
         then Inl (InternalError ''Failed to get a pointer to the appsink element'')
         else Inr \<lparr>gp_string = p,
                gp_appsrc = (if caps \<noteq> [] then Some caps else None),
                gp_appsink = (if gro_receiver_callback opts then Some (gro_appsink_sync opts) else None)\<rparr>))"

datatype gst_event = PushBuffer gstreamer_buffer | AppsrcEndOfStream | PipelineEos | StatePlaying | StateNull

record gst_runner =
  gn_options :: runner_options
  gn_pipeline :: gst_pipeline
  gn_signal :: completion_signal
  gn_events :: "gst_event list"

definition pushed_buffers :: "gst_runner \<Rightarrow> nat" where
  "pushed_buffers r = length (filter (\<lambda>e. case e of PushBuffer b \<Rightarrow> True | _ \<Rightarrow> False) (gn_events r))"

text \<open>The callbacks of the main loop: a message on the bus, a new sample at the appsink.\<close>

datatype bus_message = MessageEos | MessageError | MessageOther

definition gst_bus_message_callback :: "bus_message \<Rightarrow> gst_runner \<Rightarrow> gst_runner" where
  "gst_bus_message_callback m r = (case m of
      MessageEos \<Rightarrow> r\<lparr>gn_signal := cs_End (gn_signal r)\<rparr>
    | MessageError \<Rightarrow> r\<lparr>gn_signal := cs_End (gn_signal r)\<rparr>
    | MessageOther \<Rightarrow> r)"

definition on_new_sample_from_sink ::
    "(gstreamer_buffer \<Rightarrow> 's \<Rightarrow> status \<times> 's) option \<Rightarrow> gstreamer_buffer \<Rightarrow> 's \<Rightarrow> bool \<times> 's" where
  "on_new_sample_from_sink receiver_callback sample s = (case receiver_callback of
      None \<Rightarrow> (True, s)
    | Some cb \<Rightarrow> (case cb sample s of (st, s') \<Rightarrow> (status_ok st, s')))"

text \<open>\<open>Finalize\<close>: \<open>seen\<close> are the states of the signal until the wait of five seconds is over.\<close>

definition RunnerImpl_Finalize :: "completion_signal list \<Rightarrow> gst_runner \<Rightarrow> status \<times> gst_runner" where
  "RunnerImpl_Finalize seen r =
     (let r1 = (if \<not> cs_IsCompleted (gn_signal r)
                then (let e = (if gp_appsrc (gn_pipeline r) \<noteq> None then AppsrcEndOfStream else PipelineEos) in
                      r\<lparr>gn_events := gn_events r @ [e],
                        gn_signal := snd (cs_WaitUntilCompleted seen (gn_signal r))\<rparr>)
                else r)
      in (OkStatus, r1\<lparr>gn_events := gn_events r1 @ [StateNull]\<rparr>))"

text \<open>
  A runner that could not be initialized is destroyed when \<open>Create\<close> returns; its destructor finalizes
  it, and that asks the completion signal, which does not exist yet.
\<close>

definition RunnerImpl_destroy ::
    "completion_signal list \<Rightarrow> gst_runner option \<Rightarrow> gst_runner option outcome" where
  "RunnerImpl_destroy seen impl = (case impl of
      None \<Rightarrow> Fatal ''null pointer: completion_signal_''
    | Some r \<Rightarrow> Returns (Some (snd (RunnerImpl_Finalize seen r))))"

definition RunnerImpl_Create :: "gst_runtime \<Rightarrow> runner_options \<Rightarrow> gst_runner result outcome" where
  "RunnerImpl_Create X opts = (case GstreamerPipeline_Create X opts of
      Inl st \<Rightarrow> outcome_bind (RunnerImpl_destroy [] None) (\<lambda>_. Returns (Inl st))
    | Inr p \<Rightarrow> Returns (Inr \<lparr>gn_options = opts, gn_pipeline = p,
                    gn_signal = cs_Start new_CompletionSignal, gn_events = [StatePlaying]\<rparr>))"

definition RunnerImpl_Feed :: "gst_runtime \<Rightarrow> gstreamer_buffer \<Rightarrow> gst_runner \<Rightarrow> status \<times> gst_runner" where
  "RunnerImpl_Feed X b r =
     (if cs_IsCompleted (gn_signal r)
      then (FailedPreconditionError
              ''The runner has already completed. Please Create() it again and retry'', r)
      else if gp_appsrc (gn_pipeline r) = None
      then (InvalidArgumentError ''This runner is not configured for Feeding'', r)
      else if gb_caps b \<noteq> gro_appsrc_caps_string (gn_options r)
      then (InvalidArgumentError (''Feeding the runner with caps \"'' @ gb_caps b @ ''\" when \"'' @
              gro_appsrc_caps_string (gn_options r) @ ''\" is expected''), r)
      else
        (let r1 = r\<lparr>gn_events := gn_events r @ [PushBuffer b]\<rparr> in
         if \<not> gx_push_ok X (pushed_buffers r) b then (InternalError ''Failed to push a GstBuffer'', r1)
         else (OkStatus, r1)))"

definition Runner_Create :: "gst_runtime \<Rightarrow> runner_options \<Rightarrow> gst_runner result outcome" where
  "Runner_Create X opts =
     (if \<not> status_ok (GstInit X)
      then Returns (Inl (InternalError ''Could not initialize GStreamer''))
      else outcome_bind (RunnerImpl_Create X opts) (\<lambda>impl. case impl of
        Inl st \<Rightarrow> Returns (Inl (UnknownError ''Failed to create a gstreamer runner''))
      | Inr r \<Rightarrow> Returns (Inr r)))"

definition Runner_Feed :: "gst_runtime \<Rightarrow> gstreamer_buffer \<Rightarrow> gst_runner \<Rightarrow> status \<times> gst_runner" where
  "Runner_Feed X b r = (case RunnerImpl_Feed X b r of (st, r1) \<Rightarrow>
     (if \<not> status_ok st then UnknownError ''Failed to Feed the GstreamerRunner'' else OkStatus, r1))"

definition Runner_IsCompleted :: "gst_runner \<Rightarrow> bool" where
  "Runner_IsCompleted r = cs_IsCompleted (gn_signal r)"

definition Runner_WaitUntilCompleted :: "completion_signal list \<Rightarrow> gst_runner \<Rightarrow> bool" where
  "Runner_WaitUntilCompleted seen r = fst (cs_WaitUntilCompleted seen (gn_signal r))"

section \<open>The raw image yielder\<close>

definition kGenericDecodeString :: string where
  "kGenericDecodeString = ''decodebin ! videoconvert ! video/x-raw,format=RGB''"

definition EOSStatus :: status where
  "EOSStatus = mk_Status kNotFound ''Reached EOS''"

text \<open>The callback is a function on a state of its own; it is absent when the option is empty.\<close>

type_synonym 's image_callback = "(raw_image result \<Rightarrow> 's \<Rightarrow> status \<times> 's) option"

record yielder =
  yl_caps_string :: string
  yl_eos_signaled :: bool
  yl_runner :: "gst_runner option"

text \<open>The callback that the yielder installs in the runner; a crash of \<open>ToRawImage\<close> is kept.\<close>

definition yielder_receiver_callback ::
    "gst_lib \<Rightarrow> (raw_image result \<Rightarrow> 's \<Rightarrow> status \<times> 's) \<Rightarrow> gstreamer_buffer \<Rightarrow> 's \<Rightarrow> (status \<times> 's) outcome" where
  "yielder_receiver_callback G cb b s =
     outcome_bind (ToRawImage G b) (\<lambda>raw. Returns (OkStatus, snd (cb raw s)))"

definition Yielder_Feed :: "gst_runtime \<Rightarrow> gstreamer_buffer \<Rightarrow> yielder \<Rightarrow> (status \<times> yielder) outcome" where
  "Yielder_Feed X b y =
     (if yl_eos_signaled y then Returns (FailedPreconditionError ''Cannot feed after EOS is signaled'', y)
      else case yl_runner y of
        None \<Rightarrow> Fatal ''null pointer: gstreamer_runner_''
      | Some r \<Rightarrow> (case Runner_Feed X b r of (st, r1) \<Rightarrow> Returns (st, y\<lparr>yl_runner := Some r1\<rparr>)))"

definition Yielder_SignalEOS :: "'s image_callback \<Rightarrow> yielder \<Rightarrow> 's \<Rightarrow> status \<times> yielder \<times> 's" where
  "Yielder_SignalEOS cb y s =
     (let y1 = y\<lparr>yl_eos_signaled := True, yl_runner := None\<rparr> in
      case cb of
        None \<Rightarrow> (OkStatus, y1, s)
      | Some f \<Rightarrow> (case f (Inl EOSStatus) s of (st, s') \<Rightarrow> (OkStatus, y1, s')))"

definition Yielder_destroy :: "'s image_callback \<Rightarrow> yielder \<Rightarrow> 's \<Rightarrow> 's" where
  "Yielder_destroy cb y s =
     (if \<not> yl_eos_signaled y then (case Yielder_SignalEOS cb y s of (_, _, s') \<Rightarrow> s') else s)"

text \<open>
  A yielder that could not be initialized is destroyed when \<open>Create\<close> returns, and so tells its consumer
  the end of a stream that never began.
\<close>

definition Yielder_Create ::
    "gst_runtime \<Rightarrow> string \<Rightarrow> 's image_callback \<Rightarrow> 's \<Rightarrow> (yielder result \<times> 's) outcome" where
  "Yielder_Create X caps_string cb s =
     outcome_bind (Runner_Create X \<lparr>gro_processing_pipeline_string = kGenericDecodeString,
             gro_appsrc_caps_string = caps_string, gro_receiver_callback = (cb \<noteq> None),
             gro_appsink_sync = False\<rparr>)
       (\<lambda>runner. let y = \<lparr>yl_caps_string = caps_string, yl_eos_signaled = False, yl_runner = None\<rparr> in
          case runner of
            Inl st \<Rightarrow> Returns (Inl (InternalError ''Failed to Initialize the GstreamerRawImageYielder''),
                              Yielder_destroy cb y s)
          | Inr r \<Rightarrow> Returns (Inr (y\<lparr>yl_runner := Some r\<rparr>), s))"

section \<open>Lemmas\<close>

definition fed_buffers :: "gst_runner \<Rightarrow> gstreamer_buffer list" where
  "fed_buffers r = concat (map (\<lambda>e. case e of PushBuffer b \<Rightarrow> [b] | _ \<Rightarrow> []) (gn_events r))"

text \<open>Feeding is refused without touching the pipeline unless the caps are those of the appsrc.\<close>

lemma RunnerImpl_Feed_cases:
  assumes "RunnerImpl_Feed X b r = (st, r')"
  shows "(status_ok st \<longrightarrow> fed_buffers r' = fed_buffers r @ [b] \<and> gb_caps b = gro_appsrc_caps_string (gn_options r) \<and>
            \<not> Runner_IsCompleted r) \<and>
         (IsInvalidArgument st \<or> IsFailedPrecondition st \<longrightarrow> r' = r) \<and>
         gn_signal r' = gn_signal r \<and> gn_options r' = gn_options r \<and> gn_pipeline r' = gn_pipeline r"
  using assms
  by (auto simp: RunnerImpl_Feed_def fed_buffers_def Runner_IsCompleted_def Let_def canonical_pred_defs
      FailedPreconditionError_def InvalidArgumentError_def InternalError_def mk_Status_def status_ok_def
      status_code_of_def OkStatus_def split: if_splits)

text \<open>A runner with an appsrc, the only one that the yielder makes, is created with the caps given.\<close>

lemma Runner_Create_appsrc:
  assumes "Runner_Create X opts = Returns (Inr r)" and "gro_appsrc_caps_string opts \<noteq> []"
  shows "gp_appsrc (gn_pipeline r) = Some (gro_appsrc_caps_string opts) \<and> gn_options r = opts \<and>
     \<not> Runner_IsCompleted r \<and> gn_events r = [StatePlaying]"
  using assms
  by (auto simp: Runner_Create_def RunnerImpl_Create_def GstreamerPipeline_Create_def Let_def
      Runner_IsCompleted_def cs_IsCompleted_def cs_Start_def RunnerImpl_destroy_def split: if_splits sum.splits)

text \<open>A pipeline that GStreamer refuses ends the process: the error is never returned.\<close>

lemma refused_pipeline_aborts:
  assumes "status_ok (GstInit X)" and "GstreamerPipeline_Create X opts = Inl st"
  shows "Runner_Create X opts = Fatal ''null pointer: completion_signal_''"
  using assms by (simp add: Runner_Create_def RunnerImpl_Create_def RunnerImpl_destroy_def)

text \<open>The calls on a yielder, and the images that the pipeline delivers meanwhile.\<close>

datatype yielder_op = YFeed gstreamer_buffer | YSignalEOS | YImage gstreamer_buffer

definition yielder_inv :: "yielder \<Rightarrow> bool" where
  "yielder_inv y \<longleftrightarrow> (yl_runner y = None \<longleftrightarrow> yl_eos_signaled y)"

fun yielder_run ::
    "gst_runtime \<Rightarrow> yielder_op list \<Rightarrow> yielder \<Rightarrow> (status list \<times> nat \<times> yielder) outcome" where
  "yielder_run X [] y = Returns ([], 0, y)"
| "yielder_run X (YFeed b # ops) y =
     outcome_bind (Yielder_Feed X b y) (\<lambda>(st, y1).
       outcome_bind (yielder_run X ops y1) (\<lambda>(sts, n, y2). Returns (st # sts, n, y2)))"
| "yielder_run X (YSignalEOS # ops) y =
     (case Yielder_SignalEOS (Some (\<lambda>r n. (OkStatus, if r = Inl EOSStatus then Suc n else n))) y (0 :: nat) of
        (st, y1, k) \<Rightarrow>
          outcome_bind (yielder_run X ops y1) (\<lambda>(sts, n, y2). Returns (st # sts, k + n, y2)))"
| "yielder_run X (YImage b # ops) y = yielder_run X ops y"

definition signals :: "yielder_op list \<Rightarrow> nat" where
  "signals ops = length (filter (\<lambda>a. a = YSignalEOS) ops)"

lemma signals_Cons [simp]: "signals (a # ops) = (if a = YSignalEOS then Suc (signals ops) else signals ops)"
  by (simp add: signals_def)

lemma Yielder_Create_made:
  assumes "Yielder_Create X caps cb s0 = Returns (Inr y, s1)"
  shows "(\<exists>r. y = \<lparr>yl_caps_string = caps, yl_eos_signaled = False, yl_runner = Some r\<rparr>) \<and> s1 = s0"
proof -
  let ?opts = "\<lparr>gro_processing_pipeline_string = kGenericDecodeString, gro_appsrc_caps_string = caps,
    gro_receiver_callback = (cb \<noteq> None), gro_appsink_sync = False\<rparr>"
  obtain runner where r: "Runner_Create X ?opts = Returns runner"
    using assms by (auto simp: Yielder_Create_def)
  with assms show ?thesis by (cases runner) (auto simp: Yielder_Create_def)
qed

lemma yielder_run_total:
  "yielder_inv y \<Longrightarrow> \<exists>sts y'. yielder_run X ops y = Returns (sts, signals ops, y') \<and> yielder_inv y' \<and>
     (yl_eos_signaled y' \<longleftrightarrow> yl_eos_signaled y \<or> 0 < signals ops)"
proof (induction ops arbitrary: y)
  case Nil
  then show ?case by (simp add: signals_def)
next
  case (Cons a ops)
  show ?case
  proof (cases a)
    case (YFeed b)
    obtain st y1 where y1: "Yielder_Feed X b y = Returns (st, y1)" "yielder_inv y1"
        "yl_eos_signaled y1 = yl_eos_signaled y"
      using Cons.prems by (fastforce simp: Yielder_Feed_def yielder_inv_def split: option.splits prod.splits)
    from Cons.IH [OF y1(2)] y1 YFeed show ?thesis by auto
  next
    case YSignalEOS
    let ?y = "y\<lparr>yl_eos_signaled := True, yl_runner := None\<rparr>"
    have "yielder_inv ?y" by (simp add: yielder_inv_def)
    from Cons.IH [OF this] YSignalEOS show ?thesis by (auto simp: Yielder_SignalEOS_def Let_def)
  next
    case (YImage b)
    with Cons show ?thesis by simp
  qed
qed

text \<open>
  C22. A created yielder can be fed and ended in any order of the calls without dereferencing the
  pipeline it has given up: feeding after the end is refused with \<open>FailedPrecondition\<close>, the consumer is
  told the end once per \<open>SignalEOS\<close>, and the destructor tells it exactly when nobody did.
\<close>

theorem yielder_lifecycle:
  assumes "Yielder_Create X caps cb s0 = Returns (Inr y, s1)"
  shows "\<exists>sts y'. yielder_run X ops y = Returns (sts, signals ops, y') \<and>
    (if 0 < signals ops
     then (\<exists>st. Yielder_Feed X b y' = Returns (st, y') \<and> IsFailedPrecondition st) \<and>
          Yielder_destroy f y' s = s
     else (\<exists>st y''. Yielder_Feed X b y' = Returns (st, y'')) \<and>
          Yielder_destroy f y' s = (case f of None \<Rightarrow> s | Some g \<Rightarrow> snd (g (Inl EOSStatus) s)))"
proof -
  have y: "yielder_inv y" "\<not> yl_eos_signaled y"
    using Yielder_Create_made [OF assms] by (auto simp: yielder_inv_def)
  obtain sts y' where y': "yielder_run X ops y = Returns (sts, signals ops, y')" "yielder_inv y'"
      "yl_eos_signaled y' \<longleftrightarrow> 0 < signals ops"
    using yielder_run_total [OF y(1)] y(2) by blast
  show ?thesis
  proof (cases "0 < signals ops")
    case True
    with y' show ?thesis
      by (auto simp: Yielder_Feed_def Yielder_destroy_def IsFailedPrecondition_def FailedPreconditionError_def
          mk_Status_def status_code_of_def status_ok_def)
  next
    case False
    with y' show ?thesis
      by (auto simp: Yielder_Feed_def Yielder_destroy_def Yielder_SignalEOS_def yielder_inv_def Let_def
          split: option.splits prod.splits)
  qed
qed

definition example_runtime :: gst_runtime where
  "example_runtime = \<lparr>gx_init_error = None, gx_parse_error = (\<lambda>_. None), gx_parse_launch = (\<lambda>_. True),
     gx_has_element = (\<lambda>_ _. True), gx_caps_ok = (\<lambda>_. True), gx_play = (\<lambda>_. True), gx_has_bus = (\<lambda>_. True),
     gx_push_ok = (\<lambda>_ _. True)\<rparr>"

theorem yielder_lifecycle_witness:
  "\<exists>y sts y'. Yielder_Create example_runtime ''video/x-h264'' None () = Returns (Inr y, ()) \<and>
     yielder_run example_runtime [YFeed \<lparr>gb_caps = ''video/x-h264'', gb_bytes = ''b''\<rparr>, YSignalEOS] y =
       Returns (sts, 1, y')"
proof -
  obtain y where y: "Yielder_Create example_runtime ''video/x-h264'' None () = Returns (Inr y, ())"
    by (simp add: Yielder_Create_def Runner_Create_def RunnerImpl_Create_def GstreamerPipeline_Create_def
        GstInit_def ValidateOptions_def example_runtime_def kGenericDecodeString_def Let_def)
  let ?ops = "[YFeed \<lparr>gb_caps = ''video/x-h264'', gb_bytes = ''b''\<rparr>, YSignalEOS]"
  have "signals ?ops = 1" by (simp add: signals_def)
  with yielder_lifecycle [OF y, of ?ops] y show ?thesis by metis
qed

end
