(* ===== verification/Decoded_Receivers.thy ===== *)
theory Decoded_Receivers
  imports Gst_Runner "HOL-Library.Sublist"
begin

text \<open>
  \<open>cc/decoded_receivers.cc\<close>: a background thread that takes packets from a source queue, has
  GStreamer decode them, and puts packets of raw images into the queue of the consumer.

  The thread, the thread of GStreamer that delivers images, the worker that fills the source queue
  and the consumer interleave. A step of \<open>decoder_step\<close> is one stretch of one of them between two
  accesses of a shared queue. \<open>TryPop\<close> and \<open>TryPush\<close> without waiting neither wait nor fail, and a
  timed one is seen at the moment it decides.
\<close>

section \<open>The image producer\<close>

record image_producer =
  ip_timeout :: duration
  ip_source :: receiver_queue
  ip_dest :: "packet pc_queue"
  ip_headers :: "packet_header pc_queue"
  ip_yielder :: "yielder option"

text \<open>\<open>fmt\<close> is \<open>absl::FormatDuration\<close>.\<close>

definition PullSourcePacket ::
    "(duration \<Rightarrow> string) \<Rightarrow> image_producer \<Rightarrow> (packet result \<times> image_producer) outcome" where
  "PullSourcePacket fmt ip = (case rq_TryPop empty_packet (ip_source ip) of
      Some (Fatal m) \<Rightarrow> Fatal m
    | Some (Returns (True, p, rq)) \<Rightarrow> Returns (Inr p, ip\<lparr>ip_source := rq\<rparr>)
    | _ \<Rightarrow> Returns (Inl (UnavailableError
             (''The server has not yielded any source packets within the timeout ('' @ fmt (ip_timeout ip) @ '')'')),
           ip))"

definition restore_header :: "packet_header \<Rightarrow> packet \<Rightarrow> packet" where
  "restore_header h p = p\<lparr>p_header := (p_header p)\<lparr>h_timestamp := h_timestamp h,
     h_addenda := h_addenda h, h_server_metadata := h_server_metadata h,
     h_trace_context := h_trace_context h\<rparr>\<rparr>"

definition PushImagePacket ::
    "proto_lib \<Rightarrow> clock \<Rightarrow> raw_image result \<Rightarrow> image_producer \<Rightarrow> status \<times> image_producer" where
  "PushImagePacket L now raw_image_statusor ip = (case raw_image_statusor of
      Inl st \<Rightarrow>
        (if IsResourceExhausted st then OkStatus
         else InternalError ''Got an unexpected error from the given StatusOr<RawImage>'', ip)
    | Inr img \<Rightarrow> (case MakePacket (raw_image_traits L) now img of
        Inl st \<Rightarrow> (InternalError ''Unable to create a raw image packet'', ip)
      | Inr packet \<Rightarrow>
          (let (packet, headers) = (case TryPop empty_header (ip_headers ip) of
                 Some (Returns (True, h, q)) \<Rightarrow> (restore_header h packet, q)
               | _ \<Rightarrow> (packet, ip_headers ip));
               dest = fst (snd (TryEmplace packet (ip_dest ip)))
           in (OkStatus, ip\<lparr>ip_headers := headers, ip_dest := dest\<rparr>))))"

text \<open>\<open>Emplace\<close> waits for room: \<open>None\<close> while the queue is full.\<close>

definition PushEosPacket ::
    "proto_lib \<Rightarrow> clock \<Rightarrow> string \<Rightarrow> image_producer \<Rightarrow> (status \<times> image_producer) option" where
  "PushEosPacket L now reason ip = (case MakeEosPacket L now reason of
      Inl st \<Rightarrow> Some (InternalError ''Couldn't create an EOS packet'', ip)
    | Inr eos \<Rightarrow> map_option (\<lambda>(q, _). (OkStatus, ip\<lparr>ip_dest := q\<rparr>)) (Emplace [] eos (ip_dest ip)))"

text \<open>
  \<open>Feed\<close>: one turn of the loop that queues the header of a frame head (\<open>False\<close> when the queue was
  full and the loop goes on), then the rest.
\<close>

definition FeedHeader :: "packet \<Rightarrow> image_producer \<Rightarrow> bool \<times> image_producer" where
  "FeedHeader p ip =
     (if IsPacketFlagsSet kIsFrameHead p
      then (case TryPush (Some (p_header p)) (ip_headers ip) of
              Some (Returns r) \<Rightarrow> (pushed_ok r, ip\<lparr>ip_headers := pushed_queue r\<rparr>)
            | _ \<Rightarrow> (False, ip))
      else (True, ip))"

definition FeedBuffer ::
    "proto_lib \<Rightarrow> gst_lib \<Rightarrow> gst_runtime \<Rightarrow> packet \<Rightarrow> image_producer \<Rightarrow> (status \<times> image_producer) outcome" where
  "FeedBuffer L G X p ip =
     outcome_bind (ToGstreamerBuffer_packet L G p) (\<lambda>buffer. case buffer of
        Inl st \<Rightarrow> Returns (st, ip)
      | Inr b \<Rightarrow> (case ip_yielder ip of
            None \<Rightarrow> Fatal ''null pointer: yielder_''
          | Some y \<Rightarrow> outcome_bind (Yielder_Feed X b y)
              (\<lambda>(st, y'). Returns (st, ip\<lparr>ip_yielder := Some y'\<rparr>))))"

definition ImageProducer_Initialize ::
    "proto_lib \<Rightarrow> gst_lib \<Rightarrow> gst_runtime \<Rightarrow> (duration \<Rightarrow> string) \<Rightarrow> clock \<Rightarrow>
     image_producer \<Rightarrow> (status \<times> image_producer) outcome" where
  "ImageProducer_Initialize L G X fmt now ip =
     outcome_bind (rq_capacity (ip_source ip)) (\<lambda>capacity.
     outcome_bind (new_pc_queue capacity) (\<lambda>headers.
     outcome_bind (PullSourcePacket fmt (ip\<lparr>ip_headers := headers\<rparr>)) (\<lambda>(first_packet, ip1).
       case first_packet of
         Inl st \<Rightarrow> Returns (UnavailableError ''Unable to get the first packet from the server'', ip1)
       | Inr p \<Rightarrow>
           outcome_bind (ToGstreamerBuffer_packet L G p) (\<lambda>buffer. case buffer of
             Inl st \<Rightarrow> Returns (InvalidArgumentError
               (''Given a server stream that cannot be interpretted/decoded as a '' @
                ''sequence of raw images''), ip1)
           | Inr b \<Rightarrow>
               outcome_bind (Yielder_Create X (gb_caps b) (Some (PushImagePacket L now)) ip1)
                 (\<lambda>(yielder, ip2). case yielder of
                    Inl st \<Rightarrow> Returns (InternalError ''Unable to create a GstreamerRawImageYielder'', ip2)
                  | Inr y \<Rightarrow> outcome_bind (Yielder_Feed X b y) (\<lambda>(st, y').
                      Returns (if \<not> status_ok st
                               then InternalError ''Unable to successfully feed the first gstreamer buffer''
                               else OkStatus, ip2\<lparr>ip_yielder := Some y'\<rparr>)))))))"

definition ImageProducer_Create ::
    "proto_lib \<Rightarrow> gst_lib \<Rightarrow> gst_runtime \<Rightarrow> (duration \<Rightarrow> string) \<Rightarrow> clock \<Rightarrow>
     image_producer \<Rightarrow> image_producer result outcome" where
  "ImageProducer_Create L G X fmt now ip =
     outcome_bind (ImageProducer_Initialize L G X fmt now ip) (\<lambda>(st, ip').
       Returns (if \<not> status_ok st then Inl st else Inr ip'))"

text \<open>
  \<open>src\<close> is the source queue when the first packet is pulled from it. The results are the status, the
  queue given to the consumer once it was made, and the producer that the new thread runs.
\<close>

definition MakeDecodedReceiverQueue ::
    "proto_lib \<Rightarrow> gst_lib \<Rightarrow> gst_runtime \<Rightarrow> (duration \<Rightarrow> string) \<Rightarrow> clock \<Rightarrow> rpc_env \<Rightarrow> stream_server \<Rightarrow>
     (receiver_queue \<Rightarrow> receiver_queue) \<Rightarrow> wrapper_options \<Rightarrow> int32 \<Rightarrow> duration \<Rightarrow>
     (status \<times> receiver_queue option \<times> image_producer option) outcome" where
  "MakeDecodedReceiverQueue L G X fmt now E S src opts queue_size timeout =
     outcome_bind (MakePacketReceiverQueue E S opts) (\<lambda>(st, rq, _).
       if \<not> status_ok st
       then Returns (UnknownError ''Failed to create the source packet receiver queue'', None, None)
       else outcome_bind (new_pc_queue queue_size) (\<lambda>dest.
         outcome_bind (ImageProducer_Create L G X fmt now
             \<lparr>ip_timeout = timeout, ip_source = src rq, ip_dest = dest,
              ip_headers = \<lparr>q_capacity = 0, q_items = []\<rparr>, ip_yielder = None\<rparr>)
           (\<lambda>image_producer. case image_producer of
              Inl st \<Rightarrow> Returns (st, Some \<lparr>rq_pcqueue = Some dest\<rparr>, None)
            | Inr ip \<Rightarrow> Returns (OkStatus, Some \<lparr>rq_pcqueue = Some (ip_dest ip)\<rparr>, Some ip))))"

section \<open>The threads\<close>

text \<open>
  Where the decoder thread is: at the test of its loop, in \<open>Feed\<close> of a packet, about to shut the
  decoder down, in \<open>PushEosPacket\<close>, or at its end. The last three fields are histories: the headers
  queued, the images decoded with the header that each took and the packet made of it, and what the
  consumer took.
\<close>

datatype decoder_pc =
    DecTesting
  | DecFeeding packet
  | DecStopping string
  | DecPushingEos string
  | DecReturned status
  | DecCrashed string

record decoder_system =
  dc_ip :: image_producer
  dc_consumer :: bool
  dc_pc :: decoder_pc
  dc_heads :: "packet_header list"
  dc_images :: "(raw_image \<times> packet_header option \<times> packet) list"
  dc_taken :: "packet list"

definition decoder_init :: "image_producer \<Rightarrow> decoder_system" where
  "decoder_init ip = \<lparr>dc_ip = ip, dc_consumer = True, dc_pc = DecTesting, dc_heads = [], dc_images = [],
     dc_taken = []\<rparr>"

text \<open>
  The thread. When a packet cannot be fed the message is taken from the status of the packet, which
  is \<open>OK\<close>, and not from that of \<open>Feed\<close>.
\<close>

definition decoder_pull ::
    "proto_lib \<Rightarrow> (duration \<Rightarrow> string) \<Rightarrow> decoder_system \<Rightarrow> decoder_system" where
  "decoder_pull L fmt d = (case PullSourcePacket fmt (dc_ip d) of
      Fatal m \<Rightarrow> d\<lparr>dc_pc := DecCrashed m\<rparr>
    | Returns (Inl st, ip) \<Rightarrow> d\<lparr>dc_ip := ip, dc_pc := DecStopping (error_message st)\<rparr>
    | Returns (Inr p, ip) \<Rightarrow> (case IsEos L p of
          Fatal m \<Rightarrow> d\<lparr>dc_pc := DecCrashed m\<rparr>
        | Returns eos \<Rightarrow> d\<lparr>dc_ip := ip,
            dc_pc := if eos then DecStopping ''The raw image stream has ended'' else DecFeeding p\<rparr>))"

definition decoder_feed ::
    "proto_lib \<Rightarrow> gst_lib \<Rightarrow> gst_runtime \<Rightarrow> packet \<Rightarrow> decoder_system \<Rightarrow> decoder_system" where
  "decoder_feed L G X p d = (case FeedHeader p (dc_ip d) of
      (False, ip) \<Rightarrow> d\<lparr>dc_ip := ip\<rparr>
    | (True, ip) \<Rightarrow>
        (let d1 = d\<lparr>dc_ip := ip, dc_heads := dc_heads d @
                      (if IsPacketFlagsSet kIsFrameHead p then [p_header p] else [])\<rparr> in
         case FeedBuffer L G X p ip of
           Fatal m \<Rightarrow> d1\<lparr>dc_pc := DecCrashed m\<rparr>
         | Returns (st, ip2) \<Rightarrow> d1\<lparr>dc_ip := ip2,
             dc_pc := if status_ok st then DecTesting else DecStopping (error_message OkStatus)\<rparr>))"

definition decoder_work ::
    "proto_lib \<Rightarrow> gst_lib \<Rightarrow> gst_runtime \<Rightarrow> (duration \<Rightarrow> string) \<Rightarrow> clock \<Rightarrow>
     decoder_system \<Rightarrow> decoder_system option" where
  "decoder_work L G X fmt now d = (case dc_pc d of
      DecTesting \<Rightarrow> Some (if \<not> dc_consumer d then d\<lparr>dc_pc := DecStopping []\<rparr> else decoder_pull L fmt d)
    | DecFeeding p \<Rightarrow> Some (decoder_feed L G X p d)
    | DecStopping m \<Rightarrow> Some (case ip_yielder (dc_ip d) of
          None \<Rightarrow> d\<lparr>dc_pc := DecCrashed ''null pointer: yielder_''\<rparr>
        | Some y \<Rightarrow> (case Yielder_SignalEOS (Some (PushImagePacket L now)) y (dc_ip d) of
            (st, y', ip) \<Rightarrow> d\<lparr>dc_ip := ip\<lparr>ip_yielder := Some y'\<rparr>, dc_pc := DecPushingEos m\<rparr>))
    | DecPushingEos m \<Rightarrow>
        map_option (\<lambda>(st, ip). d\<lparr>dc_ip := ip, dc_pc := DecReturned st\<rparr>) (PushEosPacket L now m (dc_ip d))
    | DecReturned _ \<Rightarrow> None
    | DecCrashed _ \<Rightarrow> None)"

text \<open>GStreamer delivers a decoded buffer while its pipeline exists.\<close>

definition image_entry ::
    "proto_lib \<Rightarrow> clock \<Rightarrow> image_producer \<Rightarrow> raw_image \<Rightarrow> (raw_image \<times> packet_header option \<times> packet) list" where
  "image_entry L now ip img = (case MakePacket (raw_image_traits L) now img of
      Inl _ \<Rightarrow> []
    | Inr p \<Rightarrow> (case q_items (ip_headers ip) of
        [] \<Rightarrow> [(img, None, p)] | h # _ \<Rightarrow> [(img, Some h, restore_header h p)]))"

definition pipeline_runs :: "decoder_system \<Rightarrow> bool" where
  "pipeline_runs d \<longleftrightarrow> (case ip_yielder (dc_ip d) of None \<Rightarrow> False | Some y \<Rightarrow> yl_runner y \<noteq> None) \<and>
     (\<forall>m. dc_pc d \<noteq> DecCrashed m)"

definition decoder_image ::
    "proto_lib \<Rightarrow> gst_lib \<Rightarrow> clock \<Rightarrow> gstreamer_buffer \<Rightarrow> decoder_system \<Rightarrow> decoder_system" where
  "decoder_image L G now b d = (case yielder_receiver_callback G (PushImagePacket L now) b (dc_ip d) of
      Fatal m \<Rightarrow> d\<lparr>dc_pc := DecCrashed m\<rparr>
    | Returns (_, ip) \<Rightarrow> d\<lparr>dc_ip := ip, dc_images := dc_images d @ (case ToRawImage G b of
          Returns (Inr img) \<Rightarrow> image_entry L now (dc_ip d) img | _ \<Rightarrow> [])\<rparr>)"

definition decoder_source :: "packet \<Rightarrow> decoder_system \<Rightarrow> decoder_system option" where
  "decoder_source p d = (case rq_pcqueue (ip_source (dc_ip d)) of
      None \<Rightarrow> None
    | Some q \<Rightarrow> map_option (\<lambda>q'. d\<lparr>dc_ip := (dc_ip d)\<lparr>ip_source := \<lparr>rq_pcqueue = Some q'\<rparr>\<rparr>\<rparr>) (fifo_put p q))"

definition decoder_pop :: "decoder_system \<Rightarrow> decoder_system option" where
  "decoder_pop d =
     (if \<not> dc_consumer d then None
      else case TryPop empty_packet (ip_dest (dc_ip d)) of
        Some (Returns (True, x, q)) \<Rightarrow>
          Some (d\<lparr>dc_ip := (dc_ip d)\<lparr>ip_dest := q\<rparr>, dc_taken := dc_taken d @ [x]\<rparr>)
      | _ \<Rightarrow> None)"

inductive decoder_step ::
    "proto_lib \<Rightarrow> gst_lib \<Rightarrow> gst_runtime \<Rightarrow> (duration \<Rightarrow> string) \<Rightarrow> decoder_system \<Rightarrow> decoder_system \<Rightarrow> bool"
  for L G X fmt where
  work: "decoder_work L G X fmt (Some now) d = Some d' \<Longrightarrow> decoder_step L G X fmt d d'"
| image: "pipeline_runs d \<Longrightarrow> decoder_step L G X fmt d (decoder_image L G (Some now) b d)"
| source: "decoder_source p d = Some d' \<Longrightarrow> decoder_step L G X fmt d d'"
| pop: "decoder_pop d = Some d' \<Longrightarrow> decoder_step L G X fmt d d'"
| release: "decoder_step L G X fmt d (d\<lparr>dc_consumer := False\<rparr>)"

section \<open>The operations\<close>

lemma error_message_unavailable: "error_message (UnavailableError m) = m"
  by (simp add: error_message_def UnavailableError_def mk_Status_def status_ok_def)

lemma PullSourcePacket_fields:
  assumes "PullSourcePacket fmt ip = Returns (r, ip')"
  shows "ip_dest ip' = ip_dest ip \<and> ip_headers ip' = ip_headers ip \<and> ip_yielder ip' = ip_yielder ip \<and>
    ip_timeout ip' = ip_timeout ip \<and> (\<forall>st. r = Inl st \<longrightarrow> error_message st =
      ''The server has not yielded any source packets within the timeout ('' @ fmt (ip_timeout ip) @ '')'')"
  using assms by (auto simp: error_message_unavailable PullSourcePacket_def rq_TryPop_def TryPop_eq split: option.splits outcome.splits
      prod.splits bool.splits list.splits)

lemma FeedHeader_cases:
  assumes "queue_inv (ip_headers ip)"
  shows "(FeedHeader p ip = (False, ip)) \<or>
    (\<exists>q. FeedHeader p ip = (True, ip\<lparr>ip_headers := q\<rparr>) \<and> queue_inv q \<and>
       q_items q = q_items (ip_headers ip) @ (if IsPacketFlagsSet kIsFrameHead p then [p_header p] else []))"
proof (cases "fifo_put (p_header p) (ip_headers ip)")
  case None
  then show ?thesis using assms by (auto simp: FeedHeader_def fifo_put_TryPush intro!: exI [of _ "ip_headers ip"])
next
  case (Some q)
  from fifo_put_items [OF assms Some] Some assms show ?thesis
    by (auto simp: FeedHeader_def fifo_put_TryPush intro!: exI [of _ "if IsPacketFlagsSet kIsFrameHead p then q else ip_headers ip"])
qed

lemma FeedBuffer_fields:
  assumes "FeedBuffer L G X p ip = Returns (st, ip')"
  shows "ip_dest ip' = ip_dest ip \<and> ip_headers ip' = ip_headers ip \<and> ip_timeout ip' = ip_timeout ip \<and>
    (\<forall>y. ip_yielder ip = Some y \<and> yl_runner y \<noteq> None \<and> \<not> yl_eos_signaled y \<longrightarrow>
       (\<exists>y'. ip_yielder ip' = Some y' \<and> yl_runner y' \<noteq> None \<and> \<not> yl_eos_signaled y'))"
proof (cases "ToGstreamerBuffer_packet L G p")
  case (Returns buffer)
  then show ?thesis
  proof (cases buffer)
    case (Inr b)
    then obtain y r where "ip_yielder ip = Some y" "Yielder_Feed X b y = Returns r"
        "st = fst r" "ip' = ip\<lparr>ip_yielder := Some (snd r)\<rparr>"
      using assms Returns by (cases "ip_yielder ip") (auto simp: FeedBuffer_def)
    then show ?thesis by (auto simp: Yielder_Feed_def split: option.split_asm prod.split_asm)
  qed (use assms Returns in \<open>auto simp: FeedBuffer_def\<close>)
qed (use assms in \<open>simp add: FeedBuffer_def\<close>)

lemma fifo_put_TryEmplace:
  "fst (snd (TryEmplace x q)) = (case fifo_put x q of None \<Rightarrow> q | Some q' \<Rightarrow> q')"
  by (simp add: fifo_put_def TryEmplace_def InternalEmplace_def)

lemma PushImagePacket_image:
  assumes "queue_inv (ip_headers ip)" and "queue_inv (ip_dest ip)"
  shows "\<exists>h d. snd (PushImagePacket L now (Inr img) ip) = ip\<lparr>ip_headers := h, ip_dest := d\<rparr> \<and>
     queue_inv h \<and> queue_inv d \<and>
     q_items (ip_headers ip) = concat (map (\<lambda>(_, h, _). case h of None \<Rightarrow> [] | Some x \<Rightarrow> [x])
        (image_entry L now ip img)) @ q_items h \<and>
     (q_items d = q_items (ip_dest ip) \<or>
      (\<exists>e. image_entry L now ip img = [e] \<and> q_items d = q_items (ip_dest ip) @ [snd (snd e)]))"
proof (cases "MakePacket (raw_image_traits L) now img")
  case (Inl st)
  with assms show ?thesis
    by (intro exI [of _ "ip_headers ip"] exI [of _ "ip_dest ip"]) (simp add: PushImagePacket_def image_entry_def)
next
  case (Inr p)
  have put: "\<exists>d. fst (snd (TryEmplace x (ip_dest ip))) = d \<and> queue_inv d \<and>
      (q_items d = q_items (ip_dest ip) \<or> q_items d = q_items (ip_dest ip) @ [x])" for x
    using assms(2) fifo_put_items [OF assms(2), of x] by (auto simp: fifo_put_TryEmplace split: option.splits)
  show ?thesis
  proof (cases "q_items (ip_headers ip)")
    case Nil
    from put [of p] obtain d where d: "fst (snd (TryEmplace p (ip_dest ip))) = d" "queue_inv d"
      "q_items d = q_items (ip_dest ip) \<or> q_items d = q_items (ip_dest ip) @ [p]" by blast
    with Nil Inr assms show ?thesis
      by (intro exI [of _ "ip_headers ip"] exI [of _ d])
         (auto simp: PushImagePacket_def image_entry_def TryPop_eq Let_def)
  next
    case (Cons h hs)
    let ?p = "restore_header h p"
    from put [of ?p] obtain d where d: "fst (snd (TryEmplace ?p (ip_dest ip))) = d" "queue_inv d"
      "q_items d = q_items (ip_dest ip) \<or> q_items d = q_items (ip_dest ip) @ [?p]" by blast
    have "queue_inv ((ip_headers ip)\<lparr>q_items := hs\<rparr>)"
      using assms(1) Cons by (auto simp: queue_inv_def IsLimitedCapacity_def)
    with d Cons Inr assms show ?thesis
      by (intro exI [of _ "(ip_headers ip)\<lparr>q_items := hs\<rparr>"] exI [of _ d])
         (auto simp: PushImagePacket_def image_entry_def TryPop_eq Let_def)
  qed
qed

section \<open>The invariant\<close>

text \<open>The packet made of an image, with the fields of the header that it took.\<close>

definition image_packet :: "proto_lib \<Rightarrow> raw_image \<Rightarrow> packet_header option \<Rightarrow> packet \<Rightarrow> bool" where
  "image_packet L img h p \<longleftrightarrow> (\<exists>now q. MakePacket (raw_image_traits L) (Some now) img = Inr q \<and>
     p = (case h of None \<Rightarrow> q | Some x \<Rightarrow> restore_header x q))"

definition headers_taken :: "(raw_image \<times> packet_header option \<times> packet) list \<Rightarrow> packet_header list" where
  "headers_taken images = concat (map (\<lambda>(_, h, _). case h of None \<Rightarrow> [] | Some x \<Rightarrow> [x]) images)"

lemma headers_taken_append [simp]: "headers_taken (xs @ ys) = headers_taken xs @ headers_taken ys"
  by (simp add: headers_taken_def)

definition decoder_out :: "decoder_system \<Rightarrow> packet list" where
  "decoder_out d = dc_taken d @ q_items (ip_dest (dc_ip d))"

definition out_ok :: "proto_lib \<Rightarrow> decoder_system \<Rightarrow> bool" where
  "out_ok L d \<longleftrightarrow> (\<exists>sel end. decoder_out d = sel @ end \<and> subseq sel (map (snd \<circ> snd) (dc_images d)) \<and>
     (if \<exists>st. dc_pc d = DecReturned st then \<exists>eos. end = [eos] \<and> IsEos L eos = Returns True else end = []))"

definition yielder_ok :: "decoder_system \<Rightarrow> bool" where
  "yielder_ok d \<longleftrightarrow> (case dc_pc d of
      DecCrashed m \<Rightarrow> True
    | DecPushingEos m \<Rightarrow> \<not> pipeline_runs d
    | DecReturned st \<Rightarrow> \<not> pipeline_runs d
    | _ \<Rightarrow> (\<exists>y. ip_yielder (dc_ip d) = Some y \<and> yl_runner y \<noteq> None \<and> \<not> yl_eos_signaled y))"

text \<open>The reasons that the thread gives for the end of the stream.\<close>

definition stop_reasons :: "(duration \<Rightarrow> string) \<Rightarrow> duration \<Rightarrow> string set" where
  "stop_reasons fmt timeout = {[], ''The raw image stream has ended'',
     ''The server has not yielded any source packets within the timeout ('' @ fmt timeout @ '')''}"

definition reason_ok :: "string set \<Rightarrow> decoder_pc \<Rightarrow> bool" where
  "reason_ok R pc \<longleftrightarrow> (case pc of DecStopping m \<Rightarrow> m \<in> R | DecPushingEos m \<Rightarrow> m \<in> R | _ \<Rightarrow> True)"

definition decoder_inv :: "proto_lib \<Rightarrow> (duration \<Rightarrow> string) \<Rightarrow> duration \<Rightarrow> decoder_system \<Rightarrow> bool" where
  "decoder_inv L fmt t d \<longleftrightarrow> ip_timeout (dc_ip d) = t \<and> reason_ok (stop_reasons fmt t) (dc_pc d) \<and> queue_inv (ip_dest (dc_ip d)) \<and> queue_inv (ip_headers (dc_ip d)) \<and>
     dc_heads d = headers_taken (dc_images d) @ q_items (ip_headers (dc_ip d)) \<and>
     (\<forall>(img, h, p) \<in> set (dc_images d). image_packet L img h p) \<and> out_ok L d \<and> yielder_ok d"

lemma image_entry_packet: "(i, h, p) \<in> set (image_entry L (Some now) ip img) \<Longrightarrow> image_packet L i h p"
proof -
  assume e: "(i, h, p) \<in> set (image_entry L (Some now) ip img)"
  then obtain q where q: "MakePacket (raw_image_traits L) (Some now) img = Inr q"
    by (cases "MakePacket (raw_image_traits L) (Some now) img") (auto simp: image_entry_def)
  with e have "i = img \<and> p = (case h of None \<Rightarrow> q | Some x \<Rightarrow> restore_header x q)"
    by (cases "q_items (ip_headers ip)") (auto simp: image_entry_def)
  with q show ?thesis by (cases now) (auto simp: image_packet_def)
qed

text \<open>A step that leaves the queues, the images and the output alone.\<close>

lemma decoder_inv_move:
  assumes "decoder_inv L fmt t d" and "ip_dest ip = ip_dest (dc_ip d)" and "ip_headers ip = ip_headers (dc_ip d)"
    and "\<forall>st. dc_pc d \<noteq> DecReturned st" and "\<forall>st. pc \<noteq> DecReturned st"
    and "yielder_ok (d\<lparr>dc_ip := ip, dc_pc := pc\<rparr>)"
    and "ip_timeout ip = t" and "reason_ok (stop_reasons fmt t) pc"
  shows "decoder_inv L fmt t (d\<lparr>dc_ip := ip, dc_pc := pc\<rparr>)"
  using assms by (simp add: decoder_inv_def out_ok_def decoder_out_def)

lemma decoder_inv_crash:
  assumes "decoder_inv L fmt t d" and "\<forall>st. dc_pc d \<noteq> DecReturned st"
  shows "decoder_inv L fmt t (d\<lparr>dc_pc := DecCrashed m\<rparr>)"
  using assms by (simp add: decoder_inv_def out_ok_def decoder_out_def yielder_ok_def reason_ok_def)

lemma decoder_pull_inv:
  assumes "decoder_inv L fmt t d" and "dc_pc d = DecTesting"
  shows "decoder_inv L fmt t (decoder_pull L fmt d)"
proof (cases "PullSourcePacket fmt (dc_ip d)")
  case (Fatal m)
  then show ?thesis using assms decoder_inv_crash [OF assms(1)] by (simp add: decoder_pull_def)
next
  case (Returns r)
  obtain a ip where r: "r = (a, ip)" by fastforce
  have f: "ip_dest ip = ip_dest (dc_ip d)" "ip_headers ip = ip_headers (dc_ip d)" "ip_yielder ip = ip_yielder (dc_ip d)"
    using PullSourcePacket_fields [of fmt "dc_ip d" a ip] Returns r by simp_all
  have y: "\<exists>y. ip_yielder ip = Some y \<and> yl_runner y \<noteq> None \<and> \<not> yl_eos_signaled y"
    using assms f by (simp add: decoder_inv_def yielder_ok_def)
  have t: "ip_timeout ip = t" and m: "\<And>st. a = Inl st \<Longrightarrow> error_message st \<in> stop_reasons fmt t"
    using PullSourcePacket_fields [of fmt "dc_ip d" a ip] Returns r assms(1)
    by (simp_all add: decoder_inv_def stop_reasons_def)
  have crash: "decoder_inv L fmt t (d\<lparr>dc_pc := DecCrashed m\<rparr>)" for m
    using decoder_inv_crash [OF assms(1)] assms(2) by simp
  have go: "decoder_inv L fmt t (d\<lparr>dc_ip := ip, dc_pc := pc\<rparr>)" if "(\<exists>m \<in> stop_reasons fmt t. pc = DecStopping m) \<or> (\<exists>p. pc = DecFeeding p)" for pc
    using decoder_inv_move [OF assms(1) f(1,2), of pc] assms(2) that y t by (auto simp: yielder_ok_def reason_ok_def)
  show ?thesis
    using Returns r crash go m by (auto simp: decoder_pull_def stop_reasons_def split: sum.split outcome.split)
qed

lemma decoder_feed_inv:
  assumes "decoder_inv L fmt t d" and "dc_pc d = DecFeeding p"
  shows "decoder_inv L fmt t (decoder_feed L G X p d)"
proof -
  have q: "queue_inv (ip_headers (dc_ip d))" using assms(1) by (simp add: decoder_inv_def)
  consider "FeedHeader p (dc_ip d) = (False, dc_ip d)"
    | q where "FeedHeader p (dc_ip d) = (True, (dc_ip d)\<lparr>ip_headers := q\<rparr>)" "queue_inv q"
        "q_items q = q_items (ip_headers (dc_ip d)) @ (if IsPacketFlagsSet kIsFrameHead p then [p_header p] else [])"
    using FeedHeader_cases [OF q, of p] by blast
  then show ?thesis
  proof cases
    case 1
    then show ?thesis using assms by (simp add: decoder_feed_def)
  next
    case 2
    let ?ip = "(dc_ip d)\<lparr>ip_headers := q\<rparr>"
    let ?d = "d\<lparr>dc_ip := ?ip, dc_heads := dc_heads d @ (if IsPacketFlagsSet kIsFrameHead p then [p_header p] else [])\<rparr>"
    have inv: "decoder_inv L fmt t ?d" and pc: "dc_pc ?d = DecFeeding p"
      using assms 2 by (simp_all add: decoder_inv_def out_ok_def decoder_out_def yielder_ok_def reason_ok_def)
    show ?thesis
    proof (cases "FeedBuffer L G X p ?ip")
      case (Fatal m)
      then have "decoder_feed L G X p d = ?d\<lparr>dc_pc := DecCrashed m\<rparr>"
        using 2 by (simp add: decoder_feed_def Let_def)
      with decoder_inv_crash [OF inv] pc show ?thesis by simp
    next
      case (Returns r)
      obtain st ip where r: "r = (st, ip)" by fastforce
      note f = FeedBuffer_fields [OF Returns [unfolded r]]
      have y: "\<exists>y. ip_yielder ip = Some y \<and> yl_runner y \<noteq> None \<and> \<not> yl_eos_signaled y"
        using f assms by (auto simp: decoder_inv_def yielder_ok_def)
      let ?pc = "if status_ok st then DecTesting else DecStopping (error_message OkStatus)"
      have "decoder_inv L fmt t (?d\<lparr>dc_ip := ip, dc_pc := ?pc\<rparr>)"
      proof (rule decoder_inv_move [OF inv])
        show "ip_timeout ip = t" using f assms(1) by (simp add: decoder_inv_def)
        show "yielder_ok (?d\<lparr>dc_ip := ip, dc_pc := ?pc\<rparr>)" using y by (simp add: yielder_ok_def)
        show "reason_ok (stop_reasons fmt t) ?pc"
          by (simp add: reason_ok_def stop_reasons_def error_message_def OkStatus_def)
      qed (use f assms(2) in simp_all)
      with Returns r 2 show ?thesis by (simp add: decoder_feed_def Let_def)
    qed
  qed
qed

lemma decoder_work_inv:
  assumes "decoder_inv L fmt t d" and "decoder_work L G X fmt (Some now) d = Some d'" and "proto_laws L"
    and "\<And>m. m \<in> stop_reasons fmt t \<Longrightarrow> eos_wf L (Eos m)"
  shows "decoder_inv L fmt t d'"
proof (cases "dc_pc d")
  case DecTesting
  have "decoder_inv L fmt t (d\<lparr>dc_pc := DecStopping []\<rparr>)"
    using decoder_inv_move [OF assms(1), of "dc_ip d" "DecStopping []"] assms(1) DecTesting
    by (simp add: decoder_inv_def yielder_ok_def reason_ok_def stop_reasons_def)
  with decoder_pull_inv [OF assms(1) DecTesting] assms(2) DecTesting show ?thesis
    by (auto simp: decoder_work_def split: if_splits)
next
  case (DecFeeding p)
  with decoder_feed_inv [OF assms(1) DecFeeding] assms(2) show ?thesis by (auto simp: decoder_work_def)
next
  case (DecStopping m)
  then obtain y where y: "ip_yielder (dc_ip d) = Some y" using assms(1) by (auto simp: decoder_inv_def yielder_ok_def)
  let ?ip = "(dc_ip d)\<lparr>ip_yielder := Some (y\<lparr>yl_eos_signaled := True, yl_runner := None\<rparr>)\<rparr>"
  have "d' = d\<lparr>dc_ip := ?ip, dc_pc := DecPushingEos m\<rparr>"
    using assms(2) DecStopping y
    by (auto simp: decoder_work_def Yielder_SignalEOS_def PushImagePacket_def Let_def)
  with decoder_inv_move [OF assms(1), of ?ip "DecPushingEos m"] DecStopping assms(1) show ?thesis
    by (simp add: yielder_ok_def pipeline_runs_def reason_ok_def decoder_inv_def)
next
  case (DecPushingEos m)
  obtain eos where eos: "MakeEosPacket L (Some now) m = Inr eos" "IsEos L eos = Returns True"
    using make_eos_packet [OF assms(3), of m now "[]"] assms(1,4) DecPushingEos
    by (auto simp: decoder_inv_def reason_ok_def)
  then obtain q where q: "fifo_put eos (ip_dest (dc_ip d)) = Some q"
      "d' = d\<lparr>dc_ip := (dc_ip d)\<lparr>ip_dest := q\<rparr>, dc_pc := DecReturned OkStatus\<rparr>"
    using assms(2) DecPushingEos by (auto simp: decoder_work_def PushEosPacket_def fifo_put_Emplace)
  have "queue_inv (ip_dest (dc_ip d))" using assms(1) by (simp add: decoder_inv_def)
  note q' = fifo_put_items [OF this q(1)]
  obtain sel where "decoder_out d = sel" "subseq sel (map (snd \<circ> snd) (dc_images d))"
    using assms(1) DecPushingEos by (auto simp: decoder_inv_def out_ok_def)
  then have "out_ok L d'"
    unfolding out_ok_def using q(2) q' eos(2)
    by (intro exI [of _ sel] exI [of _ "[eos]"]) (simp add: decoder_out_def)
  with q(2) q' assms(1) DecPushingEos show ?thesis
    by (simp add: decoder_inv_def yielder_ok_def pipeline_runs_def reason_ok_def)
qed (use assms(2) in \<open>simp_all add: decoder_work_def\<close>)

lemma decoder_image_inv:
  assumes "decoder_inv L fmt t d" and "pipeline_runs d"
  shows "decoder_inv L fmt t (decoder_image L G (Some now) b d)"
proof -
  have pc: "\<forall>st. dc_pc d \<noteq> DecReturned st" using assms by (auto simp: decoder_inv_def yielder_ok_def)
  have q: "queue_inv (ip_headers (dc_ip d))" "queue_inv (ip_dest (dc_ip d))" using assms(1) by (simp_all add: decoder_inv_def)
  show ?thesis
  proof (cases "ToRawImage G b")
    case (Fatal m)
    with decoder_inv_crash [OF assms(1) pc] show ?thesis
      by (simp add: decoder_image_def yielder_receiver_callback_def)
  next
    case (Returns r)
    show ?thesis
    proof (cases r)
      case (Inl st)
      with Returns assms(1) show ?thesis
        by (simp add: decoder_image_def yielder_receiver_callback_def PushImagePacket_def)
    next
      case (Inr img)
      let ?es = "image_entry L (Some now) (dc_ip d) img"
      from PushImagePacket_image [OF q, of L "Some now" img] obtain h dq where p:
        "snd (PushImagePacket L (Some now) (Inr img) (dc_ip d)) = (dc_ip d)\<lparr>ip_headers := h, ip_dest := dq\<rparr>"
        "queue_inv h" "queue_inv dq" "q_items (ip_headers (dc_ip d)) = headers_taken ?es @ q_items h"
        "q_items dq = q_items (ip_dest (dc_ip d)) \<or>
         (\<exists>e. ?es = [e] \<and> q_items dq = q_items (ip_dest (dc_ip d)) @ [snd (snd e)])"
        unfolding headers_taken_def by blast
      let ?d = "d\<lparr>dc_ip := (dc_ip d)\<lparr>ip_headers := h, ip_dest := dq\<rparr>, dc_images := dc_images d @ ?es\<rparr>"
      have d: "decoder_image L G (Some now) b d = ?d"
        using Returns Inr p(1) by (simp add: decoder_image_def yielder_receiver_callback_def)
      obtain sel where sel: "decoder_out d = sel" "subseq sel (map (snd \<circ> snd) (dc_images d))"
        using assms(1) pc by (auto simp: decoder_inv_def out_ok_def)
      have "subseq (decoder_out ?d) (map (snd \<circ> snd) (dc_images d @ ?es))"
        using p(5) sel by (auto simp: decoder_out_def list_emb_append_mono simp flip: append_assoc)
      then have "out_ok L ?d" using pc by (simp add: out_ok_def)
      moreover have "\<forall>(i, h, p) \<in> set ?es. image_packet L i h p" using image_entry_packet by fast
      ultimately show ?thesis unfolding d
        using assms(1) pc p by (auto simp: decoder_inv_def yielder_ok_def pipeline_runs_def split: decoder_pc.splits)
    qed
  qed
qed

lemma decoder_step_inv:
  assumes "decoder_step L G X fmt d d'" and "decoder_inv L fmt t d" and "proto_laws L"
    and "\<And>m. m \<in> stop_reasons fmt t \<Longrightarrow> eos_wf L (Eos m)"
  shows "decoder_inv L fmt t d'"
  using assms(1)
proof cases
  case (work now)
  from decoder_work_inv [OF assms(2) this assms(3,4)] show ?thesis .
next
  case (image now b)
  then show ?thesis using decoder_image_inv [OF assms(2)] by simp
next
  case (source p)
  then obtain q where "d' = d\<lparr>dc_ip := (dc_ip d)\<lparr>ip_source := q\<rparr>\<rparr>"
    by (auto simp: decoder_source_def split: option.split_asm)
  with assms(2) show ?thesis
    by (simp add: decoder_inv_def out_ok_def decoder_out_def yielder_ok_def pipeline_runs_def split: decoder_pc.splits)
next
  case pop
  then obtain x xs where x: "q_items (ip_dest (dc_ip d)) = x # xs"
      "d' = d\<lparr>dc_ip := (dc_ip d)\<lparr>ip_dest := (ip_dest (dc_ip d))\<lparr>q_items := xs\<rparr>\<rparr>, dc_taken := dc_taken d @ [x]\<rparr>"
    by (auto simp: decoder_pop_def TryPop_eq split: if_splits list.split_asm)
  have "queue_inv ((ip_dest (dc_ip d))\<lparr>q_items := xs\<rparr>)"
    using assms(2) x(1) by (auto simp: decoder_inv_def queue_inv_def IsLimitedCapacity_def)
  with assms(2) x show ?thesis
    by (simp add: decoder_inv_def out_ok_def decoder_out_def yielder_ok_def pipeline_runs_def split: decoder_pc.splits)
next
  case release
  with assms(2) show ?thesis
    by (simp add: decoder_inv_def out_ok_def decoder_out_def yielder_ok_def pipeline_runs_def split: decoder_pc.splits)
qed

lemma decoder_reach_inv:
  assumes "(decoder_step L G X fmt)\<^sup>*\<^sup>* d d'" and "decoder_inv L fmt t d" and "proto_laws L"
    and "\<And>m. m \<in> stop_reasons fmt t \<Longrightarrow> eos_wf L (Eos m)"
  shows "decoder_inv L fmt t d'"
  using assms(1) by (induction rule: rtranclp_induct) (use assms(2) decoder_step_inv [OF _ _ assms(3,4)] in blast)+

text \<open>
  An initialized producer has a running pipeline and no header queued: that of the first packet,
  which was fed, is not.
\<close>

lemma ImageProducer_Initialize_ok:
  assumes "ImageProducer_Initialize L G X fmt now ip0 = Returns (st, ip)" and "status_ok st"
  shows "ip_dest ip = ip_dest ip0 \<and> ip_timeout ip = ip_timeout ip0 \<and> queue_inv (ip_headers ip) \<and>
    q_items (ip_headers ip) = [] \<and>
    (\<exists>y. ip_yielder ip = Some y \<and> yl_runner y \<noteq> None \<and> \<not> yl_eos_signaled y)"
proof -
  note err [simp] = UnavailableError_def InvalidArgumentError_def InternalError_def mk_Status_def status_ok_def
  obtain c headers first ip1 where 1: "rq_capacity (ip_source ip0) = Returns c" "new_pc_queue c = Returns headers"
      "PullSourcePacket fmt (ip0\<lparr>ip_headers := headers\<rparr>) = Returns (first, ip1)"
    using assms(1) by (auto simp: ImageProducer_Initialize_def)
  then obtain p where 2: "first = Inr p"
    using assms by (cases first) (auto simp: ImageProducer_Initialize_def)
  obtain buffer where 3: "ToGstreamerBuffer_packet L G p = Returns buffer"
    using assms(1) 1 2 by (auto simp: ImageProducer_Initialize_def)
  then obtain b where 4: "buffer = Inr b"
    using assms 1 2 by (cases buffer) (auto simp: ImageProducer_Initialize_def)
  obtain yl ip2 where 5: "Yielder_Create X (gb_caps b) (Some (PushImagePacket L now)) ip1 = Returns (yl, ip2)"
    using assms(1) 1 2 3 4 by (auto simp: ImageProducer_Initialize_def)
  then obtain y where 6: "yl = Inr y"
    using assms 1 2 3 4 by (cases yl) (auto simp: ImageProducer_Initialize_def)
  obtain st' y' where 7: "Yielder_Feed X b y = Returns (st', y')" "ip = ip2\<lparr>ip_yielder := Some y'\<rparr>"
    using assms(1) 1 2 3 4 5 6 by (auto simp: ImageProducer_Initialize_def)
  obtain r where y: "y = \<lparr>yl_caps_string = gb_caps b, yl_eos_signaled = False, yl_runner = Some r\<rparr>"
      and "ip2 = ip1"
    using Yielder_Create_made [OF 5 [unfolded 6]] by auto
  moreover obtain r' where "y' = y\<lparr>yl_runner := Some r'\<rparr>"
    using 7(1) y by (auto simp: Yielder_Feed_def split: prod.split_asm)
  ultimately show ?thesis
    using 7(2) y PullSourcePacket_fields [OF 1(3)] new_pc_queue_inv [OF 1(2)] by simp
qed

lemma MakeDecodedReceiverQueue_init:
  assumes "MakeDecodedReceiverQueue L G X fmt now E S src opts queue_size timeout = Returns (st, rq, Some ip)"
  shows "decoder_inv L fmt timeout (decoder_init ip)"
proof -
  obtain st0 rq0 pr where 1: "MakePacketReceiverQueue E S opts = Returns (st0, rq0, pr)" "status_ok st0"
    using assms by (auto simp: MakeDecodedReceiverQueue_def split: if_splits)
  obtain dest :: "packet pc_queue" where 2: "new_pc_queue queue_size = Returns dest"
    using assms 1 by (auto simp: MakeDecodedReceiverQueue_def)
  let ?ip0 = "\<lparr>ip_timeout = timeout, ip_source = src rq0, ip_dest = dest,
     ip_headers = \<lparr>q_capacity = 0, q_items = []\<rparr>, ip_yielder = None\<rparr> :: image_producer"
  obtain r where 3: "ImageProducer_Create L G X fmt now ?ip0 = Returns r"
    using assms 1 2 by (auto simp: MakeDecodedReceiverQueue_def)
  have "r = Inr ip" using assms 1 2 3 by (cases r) (auto simp: MakeDecodedReceiverQueue_def)
  with 3 obtain st1 where "ImageProducer_Initialize L G X fmt now ?ip0 = Returns (st1, ip)" "status_ok st1"
    by (auto simp: ImageProducer_Create_def split: if_splits)
  from ImageProducer_Initialize_ok [OF this] new_pc_queue_inv [OF 2] show ?thesis
    by (simp add: decoder_inv_def decoder_init_def headers_taken_def out_ok_def decoder_out_def yielder_ok_def reason_ok_def)
qed

section \<open>The images\<close>

lemma raw_unpack_content:
  assumes "same_content p q"
  shows "Unpack_move (raw_image_traits L) p v = Unpack_move (raw_image_traits L) q v"
proof -
  have f: "packet_type_of p = packet_type_of q" "descriptor_of p = descriptor_of q" "p_payload p = p_payload q"
    using assms by (simp_all add: same_content_def)
  then have "ValidateAndGetDescriptor L p = ValidateAndGetDescriptor L q"
    by (simp only: ValidateAndGetDescriptor_def)
  with f show ?thesis
    by (simp only: Unpack_move_def ValidateUnpackArgs_def raw_image_traits_def UnpackPayload_raw_move_def
        UnpackPayload_raw_def Let_def packet_traits.simps)
qed

definition header_restored :: "packet_header \<Rightarrow> packet \<Rightarrow> bool" where
  "header_restored h p \<longleftrightarrow> h_timestamp (p_header p) = h_timestamp h \<and> h_addenda (p_header p) = h_addenda h \<and>
     h_server_metadata (p_header p) = h_server_metadata h \<and> h_trace_context (p_header p) = h_trace_context h"

lemma image_packet_recoverable:
  assumes "proto_laws L" and "raw_wf L img" and "image_packet L img h p"
  shows "\<exists>a. PacketAs (raw_image_traits L) d p = Returns a \<and> pa_ok a \<and> pa_ValueOrDie a = Returns img \<and>
    (\<forall>x. h = Some x \<longrightarrow> header_restored x p)"
proof -
  obtain now q where q: "MakePacket (raw_image_traits L) (Some now) img = Inr q"
      "p = (case h of None \<Rightarrow> q | Some x \<Rightarrow> restore_header x q)"
    using assms(3) by (auto simp: image_packet_def)
  have "carries (raw_image_traits L) d img empty_header now q"
    using raw_type.make_packet [OF assms(1,2), where d = d and now = now and header = empty_header] q(1)
    by (auto simp: MakePacket_def MakePacket_header_def)
  then obtain a where a: "PacketAs (raw_image_traits L) d q = Returns a" "pa_ok a" "pa_ValueOrDie a = Returns img"
    by (auto simp: carries_def)
  have same: "same_content p q"
    using q(2) by (simp add: same_content_def restore_header_def split: option.split)
  let ?a = "a\<lparr>pa_packet := empty_packet\<lparr>p_header := p_header p\<rparr>\<rparr>"
  have "PacketAs (raw_image_traits L) d p = Returns ?a"
    using a(1) by (auto simp: PacketAs_def raw_unpack_content [OF same])
  moreover have "pa_ok ?a" "pa_ValueOrDie ?a = Returns img"
    using a(2,3) by (simp_all add: pa_ok_def pa_ValueOrDie_def)
  moreover have "header_restored x p" if "h = Some x" for x
    using q(2) that by (simp add: header_restored_def restore_header_def)
  ultimately show ?thesis by blast
qed

text \<open>
  C7. The consumer of a decoded stream. For every interleaving of the threads, the header queue is
  FIFO: the headers of the frame heads fed after the first packet, in order, are those taken by the
  images in the order they were decoded, followed by those still queued. Every packet made of an
  image adapts back to that image and carries the timestamp, addenda, server metadata and trace
  context of the header it took. What the consumer gets is a subsequence of these packets in order,
  and an EOS packet at its end once the thread has returned, and only then.
\<close>

theorem decoded_images_in_order:
  assumes "proto_laws L" and "\<forall>m \<in> stop_reasons fmt timeout. eos_wf L (Eos m)"
    and "MakeDecodedReceiverQueue L G X fmt now E S src opts queue_size timeout = Returns (st, rq, Some ip)"
    and "(decoder_step L G X fmt)\<^sup>*\<^sup>* (decoder_init ip) d"
  shows "dc_heads d = headers_taken (dc_images d) @ q_items (ip_headers (dc_ip d)) \<and>
    (\<forall>(img, h, p) \<in> set (dc_images d). raw_wf L img \<longrightarrow>
       (\<exists>a. PacketAs (raw_image_traits L) dflt p = Returns a \<and> pa_ok a \<and> pa_ValueOrDie a = Returns img \<and>
            (\<forall>x. h = Some x \<longrightarrow> header_restored x p))) \<and>
    (\<exists>sel end. dc_taken d @ q_items (ip_dest (dc_ip d)) = sel @ end \<and>
       subseq sel (map (snd \<circ> snd) (dc_images d)) \<and>
       (if \<exists>s. dc_pc d = DecReturned s then \<exists>eos. end = [eos] \<and> IsEos L eos = Returns True else end = []))"
proof -
  have inv: "decoder_inv L fmt timeout d"
    using decoder_reach_inv [OF assms(4) MakeDecodedReceiverQueue_init [OF assms(3)] assms(1)] assms(2) by blast
  then have "out_ok L d" and "\<forall>(img, h, p) \<in> set (dc_images d). image_packet L img h p"
    by (simp_all add: decoder_inv_def)
  with inv image_packet_recoverable [OF assms(1)] show ?thesis
    unfolding decoder_inv_def out_ok_def decoder_out_def by fast
qed

section \<open>Where the code falls short\<close>

text \<open>
  The header of the first packet is not queued, so the first image takes that of the second frame
  head when it has been fed, and so on: every header goes to the image before its own.
\<close>

lemma first_header_lost:
  assumes "ImageProducer_Initialize L G X fmt now ip0 = Returns (st, ip)" and "status_ok st"
    and "IsPacketFlagsSet kIsFrameHead second" and "MakePacket (raw_image_traits L) now' img = Inr q"
  shows "fst (FeedHeader second ip) \<and>
    image_entry L now' (snd (FeedHeader second ip)) img =
      [(img, Some (p_header second), restore_header (p_header second) q)]"
proof -
  have "queue_inv (ip_headers ip)" "q_items (ip_headers ip) = []"
    using ImageProducer_Initialize_ok [OF assms(1,2)] by simp_all
  with empty_not_full assms(3,4) show ?thesis
    by (auto simp: FeedHeader_def TryPush_eq image_entry_def)
qed

text \<open>The end of the stream, which the yielder tells by \<open>NotFound\<close>, is taken for an error.\<close>

lemma end_of_images_is_error:
  "PushImagePacket L now (Inl EOSStatus) ip =
     (InternalError ''Got an unexpected error from the given StatusOr<RawImage>'', ip)"
  by (simp add: PushImagePacket_def EOSStatus_def IsResourceExhausted_def mk_Status_def status_code_of_def)

text \<open>The reason why a packet could not be fed is lost.\<close>

lemma feed_failure_unreported:
  assumes "FeedHeader p (dc_ip d) = (True, ip)" and "FeedBuffer L G X p ip = Returns (st, ip')" and "\<not> status_ok st"
  shows "dc_pc (decoder_feed L G X p d) = DecStopping []"
  using assms by (simp add: decoder_feed_def Let_def error_message_def OkStatus_def)

text \<open>When the consumer has gone and left a full queue, the thread never ends.\<close>

lemma decoder_stuck_without_consumer:
  assumes "dc_pc d = DecPushingEos m" and "\<not> dc_consumer d" and "is_full (ip_dest (dc_ip d))"
    and "queue_inv (ip_dest (dc_ip d))" and "MakeEosPacket L now m = Inr eos"
  shows "decoder_work L G X fmt now d = None \<and> decoder_pop d = None"
proof -
  have "fifo_put eos (ip_dest (dc_ip d)) = None" using assms(3,4) by (simp add: pcq.put_full)
  with assms show ?thesis by (simp add: decoder_work_def PushEosPacket_def fifo_put_Emplace decoder_pop_def)
qed

text \<open>A size that is not positive ends the process; the size of the other queue has a default instead.\<close>

lemma queue_size_unchecked:
  assumes "MakePacketReceiverQueue E S opts = Returns (st, rq, pr)" and "status_ok st" and "sint queue_size \<le> 0"
  shows "is_fatal (MakeDecodedReceiverQueue L G X fmt now E S src opts queue_size timeout)"
  using assms by (simp add: MakeDecodedReceiverQueue_def new_pc_queue_def)

section \<open>Witness\<close>

definition frame_packet :: "int64 \<Rightarrow> string \<Rightarrow> packet" where
  "frame_packet t s = \<lparr>p_header = empty_header\<lparr>h_timestamp := \<lparr>ts_seconds = t, ts_nanos = 0\<rparr>,
     h_type := \<lparr>pt_type_id = PACKET_TYPE_JPEG, pt_type_name = ''JpegFrame'', pt_type_descriptor = empty_any\<rparr>,
     h_flags := 3\<rparr>, p_payload = s\<rparr>"

lemma frame_packet_buffer:
  "ToGstreamerBuffer_packet L G (frame_packet t s) = Returns (Inr \<lparr>gb_caps = ''image/jpeg'', gb_bytes = s\<rparr>)"
  by (simp add: ToGstreamerBuffer_packet_def GetPacketTypeId_def frame_packet_def JpegPacketToGstreamerBuffer_def
      PacketAs_def Unpack_move_def ValidateUnpackArgs_def jpeg_traits_def UnpackPayload_jpeg_def Let_def pa_ok_def
      pa_ValueOrDie_def gb_assign_def set_caps_string_def kJpegGstreamerMimeType_def empty_gst_buffer_def
      OkStatus_def status_ok_def del: outcome_bind_Returns_iff)

definition example_image :: raw_image where
  "example_image = \<lparr>ri_height = 2, ri_width = 1, ri_channels = 3, ri_format = RAW_IMAGE_FORMAT_SRGB,
     ri_data = ''abcdef''\<rparr>"

definition example_fmt :: "duration \<Rightarrow> string" where
  "example_fmt t = ''5s''"

definition decoder_lib :: proto_lib where
  "decoder_lib = table_lib [ControlSignalPacketTypeDescriptor CONTROL_SIGNAL_EOS, EosValue [],
     EosValue ''The raw image stream has ended'',
     EosValue ''The server has not yielded any source packets within the timeout (5s)'',
     RawImagePacketTypeDescriptor (descriptor_of_image example_image)]"

definition example_source :: receiver_queue where
  "example_source = \<lparr>rq_pcqueue = Some \<lparr>q_capacity = 2, q_items = [frame_packet 1 ''a'', frame_packet 2 ''b'']\<rparr>\<rparr>"

lemma example_decoder:
  "\<exists>rq ip. MakeDecodedReceiverQueue decoder_lib unary_gst example_runtime example_fmt None example_env example_server
      (\<lambda>_. example_source) example_wrapper_options 1 (Ticks 5) = Returns (OkStatus, rq, Some ip) \<and>
      pipeline_runs (decoder_init ip)"
proof -
  obtain pr where pr: "MakePacketReceiverQueue example_env example_server example_wrapper_options =
      Returns (OkStatus, \<lparr>rq_pcqueue = Some \<lparr>q_capacity = 1, q_items = []\<rparr>\<rparr>, Some pr)"
    using example_queue by blast
  show ?thesis
    by (simp add: MakeDecodedReceiverQueue_def pr new_pc_queue_def ImageProducer_Create_def
        ImageProducer_Initialize_def rq_capacity_def queue_capacity_def example_source_def PullSourcePacket_def
        rq_TryPop_def TryPop_eq frame_packet_buffer Yielder_Create_def Runner_Create_def RunnerImpl_Create_def
        GstreamerPipeline_Create_def GstInit_def ValidateOptions_def example_runtime_def kGenericDecodeString_def
        Let_def Yielder_Feed_def Runner_Feed_def RunnerImpl_Feed_def cs_IsCompleted_def cs_Start_def
        OkStatus_def status_ok_def pipeline_runs_def decoder_init_def del: outcome_bind_Returns_iff)
qed

theorem decoded_images_in_order_witness:
  "\<exists>ip d p a. (decoder_step decoder_lib unary_gst example_runtime example_fmt)\<^sup>*\<^sup>* (decoder_init ip) d \<and>
     dc_images d = [(example_image, None, p)] \<and>
     PacketAs (raw_image_traits decoder_lib) example_image p = Returns a \<and> pa_ValueOrDie a = Returns example_image"
proof -
  obtain rq ip where ip: "MakeDecodedReceiverQueue decoder_lib unary_gst example_runtime example_fmt None example_env
      example_server (\<lambda>_. example_source) example_wrapper_options 1 (Ticks 5) = Returns (OkStatus, rq, Some ip)"
      "pipeline_runs (decoder_init ip)"
    using example_decoder by blast
  have inv: "raw_image_inv example_image" "rgb_convertible example_image"
    by (simp_all add: example_image_def rgb_convertible_def raw_image_inv_def desc_ok_def pixel_bytes_def
        descriptor_of_image_def int_max_def round_up_4_def)
  obtain b where b: "ToRawImage unary_gst b = Returns (Inr example_image)"
    using rgb_buffer_roundtrip [OF unary_gst_laws inv(2)] by blast
  have L: "proto_laws decoder_lib" by (simp only: decoder_lib_def table_lib_laws)
  have wf: "raw_wf decoder_lib example_image"
    using inv(1) by (simp add: decoder_lib_def raw_wf_def table_lib_def)
  have eos: "\<forall>m \<in> stop_reasons example_fmt (Ticks 5). eos_wf decoder_lib (Eos m)"
    by (simp add: stop_reasons_def example_fmt_def eos_wf_def decoder_lib_def table_lib_def)
  obtain p where p: "MakePacket (raw_image_traits decoder_lib) (Some (5, 7)) example_image = Inr p"
    using raw_type.make_packet [OF L wf, where now = "(5, 7)" and header = empty_header]
    by (auto simp: MakePacket_def MakePacket_header_def)
  let ?d = "decoder_image decoder_lib unary_gst (Some (5, 7)) b (decoder_init ip)"
  have reach: "(decoder_step decoder_lib unary_gst example_runtime example_fmt)\<^sup>*\<^sup>* (decoder_init ip) ?d"
    using ip(2) decoder_step.image by blast
  have "decoder_inv decoder_lib example_fmt (Ticks 5) (decoder_init ip)"
    by (rule MakeDecodedReceiverQueue_init [OF ip(1)])
  then have "q_items (ip_headers ip) = []"
    by (simp add: decoder_inv_def decoder_init_def headers_taken_def)
  with p b have images: "dc_images ?d = [(example_image, None, p)]"
    by (simp add: decoder_image_def yielder_receiver_callback_def image_entry_def decoder_init_def)
  from decoded_images_in_order [OF L eos ip(1) reach, of example_image] images wf reach show ?thesis
    by auto
qed

end
