(* ===== verification/Packet_Typing.thy ===== *)
theory Packet_Typing
  imports C_Api Decoded_Receivers
begin

text \<open>
  The types of packets across the components. A packet is well typed when its descriptor and payload decode for its
  type. Whatever the components do to a packet between the place where it is made and the place where
  it is adapted is a step \<open>packet_step\<close>: flags, time, addenda, the trace context of the sender, the metadata of the server, the
  header that the decoder restores. Steps preserve types, and a well-typed packet can be unpacked.
\<close>

section \<open>Values and types\<close>

datatype packet_value = StringValueOf string | JpegValueOf jpeg_frame | GstValueOf gstreamer_buffer
  | EosValueOf eos | RawValueOf raw_image | ProtoValueOf proto_message

fun value_type :: "packet_value \<Rightarrow> packet_type_id" where
  "value_type (StringValueOf s) = PACKET_TYPE_STRING"
| "value_type (JpegValueOf j) = PACKET_TYPE_JPEG"
| "value_type (GstValueOf b) = PACKET_TYPE_GSTREAMER_BUFFER"
| "value_type (EosValueOf e) = PACKET_TYPE_CONTROL_SIGNAL"
| "value_type (RawValueOf i) = PACKET_TYPE_RAW_IMAGE"
| "value_type (ProtoValueOf m) = PACKET_TYPE_PROTOBUF"

text \<open>The values that can be encoded.\<close>

fun value_wf :: "proto_lib \<Rightarrow> packet_value \<Rightarrow> bool" where
  "value_wf L (GstValueOf b) = gst_wf L b"
| "value_wf L (EosValueOf e) = eos_wf L e"
| "value_wf L (RawValueOf i) = raw_wf L i"
| "value_wf L (ProtoValueOf m) = protobuf_wf L m"
| "value_wf L v = True"

text \<open>\<open>MakePacket\<close> at the type of a value.\<close>

fun make_value ::
    "proto_lib \<Rightarrow> (string \<Rightarrow> proto_message \<Rightarrow> proto_message) \<Rightarrow> clock \<Rightarrow> packet_header \<Rightarrow> packet_value \<Rightarrow> packet result" where
  "make_value L partial now h (StringValueOf s) = MakePacket_header string_traits now s h"
| "make_value L partial now h (JpegValueOf j) = MakePacket_header jpeg_traits now j h"
| "make_value L partial now h (GstValueOf b) = MakePacket_header (gst_traits L) now b h"
| "make_value L partial now h (EosValueOf e) = MakePacket_header (eos_traits L) now e h"
| "make_value L partial now h (RawValueOf i) = MakePacket_header (raw_image_traits L) now i h"
| "make_value L partial now h (ProtoValueOf m) = MakePacket_header (protobuf_traits L partial) now m h"

text \<open>
  A packet reads as a value: \<open>PacketAs\<close> of the value's type is ok and holds it. A protobuf has to be asked for by
  its own message type.
\<close>

definition adapts :: "'t packet_traits \<Rightarrow> 't \<Rightarrow> packet \<Rightarrow> 't \<Rightarrow> bool" where
  "adapts tr d p t \<longleftrightarrow> (\<exists>a. PacketAs tr d p = Returns a \<and> pa_ok a \<and> pa_ValueOrDie a = Returns t)"

fun reads_as ::
    "proto_lib \<Rightarrow> (string \<Rightarrow> proto_message \<Rightarrow> proto_message) \<Rightarrow> packet \<Rightarrow> packet_value \<Rightarrow> bool" where
  "reads_as L partial p (StringValueOf s) = (\<forall>d. adapts string_traits d p s)"
| "reads_as L partial p (JpegValueOf j) = (\<forall>d. adapts jpeg_traits d p j)"
| "reads_as L partial p (GstValueOf b) = (\<forall>d. adapts (gst_traits L) d p b)"
| "reads_as L partial p (EosValueOf e) = (\<forall>d. adapts (eos_traits L) d p e)"
| "reads_as L partial p (RawValueOf i) = (\<forall>d. adapts (raw_image_traits L) d p i)"
| "reads_as L partial p (ProtoValueOf m) =
     (\<forall>d. GetTypeName d = GetTypeName m \<longrightarrow> adapts (protobuf_traits L partial) d p m)"

text \<open>The typing of packets.\<close>

fun typed_content :: "proto_lib \<Rightarrow> packet_type_id \<Rightarrow> packet \<Rightarrow> bool" where
  "typed_content L PACKET_TYPE_STRING p = True"
| "typed_content L PACKET_TYPE_JPEG p = True"
| "typed_content L PACKET_TYPE_GSTREAMER_BUFFER p = (case GetTypeDescriptor L p of Inr _ \<Rightarrow> True | Inl _ \<Rightarrow> False)"
| "typed_content L PACKET_TYPE_CONTROL_SIGNAL p = (status_ok (ValidateTypeDescriptor L p) \<and>
     (case pl_parse L ''aistreams.EosValue'' (p_payload p) of Some (EosValue r) \<Rightarrow> True | _ \<Rightarrow> False))"
| "typed_content L PACKET_TYPE_RAW_IMAGE p = (case ValidateAndGetDescriptor L p of Inr _ \<Rightarrow> True | Inl _ \<Rightarrow> False)"
| "typed_content L PACKET_TYPE_PROTOBUF p =
     (case pl_unpack_any L ''aistreams.ProtobufPacketTypeDescriptor'' (descriptor_of p) of
        Some (ProtobufPacketTypeDescriptor name text_format) \<Rightarrow> \<not> text_format \<and>
          (case pl_parse L name (p_payload p) of Some m \<Rightarrow> GetTypeName m = name | None \<Rightarrow> False)
      | _ \<Rightarrow> False)"
| "typed_content L t p = False"

definition well_typed :: "proto_lib \<Rightarrow> packet \<Rightarrow> bool" where
  "well_typed L p = typed_content L (packet_type_of p) p"

section \<open>What happens to packets\<close>

inductive packet_step :: "packet \<Rightarrow> packet \<Rightarrow> bool" where
  set_flags_step: "packet_step p (SetPacketFlags f p)"
| unset_flags_step: "packet_step p (UnsetPacketFlags f p)"
| clear_flags_step: "packet_step p (ClearPacketFlags p)"
| default_flags_step: "RestoreDefaultPacketFlags (Some p) = (st, Some q) \<Longrightarrow> packet_step p q"
| time_step: "SetToCurrentTime now (Some p) = (st, Some q) \<Longrightarrow> packet_step p q"
| insert_addendum_step: "InsertAddendum key a p = (st, q) \<Longrightarrow> packet_step p q"
| insert_proto_step: "InsertProtoAddendum L key m p = (st, q) \<Longrightarrow> packet_step p q"
| insert_string_step: "InsertStringAddendum L key v p = (st, q) \<Longrightarrow> packet_step p q"
| delete_addendum_step: "DeleteAddendum key p = (st, q) \<Longrightarrow> packet_step p q"
| key_frame_step: "packet_step p (AIS_SetIsKeyFrame b p)"
| frame_head_step: "packet_step p (AIS_SetIsFrameHead b p)"
| send_step: "Send start_span E S p t s = Returns (st, q, t', s') \<Longrightarrow> packet_step p q"
| restore_header_step: "packet_step p (restore_header h p)"
| server_step: "packet_step p (p\<lparr>p_header := (p_header p)\<lparr>h_server_metadata := m\<rparr>\<rparr>)"

section \<open>Lemmas\<close>

lemma Send_packet:
  assumes "Send start_span E S p t s = Returns (st, q, t', s')"
  shows "same_but_trace p q"
proof -
  obtain r u where r: "traced start_span (pso_trace_probability (ps_options s)) p t = (r, u)" by force
  then have "same_but_trace p r" using traced_same by (metis fst_conv)
  moreover have "r = q" using assms r by (auto simp: Send_eq)
  ultimately show ?thesis by simp
qed

lemma packet_step_content: "packet_step p q \<Longrightarrow> same_content p q"
proof (induction rule: packet_step.induct)
  case (send_step start_span E S p t s st q t' s')
  then show ?case using Send_packet same_but_trace_content by blast
qed (auto simp: same_content_def SetPacketFlags_def UnsetPacketFlags_def ClearPacketFlags_def set_flags_def
    RestoreDefaultPacketFlags_def SetToCurrentTime_def set_timestamp_def InsertAddendum_def InsertProtoAddendum_def
    InsertStringAddendum_def DeleteAddendum_def set_addenda_def AIS_SetIsKeyFrame_def AIS_SetIsFrameHead_def
    restore_header_def Let_def split: option.splits if_splits packet_type_id.splits prod.splits)

lemma packet_steps_content: "packet_step\<^sup>*\<^sup>* p q \<Longrightarrow> same_content p q"
  by (induction rule: rtranclp_induct) (auto intro: same_content_trans packet_step_content)

text \<open>Adapting, spelled out.\<close>

lemma adapts_iff:
  assumes "\<exists>st d'. tr_unpack_move tr p (Some d) = Returns (st, Some d')"
  shows "adapts tr d p t \<longleftrightarrow> packet_type_of p = tr_type_id tr \<and>
     (\<exists>st. tr_unpack_move tr p (Some d) = Returns (st, Some t) \<and> status_ok st)"
proof -
  obtain st d' where u: "tr_unpack_move tr p (Some d) = Returns (st, Some d')" using assms by blast
  show ?thesis
  proof (cases "packet_type_of p = tr_type_id tr")
    case True
    with u show ?thesis
      by (auto simp: adapts_def PacketAs_def Unpack_move_def ValidateUnpackArgs_def Let_def pa_ok_def pa_ValueOrDie_def)
  next
    case False
    then show ?thesis
      by (auto simp: adapts_def PacketAs_def Unpack_move_def ValidateUnpackArgs_def Let_def pa_ok_def pa_ValueOrDie_def)
  qed
qed

lemma adapts_string: "adapts string_traits d p s \<longleftrightarrow> packet_type_of p = PACKET_TYPE_STRING \<and> p_payload p = s"
  unfolding adapts_iff [OF string_type.total_move] by (auto simp: string_traits_def UnpackPayload_string_def)

lemma adapts_jpeg: "adapts jpeg_traits d p j \<longleftrightarrow> packet_type_of p = PACKET_TYPE_JPEG \<and> p_payload p = jf_bytes j"
  unfolding adapts_iff [OF jpeg_type.total_move] by (cases j) (auto simp: jpeg_traits_def UnpackPayload_jpeg_def)

lemma adapts_gst:
  "adapts (gst_traits L) d p b \<longleftrightarrow> packet_type_of p = PACKET_TYPE_GSTREAMER_BUFFER \<and>
     GetTypeDescriptor L p = Inr (gb_caps b) \<and> p_payload p = gb_bytes b"
  unfolding adapts_iff [OF gst_type.total_move]
  by (cases b; cases d) (auto simp: gst_traits_def UnpackPayload_gst_def GetTypeDescriptor_def gb_assign_def
      set_caps_string_def split: sum.splits option.splits proto_message.splits)

lemma adapts_eos:
  "adapts (eos_traits L) d p e \<longleftrightarrow> packet_type_of p = PACKET_TYPE_CONTROL_SIGNAL \<and>
     status_ok (ValidateTypeDescriptor L p) \<and>
     pl_parse L ''aistreams.EosValue'' (p_payload p) = Some (EosValue (eos_reason e))"
  unfolding adapts_iff [OF eos_type.total_move]
  by (cases e) (auto simp: eos_traits_def UnpackPayload_eos_def split: if_splits option.splits proto_message.splits)

lemma bad_descriptor_status: "ValidateAndGetDescriptor L p = Inl st \<Longrightarrow> \<not> status_ok st"
  using GetBufferSize_status
  by (auto simp: ValidateAndGetDescriptor_def split: option.splits proto_message.splits if_splits sum.splits)

lemma adapts_raw:
  "adapts (raw_image_traits L) d p i \<longleftrightarrow> packet_type_of p = PACKET_TYPE_RAW_IMAGE \<and>
     (\<exists>desc. ValidateAndGetDescriptor L p = Inr desc \<and>
        i = \<lparr>ri_height = rid_height desc, ri_width = rid_width desc, ri_channels = GetNumChannels (rid_format desc),
             ri_format = rid_format desc, ri_data = p_payload p\<rparr>)"
proof (cases "ValidateAndGetDescriptor L p")
  case (Inl st)
  with bad_descriptor_status [OF Inl] show ?thesis
    unfolding adapts_iff [OF raw_type.total_move] by (simp add: raw_image_traits_def UnpackPayload_raw_move_def)
next
  case (Inr desc)
  with unpack_raw_image [OF Inr, of d] show ?thesis
    unfolding adapts_iff [OF raw_type.total_move] by (auto simp: raw_image_traits_def)
qed

lemma adapts_protobuf:
  "adapts (protobuf_traits L partial) d p m \<longleftrightarrow> packet_type_of p = PACKET_TYPE_PROTOBUF \<and>
     pl_unpack_any L ''aistreams.ProtobufPacketTypeDescriptor'' (descriptor_of p) =
       Some (ProtobufPacketTypeDescriptor (GetTypeName d) False) \<and>
     pl_parse L (GetTypeName d) (p_payload p) = Some m"
  unfolding adapts_iff [OF protobuf_type.total_move]
  by (auto simp: protobuf_traits_def UnpackPayload_protobuf_def
      split: option.splits proto_message.splits if_splits)

lemmas adapts_each = adapts_string adapts_jpeg adapts_gst adapts_eos adapts_raw adapts_protobuf

text \<open>What each type asks of the content of a packet to read it as a value.\<close>

lemma reads_as_iff:
  "reads_as L partial p v \<longleftrightarrow> packet_type_of p = value_type v \<and> (case v of
      StringValueOf s \<Rightarrow> p_payload p = s
    | JpegValueOf j \<Rightarrow> p_payload p = jf_bytes j
    | GstValueOf b \<Rightarrow> GetTypeDescriptor L p = Inr (gb_caps b) \<and> p_payload p = gb_bytes b
    | EosValueOf e \<Rightarrow> status_ok (ValidateTypeDescriptor L p) \<and>
        pl_parse L ''aistreams.EosValue'' (p_payload p) = Some (EosValue (eos_reason e))
    | RawValueOf i \<Rightarrow> (\<exists>d. ValidateAndGetDescriptor L p = Inr d \<and>
        i = \<lparr>ri_height = rid_height d, ri_width = rid_width d, ri_channels = GetNumChannels (rid_format d),
             ri_format = rid_format d, ri_data = p_payload p\<rparr>)
    | ProtoValueOf m \<Rightarrow>
        pl_unpack_any L ''aistreams.ProtobufPacketTypeDescriptor'' (descriptor_of p) =
          Some (ProtobufPacketTypeDescriptor (GetTypeName m) False) \<and>
        pl_parse L (GetTypeName m) (p_payload p) = Some m)"
  by (cases v) (auto simp: adapts_each)

lemma reads_as_unique: "reads_as L partial p v \<Longrightarrow> reads_as L partial p w \<Longrightarrow> w = v"
  by (cases v; cases w) (auto simp: reads_as_iff jpeg_frame.expand eos.expand)

lemma well_typed_iff: "well_typed L p \<longleftrightarrow> (\<exists>v. reads_as L partial p v)"
proof
  assume w: "well_typed L p"
  show "\<exists>v. reads_as L partial p v"
  proof (cases "packet_type_of p")
    case PACKET_TYPE_STRING
    then show ?thesis by (intro exI [of _ "StringValueOf (p_payload p)"]) (simp add: reads_as_iff del: reads_as.simps)
  next
    case PACKET_TYPE_JPEG
    then show ?thesis
      by (intro exI [of _ "JpegValueOf (JpegFrame (p_payload p))"]) (simp add: reads_as_iff del: reads_as.simps)
  next
    case PACKET_TYPE_GSTREAMER_BUFFER
    with w obtain c where "GetTypeDescriptor L p = Inr c" by (auto simp: well_typed_def split: sum.splits)
    with PACKET_TYPE_GSTREAMER_BUFFER show ?thesis
      by (intro exI [of _ "GstValueOf \<lparr>gb_caps = c, gb_bytes = p_payload p\<rparr>"]) (simp add: reads_as_iff del: reads_as.simps)
  next
    case PACKET_TYPE_CONTROL_SIGNAL
    with w obtain r where "status_ok (ValidateTypeDescriptor L p)"
        "pl_parse L ''aistreams.EosValue'' (p_payload p) = Some (EosValue r)"
      by (auto simp: well_typed_def split: option.splits proto_message.splits)
    with PACKET_TYPE_CONTROL_SIGNAL show ?thesis
      by (intro exI [of _ "EosValueOf (Eos r)"]) (simp add: reads_as_iff del: reads_as.simps)
  next
    case PACKET_TYPE_RAW_IMAGE
    with w obtain d where "ValidateAndGetDescriptor L p = Inr d" by (auto simp: well_typed_def split: sum.splits)
    with PACKET_TYPE_RAW_IMAGE show ?thesis
      by (intro exI [of _ "RawValueOf \<lparr>ri_height = rid_height d, ri_width = rid_width d,
            ri_channels = GetNumChannels (rid_format d), ri_format = rid_format d, ri_data = p_payload p\<rparr>"])
         (simp add: reads_as_iff del: reads_as.simps)
  next
    case PACKET_TYPE_PROTOBUF
    with w obtain name m where "pl_unpack_any L ''aistreams.ProtobufPacketTypeDescriptor'' (descriptor_of p) =
        Some (ProtobufPacketTypeDescriptor name False)" "pl_parse L name (p_payload p) = Some m" "GetTypeName m = name"
      by (auto simp: well_typed_def split: option.splits proto_message.splits)
    with PACKET_TYPE_PROTOBUF show ?thesis
      by (intro exI [of _ "ProtoValueOf m"]) (simp add: reads_as_iff del: reads_as.simps)
  qed (use w in \<open>simp_all add: well_typed_def\<close>)
next
  assume "\<exists>v. reads_as L partial p v"
  then obtain v where "reads_as L partial p v" by blast
  then show "well_typed L p" by (cases v) (auto simp: reads_as_iff well_typed_def simp del: reads_as.simps)
qed

text \<open>The decoding of a descriptor only sees the content.\<close>

lemma same_content_decoding:
  assumes "same_content p q"
  shows "packet_type_of q = packet_type_of p" "p_payload q = p_payload p" "descriptor_of q = descriptor_of p"
    "GetTypeDescriptor L q = GetTypeDescriptor L p" "ValidateTypeDescriptor L q = ValidateTypeDescriptor L p"
    "ValidateAndGetDescriptor L q = ValidateAndGetDescriptor L p"
proof -
  have e: "packet_type_of q = packet_type_of p" "p_payload q = p_payload p" "descriptor_of q = descriptor_of p"
    using assms by (simp_all add: same_content_def)
  show "packet_type_of q = packet_type_of p" "p_payload q = p_payload p" "descriptor_of q = descriptor_of p"
    by (fact e)+
  show "GetTypeDescriptor L q = GetTypeDescriptor L p" "ValidateTypeDescriptor L q = ValidateTypeDescriptor L p"
    "ValidateAndGetDescriptor L q = ValidateAndGetDescriptor L p"
    by (simp_all only: e GetTypeDescriptor_def ValidateTypeDescriptor_def ValidateAndGetDescriptor_def)
qed

lemma reads_as_same:
  assumes "same_content p q"
  shows "reads_as L partial q v = reads_as L partial p v"
  by (simp only: reads_as_iff same_content_decoding [OF assms])

lemma well_typed_same: "same_content p q \<Longrightarrow> well_typed L q = well_typed L p"
  by (simp only: well_typed_iff [of L _ "\<lambda>_ m. m"] reads_as_same)

lemma carries_adapts: "carries tr d t h now p \<Longrightarrow> adapts tr d p t"
  by (auto simp: carries_def adapts_def)

text \<open>The facts of the six interpretations of \<open>packet_type\<close> together.\<close>

lemma make_value_reads:
  assumes "proto_laws L" and "value_wf L v"
  shows "\<exists>p. make_value L partial (Some now) h v = Inr p \<and> reads_as L partial p v"
proof (cases v)
  case (StringValueOf s)
  obtain p where "MakePacket_header string_traits (Some now) s h = Inr p" "carries string_traits s s h now p"
    using string_type.make_packet [OF assms(1), where t = s and d = s] by blast
  with StringValueOf show ?thesis by (auto simp: adapts_string dest: carries_adapts)
next
  case (JpegValueOf j)
  obtain p where "MakePacket_header jpeg_traits (Some now) j h = Inr p" "carries jpeg_traits j j h now p"
    using jpeg_type.make_packet [OF assms(1), where t = j and d = j] by blast
  with JpegValueOf show ?thesis by (auto simp: adapts_jpeg dest: carries_adapts)
next
  case (GstValueOf b)
  with assms(2) have "gst_wf L b" by simp
  then obtain p where "MakePacket_header (gst_traits L) (Some now) b h = Inr p" "carries (gst_traits L) b b h now p"
    using gst_type.make_packet [OF assms(1), where t = b and d = b] by blast
  with GstValueOf show ?thesis by (auto simp: adapts_gst dest: carries_adapts)
next
  case (EosValueOf e)
  with assms(2) have "eos_wf L e" by simp
  then obtain p where "MakePacket_header (eos_traits L) (Some now) e h = Inr p" "carries (eos_traits L) e e h now p"
    using eos_type.make_packet [OF assms(1), where t = e and d = e] by blast
  with EosValueOf show ?thesis by (auto simp: adapts_eos dest: carries_adapts)
next
  case (RawValueOf i)
  with assms(2) have "raw_wf L i" by simp
  then obtain p where "MakePacket_header (raw_image_traits L) (Some now) i h = Inr p"
      "carries (raw_image_traits L) i i h now p"
    using raw_type.make_packet [OF assms(1), where t = i and d = i] by blast
  with RawValueOf show ?thesis by (auto simp: adapts_raw dest!: carries_adapts)
next
  case (ProtoValueOf m)
  with assms(2) have "protobuf_wf L m" by simp
  then obtain p where "MakePacket_header (protobuf_traits L partial) (Some now) m h = Inr p"
      "carries (protobuf_traits L partial) m m h now p"
    using protobuf_type.make_packet [OF assms(1), where t = m and d = m] by blast
  with ProtoValueOf show ?thesis by (auto simp: adapts_protobuf dest: carries_adapts)
qed

text \<open>
  C12. Packets keep their type. A packet made of an encodable value has the type of the value, is well typed, and
  after any sequence of the changes that the components and the server make it still reads as
  exactly this value and as nothing else. Any well-typed packet, wherever it came from, stays well typed
  under these changes and reads as exactly one value, before as after.
\<close>

theorem packet_types_sound:
  assumes "proto_laws L" and "value_wf L v"
  shows "(\<exists>p. make_value L partial (Some now) h v = Inr p \<and>
      (\<forall>q. packet_step\<^sup>*\<^sup>* p q \<longrightarrow> packet_type_of q = value_type v \<and> well_typed L q \<and>
         (\<forall>w. reads_as L partial q w \<longleftrightarrow> w = v))) \<and>
    (\<forall>p q. packet_step\<^sup>*\<^sup>* p q \<and> well_typed L p \<longrightarrow> well_typed L q \<and>
       (\<exists>w. value_type w = packet_type_of p \<and>
          (\<forall>x. (reads_as L partial p x \<longleftrightarrow> x = w) \<and> (reads_as L partial q x \<longleftrightarrow> x = w))))"
proof (intro conjI allI impI)
  obtain p where p: "make_value L partial (Some now) h v = Inr p" "reads_as L partial p v"
    using make_value_reads [OF assms] by blast
  have "packet_type_of q = value_type v \<and> well_typed L q \<and> (\<forall>w. reads_as L partial q w \<longleftrightarrow> w = v)"
    if "packet_step\<^sup>*\<^sup>* p q" for q
  proof -
    have "reads_as L partial q v" using reads_as_same [OF packet_steps_content [OF that]] p(2) by blast
    then show ?thesis using reads_as_unique well_typed_iff reads_as_iff by metis
  qed
  with p(1) show "\<exists>p. make_value L partial (Some now) h v = Inr p \<and>
      (\<forall>q. packet_step\<^sup>*\<^sup>* p q \<longrightarrow> packet_type_of q = value_type v \<and> well_typed L q \<and>
         (\<forall>w. reads_as L partial q w \<longleftrightarrow> w = v))" by blast
next
  fix p q assume a: "packet_step\<^sup>*\<^sup>* p q \<and> well_typed L p"
  then have s: "same_content p q" using packet_steps_content by blast
  show "well_typed L q" using well_typed_same [OF s] a by blast
  obtain w where w: "reads_as L partial p w" using a well_typed_iff by blast
  then have "value_type w = packet_type_of p" using reads_as_iff by metis
  with w reads_as_unique reads_as_same [OF s]
  show "\<exists>w. value_type w = packet_type_of p \<and>
      (\<forall>x. (reads_as L partial p x \<longleftrightarrow> x = w) \<and> (reads_as L partial q x \<longleftrightarrow> x = w))" by metis
qed

definition caps_lib :: proto_lib where
  "caps_lib = table_lib [GstreamerBufferPacketTypeDescriptor ''c'']"

definition caps_value :: packet_value where
  "caps_value = GstValueOf \<lparr>gb_caps = ''c'', gb_bytes = ''b''\<rparr>"

theorem packet_types_sound_witness:
  "\<exists>p. make_value caps_lib (\<lambda>_ m. m) (Some (1, 2)) empty_header caps_value = Inr p \<and>
     reads_as caps_lib (\<lambda>_ m. m) (AIS_SetIsKeyFrame 0 (SetPacketFlags 4 p)) caps_value"
proof -
  have L: "proto_laws caps_lib" by (simp only: caps_lib_def table_lib_laws)
  have v: "value_wf caps_lib caps_value" by (simp add: caps_value_def gst_wf_def caps_lib_def table_lib_def)
  have s: "packet_step\<^sup>*\<^sup>* p (AIS_SetIsKeyFrame 0 (SetPacketFlags 4 p))" for p
    by (rule rtranclp.rtrancl_into_rtrancl [OF r_into_rtranclp [of packet_step, OF set_flags_step] key_frame_step])
  from conjunct1 [OF packet_types_sound [OF L v, where partial = "\<lambda>_ m. m" and now = "(1, 2)" and h = empty_header]]
  obtain p where p: "make_value caps_lib (\<lambda>_ m. m) (Some (1, 2)) empty_header caps_value = Inr p"
    "\<forall>q. packet_step\<^sup>*\<^sup>* p q \<longrightarrow> packet_type_of q = value_type caps_value \<and> well_typed caps_lib q \<and>
       (\<forall>w. reads_as caps_lib (\<lambda>_ m. m) q w \<longleftrightarrow> w = caps_value)" by (elim exE conjE)
  from p(2) s [of p] have "reads_as caps_lib (\<lambda>_ m. m) (AIS_SetIsKeyFrame 0 (SetPacketFlags 4 p)) caps_value"
    by (simp only: simp_thms)
  with p(1) show ?thesis by (intro exI [of _ p] conjI)
qed

text \<open>A packet of one type does not adapt to another.\<close>

lemma wrong_type_refused:
  assumes "packet_type_of p \<noteq> tr_type_id tr"
  shows "\<exists>a. PacketAs tr d p = Returns a \<and> IsInvalidArgument (pa_status a) \<and> pa_value a = d"
  using assms by (simp add: PacketAs_def Unpack_move_def ValidateUnpackArgs_def)

end
