(* ===== verification/Receiver_Apps.thy ===== *)
theory Receiver_Apps
  imports Packet_Typing "HOL-Library.Sublist"
begin

text \<open>
  The programs that receive packets: \<open>python/apps/printer_app.cc\<close>, \<open>python/apps/replay_app.cc\<close> and the
  examples \<open>simple_receiver_main.cc\<close>, \<open>simple_decoded_receiver_main.cc\<close> and \<open>simple_sender_main.cc\<close> of
  \<open>src/tutorials/examples\<close>.

  The body of each loop is a function of what \<open>TryPop\<close> gave (\<open>None\<close> when it timed out) and of the
  variables of the loop, followed by the history of the packets processed. \<open>pop_loop\<close> runs a body over the
  results of the calls of \<open>TryPop\<close>; \<open>receiver_run\<close> says which results the queue and its worker thread can
  give, so nothing is assumed of how the threads interleave. The flags of the programs are records; what they log is left out.
\<close>

section \<open>Loops that pop packets\<close>

text \<open>A loop goes on, is left with the result of the function, or the process dies.\<close>

datatype ('s, 'r) progress = Next 's | Done 's 'r | Dies string

fun pop_loop ::
    "(packet option \<Rightarrow> 's \<Rightarrow> ('s, 'r) progress) \<Rightarrow> packet option list \<Rightarrow> 's \<Rightarrow> ('s, 'r) progress" where
  "pop_loop body [] s = Next s"
| "pop_loop body (got # pops) s = (case body got s of Next s' \<Rightarrow> pop_loop body pops s' | r \<Rightarrow> r)"

fun gotten :: "packet option list \<Rightarrow> packet list" where
  "gotten [] = []"
| "gotten (None # pops) = gotten pops"
| "gotten (Some p # pops) = p # gotten pops"

text \<open>
  The results that a consumer gets while the worker runs. \<open>timed\<close> tells that the timeout of \<open>TryPop\<close> is finite; it
  gives up only when it finds the queue empty.
\<close>

inductive receiver_run ::
    "proto_lib \<Rightarrow> stream_server \<Rightarrow> bool \<Rightarrow> receiver_system \<Rightarrow> packet option list \<Rightarrow> receiver_system \<Rightarrow> bool"
  for L S timed w0 where
  run_start: "receiver_run L S timed w0 [] w0"
| run_worker: "receiver_run L S timed w0 pops w \<Longrightarrow> worker_step L S E (Some now) w = Some w' \<Longrightarrow>
     receiver_run L S timed w0 pops w'"
| run_pop: "receiver_run L S timed w0 pops w \<Longrightarrow> wk_consumer w \<Longrightarrow>
     TryPop empty_packet (wk_queue w) = Some (Returns (True, p, q)) \<Longrightarrow>
     receiver_run L S timed w0 (pops @ [Some p]) (w\<lparr>wk_queue := q, wk_popped := wk_popped w @ [p]\<rparr>)"
| run_timeout: "receiver_run L S timed w0 pops w \<Longrightarrow> wk_consumer w \<Longrightarrow> timed \<Longrightarrow> q_items (wk_queue w) = [] \<Longrightarrow>
     receiver_run L S timed w0 (pops @ [None]) w"

section \<open>Flags\<close>

record program_flags =
  fl_target_address :: string
  fl_stream_name :: string
  fl_authenticate_with_google :: bool
  fl_use_insecure_channel :: bool
  fl_ssl_domain_name :: string
  fl_ssl_root_cert_path :: string
  fl_timeout_in_sec :: int32

definition connection_of_flags :: "'a program_flags_scheme \<Rightarrow> connection_options" where
  "connection_of_flags f = default_connection_options
     \<lparr>co_target_address := fl_target_address f,
      co_ssl_options := \<lparr>so_use_insecure_channel = fl_use_insecure_channel f,
        so_ssl_domain_name = fl_ssl_domain_name f, so_ssl_root_cert_path = fl_ssl_root_cert_path f\<rparr>,
      co_authenticate_with_google := fl_authenticate_with_google f\<rparr>"

section \<open>The printer\<close>

definition printer_options :: "program_flags \<Rightarrow> wrapper_options" where
  "printer_options f = default_wrapper_options
     \<lparr>wo_connection_options := connection_of_flags f, wo_stream_name := fl_stream_name f\<rparr>"

record printer_state =
  pg_eos_reason :: string
  pg_packets :: "packet list"

definition no_message_error :: "int32 \<Rightarrow> status" where
  "no_message_error timeout_in_sec = DeadlineExceededError
     (''No messages have been received in the last '' @ show_int (sint timeout_in_sec) @ '' seconds.'')"

definition printer_body ::
    "proto_lib \<Rightarrow> int32 \<Rightarrow> packet option \<Rightarrow> printer_state \<Rightarrow> (printer_state, status) progress" where
  "printer_body L timeout_in_sec got s = (case got of
      None \<Rightarrow> Done s (no_message_error timeout_in_sec)
    | Some p \<Rightarrow> (case IsEos_reason L p (Some (pg_eos_reason s)) of
          Fatal m \<Rightarrow> Dies m
        | Returns (b, r) \<Rightarrow>
            (let s' = s\<lparr>pg_eos_reason := the r\<rparr> in
             if b then Done s' OkStatus else Next (s'\<lparr>pg_packets := pg_packets s @ [p]\<rparr>))))"

definition RunPrinter ::
    "proto_lib \<Rightarrow> rpc_env \<Rightarrow> stream_server \<Rightarrow> program_flags \<Rightarrow> packet option list \<Rightarrow>
     (printer_state, status) progress" where
  "RunPrinter L E S f pops =
     (let s = \<lparr>pg_eos_reason = [], pg_packets = []\<rparr> in
      case MakePacketReceiverQueue E S (printer_options f) of
        Fatal m \<Rightarrow> Dies m
      | Returns (status, _, _) \<Rightarrow>
          if \<not> status_ok status then Done s (UnknownError ''Failed to create a packet receiver queue'')
          else pop_loop (printer_body L (fl_timeout_in_sec f)) pops s)"

section \<open>The replayer\<close>

record replay_flags = program_flags +
  fl_position_type :: int32
  fl_start_offset :: int64
  fl_end_offset :: int64
  fl_start_timestamp :: absl_time
  fl_end_timestamp :: absl_time
  fl_num_packets :: int64

text \<open>
  Where to start, and when to stop after \<open>received_packets\<close> packets the last of which is the given one.
  The nanoseconds are added up in 64 bits; a tick is a quarter of a nanosecond.
\<close>

definition FromUnixNanos :: "int64 \<Rightarrow> absl_time" where
  "FromUnixNanos n = Ticks (sint n * 4)"

definition timestamp_nanos :: "timestamp \<Rightarrow> int64" where
  "timestamp_nanos ts = ts_seconds ts * 1000000000 + word_of_int (sint (ts_nanos ts))"

definition replay_position ::
    "replay_flags \<Rightarrow> (offset_options \<times> (int64 \<Rightarrow> packet \<Rightarrow> bool)) result" where
  "replay_position f =
     (if fl_position_type f = 0 \<or> fl_position_type f = 1
      then if sint (fl_num_packets f) \<le> 0 then Inl (InvalidArgumentError ''num_packets should be > 0'')
           else Inr (\<lparr>oo_reset_offset = True, oo_offset_position = SpecialPosition
                        (if fl_position_type f = 0 then kOffsetBeginning else kOffsetEnd)\<rparr>,
                     \<lambda>received_packets p. sint (fl_num_packets f) \<le> sint received_packets)
      else if fl_position_type f = 2
      then if sint (fl_start_offset f) < 0 \<or> sint (fl_end_offset f) < 0 \<or>
              sint (fl_end_offset f) < sint (fl_start_offset f)
           then Inl (InvalidArgumentError ''start_offset and end_offset are invalid'')
           else Inr (default_offset_options\<lparr>oo_offset_position := SeekPosition (fl_start_offset f)\<rparr>,
                     \<lambda>received_packets p.
                       sint (fl_end_offset f) \<le> sint (sm_offset (h_server_metadata (p_header p))))
      else if fl_position_type f = 3
      then if fl_start_timestamp f = InfinitePastDuration \<or> fl_end_timestamp f = InfinitePastDuration \<or>
              fl_end_timestamp f < fl_start_timestamp f
           then Inl (InvalidArgumentError ''start_timestamp and end_timestamp are invalid'')
           else Inr (default_offset_options\<lparr>oo_offset_position := SeekTime (fl_start_timestamp f)\<rparr>,
                     \<lambda>received_packets p.
                       fl_end_timestamp f \<le> FromUnixNanos (timestamp_nanos (h_timestamp (p_header p))))
      else Inr (default_offset_options, \<lambda>received_packets p. False))"

definition replay_options :: "replay_flags \<Rightarrow> offset_options \<Rightarrow> wrapper_options" where
  "replay_options f offset_option = default_wrapper_options
     \<lparr>wo_connection_options := connection_of_flags f, wo_stream_name := fl_stream_name f,
      wo_receiver_mode := ReplayMode, wo_offset_options := offset_option\<rparr>"

record replay_state =
  rs_eos_reason :: string
  rs_received_packets :: int64
  rs_packets :: "packet list"

definition replay_body ::
    "proto_lib \<Rightarrow> (int64 \<Rightarrow> packet \<Rightarrow> bool) \<Rightarrow> int32 \<Rightarrow> packet option \<Rightarrow> replay_state \<Rightarrow>
     (replay_state, status) progress" where
  "replay_body L stop_receive timeout_in_sec got s = (case got of
      None \<Rightarrow> Done s (no_message_error timeout_in_sec)
    | Some p \<Rightarrow> (case IsEos_reason L p (Some (rs_eos_reason s)) of
          Fatal m \<Rightarrow> Dies m
        | Returns (b, r) \<Rightarrow>
            (let s1 = s\<lparr>rs_eos_reason := the r\<rparr> in
             if b then Done s1 OkStatus
             else (let s2 = s1\<lparr>rs_received_packets := rs_received_packets s + 1,
                               rs_packets := rs_packets s @ [p]\<rparr> in
                   if stop_receive (rs_received_packets s2) p then Done s2 OkStatus else Next s2))))"

definition RunReplay ::
    "proto_lib \<Rightarrow> rpc_env \<Rightarrow> stream_server \<Rightarrow> replay_flags \<Rightarrow> packet option list \<Rightarrow>
     (replay_state, status) progress" where
  "RunReplay L E S f pops =
     (let s = \<lparr>rs_eos_reason = [], rs_received_packets = 0, rs_packets = []\<rparr> in
      case replay_position f of
        Inl st \<Rightarrow> Done s st
      | Inr (offset_option, stop_receive) \<Rightarrow>
          (case MakePacketReceiverQueue E S (replay_options f offset_option) of
             Fatal m \<Rightarrow> Dies m
           | Returns (status, _, _) \<Rightarrow>
               if \<not> status_ok status then Done s (UnknownError ''Failed to create a packet receiver queue'')
               else pop_loop (replay_body L stop_receive (fl_timeout_in_sec f)) pops s))"

section \<open>The examples\<close>

text \<open>
  These leave the name of the domain and the kind of the channel at their defaults. \<open>encode\<close> gives the content of an
  \<open>examples.Greeting\<close>, a generated class.
\<close>

definition example_connection :: "program_flags \<Rightarrow> connection_options" where
  "example_connection f = default_connection_options
     \<lparr>co_target_address := fl_target_address f,
      co_ssl_options := (co_ssl_options default_connection_options)
        \<lparr>so_ssl_root_cert_path := fl_ssl_root_cert_path f\<rparr>,
      co_authenticate_with_google := fl_authenticate_with_google f\<rparr>"

definition greeting :: "(int32 \<Rightarrow> string \<Rightarrow> string) \<Rightarrow> int32 \<Rightarrow> string \<Rightarrow> proto_message" where
  "greeting encode iterations text = UserMessage ''examples.Greeting'' (encode iterations text)"

definition example_options :: "program_flags \<Rightarrow> wrapper_options" where
  "example_options f = default_wrapper_options
     \<lparr>wo_connection_options := example_connection f, wo_stream_name := fl_stream_name f\<rparr>"

record greeting_state =
  gs_eos_reason :: string
  gs_greetings :: "proto_message list"

definition greeting_body ::
    "proto_lib \<Rightarrow> (string \<Rightarrow> proto_message \<Rightarrow> proto_message) \<Rightarrow> packet option \<Rightarrow> greeting_state \<Rightarrow>
     (greeting_state, status) progress" where
  "greeting_body L partial got s = (case got of
      None \<Rightarrow> Next s
    | Some p \<Rightarrow> (case IsEos_reason L p (Some (gs_eos_reason s)) of
          Fatal m \<Rightarrow> Dies m
        | Returns (b, r) \<Rightarrow>
            (let s' = s\<lparr>gs_eos_reason := the r\<rparr> in
             if b then Done s' OkStatus
             else (case PacketAs (protobuf_traits L partial) (UserMessage ''examples.Greeting'' []) p of
                     Fatal m \<Rightarrow> Dies m
                   | Returns packet_as \<Rightarrow>
                       if \<not> pa_ok packet_as
                       then Done s' (UnknownError (''The server gave a non-Greeting Packet. Call upstream '' @
                              ''ingester and/or Google NOW!!''))
                       else (case pa_ValueOrDie packet_as of
                               Fatal m \<Rightarrow> Dies m
                             | Returns g \<Rightarrow> Next (s'\<lparr>gs_greetings := gs_greetings s @ [g]\<rparr>))))))"

definition RunReceiver ::
    "proto_lib \<Rightarrow> (string \<Rightarrow> proto_message \<Rightarrow> proto_message) \<Rightarrow> rpc_env \<Rightarrow> stream_server \<Rightarrow> program_flags \<Rightarrow>
     packet option list \<Rightarrow> (greeting_state, status) progress" where
  "RunReceiver L partial E S f pops =
     (let s = \<lparr>gs_eos_reason = [], gs_greetings = []\<rparr> in
      case MakePacketReceiverQueue E S (example_options f) of
        Fatal m \<Rightarrow> Dies m
      | Returns (status, _, _) \<Rightarrow>
          if \<not> status_ok status then Done s (UnknownError ''Failed to create a packet receiver queue'')
          else pop_loop (greeting_body L partial) pops s)"

text \<open>The height, width and channels of each image that \<open>Work\<close> got.\<close>

record work_state =
  wr_eos_reason :: string
  wr_images :: "(int32 \<times> int32 \<times> int32) list"

definition work_body ::
    "proto_lib \<Rightarrow> raw_image \<Rightarrow> packet option \<Rightarrow> work_state \<Rightarrow> (work_state, status) progress" where
  "work_body L empty_image got s = (case got of
      None \<Rightarrow> Next s
    | Some p \<Rightarrow> (case IsEos_reason L p (Some (wr_eos_reason s)) of
          Fatal m \<Rightarrow> Dies m
        | Returns (b, r) \<Rightarrow>
            (let s' = s\<lparr>wr_eos_reason := the r\<rparr> in
             if b then Done s' OkStatus
             else (case PacketAs (raw_image_traits L) empty_image p of
                     Fatal m \<Rightarrow> Dies m
                   | Returns packet_as \<Rightarrow>
                       if \<not> pa_ok packet_as
                       then Done s' (UnknownError (''The server gave a non-RawImage Packet. Call upstream '' @
                              ''ingester and/or Google NOW!!''))
                       else (case pa_ValueOrDie packet_as of
                               Fatal m \<Rightarrow> Dies m
                             | Returns i \<Rightarrow> Next (s'\<lparr>wr_images := wr_images s @
                                 [(ri_height i, ri_width i, ri_channels i)]\<rparr>))))))"

definition Work ::
    "proto_lib \<Rightarrow> raw_image \<Rightarrow> packet option list \<Rightarrow> (work_state, status) progress" where
  "Work L empty_image pops = pop_loop (work_body L empty_image) pops \<lparr>wr_eos_reason = [], wr_images = []\<rparr>"

definition RunDecodedReceiver ::
    "proto_lib \<Rightarrow> raw_image \<Rightarrow> gst_lib \<Rightarrow> gst_runtime \<Rightarrow> (duration \<Rightarrow> string) \<Rightarrow> clock \<Rightarrow> rpc_env \<Rightarrow>
     stream_server \<Rightarrow> (receiver_queue \<Rightarrow> receiver_queue) \<Rightarrow> program_flags \<Rightarrow> int32 \<Rightarrow> packet option list \<Rightarrow>
     (work_state, status) progress" where
  "RunDecodedReceiver L empty_image G X fmt now E S src f queue_size pops =
     (case MakeDecodedReceiverQueue L G X fmt now E S src (example_options f) queue_size
             (Seconds (sint (fl_timeout_in_sec f))) of
        Fatal m \<Rightarrow> Dies m
      | Returns (status, _, _) \<Rightarrow>
          if \<not> status_ok status
          then Done \<lparr>wr_eos_reason = [], wr_images = []\<rparr> (UnknownError ''Failed to create a queue of decoded images'')
          else (case Work L empty_image pops of
                  Done s status \<Rightarrow>
                    Done s (if \<not> status_ok status
                            then UnknownError ''Packet processing did not terminate normally'' else OkStatus)
                | r \<Rightarrow> r))"

section \<open>The sender\<close>

record sender_flags = program_flags +
  fl_greeting_iterations :: int32
  fl_greeting_message :: string

definition example_sender_options :: "sender_flags \<Rightarrow> wrapper_sender_options" where
  "example_sender_options f =
     \<lparr>wso_connection_options = example_connection (program_flags.truncate f), wso_stream_name = fl_stream_name f,
      wso_trace_probability = 0\<rparr>"

text \<open>
  The loop from \<open>i\<close> on, with the clock of each turn; what is returned early, and the state of the
  sender. The waits between the greetings are left out.
\<close>

function send_greetings ::
    "proto_lib \<Rightarrow> (string \<Rightarrow> proto_message \<Rightarrow> proto_message) \<Rightarrow> (int32 \<Rightarrow> string \<Rightarrow> string) \<Rightarrow> (int \<Rightarrow> clock) \<Rightarrow>
     (rat \<Rightarrow> nat \<Rightarrow> string) \<Rightarrow> rpc_env \<Rightarrow> send_server \<Rightarrow> sender_flags \<Rightarrow> int \<Rightarrow> trace_state \<Rightarrow> packet_sender \<Rightarrow>
     (status option \<times> trace_state \<times> packet_sender) outcome" where
  "send_greetings L partial encode clocks start_span E S f i t sender =
     (if \<not> i < sint (fl_greeting_iterations f) then Returns (None, t, sender)
      else (case MakePacket (protobuf_traits L partial) (clocks i)
                   (greeting encode (word_of_int (i + 1)) (fl_greeting_message f)) of
              Inl st \<Rightarrow> Returns (Some (UnknownError ''Couldn't make a packet. Call Google NOW!!''), t, sender)
            | Inr packet \<Rightarrow>
                (case Send start_span E S packet t sender of
                   Fatal m \<Rightarrow> Fatal m
                 | Returns (status, _, t', sender') \<Rightarrow>
                     if \<not> status_ok status then Returns (Some (UnknownError ''Failed to send a packet.''), t', sender')
                     else send_greetings L partial encode clocks start_span E S f (i + 1) t' sender')))"
  by pat_completeness auto
termination
  by (relation "measure (\<lambda>(L, partial, encode, clocks, start_span, E, S, f, i, t, sender).
        nat (sint (fl_greeting_iterations f) - i))") auto

declare send_greetings.simps [simp del]

text \<open>The status and the calls on the writer, those of its destructor included.\<close>

definition RunSender ::
    "proto_lib \<Rightarrow> (string \<Rightarrow> proto_message \<Rightarrow> proto_message) \<Rightarrow> (int32 \<Rightarrow> string \<Rightarrow> string) \<Rightarrow> (int \<Rightarrow> clock) \<Rightarrow> clock \<Rightarrow>
     (rat \<Rightarrow> nat \<Rightarrow> string) \<Rightarrow> rpc_env \<Rightarrow> send_server \<Rightarrow> trace_state \<Rightarrow> sender_flags \<Rightarrow>
     (status \<times> writer_call list) outcome" where
  "RunSender L partial encode clocks eos_clock start_span E S t f =
     outcome_bind (MakePacketSender E S (example_sender_options f) None) (\<lambda>(status, ptr).
       case ptr of
         None \<Rightarrow> Returns (UnknownError ''Failed to create a packet sender'', [])
       | Some sender \<Rightarrow>
           outcome_bind (send_greetings L partial encode clocks start_span E S f 0 t sender)
             (\<lambda>(early, t', sender').
                case early of
                  Some st \<Rightarrow> Returns (st, PacketSender_destroy S sender')
                | None \<Rightarrow>
                    (case MakeEosPacket L eos_clock ''Successfully sent all messages'' of
                       Inl st \<Rightarrow> Fatal (status_ToString st)
                     | Inr eos \<Rightarrow>
                         outcome_bind (Send start_span E S eos t' sender')
                           (\<lambda>(status, _, _, sender''). Returns (OkStatus, PacketSender_destroy S sender'')))))"

section \<open>The exit codes\<close>

text \<open>\<open>EXIT_FAILURE\<close> is 1; the first is that of the printer and the replayer.\<close>

definition exit_code_always :: "('s, status) progress \<Rightarrow> int option" where
  "exit_code_always r = (case r of Done s st \<Rightarrow> Some 0 | _ \<Rightarrow> None)"

definition exit_code_of_status :: "('s, status) progress \<Rightarrow> int option" where
  "exit_code_of_status r = (case r of Done s st \<Rightarrow> Some (if \<not> status_ok st then 1 else 0) | _ \<Rightarrow> None)"

section \<open>Loops and runs\<close>

lemma gotten_append [simp]: "gotten (xs @ ys) = gotten xs @ gotten ys"
  by (induction xs rule: gotten.induct) simp_all

text \<open>A run is a run of the two threads, in which the consumer took what it got.\<close>

lemma receiver_run_reach:
  "receiver_run L S timed w0 pops w \<Longrightarrow> (receiver_step L S)\<^sup>*\<^sup>* w0 w \<and>
     wk_popped w = wk_popped w0 @ gotten pops \<and> (wk_consumer w0 \<longrightarrow> wk_consumer w) \<and> (\<not> timed \<longrightarrow> None \<notin> set pops)"
proof (induction rule: receiver_run.induct)
  case run_start
  show ?case by simp
next
  case (run_worker pops w E now w')
  then have "receiver_step L S w w'" by (intro receiver_step.worker)
  moreover have "wk_popped w' = wk_popped w" "wk_consumer w' = wk_consumer w"
    using run_worker.hyps(2) by (auto simp: worker_step_def worker_receive_def split: worker_pc.splits option.splits
        outcome.splits sum.splits if_splits prod.splits)
  ultimately show ?case using run_worker.IH by (auto intro: rtranclp.rtrancl_into_rtrancl)
next
  case (run_pop pops w p q)
  then have "receiver_step L S w (w\<lparr>wk_queue := q, wk_popped := wk_popped w @ [p]\<rparr>)"
    by (intro receiver_step.pop) (simp add: consumer_pop_def)
  with run_pop.IH show ?case by (auto intro: rtranclp.rtrancl_into_rtrancl)
next
  case (run_timeout pops w)
  then show ?case by auto
qed

text \<open>
  The stream that a queue delivers: the conditions under which it was made, which all the
  programs share. \<open>stream_of\<close> is this stream, whatever ends it.
\<close>

definition is_eos :: "proto_lib \<Rightarrow> packet \<Rightarrow> bool" where
  "is_eos L p \<longleftrightarrow> IsEos L p = Returns True"

definition queue_streams ::
    "proto_lib \<Rightarrow> rpc_env \<Rightarrow> stream_server \<Rightarrow> wrapper_options \<Rightarrow> packet list \<Rightarrow> grpc_status \<Rightarrow> receiver_system \<Rightarrow> bool" where
  "queue_streams L E S opts ps g w0 \<longleftrightarrow> proto_laws L \<and>
     eos_wf L (Eos (worker_eos_reason (MakeStatusFromRpcStatus g))) \<and> \<not> grpc_ok g \<and>
     wo_receiver_mode opts \<noteq> UnaryReceiveMode \<and>
     (\<exists>rq pr q. MakePacketReceiverQueue E S opts = Returns (OkStatus, rq, Some pr) \<and> rq_pcqueue rq = Some q \<and>
        remaining pr = (ps, g) \<and> w0 = receiver_system_init q pr)"

lemma queue_streams_inv:
  assumes "queue_streams L E S opts ps g w0" and "receiver_run L S timed w0 pops w"
  shows "worker_inv L ps g w \<and> wk_popped w = gotten pops \<and> wk_consumer w \<and> (\<not> timed \<longrightarrow> None \<notin> set pops)"
proof -
  have "wk_popped w0 = []" "wk_consumer w0" "worker_inv L ps g w0"
    using assms(1) worker_inv_init by (auto simp: queue_streams_def receiver_system_init_def)
  with receiver_run_reach [OF assms(2)] show ?thesis
    using receiver_reach_inv [of L S w0 w ps g] assms(1) by (auto simp: queue_streams_def)
qed

lemma run_gets_stream:
  assumes "queue_streams L E S opts ps g w0" and "receiver_run L S timed w0 pops w"
  shows "prefix (gotten pops) ps \<or> (\<exists>eos. ends_stream L g eos \<and> prefix (gotten pops) (ps @ [eos]))"
proof -
  have i: "worker_inv L ps g w" "wk_popped w = gotten pops" using queue_streams_inv [OF assms] by auto
  from delivered_prefix [OF i(1)] show ?thesis
    unfolding delivered_def i(2) prefix_def by (metis append.assoc)
qed

text \<open>What precedes the first EOS packet of the stream.\<close>

definition stream_data :: "proto_lib \<Rightarrow> packet list \<Rightarrow> packet list" where
  "stream_data L ps = takeWhile (\<lambda>p. \<not> is_eos L p) ps"

lemma takeWhile_prefix:
  assumes "prefix xs ys" and "list_all P xs"
  shows "prefix xs (takeWhile P ys)"
  using assms by (auto simp: prefix_def list_all_iff takeWhile_append)

lemma takeWhile_at_first:
  assumes "prefix (xs @ [y]) ys" and "list_all P xs" and "\<not> P y"
  shows "takeWhile P ys = xs"
  using assms by (auto simp: prefix_def list_all_iff takeWhile_append)

lemma ends_stream_eos: "ends_stream L g eos \<Longrightarrow> is_eos L eos"
  by (simp add: ends_stream_def is_eos_def)

lemma stream_data_end: "is_eos L eos \<Longrightarrow> stream_data L (ps @ [eos]) = stream_data L ps"
  by (induction ps) (simp_all add: stream_data_def)

lemma run_stream_cases:
  assumes "queue_streams L E S opts ps g w0" and "receiver_run L S timed w0 pops w" and "gotten pops = pre @ post"
  shows "\<exists>zs. prefix pre zs \<and> takeWhile (\<lambda>p. \<not> is_eos L p) zs = stream_data L ps"
  using run_gets_stream [OF assms(1,2)] stream_data_end [OF ends_stream_eos] assms(3)
  unfolding stream_data_def by (metis append_prefixD)

lemma run_data:
  assumes "queue_streams L E S opts ps g w0" and "receiver_run L S timed w0 pops w" and "gotten pops = pre @ post"
    and "list_all (\<lambda>p. \<not> is_eos L p) pre"
  shows "prefix pre (stream_data L ps)"
  using run_stream_cases [OF assms(1-3)] takeWhile_prefix [OF _ assms(4)] by metis

lemma run_data_end:
  assumes "queue_streams L E S opts ps g w0" and "receiver_run L S timed w0 pops w"
    and "gotten pops = pre @ p # post" and "list_all (\<lambda>p. \<not> is_eos L p) pre" and "is_eos L p"
  shows "stream_data L ps = pre"
  using run_stream_cases [OF assms(1,2), of "pre @ [p]" post] assms(3) takeWhile_at_first [OF _ assms(4)] assms(5)
  by fastforce

text \<open>A run can always go on until the end of the stream was popped.\<close>

lemma run_completes:
  assumes "queue_streams L E S opts ps g w0" and "receiver_run L S timed w0 pops w"
  shows "\<exists>pops' w'. receiver_run L S timed w0 (pops @ pops') w' \<and> None \<notin> set pops' \<and> all_taken w'"
  using assms(2)
proof (induction "work_left w" arbitrary: pops w rule: less_induct)
  case less
  have i: "worker_inv L ps g w" "wk_consumer w" using queue_streams_inv [OF assms(1) less.prems] by auto
  have L: "proto_laws L" "eos_wf L (Eos (worker_eos_reason (MakeStatusFromRpcStatus g)))" "\<not> grpc_ok g"
    using assms(1) by (simp_all add: queue_streams_def)
  show ?case
  proof (cases "all_taken w")
    case True
    with less.prems show ?thesis by (intro exI [of _ "[]"] exI [of _ w]) simp
  next
    case False
    have "\<exists>new w1. receiver_run L S timed w0 (pops @ new) w1 \<and> None \<notin> set new \<and> work_left w1 < work_left w"
    proof (cases "q_items (wk_queue w)")
      case Nil
      obtain w1 where "worker_step L S undefined (Some (0, 0)) w = Some w1" "work_left w1 < work_left w"
        using worker_progress [OF i Nil _ L, of S undefined "(0, 0)"] False Nil by (auto simp: all_taken_def)
      with less.prems show ?thesis
        using receiver_run.run_worker by (intro exI [of _ "[]"] exI [of _ w1]) auto
    next
      case (Cons x xs)
      then have t: "TryPop empty_packet (wk_queue w) = Some (Returns (True, x, (wk_queue w)\<lparr>q_items := xs\<rparr>))"
        by (simp add: TryPop_eq)
      let ?w = "w\<lparr>wk_queue := (wk_queue w)\<lparr>q_items := xs\<rparr>, wk_popped := wk_popped w @ [x]\<rparr>"
      have "work_left ?w < work_left w" using Cons by (simp add: work_left_def held_def split: worker_pc.split)
      with receiver_run.run_pop [OF less.prems i(2) t] show ?thesis
        by (intro exI [of _ "[Some x]"] exI [of _ ?w]) simp
    qed
    then obtain new w1 where n: "receiver_run L S timed w0 (pops @ new) w1" "None \<notin> set new"
        "work_left w1 < work_left w" by blast
    from less.hyps [OF n(3,1)] obtain pops' w' where
        "receiver_run L S timed w0 ((pops @ new) @ pops') w'" "None \<notin> set pops'" "all_taken w'" by blast
    with n(2) show ?thesis by (intro exI [of _ "new @ pops'"] exI [of _ w']) simp
  qed
qed

lemma run_finds_eos:
  assumes "queue_streams L E S opts ps g w0" and "receiver_run L S timed w0 pops w"
  shows "\<exists>pops' w' p. receiver_run L S timed w0 (pops @ pops') w' \<and> p \<in> set (gotten (pops @ pops')) \<and> is_eos L p"
proof -
  obtain pops' w' where r: "receiver_run L S timed w0 (pops @ pops') w'" "all_taken w'"
    using run_completes [OF assms] by blast
  then have "worker_inv L ps g w'" "wk_popped w' = gotten (pops @ pops')" "wk_consumer w'"
    using queue_streams_inv [OF assms(1)] by blast+
  with r(2) obtain eos where "ends_stream L g eos" "gotten (pops @ pops') = ps @ [eos]"
    by (auto simp: worker_inv_def all_taken_def delivered_def)
  with r(1) ends_stream_eos show ?thesis by (intro exI [of _ pops'] exI [of _ w'] exI [of _ eos]) auto
qed

section \<open>The bodies\<close>

lemma is_eos_iff: "is_eos L p \<longleftrightarrow> GetControlSignalTypeId L p = Inr CONTROL_SIGNAL_EOS"
  by (cases "GetControlSignalTypeId L p") (auto simp: is_eos_def IsEos_def IsEos_reason_def)

lemma IsEos_reason_cases:
  "\<exists>r'. IsEos_reason L p (Some r) = Returns (is_eos L p, Some r') \<and> (\<not> is_eos L p \<longrightarrow> r' = r)"
  by (simp add: is_eos_def IsEos_def IsEos_reason_exact)

lemma is_eos_content: "same_content p q \<Longrightarrow> is_eos L q = is_eos L p"
  by (simp add: is_eos_iff GetControlSignalTypeId_def IsControlSignal_def GetPacketTypeId_def
      same_content_decoding)

lemma data_type_no_eos: "packet_type_of p \<noteq> PACKET_TYPE_CONTROL_SIGNAL \<Longrightarrow> \<not> is_eos L p"
  by (simp add: is_eos_iff GetControlSignalTypeId_def IsControlSignal_def GetPacketTypeId_def)

section \<open>Reading a stream\<close>

text \<open>
  What a program makes of the data of a stream, once all of it has arrived: the entries that it logs, up to a
  packet that it cannot read (\<open>bad\<close> is returned then) or an entry after which it stops.
\<close>

fun read_all ::
    "(packet \<Rightarrow> 'v option) \<Rightarrow> ('v list \<Rightarrow> bool) \<Rightarrow> status \<Rightarrow> packet list \<Rightarrow> 'v list \<Rightarrow> 'v list \<times> status" where
  "read_all entry stop bad [] acc = (acc, OkStatus)"
| "read_all entry stop bad (p # ps) acc = (case entry p of
      None \<Rightarrow> (acc, bad)
    | Some v \<Rightarrow> if stop (acc @ [v]) then (acc @ [v], OkStatus) else read_all entry stop bad ps (acc @ [v]))"

lemma read_all_prefix: "prefix acc (fst (read_all entry stop bad ps acc))"
proof (induction ps arbitrary: acc)
  case (Cons p ps)
  have "prefix acc (fst (read_all entry stop bad ps (acc @ [v])))" for v
    using Cons [of "acc @ [v]"] by (rule append_prefixD)
  then show ?case by (simp split: option.split)
qed simp

text \<open>
  The body of a loop that reads: it ends at an EOS packet, logs one entry for each other packet, and does with a
  timeout what \<open>on_timeout\<close> says.
\<close>

locale reader =
  fixes L :: proto_lib
    and body :: "packet option \<Rightarrow> 's \<Rightarrow> ('s, status) progress"
    and start :: 's
    and inv :: "'s \<Rightarrow> bool"
    and log_of :: "'s \<Rightarrow> 'v list"
    and entry :: "packet \<Rightarrow> 'v option"
    and stop :: "'v list \<Rightarrow> bool"
    and bad :: status
    and on_timeout :: "status option"
  assumes start: "inv start" "log_of start = []"
    and at_eos: "inv x \<Longrightarrow> is_eos L p \<Longrightarrow> \<exists>y. body (Some p) x = Done y OkStatus \<and> log_of y = log_of x"
    and at_data: "inv x \<Longrightarrow> \<not> is_eos L p \<Longrightarrow> entry p = Some v \<Longrightarrow> \<exists>y. log_of y = log_of x @ [v] \<and> inv y \<and>
      body (Some p) x = (if stop (log_of y) then Done y OkStatus else Next y)"
    and at_bad: "inv x \<Longrightarrow> \<not> is_eos L p \<Longrightarrow> entry p = None \<Longrightarrow>
      \<exists>y. body (Some p) x = Done y bad \<and> log_of y = log_of x"
    and at_timeout: "body None x = (case on_timeout of None \<Rightarrow> Next x | Some e \<Rightarrow> Done x e)"
begin

abbreviation reads :: "packet list \<Rightarrow> 'v list \<Rightarrow> 'v list \<times> status" where
  "reads \<equiv> read_all entry stop bad"

text \<open>What became of the packets gotten so far; none of those read is an EOS packet.\<close>

definition read_so_far :: "packet list \<Rightarrow> 'v list \<Rightarrow> 'v list \<Rightarrow> bool" where
  "read_so_far pre acc out \<longleftrightarrow> list_all (\<lambda>p. \<not> is_eos L p) pre \<and> (\<forall>ps. reads (pre @ ps) acc = reads ps out)"

text \<open>Why a loop was left: the end of the stream, a last or bad packet, or a timeout.\<close>

inductive reading_ends :: "packet option list \<Rightarrow> 'v list \<Rightarrow> 'v list \<Rightarrow> status \<Rightarrow> bool" where
  ends_eos: "gotten pops = pre @ p # post \<Longrightarrow> read_so_far pre acc out \<Longrightarrow> is_eos L p \<Longrightarrow>
     reading_ends pops acc out OkStatus"
| ends_reading: "gotten pops = pre @ post \<Longrightarrow> list_all (\<lambda>p. \<not> is_eos L p) pre \<Longrightarrow>
     \<forall>ps. reads (pre @ ps) acc = (out, st) \<Longrightarrow> reading_ends pops acc out st"
| ends_timeout: "on_timeout = Some st \<Longrightarrow> None \<in> set pops \<Longrightarrow> gotten pops = pre @ post \<Longrightarrow>
     read_so_far pre acc out \<Longrightarrow> reading_ends pops acc out st"

lemma read_nothing: "read_so_far [] acc acc"
  by (simp add: read_so_far_def)

lemma ends_at_once:
  "is_eos L p \<Longrightarrow> reading_ends (Some p # pops) acc acc OkStatus"
  "\<not> is_eos L p \<Longrightarrow> entry p = None \<Longrightarrow> reading_ends (Some p # pops) acc acc bad"
  "\<not> is_eos L p \<Longrightarrow> entry p = Some v \<Longrightarrow> stop (acc @ [v]) \<Longrightarrow> reading_ends (Some p # pops) acc (acc @ [v]) OkStatus"
  "on_timeout = Some e \<Longrightarrow> reading_ends (None # pops) acc acc e"
  using ends_eos [of _ "[]" p "gotten pops"] ends_reading [of _ "[p]" "gotten pops"]
    ends_timeout [of _ _ "[]" "gotten pops"] read_nothing by simp_all

lemma ends_after_timeout: "reading_ends pops acc out st \<Longrightarrow> reading_ends (None # pops) acc out st"
proof (induction rule: reading_ends.cases)
  case (ends_timeout st pops pre post acc out)
  then show ?case by (intro reading_ends.ends_timeout [where pre = pre and post = post]) simp_all
qed (auto intro: reading_ends.ends_eos reading_ends.ends_reading)

lemma ends_after_data:
  assumes "\<not> is_eos L p" and "entry p = Some v" and "\<not> stop (acc @ [v])" and "reading_ends pops (acc @ [v]) out st"
  shows "reading_ends (Some p # pops) acc out st"
proof -
  have step: "read_so_far pre (acc @ [v]) out \<Longrightarrow> read_so_far (p # pre) acc out" for pre
    using assms(1-3) by (simp add: read_so_far_def)
  have final: "\<forall>ps. reads (pre @ ps) (acc @ [v]) = r \<Longrightarrow> \<forall>ps. reads ((p # pre) @ ps) acc = r" for pre r
    using assms(2,3) by simp
  from assms(4) show ?thesis
  proof cases
    case (ends_eos pre q post)
    with step [of pre] show ?thesis
      unfolding ends_eos(1) by (intro reading_ends.ends_eos [where pre = "p # pre" and p = q and post = post]) simp_all
  next
    case (ends_reading pre post)
    with final [of pre] assms(1) show ?thesis
      by (intro reading_ends.ends_reading [where pre = "p # pre" and post = post]) simp_all
  next
    case (ends_timeout pre post)
    with step [of pre] show ?thesis
      by (intro reading_ends.ends_timeout [where pre = "p # pre" and post = post]) simp_all
  qed
qed

lemma loop_result:
  assumes "inv x"
  shows "case pop_loop body pops x of
      Next y \<Rightarrow> read_so_far (gotten pops) (log_of x) (log_of y)
    | Done y st \<Rightarrow> reading_ends pops (log_of x) (log_of y) st
    | Dies m \<Rightarrow> False"
  using assms
proof (induction pops arbitrary: x)
  case Nil
  show ?case by (simp add: read_nothing)
next
  case (Cons got pops)
  show ?case
  proof (cases got)
    case None
    with Cons.IH [OF Cons.prems] at_timeout ends_at_once(4) ends_after_timeout show ?thesis
      by (cases on_timeout) (auto split: progress.splits)
  next
    case (Some p)
    consider "is_eos L p" | v where "\<not> is_eos L p" "entry p = Some v" | "\<not> is_eos L p" "entry p = None" by fast
    then show ?thesis
    proof cases
      case 1
      with at_eos [OF Cons.prems 1] ends_at_once(1) Some show ?thesis by auto
    next
      case 3
      with at_bad [OF Cons.prems 3] ends_at_once(2) Some show ?thesis by auto
    next
      case (2 v)
      obtain y where y: "log_of y = log_of x @ [v]" "inv y"
          "body (Some p) x = (if stop (log_of y) then Done y OkStatus else Next y)"
        using at_data [OF Cons.prems 2] by blast
      show ?thesis
      proof (cases "stop (log_of y)")
        case True
        with ends_at_once(3) [OF 2, of "log_of x"] y Some show ?thesis by simp
      next
        case False
        then have "read_so_far pre (log_of y) out \<Longrightarrow> read_so_far (p # pre) (log_of x) out" for pre out
          using 2 y(1) by (simp add: read_so_far_def)
        with ends_after_data [OF 2, of "log_of x"] Cons.IH [OF y(2)] y(1,3) False Some show ?thesis
          by (auto split: progress.splits)
      qed
    qed
  qed
qed

text \<open>The loop over a stream, for every interleaving, and that it can always be ended.\<close>

lemma loop_reads_stream:
  assumes "queue_streams L E S opts ps g w0" and "receiver_run L S timed w0 pops w"
  shows "case pop_loop body pops start of
      Next y \<Rightarrow> prefix (log_of y) (fst (reads (stream_data L ps) [])) \<and> list_all (\<lambda>p. \<not> is_eos L p) (gotten pops)
    | Done y st \<Rightarrow> reads (stream_data L ps) [] = (log_of y, st) \<or>
        (on_timeout = Some st \<and> timed \<and> prefix (log_of y) (fst (reads (stream_data L ps) [])))
    | Dies m \<Rightarrow> False"
proof -
  have pre: "prefix out (fst (reads (stream_data L ps) []))"
    if g: "gotten pops = pre @ post" and r: "read_so_far pre [] out" for pre post out
  proof -
    obtain rest where "stream_data L ps = pre @ rest"
      using run_data [OF assms g] r by (auto simp: read_so_far_def prefix_def)
    with r read_all_prefix show ?thesis by (simp add: read_so_far_def)
  qed
  show ?thesis
  proof (cases "pop_loop body pops start")
    case (Next y)
    with loop_result [OF start(1), of pops] pre [of "gotten pops" "[]" "log_of y"] show ?thesis
      by (simp add: start(2) read_so_far_def)
  next
    case (Dies m)
    with loop_result [OF start(1), of pops] show ?thesis by simp
  next
    case (Done y st)
    then have "reading_ends pops [] (log_of y) st" using loop_result [OF start(1), of pops] by (simp add: start(2))
    then show ?thesis
    proof cases
      case (ends_eos pre' p post)
      then have "stream_data L ps = pre'" using run_data_end [OF assms] by (simp add: read_so_far_def)
      with ends_eos(3) have "reads (stream_data L ps @ []) [] = reads [] (log_of y)" unfolding read_so_far_def by blast
      with ends_eos(1) Done show ?thesis by simp
    next
      case (ends_reading pre' post)
      obtain rest where "stream_data L ps = pre' @ rest"
        using run_data [OF assms ends_reading(1,2)] by (auto simp: prefix_def)
      with ends_reading(3) Done show ?thesis by simp
    next
      case (ends_timeout pre' post)
      then have timed using queue_streams_inv [OF assms] by blast
      with ends_timeout pre Done show ?thesis by auto
    qed
  qed
qed

lemma loop_finishes:
  assumes "queue_streams L E S opts ps g w0" and "receiver_run L S timed w0 pops w"
  shows "\<exists>pops' w' y st. receiver_run L S timed w0 (pops @ pops') w' \<and> pop_loop body (pops @ pops') start = Done y st"
proof -
  obtain pops' w' p where c: "receiver_run L S timed w0 (pops @ pops') w'" "p \<in> set (gotten (pops @ pops'))" "is_eos L p"
    using run_finds_eos [OF assms] by blast
  with loop_reads_stream [OF assms(1) c(1)] show ?thesis
    by (cases "pop_loop body (pops @ pops') start") (auto simp: list_all_iff)
qed

end

section \<open>The programs read\<close>

lemma read_all_everything: "read_all Some (\<lambda>_. False) bad ps acc = (acc @ ps, OkStatus)"
  by (induction ps arbitrary: acc) simp_all

interpretation printer: reader L "printer_body L t" "\<lparr>pg_eos_reason = [], pg_packets = []\<rparr>" "\<lambda>_. True"
  pg_packets Some "\<lambda>_. False" OkStatus "Some (no_message_error t)" for L t
proof (unfold_locales, goal_cases)
  case (3 x p)
  then show ?case using IsEos_reason_cases [of L p "pg_eos_reason x"] by (auto simp: printer_body_def Let_def)
next
  case (4 x p v)
  then show ?case using IsEos_reason_cases [of L p "pg_eos_reason x"] by (auto simp: printer_body_def Let_def)
qed (simp_all add: printer_body_def)

interpretation replay: reader L "replay_body L stop_receive t"
  "\<lparr>rs_eos_reason = [], rs_received_packets = 0, rs_packets = []\<rparr>"
  "\<lambda>s. rs_received_packets s = of_nat (length (rs_packets s))"
  rs_packets Some "\<lambda>ps. stop_receive (of_nat (length ps)) (last ps)" OkStatus "Some (no_message_error t)"
  for L stop_receive t
proof (unfold_locales, goal_cases)
  case (3 x p)
  then show ?case using IsEos_reason_cases [of L p "rs_eos_reason x"] by (auto simp: replay_body_def Let_def)
next
  case (4 x p v)
  then show ?case using IsEos_reason_cases [of L p "rs_eos_reason x"]
    by (auto simp: replay_body_def Let_def add.commute intro: exI [of _ "x\<lparr>rs_received_packets := 1 + of_nat (length (rs_packets x)), rs_packets := rs_packets x @ [p]\<rparr>"])
qed (simp_all add: replay_body_def)

text \<open>The greeting or the image that a packet holds.\<close>

definition adapted :: "'t packet_traits \<Rightarrow> 't \<Rightarrow> packet \<Rightarrow> 't option" where
  "adapted tr d p = (case PacketAs tr d p of
      Returns a \<Rightarrow> if pa_ok a then Some (pa_value a) else None | Fatal _ \<Rightarrow> None)"

lemma adapted_adapts: "adapted tr d p = Some t \<longleftrightarrow> adapts tr d p t"
  by (auto simp: adapted_def adapts_def pa_ValueOrDie_def split: outcome.split)

lemma PacketAs_total:
  assumes "\<exists>st v. Unpack_move tr p (Some d) = Returns (st, Some v)"
  shows "\<exists>a. PacketAs tr d p = Returns a"
  using assms by (auto simp: PacketAs_def simp del: outcome_bind_Returns_iff)

interpretation greetings: reader L "greeting_body L partial" "\<lparr>gs_eos_reason = [], gs_greetings = []\<rparr>" "\<lambda>_. True"
  gs_greetings "adapted (protobuf_traits L partial) (UserMessage ''examples.Greeting'' [])" "\<lambda>_. False"
  "UnknownError (''The server gave a non-Greeting Packet. Call upstream '' @ ''ingester and/or Google NOW!!'')"
  None for L partial
proof (unfold_locales, goal_cases)
  case (3 x p)
  then show ?case using IsEos_reason_cases [of L p "gs_eos_reason x"] by (auto simp: greeting_body_def Let_def)
next
  case (4 x p v)
  then obtain a where "PacketAs (protobuf_traits L partial) (UserMessage ''examples.Greeting'' []) p = Returns a"
      "pa_ok a" "pa_value a = v"
    by (auto simp: adapted_def split: outcome.splits if_splits)
  with 4 show ?case using IsEos_reason_cases [of L p "gs_eos_reason x"]
    by (auto simp: greeting_body_def Let_def pa_ValueOrDie_def)
next
  case (5 x p)
  obtain a where "PacketAs (protobuf_traits L partial) (UserMessage ''examples.Greeting'' []) p = Returns a"
    using PacketAs_total [OF protobuf_type.unpack_move_total] by blast
  with 5 show ?case using IsEos_reason_cases [of L p "gs_eos_reason x"]
    by (auto simp: greeting_body_def Let_def adapted_def split: if_splits)
qed (simp_all add: greeting_body_def)

definition image_size :: "raw_image \<Rightarrow> int32 \<times> int32 \<times> int32" where
  "image_size i = (ri_height i, ri_width i, ri_channels i)"

interpretation work: reader L "work_body L empty_image" "\<lparr>wr_eos_reason = [], wr_images = []\<rparr>" "\<lambda>_. True"
  wr_images "\<lambda>p. map_option image_size (adapted (raw_image_traits L) empty_image p)" "\<lambda>_. False"
  "UnknownError (''The server gave a non-RawImage Packet. Call upstream '' @ ''ingester and/or Google NOW!!'')"
  None for L empty_image
proof (unfold_locales, goal_cases)
  case (3 x p)
  then show ?case using IsEos_reason_cases [of L p "wr_eos_reason x"] by (auto simp: work_body_def Let_def)
next
  case (4 x p v)
  then obtain a where "PacketAs (raw_image_traits L) empty_image p = Returns a"
      "pa_ok a" "image_size (pa_value a) = v"
    by (auto simp: adapted_def split: outcome.splits if_splits)
  with 4 show ?case using IsEos_reason_cases [of L p "wr_eos_reason x"]
    by (auto simp: work_body_def Let_def pa_ValueOrDie_def image_size_def)
next
  case (5 x p)
  obtain a where "PacketAs (raw_image_traits L) empty_image p = Returns a"
    using PacketAs_total [OF raw_type.unpack_move_total] by blast
  with 5 show ?case using IsEos_reason_cases [of L p "wr_eos_reason x"]
    by (auto simp: work_body_def Let_def adapted_def split: if_splits)
qed (simp_all add: work_body_def)

section \<open>The printer prints the stream\<close>

lemma queue_streams_made:
  "queue_streams L E S opts ps g w0 \<Longrightarrow> \<exists>rq pr. MakePacketReceiverQueue E S opts = Returns (OkStatus, rq, Some pr)"
  by (auto simp: queue_streams_def)

text \<open>
  C19. However the worker thread and the printer interleave, the printer prints the packets of the stream in order
  and without gap up to the first EOS packet. When it returns OK it has printed all of them; its only other result is
  the error of a finite timeout that passed. It never crashes, and it can always finish. The server ends its stream
  with an error status.
\<close>

theorem printer_prints_stream:
  assumes "queue_streams L E S (printer_options f) ps g w0"
    and "receiver_run L S (0 \<le> sint (fl_timeout_in_sec f)) w0 pops w"
  shows "(case RunPrinter L E S f pops of
      Next s \<Rightarrow> prefix (pg_packets s) (stream_data L ps)
    | Done s st \<Rightarrow> (st = OkStatus \<and> pg_packets s = stream_data L ps) \<or>
        (st = no_message_error (fl_timeout_in_sec f) \<and> 0 \<le> sint (fl_timeout_in_sec f) \<and>
         prefix (pg_packets s) (stream_data L ps))
    | Dies m \<Rightarrow> False) \<and>
    (\<exists>pops' w' s st. receiver_run L S (0 \<le> sint (fl_timeout_in_sec f)) w0 (pops @ pops') w' \<and>
       RunPrinter L E S f (pops @ pops') = Done s st)"
proof -
  have run: "RunPrinter L E S f xs = pop_loop (printer_body L (fl_timeout_in_sec f)) xs
      \<lparr>pg_eos_reason = [], pg_packets = []\<rparr>" for xs
    using queue_streams_made [OF assms(1)] by (auto simp: RunPrinter_def)
  show ?thesis
    using printer.loop_reads_stream [OF assms, of "fl_timeout_in_sec f"]
      printer.loop_finishes [OF assms, of "fl_timeout_in_sec f"]
    by (auto simp: run read_all_everything split: progress.splits)
qed

section \<open>The replayer stops where it should\<close>

definition upto_first :: "('a \<Rightarrow> bool) \<Rightarrow> 'a list \<Rightarrow> 'a list" where
  "upto_first P xs = take (Suc (length (takeWhile (\<lambda>x. \<not> P x) xs))) xs"

lemma upto_first_simps [simp]:
  "upto_first P [] = []"
  "upto_first P (x # xs) = x # (if P x then [] else upto_first P xs)"
  by (simp_all add: upto_first_def)

text \<open>The packets up to the end that the flags ask for, of those that come; where they begin is not the concern.\<close>

definition replay_until_end :: "replay_flags \<Rightarrow> packet list \<Rightarrow> packet list" where
  "replay_until_end f ps =
     (if fl_position_type f = 0 \<or> fl_position_type f = 1 then take (nat (sint (fl_num_packets f))) ps
      else if fl_position_type f = 2
      then upto_first (\<lambda>p. sint (fl_end_offset f) \<le> sint (sm_offset (h_server_metadata (p_header p)))) ps
      else if fl_position_type f = 3
      then upto_first (\<lambda>p. fl_end_timestamp f \<le> FromUnixNanos (timestamp_nanos (h_timestamp (p_header p)))) ps
      else ps)"

lemma read_upto_first:
  "read_all Some (\<lambda>ps. P (last ps)) bad ps acc = (acc @ upto_first P ps, OkStatus)"
  by (induction ps arbitrary: acc) simp_all

lemma read_number:
  fixes n :: int64
  assumes "int (length acc) < sint n"
  shows "read_all Some (\<lambda>ps. sint n \<le> sint (of_nat (length ps) :: int64)) bad ps acc =
    (acc @ take (nat (sint n) - length acc) ps, OkStatus)"
  using assms
proof (induction ps arbitrary: acc)
  case Nil
  show ?case by simp
next
  case (Cons p ps)
  have "sint n < 2 ^ 63" using sint_lt [of n] by simp
  with Cons.prems have k: "sint (of_nat (length (acc @ [p])) :: int64) = int (length (acc @ [p]))"
    using sint_word64 [of "int (length (acc @ [p]))"] by simp
  have t: "nat (sint n) - length acc = Suc (nat (sint n) - length (acc @ [p]))" using Cons.prems by simp
  show ?case
  proof (cases "sint n \<le> int (length (acc @ [p]))")
    case True
    with k Cons.prems show ?thesis by (simp add: t)
  next
    case False
    with k Cons.IH [of "acc @ [p]"] t show ?thesis by simp
  qed
qed

lemma replay_reads_until_end:
  assumes "replay_position f = Inr (oo, stop_receive)"
  shows "read_all Some (\<lambda>ps. stop_receive (of_nat (length ps)) (last ps)) bad ps [] = (replay_until_end f ps, OkStatus)"
proof (cases "fl_position_type f = 0 \<or> fl_position_type f = 1")
  case True
  with assms have "0 < sint (fl_num_packets f)"
      "stop_receive = (\<lambda>received_packets p. sint (fl_num_packets f) \<le> sint received_packets)"
    by (auto simp: replay_position_def split: if_splits)
  with True read_number [of "[]" "fl_num_packets f" bad ps] show ?thesis by (auto simp: replay_until_end_def)
next
  case False
  with assms show ?thesis
    using read_upto_first [of "\<lambda>p. sint (fl_end_offset f) \<le> sint (sm_offset (h_server_metadata (p_header p)))" bad ps "[]"]
      read_upto_first [of "\<lambda>p. fl_end_timestamp f \<le> FromUnixNanos (timestamp_nanos (h_timestamp (p_header p)))" bad ps "[]"]
    by (auto simp: replay_position_def replay_until_end_def read_all_everything split: if_splits)
qed

text \<open>
  The start that the flags ask for is sent to the server for the special offsets only: the offset or time to
  start from counts when \<open>reset_offset\<close> is set, which the replayer does not do for them.
\<close>

definition replay_request_offset :: "replay_flags \<Rightarrow> offset_config option" where
  "replay_request_offset f =
     (if fl_position_type f = 0 then Some (OffsetConfigSpecial OFFSET_BEGINNING)
      else if fl_position_type f = 1 then Some (OffsetConfigSpecial OFFSET_END)
      else None)"

lemma replay_request:
  assumes "replay_position f = Inr (oo, stop_receive)"
  shows "rsr_offset_config (make_replay_stream_request E (wrapper_receiver_options (replay_options f oo))) =
    replay_request_offset f"
  using assms by (auto simp: replay_position_def make_replay_stream_request_def receiver_offset_config_def Let_def
      wrapper_receiver_options_def replay_options_def default_offset_options_def default_receiver_options_def
      default_wrapper_options_def replay_request_offset_def split: if_splits)


text \<open>In particular the flags of the start change nothing.\<close>

lemma replay_start_ignored:
  assumes "fl_position_type f = 2 \<or> fl_position_type f = 3" and "replay_position f = Inr (oo, stop_receive)"
  shows "rsr_offset_config (make_replay_stream_request E (wrapper_receiver_options (replay_options f oo))) = None"
  using assms by (auto simp: replay_request [OF assms(2)] replay_request_offset_def)

section \<open>Greetings\<close>

lemma MakePacket_clock:
  assumes "MakePacket tr clock t = Inr p"
  shows "\<exists>now. clock = Some now"
proof (rule ccontr)
  assume "\<not> ?thesis"
  then have "clock = None" by (cases clock) auto
  with assms show False
    by (auto simp: MakePacket_def MakePacket_full_def SetToCurrentTime_def Let_def UnknownError_def mk_Status_def
        status_ok_def InvalidArgumentError_def OkStatus_def split: prod.splits option.splits if_splits)
qed

definition greetings_from :: "(int32 \<Rightarrow> string \<Rightarrow> string) \<Rightarrow> sender_flags \<Rightarrow> int \<Rightarrow> proto_message list" where
  "greetings_from encode f i =
     map (\<lambda>k. greeting encode (word_of_int (k + 1)) (fl_greeting_message f)) [i..sint (fl_greeting_iterations f) - 1]"

definition holds_greeting ::
    "proto_lib \<Rightarrow> (string \<Rightarrow> proto_message \<Rightarrow> proto_message) \<Rightarrow> proto_message \<Rightarrow> packet \<Rightarrow> bool" where
  "holds_greeting L partial m p \<longleftrightarrow> packet_type_of p = PACKET_TYPE_PROTOBUF \<and>
     adapted (protobuf_traits L partial) (UserMessage ''examples.Greeting'' []) p = Some m"

lemma holds_greeting_content: "same_content p q \<Longrightarrow> holds_greeting L partial m p \<Longrightarrow> holds_greeting L partial m q"
  by (simp add: holds_greeting_def adapted_adapts adapts_protobuf same_content_decoding)

lemma made_greeting:
  assumes "proto_laws L" and "protobuf_wf L m" and "GetTypeName m = ''examples.Greeting''"
    and "MakePacket (protobuf_traits L partial) clock m = Inr p"
  shows "holds_greeting L partial m p"
proof -
  obtain now where "clock = Some now" using MakePacket_clock [OF assms(4)] by blast
  then have "MakePacket_header (protobuf_traits L partial) (Some now) m empty_header = Inr p"
    using assms(4) by (simp add: MakePacket_def MakePacket_header_def)
  moreover obtain p' where "MakePacket_header (protobuf_traits L partial) (Some now) m empty_header = Inr p'"
      "carries (protobuf_traits L partial) (UserMessage ''examples.Greeting'' []) m empty_header now p'"
    using protobuf_type.make_packet [OF assms(1,2), where d = "UserMessage ''examples.Greeting'' []" and now = now
        and header = empty_header and partial = partial] assms(3) by auto
  ultimately have "carries (protobuf_traits L partial) (UserMessage ''examples.Greeting'' []) m empty_header now p"
    by simp
  from carries_adapts [OF this] show ?thesis by (simp add: holds_greeting_def adapted_adapts adapts_protobuf)
qed

lemma Send_written:
  assumes "ps_writer s = Some calls" and "Send start_span E S p t s = Returns (st, q, t', s')"
  shows "ps_writer s' = Some (calls @ [CallWrite q (status_ok st)]) \<and> same_content p q"
proof -
  obtain r u where r: "traced start_span (pso_trace_probability (ps_options s)) p t = (r, u)" by force
  obtain st' where "StreamingSend S r s = Returns (st', s\<lparr>ps_writer := Some (calls @ [CallWrite r (status_ok st')])\<rparr>)"
    using StreamingSend_writer [OF assms(1)] by blast
  with assms r have "ps_writer s' = Some (calls @ [CallWrite r (status_ok st)])" "q = r"
    by (auto simp: Send_eq simp del: outcome_bind_Returns_iff)
  with Send_packet [OF assms(2)] same_but_trace_content show ?thesis by blast
qed

lemma send_greetings_step:
  assumes "i < sint (fl_greeting_iterations f)"
    and "send_greetings L partial encode clocks start_span E S f i t sender = Returns (None, t', sender')"
  shows "\<exists>packet status q t1 sender1. MakePacket (protobuf_traits L partial) (clocks i)
        (greeting encode (word_of_int (i + 1)) (fl_greeting_message f)) = Inr packet \<and>
     Send start_span E S packet t sender = Returns (status, q, t1, sender1) \<and> status_ok status \<and>
     send_greetings L partial encode clocks start_span E S f (i + 1) t1 sender1 = Returns (None, t', sender')"
  using assms by (subst (asm) send_greetings.simps) (auto split: sum.splits outcome.splits if_splits)

lemma send_greetings_writes:
  assumes "proto_laws L"
    and "\<And>k. protobuf_wf L (greeting encode k (fl_greeting_message f))"
    and "ps_writer sender = Some calls"
    and "send_greetings L partial encode clocks start_span E S f i t sender = Returns (None, t', sender')"
  shows "\<exists>new. ps_writer sender' = Some (calls @ map (\<lambda>p. CallWrite p True) new) \<and>
    list_all2 (holds_greeting L partial) (greetings_from encode f i) new"
  using assms(3,4)
proof (induction "nat (sint (fl_greeting_iterations f) - i)" arbitrary: i t sender calls)
  case 0
  then show ?case by (simp add: send_greetings.simps greetings_from_def)
next
  case (Suc n)
  then have i: "i < sint (fl_greeting_iterations f)" by simp
  let ?m = "greeting encode (word_of_int (i + 1)) (fl_greeting_message f)"
  obtain packet status q t1 sender1 where s: "MakePacket (protobuf_traits L partial) (clocks i) ?m = Inr packet"
      "Send start_span E S packet t sender = Returns (status, q, t1, sender1)" "status_ok status"
      "send_greetings L partial encode clocks start_span E S f (i + 1) t1 sender1 = Returns (None, t', sender')"
    using send_greetings_step [OF i Suc.prems(2)] by blast
  have w: "ps_writer sender1 = Some (calls @ [CallWrite q True])" "same_content packet q"
    using Send_written [OF Suc.prems(1) s(2)] s(3) by simp_all
  have "holds_greeting L partial ?m packet"
    using made_greeting [OF assms(1,2) _ s(1)] by (simp add: greeting_def)
  then have h: "holds_greeting L partial ?m q" using holds_greeting_content [OF w(2)] by blast
  have "n = nat (sint (fl_greeting_iterations f) - (i + 1))" using Suc.hyps(2) by simp
  from Suc.hyps(1) [OF this w(1) s(4)] obtain new where
      "ps_writer sender' = Some ((calls @ [CallWrite q True]) @ map (\<lambda>p. CallWrite p True) new)"
      "list_all2 (holds_greeting L partial) (greetings_from encode f (i + 1)) new" by blast
  moreover have "greetings_from encode f i = ?m # greetings_from encode f (i + 1)"
    using i by (simp add: greetings_from_def upto_rec1)
  ultimately show ?case using h by (intro exI [of _ "q # new"]) simp
qed

text \<open>What a successful sender wrote: the greetings, and then an EOS packet unless that failed.\<close>

lemma written_all_ok: "written (map (\<lambda>p. CallWrite p True) ps) = ps"
  by (induction ps) simp_all

lemma send_greetings_early:
  "send_greetings L partial encode clocks start_span E S f i t sender = Returns (Some st, t', sender') \<Longrightarrow>
   \<exists>m. st = UnknownError m"
proof (induction "nat (sint (fl_greeting_iterations f) - i)" arbitrary: i t sender)
  case 0
  then show ?case by (simp add: send_greetings.simps)
next
  case (Suc n)
  then have "i < sint (fl_greeting_iterations f)" "n = nat (sint (fl_greeting_iterations f) - (i + 1))" by simp_all
  with Suc.hyps(1) [of "i + 1"] Suc.prems show ?case
    by (subst (asm) (2) send_greetings.simps) (auto split: sum.splits outcome.splits if_splits)
qed

lemma MakeEosPacket_is_eos:
  assumes "proto_laws L" and "eos_wf L (Eos reason)" and "MakeEosPacket L clock reason = Inr p"
  shows "is_eos L p"
proof -
  obtain now where "clock = Some now" using MakePacket_clock [OF assms(3) [unfolded MakeEosPacket_def]] by blast
  with make_eos_packet [OF assms(1,2), of now "[]"] assms(3) show ?thesis by (auto simp: is_eos_def)
qed

lemma RunSender_writes:
  assumes "proto_laws L" and "eos_wf L (Eos ''Successfully sent all messages'')"
    and "\<And>k. protobuf_wf L (greeting encode k (fl_greeting_message f))"
    and "RunSender L partial encode clocks eos_clock start_span E S t f = Returns (OkStatus, calls)"
  shows "\<exists>ps last_us. written calls = ps @ last_us \<and> list_all2 (holds_greeting L partial) (greetings_from encode f 0) ps \<and>
    (last_us = [] \<or> (\<exists>eos. last_us = [eos] \<and> is_eos L eos))"
proof -
  have err: "UnknownError m \<noteq> OkStatus" for m by (simp add: UnknownError_def mk_Status_def OkStatus_def)
  obtain status ptr where m: "MakePacketSender E S (example_sender_options f) None = Returns (status, ptr)"
    using assms(4) by (cases "MakePacketSender E S (example_sender_options f) None") (auto simp: RunSender_def)
  with assms(4) obtain sender where p: "ptr = Some sender"
    by (cases ptr) (auto simp: RunSender_def err simp del: outcome_bind_Returns_iff)
  then have w: "ps_writer sender = Some []"
    using m Create_streaming [of E S _ sender] unfolding MakePacketSender_def
    by (cases "PacketSender_Create E S (default_sender_options
        \<lparr>pso_connection_options := wso_connection_options (example_sender_options f),
         pso_stream_name := wso_stream_name (example_sender_options f),
         pso_trace_probability := wso_trace_probability (example_sender_options f)\<rparr>)")
       (auto simp: default_sender_options_def simp del: outcome_bind_Returns_iff split: sum.splits)
  obtain early t1 s1 where g: "send_greetings L partial encode clocks start_span E S f 0 t sender = Returns (early, t1, s1)"
    using assms(4) m p by (cases "send_greetings L partial encode clocks start_span E S f 0 t sender")
      (auto simp: RunSender_def simp del: outcome_bind_Returns_iff)
  have early: "early = None"
  proof (cases early)
    case (Some st)
    with send_greetings_early g obtain m' where "st = UnknownError m'" by blast
    with Some assms(4) m p g show ?thesis by (simp add: RunSender_def err del: outcome_bind_Returns_iff)
  qed
  obtain new where n: "ps_writer s1 = Some (map (\<lambda>p. CallWrite p True) new)"
      "list_all2 (holds_greeting L partial) (greetings_from encode f 0) new"
    using send_greetings_writes [OF assms(1,3) w g [unfolded early]] by auto
  obtain eos where e: "MakeEosPacket L eos_clock ''Successfully sent all messages'' = Inr eos"
    using assms(4) m p g early by (cases "MakeEosPacket L eos_clock ''Successfully sent all messages''")
      (auto simp: RunSender_def simp del: outcome_bind_Returns_iff)
  obtain st q t2 s2 where s: "Send start_span E S eos t1 s1 = Returns (st, q, t2, s2)" "calls = PacketSender_destroy S s2"
    using assms(4) m p g early e by (cases "Send start_span E S eos t1 s1")
      (auto simp: RunSender_def simp del: outcome_bind_Returns_iff)
  have q: "ps_writer s2 = Some (map (\<lambda>p. CallWrite p True) new @ [CallWrite q (status_ok st)])" "is_eos L q"
    using Send_written [OF n(1) s(1)] is_eos_content MakeEosPacket_is_eos [OF assms(1,2) e] by auto
  then have "written calls = new @ (if status_ok st then [q] else [])"
    by (cases "status_ok st") (simp_all add: s(2) PacketSender_destroy_def written_append written_all_ok)
  with n(2) q(2) show ?thesis by (intro exI [of _ new] exI [of _ "if status_ok st then [q] else []"]) simp
qed

text \<open>
  C6. Greetings cross the system. When the example sender returns OK and a server offers, with whatever it changes in
  their headers, the packets that were written, the example receiver reads exactly the greetings that the flags
  of the sender ask for, in order and each with its number. For every interleaving it has read a beginning of them, it
  returns nothing but OK, and only when it has read all; it never crashes, and it can always finish. The server ends its
  stream with an error status.
\<close>

theorem greetings_reach_receiver:
  assumes "eos_wf L (Eos ''Successfully sent all messages'')"
    and "\<And>k. protobuf_wf L (greeting encode k (fl_greeting_message fs))"
    and "RunSender L partial encode clocks eos_clock start_span E' S' t fs = Returns (OkStatus, calls)"
    and "list_all2 same_content (written calls) ps"
    and "queue_streams L E S (example_options f) ps g w0" and "receiver_run L S True w0 pops w"
  shows "(case RunReceiver L partial E S f pops of
      Next s \<Rightarrow> prefix (gs_greetings s) (greetings_from encode fs 0)
    | Done s st \<Rightarrow> st = OkStatus \<and> gs_greetings s = greetings_from encode fs 0
    | Dies m \<Rightarrow> False) \<and>
    (\<exists>pops' w' s st. receiver_run L S True w0 (pops @ pops') w' \<and> RunReceiver L partial E S f (pops @ pops') = Done s st)"
proof -
  let ?entry = "adapted (protobuf_traits L partial) (UserMessage ''examples.Greeting'' [])"
  have laws: "proto_laws L" using assms(5) by (simp add: queue_streams_def)
  have run: "RunReceiver L partial E S f xs = pop_loop (greeting_body L partial) xs
      \<lparr>gs_eos_reason = [], gs_greetings = []\<rparr>" for xs
    using queue_streams_made [OF assms(5)] by (auto simp: RunReceiver_def)
  obtain us last_us where u: "written calls = us @ last_us"
      "list_all2 (holds_greeting L partial) (greetings_from encode fs 0) us" "last_us = [] \<or> (\<exists>eos. last_us = [eos] \<and> is_eos L eos)"
    using RunSender_writes [OF laws assms(1-3)] by blast
  then obtain vs last_vs where v: "ps = vs @ last_vs" "list_all2 same_content us vs" "list_all2 same_content last_us last_vs"
    using assms(4) by (auto simp: list_all2_append1)
  have h: "list_all2 (holds_greeting L partial) (greetings_from encode fs 0) vs"
    using u(2) v(2) holds_greeting_content by (rule list_all2_trans [rotated 1])
  have "last_vs = [] \<or> (\<exists>eos. last_vs = [eos] \<and> is_eos L eos)"
    using u(3) v(3) is_eos_content by (auto simp: list_all2_Cons1)
  moreover have "list_all (\<lambda>p. \<not> is_eos L p) vs"
    using h by (auto simp: list_all2_conv_all_nth list_all_length holds_greeting_def intro!: data_type_no_eos)
  ultimately have data: "stream_data L ps = vs"
    unfolding v(1) by (auto simp: stream_data_def list_all_iff)
  have "read_all ?entry (\<lambda>_. False) bad vs acc = (acc @ greetings_from encode fs 0, OkStatus)" for bad acc
    using h
  proof (induction arbitrary: acc rule: list_all2_induct)
    case Nil
    show ?case by simp
  next
    case (Cons m ms v vs)
    then show ?case by (simp add: holds_greeting_def)
  qed
  then show ?thesis
    using greetings.loop_reads_stream [OF assms(5,6), of partial] greetings.loop_finishes [OF assms(5,6), of partial]
    by (auto simp: run data split: progress.splits)
qed

text \<open>The sender returns OK whenever the clock works and the server takes every packet.\<close>

lemma Send_taken:
  assumes "ps_writer s = Some calls" and "\<And>n p. sv_write S n p"
  shows "\<exists>st q t' s'. Send start_span E S p t s = Returns (st, q, t', s') \<and> status_ok st \<and>
    ps_writer s' = Some (calls @ [CallWrite q True])"
proof -
  obtain r u where r: "traced start_span (pso_trace_probability (ps_options s)) p t = (r, u)" by force
  then have "Send start_span E S p t s = Returns (OkStatus, r, u, s\<lparr>ps_writer := Some (calls @ [CallWrite r True])\<rparr>)"
    using assms by (simp add: Send_eq StreamingSend_def Let_def del: outcome_bind_Returns_iff)
  then show ?thesis by simp
qed

lemma send_greetings_succeeds:
  assumes "proto_laws L" and "\<And>k. protobuf_wf L (greeting encode k (fl_greeting_message f))"
    and "\<And>i. clocks i \<noteq> None" and "\<And>n p. sv_write S n p" and "ps_writer sender = Some calls"
  shows "\<exists>t' sender' calls'. send_greetings L partial encode clocks start_span E S f i t sender = Returns (None, t', sender') \<and>
    ps_writer sender' = Some calls'"
  using assms(5)
proof (induction "nat (sint (fl_greeting_iterations f) - i)" arbitrary: i t sender calls)
  case 0
  then show ?case by (simp add: send_greetings.simps)
next
  case (Suc n)
  then have i: "i < sint (fl_greeting_iterations f)" "n = nat (sint (fl_greeting_iterations f) - (i + 1))" by simp_all
  let ?m = "greeting encode (word_of_int (i + 1)) (fl_greeting_message f)"
  obtain now where "clocks i = Some now" using assms(3) [of i] by (cases "clocks i") auto
  then obtain p where p: "MakePacket (protobuf_traits L partial) (clocks i) ?m = Inr p"
    using protobuf_type.make_packet [OF assms(1,2), where d = ?m and now = now and header = empty_header and partial = partial]
    by (auto simp: MakePacket_def MakePacket_header_def)
  obtain st q t1 s1 where s: "Send start_span E S p t sender = Returns (st, q, t1, s1)" "status_ok st"
      "ps_writer s1 = Some (calls @ [CallWrite q True])"
    using Send_taken [where start_span = start_span and E = E and S = S, OF Suc.prems assms(4)] by metis
  from Suc.hyps(1) [OF i(2) s(3), of t1] p s(1,2) i(1) show ?case
    by (subst send_greetings.simps) (simp del: of_int_add)
qed

lemma RunSender_succeeds:
  assumes "proto_laws L" and "\<And>k. protobuf_wf L (greeting encode k (fl_greeting_message f))"
    and "eos_wf L (Eos ''Successfully sent all messages'')"
    and "\<And>i. clocks i \<noteq> None" and "\<And>n p. sv_write S n p"
    and "MakePacketSender E S (example_sender_options f) None = Returns (OkStatus, Some sender)"
    and "ps_writer sender = Some calls"
  shows "\<exists>calls'. RunSender L partial encode clocks (Some now) start_span E S t f = Returns (OkStatus, calls')"
proof -
  obtain t1 s1 calls1 where g: "send_greetings L partial encode clocks start_span E S f 0 t sender = Returns (None, t1, s1)"
      "ps_writer s1 = Some calls1"
    using send_greetings_succeeds [where partial = partial and start_span = start_span and E = E and i = 0 and t = t
        and S = S and clocks = clocks, OF assms(1,2,4,5,7)] by metis
  obtain eos where e: "MakeEosPacket L (Some now) ''Successfully sent all messages'' = Inr eos"
    using make_eos_packet [OF assms(1,3)] by blast
  obtain st q t2 s2 where "Send start_span E S eos t1 s1 = Returns (st, q, t2, s2)"
    using Send_taken [where start_span = start_span and E = E and S = S, OF g(2) assms(5)] by metis
  with g e assms(6) show ?thesis by (simp add: RunSender_def del: outcome_bind_Returns_iff)
qed

section \<open>Witnesses\<close>

text \<open>An environment with a certificate, in which every connection without authentication works.\<close>

definition cert_env :: rpc_env where
  "cert_env = example_env\<lparr>re_fs := (re_fs example_env)\<lparr>fs_files := [''ca.pem'' \<mapsto> (''cert'', False)]\<rparr>\<rparr>"

definition connectable :: "connection_options \<Rightarrow> bool" where
  "connectable c \<longleftrightarrow> \<not> co_authenticate_with_google c \<and>
     (so_use_insecure_channel (co_ssl_options c) \<or> so_ssl_root_cert_path (co_ssl_options c) = ''ca.pem'')"

lemma cert_channel:
  assumes "connectable c"
  shows "\<exists>sc ctx. StreamChannel_Create cert_env \<lparr>sc_connection_options = c, sc_stream_name = name\<rparr> = Inr sc \<and>
    MakeClientContext cert_env sc = Returns (Inr ctx)"
proof -
  have "c_str ''ca.pem'' = ''ca.pem''" by (simp add: c_str_def)
  then obtain st pem where "GetContents (re_fs cert_env) ''ca.pem'' [] = (st, pem)" "status_ok st"
    by (simp add: cert_env_def example_env_def GetContents_def fopen_read_def read_loop_good)
  then have "\<exists>ch. CreateGrpcChannel cert_env c = Some ch"
    using assms by (auto simp: connectable_def CreateGrpcChannel_def Let_def CreateSecureGrpcChannel_def
        CreateInsecureGrpcChannel_def CreateCustomChannel_def cert_env_def example_env_def)
  then show ?thesis
    using assms by (auto simp: StreamChannel_Create_def MakeClientContext_def FillGrpcClientContext_def
        connectable_def Let_def simp del: outcome_bind_Returns_iff)
qed

text \<open>A server with one stream.\<close>

definition one_stream :: "packet list \<Rightarrow> grpc_status \<Rightarrow> stream_server" where
  "one_stream ps g = example_server\<lparr>ss_receive_packets := (\<lambda>_ _. Some (ps, g)), ss_replay_stream := (\<lambda>_ _. Some (ps, g))\<rparr>"

lemma one_stream_queue:
  assumes "proto_laws L" and "eos_wf L (Eos (worker_eos_reason (MakeStatusFromRpcStatus g)))" and "\<not> grpc_ok g"
    and "connectable (wo_connection_options opts)" and "wo_buffer_capacity opts = 0"
    and "wo_receiver_mode opts = StreamingReceiveMode \<or> wo_receiver_mode opts = ReplayMode"
  shows "\<exists>w0. queue_streams L cert_env (one_stream ps g) opts ps g w0"
proof -
  let ?o = "wrapper_receiver_options opts"
  have "receiver_channel_options ?o = \<lparr>sc_connection_options = wo_connection_options opts, sc_stream_name = wo_stream_name opts\<rparr>"
    using assms(6) by (auto simp: receiver_channel_options_def Let_def wrapper_receiver_options_def default_receiver_options_def)
  with cert_channel [OF assms(4)] obtain sc ctx where
      "StreamChannel_Create cert_env (receiver_channel_options ?o) = Inr sc" "MakeClientContext cert_env sc = Returns (Inr ctx)"
    by metis
  moreover have "offered cert_env (one_stream ps g) ?o ctx = Some (ps, g)"
    using assms(6) by (auto simp: offered_def Let_def one_stream_def wrapper_receiver_options_def)
  ultimately obtain pr where "PacketReceiver_Create cert_env (one_stream ps g) ?o = Returns (Inr pr)" "remaining pr = (ps, g)"
    using Create_offered [of cert_env ?o sc "one_stream ps g" ctx "(ps, g)"] by (auto simp: one_stream_def example_server_def)
  then show ?thesis
    using assms by (auto simp: queue_streams_def MakePacketReceiverQueue_def Let_def new_pc_queue_def kDefaultBufferCapacity_def)
qed

definition example_flags :: program_flags where
  "example_flags = \<lparr>fl_target_address = ''localhost:50051'', fl_stream_name = ''s'', fl_authenticate_with_google = False,
     fl_use_insecure_channel = False, fl_ssl_domain_name = ''aistreams.googleapis.com'',
     fl_ssl_root_cert_path = ''ca.pem'', fl_timeout_in_sec = 60\<rparr>"

lemmas flags_defs = example_flags_def connectable_def connection_of_flags_def example_connection_def
  default_wrapper_options_def default_connection_options_def

definition late :: grpc_status where
  "late = \<lparr>g_code = GRPC_DEADLINE_EXCEEDED, g_message = ''late''\<rparr>"

lemma late_facts: "eos_wf example_lib (Eos (worker_eos_reason (MakeStatusFromRpcStatus late)))" "\<not> grpc_ok late"
    "proto_laws example_lib"
  using example_reason by (simp_all add: late_def grpc_ok_def example_lib_def table_lib_laws)

lemma text_packet_no_eos: "\<not> is_eos L (text_packet s)"
  by (rule data_type_no_eos) (simp add: text_packet_def empty_packet_def empty_header_def)

theorem printer_prints_stream_witness:
  "\<exists>w0 pops w s st. receiver_run example_lib (one_stream [text_packet ''a'', text_packet ''b''] late) True w0 pops w \<and>
     RunPrinter example_lib cert_env (one_stream [text_packet ''a'', text_packet ''b''] late) example_flags pops = Done s st \<and>
     (st = OkStatus \<longrightarrow> pg_packets s = [text_packet ''a'', text_packet ''b''])"
proof -
  let ?ps = "[text_packet ''a'', text_packet ''b'']"
  have "connectable (wo_connection_options (printer_options example_flags))"
      "wo_buffer_capacity (printer_options example_flags) = 0"
      "wo_receiver_mode (printer_options example_flags) = StreamingReceiveMode"
    by (simp_all add: printer_options_def flags_defs)
  then obtain w0 where w0: "queue_streams example_lib cert_env (one_stream ?ps late) (printer_options example_flags) ?ps late w0"
    using one_stream_queue late_facts by blast
  have t: "(0 \<le> sint (fl_timeout_in_sec example_flags)) = True" by (simp add: example_flags_def)
  note result = printer_prints_stream [OF w0, unfolded t]
  obtain pops w s st where r: "receiver_run example_lib (one_stream ?ps late) True w0 pops w"
      "RunPrinter example_lib cert_env (one_stream ?ps late) example_flags pops = Done s st"
    using result [OF run_start] by auto
  moreover have "stream_data example_lib ?ps = ?ps" by (simp add: stream_data_def text_packet_no_eos)
  ultimately have "st = OkStatus \<longrightarrow> pg_packets s = ?ps"
    using result [OF r(1)] by (auto simp: no_message_error_def DeadlineExceededError_def mk_Status_def OkStatus_def)
  with r show ?thesis by blast
qed

definition example_replay_flags :: replay_flags where
  "example_replay_flags = program_flags.extend example_flags \<lparr>fl_position_type = 0, fl_start_offset = - 1,
     fl_end_offset = - 1, fl_start_timestamp = InfinitePastDuration, fl_end_timestamp = InfinitePastDuration,
     fl_num_packets = 1\<rparr>"


definition example_sender_flags :: sender_flags where
  "example_sender_flags = program_flags.extend example_flags \<lparr>fl_greeting_iterations = 2, fl_greeting_message = ''Hello!''\<rparr>"

definition example_encode :: "int32 \<Rightarrow> string \<Rightarrow> string" where
  "example_encode k text = (if k = 1 then ''1'' else ''2'') @ text"

definition greeting_lib :: proto_lib where
  "greeting_lib = table_lib [ControlSignalPacketTypeDescriptor CONTROL_SIGNAL_EOS,
     EosValue ''Could not receive a packet from the server: late'', EosValue ''Successfully sent all messages'',
     ProtobufPacketTypeDescriptor ''examples.Greeting'' False, UserMessage ''examples.Greeting'' ''1Hello!'',
     UserMessage ''examples.Greeting'' ''2Hello!'']"

definition taking_server :: send_server where
  "taking_server = flaky_server\<lparr>sv_write := (\<lambda>_ _. True)\<rparr>"

lemma example_sender_made:
  "\<exists>sender. MakePacketSender cert_env taking_server (example_sender_options example_sender_flags) None =
     Returns (OkStatus, Some sender) \<and> ps_writer sender = Some []"
proof -
  let ?c = "wso_connection_options (example_sender_options example_sender_flags)"
  have "connectable ?c"
    by (simp add: example_sender_options_def flags_defs example_sender_flags_def program_flags.defs)
  then obtain sc ctx where "StreamChannel_Create cert_env \<lparr>sc_connection_options = ?c,
        sc_stream_name = wso_stream_name (example_sender_options example_sender_flags)\<rparr> = Inr sc"
      "MakeClientContext cert_env sc = Returns (Inr ctx)" using cert_channel by blast
  then show ?thesis
    by (simp add: MakePacketSender_def PacketSender_Create_def PacketSender_Initialize_def PacketSender_def
        default_sender_options_def taking_server_def flaky_server_def Let_def del: outcome_bind_Returns_iff)
qed

theorem greetings_reach_receiver_witness:
  "\<exists>calls w0 pops w s. RunSender greeting_lib (\<lambda>_ m. m) example_encode (\<lambda>_. Some (1, 2)) (Some (3, 4)) (\<lambda>_ _. ''trace'')
       cert_env taking_server \<lparr>ts_samplers = (\<lambda>_. None), ts_spans = 0\<rparr> example_sender_flags = Returns (OkStatus, calls) \<and>
     receiver_run greeting_lib (one_stream (written calls) late) True w0 pops w \<and>
     RunReceiver greeting_lib (\<lambda>_ m. m) cert_env (one_stream (written calls) late) example_flags pops = Done s OkStatus \<and>
     gs_greetings s = [UserMessage ''examples.Greeting'' ''1Hello!'', UserMessage ''examples.Greeting'' ''2Hello!'']"
proof -
  have L: "proto_laws greeting_lib" by (simp only: greeting_lib_def table_lib_laws)
  have e: "eos_wf greeting_lib (Eos ''Successfully sent all messages'')"
    by (simp add: eos_wf_def greeting_lib_def table_lib_def)
  have m: "protobuf_wf greeting_lib (greeting example_encode k (fl_greeting_message example_sender_flags))" for k
    by (simp add: protobuf_wf_def greeting_def example_encode_def greeting_lib_def table_lib_def
        example_sender_flags_def program_flags.defs)
  have w: "eos_wf greeting_lib (Eos (worker_eos_reason (MakeStatusFromRpcStatus late)))" "\<not> grpc_ok late"
    by (simp_all add: error_message_rpc grpc_ok_def worker_eos_reason_def eos_wf_def greeting_lib_def table_lib_def late_def)
  obtain sender where sender: "MakePacketSender cert_env taking_server (example_sender_options example_sender_flags) None =
      Returns (OkStatus, Some sender)" "ps_writer sender = Some []" using example_sender_made by blast
  obtain calls where calls: "RunSender greeting_lib (\<lambda>_ m. m) example_encode (\<lambda>_. Some (1, 2)) (Some (3, 4)) (\<lambda>_ _. ''trace'')
       cert_env taking_server \<lparr>ts_samplers = (\<lambda>_. None), ts_spans = 0\<rparr> example_sender_flags = Returns (OkStatus, calls)"
    using RunSender_succeeds [OF L m e _ _ sender, where partial = "\<lambda>_ m. m" and clocks = "\<lambda>_. Some (1, 2)" and now = "(3, 4)"
        and start_span = "\<lambda>_ _. ''trace''" and t = "\<lparr>ts_samplers = (\<lambda>_. None), ts_spans = 0\<rparr>"]
    by (auto simp: taking_server_def)
  have "connectable (wo_connection_options (example_options example_flags))" "wo_buffer_capacity (example_options example_flags) = 0"
      "wo_receiver_mode (example_options example_flags) = StreamingReceiveMode"
    by (simp_all add: example_options_def flags_defs)
  then obtain w0 where w0: "queue_streams greeting_lib cert_env (one_stream (written calls) late) (example_options example_flags)
      (written calls) late w0" using one_stream_queue [OF L w] by blast
  have same: "list_all2 same_content (written calls) (written calls)" by (simp add: list.rel_refl)
  note result = greetings_reach_receiver [OF e m calls same w0]
  obtain pops w s st where r: "receiver_run greeting_lib (one_stream (written calls) late) True w0 pops w"
      "RunReceiver greeting_lib (\<lambda>_ m. m) cert_env (one_stream (written calls) late) example_flags pops = Done s st"
    using result [OF run_start] by auto
  moreover have "greetings_from example_encode example_sender_flags 0 =
      [UserMessage ''examples.Greeting'' ''1Hello!'', UserMessage ''examples.Greeting'' ''2Hello!'']"
    by (simp add: greetings_from_def example_sender_flags_def program_flags.defs upto.simps greeting_def example_encode_def)
  ultimately have "st = OkStatus" "gs_greetings s =
      [UserMessage ''examples.Greeting'' ''1Hello!'', UserMessage ''examples.Greeting'' ''2Hello!'']"
    using result [OF r(1)] by auto
  with calls r show ?thesis by blast
qed

end
