(* ===== verification/Pipelines.thy ===== *)
theory Pipelines
  imports Gst_Runner
begin

text \<open>
  \<open>gstreamer/gst-plugins/cli_builders\<close>, \<open>cc/ingesters.h\<close>, \<open>cc/ingesters.cc\<close> and the programs
  \<open>python/apps/ingester_app.cc\<close> and \<open>playback_app.cc\<close>: the text of a GStreamer pipeline from the
  options of the user, and its launch.

  Doubles are rationals; \<open>dts\<close> is \<open>std::to_string\<close> of one. A member that the constructor leaves
  uninitialized is \<open>None\<close> until it is set, and reading it then is an error.
\<close>

section \<open>The plugin parameters\<close>

definition ToString_bool :: "bool \<Rightarrow> string" where
  "ToString_bool b = (if b then ''true'' else ''false'')"

definition SetPluginParam :: "string \<Rightarrow> string \<Rightarrow> string" where
  "SetPluginParam parameter_name v = parameter_name @ ''='' @ (if v = [] then [CHR 0x22, CHR 0x22] else v)"

definition read_member :: "'a option \<Rightarrow> 'a outcome" where
  "read_member m = (case m of None \<Rightarrow> Fatal ''uninitialized member'' | Some x \<Rightarrow> Returns x)"

section \<open>aissink\<close>

record aissink_cli =
  ak_target_address :: string
  ak_authenticate_with_google :: "bool option"
  ak_stream_name :: string
  ak_use_insecure_channel :: "bool option"
  ak_ssl_domain_name :: string
  ak_ssl_root_cert_path :: string
  ak_trace_probability :: rat

definition AissinkCliBuilder :: aissink_cli where
  "AissinkCliBuilder = \<lparr>ak_target_address = [], ak_authenticate_with_google = None, ak_stream_name = [],
     ak_use_insecure_channel = None, ak_ssl_domain_name = [], ak_ssl_root_cert_path = [],
     ak_trace_probability = 0\<rparr>"

definition ak_SetTargetAddress :: "string \<Rightarrow> aissink_cli \<Rightarrow> aissink_cli" where
  "ak_SetTargetAddress target_address b = b\<lparr>ak_target_address := target_address\<rparr>"

definition ak_SetAuthenticateWithGoogle :: "bool \<Rightarrow> aissink_cli \<Rightarrow> aissink_cli" where
  "ak_SetAuthenticateWithGoogle a b = b\<lparr>ak_authenticate_with_google := Some a\<rparr>"

definition ak_SetStreamName :: "string \<Rightarrow> aissink_cli \<Rightarrow> aissink_cli" where
  "ak_SetStreamName stream_name b = b\<lparr>ak_stream_name := stream_name\<rparr>"

definition ak_SetSslOptions :: "ssl_options \<Rightarrow> aissink_cli \<Rightarrow> aissink_cli" where
  "ak_SetSslOptions opts b =
     (let b1 = b\<lparr>ak_use_insecure_channel := Some (so_use_insecure_channel opts)\<rparr> in
      if \<not> so_use_insecure_channel opts
      then b1\<lparr>ak_ssl_domain_name := so_ssl_domain_name opts, ak_ssl_root_cert_path := so_ssl_root_cert_path opts\<rparr>
      else b1)"

definition ak_SetTraceProbability :: "rat \<Rightarrow> aissink_cli \<Rightarrow> aissink_cli" where
  "ak_SetTraceProbability p b = b\<lparr>ak_trace_probability := p\<rparr>"

definition ak_ValidateSettings :: "aissink_cli \<Rightarrow> status outcome" where
  "ak_ValidateSettings b =
     (if ak_target_address b = [] then Returns (InvalidArgumentError ''Given an empty target address'')
      else if ak_stream_name b = [] then Returns (InvalidArgumentError ''Given an empty stream name'')
      else outcome_bind (read_member (ak_use_insecure_channel b)) (\<lambda>insecure. Returns (
        if \<not> insecure \<and> ak_ssl_domain_name b = []
        then InvalidArgumentError ''Given an empty ssl domain name''
        else if \<not> insecure \<and> ak_ssl_root_cert_path b = []
        then InvalidArgumentError ''Given an empty path to the ssl root cert''
        else if ak_trace_probability b < 0 \<or> 1 < ak_trace_probability b
        then InvalidArgumentError ''Given an invalid trace probability.''
        else OkStatus)))"

definition ak_Finalize :: "(rat \<Rightarrow> string) \<Rightarrow> aissink_cli \<Rightarrow> string result outcome" where
  "ak_Finalize dts b =
     outcome_bind (ak_ValidateSettings b) (\<lambda>st.
       if \<not> status_ok st then Returns (Inl st)
       else outcome_bind (read_member (ak_authenticate_with_google b)) (\<lambda>authenticate.
         outcome_bind (read_member (ak_use_insecure_channel b)) (\<lambda>insecure.
           Returns (Inr (str_join '' ''
             [''aissink'',
              SetPluginParam ''target-address'' (ak_target_address b),
              SetPluginParam ''authenticate-with-google'' (ToString_bool authenticate),
              SetPluginParam ''stream-name'' (ak_stream_name b),
              SetPluginParam ''use-insecure-channel'' (ToString_bool insecure),
              SetPluginParam ''ssl-domain-name'' (ak_ssl_domain_name b),
              SetPluginParam ''ssl-root-cert-path'' (ak_ssl_root_cert_path b),
              SetPluginParam ''trace-probability'' (dts (ak_trace_probability b))])))))"

section \<open>aissrc\<close>

record aissrc_cli =
  ac_target_address :: string
  ac_authenticate_with_google :: "bool option"
  ac_stream_name :: string
  ac_use_insecure_channel :: "bool option"
  ac_timeout_in_sec :: "int32 option"
  ac_ssl_domain_name :: string
  ac_ssl_root_cert_path :: string

definition AissrcCliBuilder :: aissrc_cli where
  "AissrcCliBuilder = \<lparr>ac_target_address = [], ac_authenticate_with_google = None, ac_stream_name = [],
     ac_use_insecure_channel = None, ac_timeout_in_sec = None, ac_ssl_domain_name = [],
     ac_ssl_root_cert_path = []\<rparr>"

definition ac_SetTargetAddress :: "string \<Rightarrow> aissrc_cli \<Rightarrow> aissrc_cli" where
  "ac_SetTargetAddress target_address b = b\<lparr>ac_target_address := target_address\<rparr>"

definition ac_SetAuthenticateWithGoogle :: "bool \<Rightarrow> aissrc_cli \<Rightarrow> aissrc_cli" where
  "ac_SetAuthenticateWithGoogle a b = b\<lparr>ac_authenticate_with_google := Some a\<rparr>"

definition ac_SetStreamName :: "string \<Rightarrow> aissrc_cli \<Rightarrow> aissrc_cli" where
  "ac_SetStreamName stream_name b = b\<lparr>ac_stream_name := stream_name\<rparr>"

definition ac_SetSslOptions :: "ssl_options \<Rightarrow> aissrc_cli \<Rightarrow> aissrc_cli" where
  "ac_SetSslOptions opts b =
     (let b1 = b\<lparr>ac_use_insecure_channel := Some (so_use_insecure_channel opts)\<rparr> in
      if \<not> so_use_insecure_channel opts
      then b1\<lparr>ac_ssl_domain_name := so_ssl_domain_name opts, ac_ssl_root_cert_path := so_ssl_root_cert_path opts\<rparr>
      else b1)"

definition ac_SetTimeoutInSec :: "int32 \<Rightarrow> aissrc_cli \<Rightarrow> aissrc_cli" where
  "ac_SetTimeoutInSec t b = b\<lparr>ac_timeout_in_sec := Some t\<rparr>"

definition ac_ValidateSettings :: "aissrc_cli \<Rightarrow> status outcome" where
  "ac_ValidateSettings b =
     (if ac_target_address b = [] then Returns (InvalidArgumentError ''Given an empty target address'')
      else if ac_stream_name b = [] then Returns (InvalidArgumentError ''Given an empty stream name'')
      else outcome_bind (read_member (ac_use_insecure_channel b)) (\<lambda>insecure. Returns (
        if \<not> insecure \<and> ac_ssl_domain_name b = []
        then InvalidArgumentError ''Given an empty ssl domain name''
        else if \<not> insecure \<and> ac_ssl_root_cert_path b = []
        then InvalidArgumentError ''Given an empty path to the ssl root cert''
        else OkStatus)))"

definition ac_Finalize :: "aissrc_cli \<Rightarrow> string result outcome" where
  "ac_Finalize b =
     outcome_bind (ac_ValidateSettings b) (\<lambda>st.
       if \<not> status_ok st then Returns (Inl st)
       else outcome_bind (read_member (ac_authenticate_with_google b)) (\<lambda>authenticate.
         outcome_bind (read_member (ac_use_insecure_channel b)) (\<lambda>insecure.
         outcome_bind (read_member (ac_timeout_in_sec b)) (\<lambda>timeout.
           Returns (Inr (str_join '' ''
             [''aissrc'',
              SetPluginParam ''target-address'' (ac_target_address b),
              SetPluginParam ''authenticate-with-google'' (ToString_bool authenticate),
              SetPluginParam ''stream-name'' (ac_stream_name b),
              SetPluginParam ''use-insecure-channel'' (ToString_bool insecure),
              SetPluginParam ''ssl-domain-name'' (ac_ssl_domain_name b),
              SetPluginParam ''ssl-root-cert-path'' (ac_ssl_root_cert_path b),
              SetPluginParam ''timeout-in-sec'' (show_int (sint timeout))]))))))"

section \<open>The ingester\<close>

datatype send_codec = SC_Native | SC_H264 | SC_Jpeg | SC_RawRgb

record ingester_options =
  io_connection_options :: connection_options
  io_target_stream_name :: string
  io_send_codec :: send_codec
  io_resize_height :: int32
  io_resize_width :: int32
  io_trace_probability :: rat

text \<open>The expression \<open>^.*://\<close>: a dot is any character but a line terminator.\<close>

definition HasProtocolPrefix :: "string \<Rightarrow> bool" where
  "HasProtocolPrefix source_uri \<longleftrightarrow>
     str_find ''://'' (takeWhile (\<lambda>c. c \<noteq> CHR 0x0A \<and> c \<noteq> CHR 0x0D) source_uri) \<noteq> None"

datatype input_src_type = FileSrc | RtspSrc | GeneralSrc

definition GetInputSrcType :: "string \<Rightarrow> input_src_type" where
  "GetInputSrcType source_uri =
     (if \<not> HasProtocolPrefix source_uri then FileSrc
      else if take (length ''rtsp://'') source_uri = ''rtsp://'' then RtspSrc else GeneralSrc)"

definition DecideInputPlugin :: "string \<Rightarrow> string" where
  "DecideInputPlugin source_uri = (case GetInputSrcType source_uri of
      FileSrc \<Rightarrow> ''filesrc '' @ SetPluginParam ''location'' source_uri
    | RtspSrc \<Rightarrow> ''rtspsrc '' @ SetPluginParam ''location'' source_uri
    | GeneralSrc \<Rightarrow> ''urisourcebin '' @ SetPluginParam ''uri'' source_uri)"

definition DecideParserPlugin :: "string \<Rightarrow> string" where
  "DecideParserPlugin source_uri = (case GetInputSrcType source_uri of
      RtspSrc \<Rightarrow> ''rtph264depay ! h264parse'' | _ \<Rightarrow> ''parsebin'')"

definition IsTranscodeRequired :: "ingester_options \<Rightarrow> bool" where
  "IsTranscodeRequired opts \<longleftrightarrow> io_send_codec opts \<noteq> SC_Native \<or>
     0 < sint (io_resize_height opts) \<or> 0 < sint (io_resize_width opts)"

definition DecideResizePlugin :: "ingester_options \<Rightarrow> string" where
  "DecideResizePlugin opts =
     (let h = sint (io_resize_height opts); w = sint (io_resize_width opts) in
      if 0 < w \<or> 0 < h
      then ''videoscale ! video/x-raw'' @ (if 0 < w then '',width='' @ show_int w else []) @
           (if 0 < h then '',height='' @ show_int h else [])
      else [])"

definition DecideEncoderPlugins :: "ingester_options \<Rightarrow> string" where
  "DecideEncoderPlugins opts =
     (if \<not> IsTranscodeRequired opts then []
      else (case (if io_send_codec opts = SC_Native then SC_H264 else io_send_codec opts) of
          SC_Jpeg \<Rightarrow> ''jpegenc''
        | SC_RawRgb \<Rightarrow> ''videoconvert ! video/x-raw,format=RGB''
        | _ \<Rightarrow> ''h264enc''))"

definition ingester_sink :: "(rat \<Rightarrow> string) \<Rightarrow> ingester_options \<Rightarrow> string result outcome" where
  "ingester_sink dts opts =
     (let c = io_connection_options opts in
      ak_Finalize dts
        (ak_SetTraceProbability (io_trace_probability opts)
          (ak_SetSslOptions (co_ssl_options c)
            (ak_SetStreamName (io_target_stream_name opts)
              (ak_SetAuthenticateWithGoogle (co_authenticate_with_google c)
                (ak_SetTargetAddress (co_target_address c) AissinkCliBuilder))))))"

definition nonempty :: "string \<Rightarrow> string list" where
  "nonempty s = (if s = [] then [] else [s])"

definition DecideGstLaunchPipeline ::
    "(rat \<Rightarrow> string) \<Rightarrow> ingester_options \<Rightarrow> string \<Rightarrow> string result outcome" where
  "DecideGstLaunchPipeline dts opts source_uri =
     outcome_bind (ingester_sink dts opts) (\<lambda>sink. Returns (case sink of
        Inl st \<Rightarrow> Inl (InvalidArgumentError ''Could not get a valid configuration for aissink'')
      | Inr aissink \<Rightarrow> Inr (str_join '' ! ''
          ([DecideInputPlugin source_uri, DecideParserPlugin source_uri] @
           (if IsTranscodeRequired opts
            then [''decodebin''] @ nonempty (DecideResizePlugin opts) @ nonempty (DecideEncoderPlugins opts)
            else []) @ [aissink]))))"

text \<open>\<open>got\<close> tells whether the bus gave a message; the result holds what was done with the pipeline.\<close>

definition Ingest ::
    "(rat \<Rightarrow> string) \<Rightarrow> gst_runtime \<Rightarrow> bool \<Rightarrow> file_system \<Rightarrow> ingester_options \<Rightarrow> string \<Rightarrow>
     (status \<times> launch_action list) outcome" where
  "Ingest dts X got fs opts source_uri =
     (let exists = Exists fs source_uri in
      if \<not> HasProtocolPrefix source_uri \<and> \<not> status_ok exists
      then Returns (InvalidArgumentError (''The file \"'' @ source_uri @ ''\" could not be accessed: '' @
                      error_message exists), [])
      else outcome_bind (DecideGstLaunchPipeline dts opts source_uri) (\<lambda>pipeline. Returns (case pipeline of
             Inl st \<Rightarrow> (InvalidArgumentError ''Could not decide on a gst pipeline to launch'', [])
           | Inr p \<Rightarrow> (case GstLaunchPipeline X got p of (st, actions) \<Rightarrow>
               (if \<not> status_ok st
                then UnknownError (''Failed to launch the gst pipeline:'' @ [CHR 0x0A] @ ''  '' @ p)
                else OkStatus, actions)))))"

text \<open>
  The loop of \<open>RunIngester\<close>, with what the runtime does in each turn: the number of turns begun, or
  \<open>None\<close> while it goes on.
\<close>

fun RunIngester ::
    "(rat \<Rightarrow> string) \<Rightarrow> bool \<Rightarrow> (gst_runtime \<times> bool \<times> file_system) list \<Rightarrow> ingester_options \<Rightarrow> string \<Rightarrow>
     nat outcome option" where
  "RunIngester dts loop [] opts source_uri = None"
| "RunIngester dts loop ((X, got, fs) # turns) opts source_uri = (case Ingest dts X got fs opts source_uri of
      Fatal m \<Rightarrow> Some (Fatal m)
    | Returns (st, _) \<Rightarrow>
        if \<not> status_ok st \<or> \<not> loop then Some (Returns 1)
        else map_option (\<lambda>r. outcome_bind r (\<lambda>n. Returns (Suc n)))
               (RunIngester dts loop turns opts source_uri))"

section \<open>Playing a stream\<close>

record playback_flags =
  pf_target_address :: string
  pf_authenticate_with_google :: bool
  pf_stream_name :: string
  pf_ssl_options :: ssl_options
  pf_timeout_in_sec :: int32
  pf_playback_duration_in_sec :: int32
  pf_output_mp4 :: string

definition playback_source :: "playback_flags \<Rightarrow> string result outcome" where
  "playback_source f =
     ac_Finalize
       (ac_SetTimeoutInSec (pf_timeout_in_sec f)
         (ac_SetSslOptions (pf_ssl_options f)
           (ac_SetStreamName (pf_stream_name f)
             (ac_SetAuthenticateWithGoogle (pf_authenticate_with_google f)
               (ac_SetTargetAddress (pf_target_address f) AissrcCliBuilder)))))"

definition RunPlayback :: "gst_runtime \<Rightarrow> bool \<Rightarrow> playback_flags \<Rightarrow> (status \<times> launch_action list) outcome" where
  "RunPlayback X got f =
     outcome_bind (playback_source f) (\<lambda>src. Returns (case src of
        Inl st \<Rightarrow> (InvalidArgumentError ''Could not get a valid configuration for aissrc'', [])
      | Inr aissrc \<Rightarrow>
          (let p = str_join '' ! '' ([aissrc, ''decodebin'', ''videoconvert''] @
                 (if pf_output_mp4 f \<noteq> []
                  then [''x264enc'', ''mp4mux'', ''filesink location='' @ pf_output_mp4 f]
                  else [''autovideosink'']))
           in case GstLaunchPipeline_duration X got p (pf_playback_duration_in_sec f) of (st, actions) \<Rightarrow>
             (if \<not> status_ok st then UnknownError ''Gstreamer launch did not complete successfully''
              else OkStatus, actions))))"

section \<open>The words of a pipeline\<close>

text \<open>GStreamer reads the text of a pipeline word by word; blanks separate the words.\<close>

fun split_on :: "char \<Rightarrow> string \<Rightarrow> string list" where
  "split_on c [] = [[]]"
| "split_on c (x # xs) = (if x = c then [] # split_on c xs
     else (case split_on c xs of [] \<Rightarrow> [[x]] | w # ws \<Rightarrow> (x # w) # ws))"

definition pipeline_words :: "string \<Rightarrow> string list" where
  "pipeline_words s = filter (\<lambda>w. w \<noteq> []) (split_on (CHR '' '') s)"

lemma split_on_nonempty [simp]: "split_on c s \<noteq> []"
  by (cases s) (auto split: list.splits)

lemma split_on_append: "split_on c (a @ c # b) = split_on c a @ split_on c b"
proof (induction a)
  case (Cons x a)
  then show ?case by (cases "split_on c a") auto
qed simp

lemma split_on_word: "c \<notin> set s \<Longrightarrow> split_on c s = [s]"
  by (induction s) auto

lemma words_append: "pipeline_words (a @ CHR '' '' # b) = pipeline_words a @ pipeline_words b"
  by (simp add: pipeline_words_def split_on_append)

lemma words_word: "CHR '' '' \<notin> set s \<Longrightarrow> pipeline_words s = nonempty s"
  by (simp add: pipeline_words_def split_on_word nonempty_def)

lemma words_join: "xs \<noteq> [] \<Longrightarrow> pipeline_words (str_join '' '' xs) = concat (map pipeline_words xs)"
  by (induction xs rule: induct_list012) (simp_all add: words_append)

text \<open>Stages, each a list of words, connected by exclamation marks.\<close>

fun piped :: "string list list \<Rightarrow> string list" where
  "piped [] = []"
| "piped [x] = x"
| "piped (x # y # xs) = x @ [''!''] @ piped (y # xs)"

lemma piped_append: "xs \<noteq> [] \<Longrightarrow> ys \<noteq> [] \<Longrightarrow> piped (xs @ ys) = piped xs @ [''!''] @ piped ys"
proof (induction xs rule: induct_list012)
  case (2 x)
  then show ?case by (cases ys) auto
qed simp_all

lemma words_stages: "xs \<noteq> [] \<Longrightarrow> pipeline_words (str_join '' ! '' xs) = piped (map pipeline_words xs)"
proof (induction xs rule: induct_list012)
  case (3 x y zs)
  have "pipeline_words (x @ '' ! '' @ str_join '' ! '' (y # zs)) =
      pipeline_words x @ pipeline_words ''!'' @ pipeline_words (str_join '' ! '' (y # zs))"
    using words_append [of x "''! '' @ str_join '' ! '' (y # zs)"]
      words_append [of "''!''" "str_join '' ! '' (y # zs)"] by simp
  with 3 show ?case by (simp add: words_word nonempty_def)
qed simp_all

section \<open>What is launched\<close>

definition sink_settings_ok :: "ingester_options \<Rightarrow> bool" where
  "sink_settings_ok opts \<longleftrightarrow>
     (let c = io_connection_options opts; ssl = co_ssl_options c in
      co_target_address c \<noteq> [] \<and> io_target_stream_name opts \<noteq> [] \<and>
      (so_use_insecure_channel ssl \<or> so_ssl_domain_name ssl \<noteq> [] \<and> so_ssl_root_cert_path ssl \<noteq> []) \<and>
      0 \<le> io_trace_probability opts \<and> io_trace_probability opts \<le> 1)"

definition input_stages :: "string \<Rightarrow> string list list" where
  "input_stages uri =
     (if \<not> HasProtocolPrefix uri then [[''filesrc'', SetPluginParam ''location'' uri], [''parsebin'']]
      else if take 7 uri = ''rtsp://''
      then [[''rtspsrc'', SetPluginParam ''location'' uri], [''rtph264depay''], [''h264parse'']]
      else [[''urisourcebin'', SetPluginParam ''uri'' uri], [''parsebin'']])"

definition resize_stages :: "int \<Rightarrow> int \<Rightarrow> string list list" where
  "resize_stages w h =
     (if 0 < w \<or> 0 < h
      then [[''videoscale''], [''video/x-raw'' @ (if 0 < w then '',width='' @ show_int w else []) @
                                (if 0 < h then '',height='' @ show_int h else [])]]
      else [])"

fun encoder_stages :: "send_codec \<Rightarrow> string list list" where
  "encoder_stages SC_Jpeg = [[''jpegenc'']]"
| "encoder_stages SC_RawRgb = [[''videoconvert''], [''video/x-raw,format=RGB'']]"
| "encoder_stages _ = [[''h264enc'']]"

definition sink_words :: "(rat \<Rightarrow> string) \<Rightarrow> ingester_options \<Rightarrow> string list" where
  "sink_words dts opts =
     (let c = io_connection_options opts; ssl = co_ssl_options c; insecure = so_use_insecure_channel ssl in
      [''aissink'', SetPluginParam ''target-address'' (co_target_address c),
       SetPluginParam ''authenticate-with-google'' (ToString_bool (co_authenticate_with_google c)),
       SetPluginParam ''stream-name'' (io_target_stream_name opts),
       SetPluginParam ''use-insecure-channel'' (ToString_bool insecure),
       SetPluginParam ''ssl-domain-name'' (if insecure then [] else so_ssl_domain_name ssl),
       SetPluginParam ''ssl-root-cert-path'' (if insecure then [] else so_ssl_root_cert_path ssl),
       SetPluginParam ''trace-probability'' (dts (io_trace_probability opts))])"

text \<open>A stream is decoded and encoded again exactly for another codec or another size.\<close>

definition ingest_stages :: "(rat \<Rightarrow> string) \<Rightarrow> ingester_options \<Rightarrow> string \<Rightarrow> string list list" where
  "ingest_stages dts opts uri =
     (let w = sint (io_resize_width opts); h = sint (io_resize_height opts) in
      input_stages uri @
      (if io_send_codec opts \<noteq> SC_Native \<or> 0 < w \<or> 0 < h
       then [[''decodebin'']] @ resize_stages w h @ encoder_stages (io_send_codec opts) else []) @
      [sink_words dts opts])"

definition no_blank :: "string \<Rightarrow> bool" where
  "no_blank s \<longleftrightarrow> CHR '' '' \<notin> set s"

definition values_without_blanks :: "(rat \<Rightarrow> string) \<Rightarrow> ingester_options \<Rightarrow> string \<Rightarrow> bool" where
  "values_without_blanks dts opts uri \<longleftrightarrow>
     (let c = io_connection_options opts; ssl = co_ssl_options c in
      no_blank uri \<and> no_blank (co_target_address c) \<and> no_blank (io_target_stream_name opts) \<and>
      no_blank (so_ssl_domain_name ssl) \<and> no_blank (so_ssl_root_cert_path ssl) \<and>
      no_blank (dts (io_trace_probability opts)))"

lemma param_word: "no_blank n \<Longrightarrow> no_blank v \<Longrightarrow> pipeline_words (SetPluginParam n v) = [SetPluginParam n v]"
  by (simp add: words_word nonempty_def no_blank_def SetPluginParam_def)

lemma ingester_sink_eq:
  "ingester_sink dts opts = Returns
     (if sink_settings_ok opts then Inr (str_join '' '' (sink_words dts opts))
      else Inl (InvalidArgumentError (if co_target_address (io_connection_options opts) = [] then ''Given an empty target address''
        else if io_target_stream_name opts = [] then ''Given an empty stream name''
        else if \<not> so_use_insecure_channel (co_ssl_options (io_connection_options opts)) \<and>
                so_ssl_domain_name (co_ssl_options (io_connection_options opts)) = [] then ''Given an empty ssl domain name''
        else if \<not> so_use_insecure_channel (co_ssl_options (io_connection_options opts)) \<and>
                so_ssl_root_cert_path (co_ssl_options (io_connection_options opts)) = []
        then ''Given an empty path to the ssl root cert''
        else ''Given an invalid trace probability.'')))"
  by (auto simp: ingester_sink_def ak_Finalize_def ak_ValidateSettings_def sink_settings_ok_def sink_words_def Let_def
      AissinkCliBuilder_def ak_SetTraceProbability_def ak_SetSslOptions_def ak_SetStreamName_def
      ak_SetAuthenticateWithGoogle_def ak_SetTargetAddress_def read_member_def InvalidArgumentError_def mk_Status_def
      status_ok_def OkStatus_def simp del: outcome_bind_Returns_iff)

lemma piped_concat: "[] \<notin> set Ss \<Longrightarrow> piped (map piped Ss) = piped (concat Ss)"
proof (induction Ss rule: induct_list012)
  case (3 S T Ss)
  then have "S \<noteq> []" "concat (T # Ss) \<noteq> []" by auto
  with 3 piped_append [of S "concat (T # Ss)"] show ?case by simp
qed simp_all

lemma show_int_no_blank: "CHR '' '' \<notin> set (show_int i)"
  using show_nat_digits [of "CHR '' ''"] by (auto simp: show_int_def is_digit_def)

lemma resize_words:
  "0 < sint (io_resize_width opts) \<or> 0 < sint (io_resize_height opts) \<Longrightarrow>
   DecideResizePlugin opts \<noteq> [] \<and> pipeline_words (DecideResizePlugin opts) =
     piped (resize_stages (sint (io_resize_width opts)) (sint (io_resize_height opts)))"
proof -
  assume r: "0 < sint (io_resize_width opts) \<or> 0 < sint (io_resize_height opts)"
  let ?raw = "''video/x-raw'' @ (if 0 < sint (io_resize_width opts) then '',width='' @ show_int (sint (io_resize_width opts)) else []) @
     (if 0 < sint (io_resize_height opts) then '',height='' @ show_int (sint (io_resize_height opts)) else [])"
  have "DecideResizePlugin opts = ''videoscale'' @ CHR '' '' # ''!'' @ CHR '' '' # ?raw"
    using r by (simp add: DecideResizePlugin_def Let_def)
  moreover have "pipeline_words ?raw = [?raw]"
    using show_int_no_blank by (subst words_word) (auto simp: nonempty_def)
  moreover have "pipeline_words ''videoscale'' = [''videoscale'']" "pipeline_words ''!'' = [''!'']"
    by (simp_all add: words_word nonempty_def)
  ultimately show ?thesis
    using r by (simp only: words_append resize_stages_def) simp
qed

lemma encoder_words:
  "IsTranscodeRequired opts \<Longrightarrow> DecideEncoderPlugins opts \<noteq> [] \<and>
   pipeline_words (DecideEncoderPlugins opts) = piped (encoder_stages (io_send_codec opts))"
  by (cases "io_send_codec opts") (simp_all add: DecideEncoderPlugins_def pipeline_words_def)

lemma encoder_stages_nonempty: "encoder_stages c \<noteq> []"
  by (cases c) simp_all

lemma GetInputSrcType_eq:
  "GetInputSrcType uri = (if \<not> HasProtocolPrefix uri then FileSrc
     else if take 7 uri = ''rtsp://'' then RtspSrc else GeneralSrc)"
proof -
  have "length ''rtsp://'' = (7 :: nat)" by simp
  then show ?thesis by (simp only: GetInputSrcType_def)
qed

lemma input_words:
  assumes "no_blank uri"
  shows "\<exists>S T. S \<noteq> [] \<and> T \<noteq> [] \<and> input_stages uri = S @ T \<and>
    pipeline_words (DecideInputPlugin uri) = piped S \<and> pipeline_words (DecideParserPlugin uri) = piped T"
proof -
  have w: "pipeline_words (''filesrc '' @ SetPluginParam ''location'' uri) = [''filesrc'', SetPluginParam ''location'' uri]"
    "pipeline_words (''rtspsrc '' @ SetPluginParam ''location'' uri) = [''rtspsrc'', SetPluginParam ''location'' uri]"
    "pipeline_words (''urisourcebin '' @ SetPluginParam ''uri'' uri) = [''urisourcebin'', SetPluginParam ''uri'' uri]"
    using words_append [of "''filesrc''" "SetPluginParam ''location'' uri"]
      words_append [of "''rtspsrc''" "SetPluginParam ''location'' uri"]
      words_append [of "''urisourcebin''" "SetPluginParam ''uri'' uri"]
      param_word [of "''location''" uri] param_word [of "''uri''" uri] assms
    by (simp_all add: words_word nonempty_def no_blank_def)
  have p: "pipeline_words ''rtph264depay ! h264parse'' = piped [[''rtph264depay''], [''h264parse'']]"
    "pipeline_words ''parsebin'' = piped [[''parsebin'']]"
    by (simp_all add: pipeline_words_def)
  consider "\<not> HasProtocolPrefix uri" | "HasProtocolPrefix uri" "take 7 uri = ''rtsp://''"
    | "HasProtocolPrefix uri" "take 7 uri \<noteq> ''rtsp://''" by blast
  then show ?thesis
  proof cases
    case 1
    then show ?thesis using w(1) p(2)
      by (intro exI [of _ "[[''filesrc'', SetPluginParam ''location'' uri]]"] exI [of _ "[[''parsebin'']]"])
         (simp add: input_stages_def DecideInputPlugin_def DecideParserPlugin_def GetInputSrcType_eq)
  next
    case 2
    then show ?thesis using w(2) p(1)
      by (intro exI [of _ "[[''rtspsrc'', SetPluginParam ''location'' uri]]"]
          exI [of _ "[[''rtph264depay''], [''h264parse'']]"])
         (simp add: input_stages_def DecideInputPlugin_def DecideParserPlugin_def GetInputSrcType_eq)
  next
    case 3
    then show ?thesis using w(3) p(2)
      by (intro exI [of _ "[[''urisourcebin'', SetPluginParam ''uri'' uri]]"] exI [of _ "[[''parsebin'']]"])
         (simp add: input_stages_def DecideInputPlugin_def DecideParserPlugin_def GetInputSrcType_eq)
  qed
qed

lemma sink_word_list:
  assumes "values_without_blanks dts opts uri"
  shows "pipeline_words (str_join '' '' (sink_words dts opts)) = piped [sink_words dts opts]"
proof -
  have b: "no_blank (ToString_bool b)" for b by (simp add: ToString_bool_def no_blank_def)
  have e: "no_blank []" by (simp add: no_blank_def)
  have "concat (map pipeline_words (sink_words dts opts)) = sink_words dts opts"
    using assms b e
    by (simp add: sink_words_def Let_def values_without_blanks_def param_word words_word nonempty_def)
       (simp add: no_blank_def param_word)
  moreover have "sink_words dts opts \<noteq> []" by (simp add: sink_words_def Let_def)
  ultimately show ?thesis by (simp add: words_join)
qed

lemma pipeline_stages:
  assumes "values_without_blanks dts opts uri" and "DecideGstLaunchPipeline dts opts uri = Returns (Inr p)"
  shows "pipeline_words p = piped (ingest_stages dts opts uri)"
proof -
  let ?sink = "str_join '' '' (sink_words dts opts)"
  let ?w = "sint (io_resize_width opts)" and ?h = "sint (io_resize_height opts)"
  obtain S T where st: "S \<noteq> []" "T \<noteq> []" "input_stages uri = S @ T"
    "pipeline_words (DecideInputPlugin uri) = piped S" "pipeline_words (DecideParserPlugin uri) = piped T"
    using input_words [of uri] assms(1) by (auto simp: values_without_blanks_def Let_def)
  let ?middle = "if IsTranscodeRequired opts
     then [''decodebin''] @ nonempty (DecideResizePlugin opts) @ nonempty (DecideEncoderPlugins opts) else []"
  let ?M = "if IsTranscodeRequired opts then [[[''decodebin'']]] @
     (if 0 < ?w \<or> 0 < ?h then [resize_stages ?w ?h] else []) @ [encoder_stages (io_send_codec opts)] else []"
  have p: "p = str_join '' ! '' ([DecideInputPlugin uri, DecideParserPlugin uri] @ ?middle @ [?sink])"
    using assms(2) by (auto simp: DecideGstLaunchPipeline_def ingester_sink_eq split: if_splits)
  have m: "map pipeline_words ?middle = map piped ?M"
    using resize_words [of opts] encoder_words [of opts]
    by (auto simp: nonempty_def DecideResizePlugin_def Let_def words_word)
  have "pipeline_words p = piped (map pipeline_words ([DecideInputPlugin uri, DecideParserPlugin uri] @ ?middle @ [?sink]))"
    unfolding p by (rule words_stages) simp
  also have "map pipeline_words ([DecideInputPlugin uri, DecideParserPlugin uri] @ ?middle @ [?sink]) =
      map piped ([S, T] @ ?M @ [[sink_words dts opts]])"
    by (simp only: map_append list.map st(4,5) m sink_word_list [OF assms(1)])
  also have "piped \<dots> = piped (concat ([S, T] @ ?M @ [[sink_words dts opts]]))"
    using st by (intro piped_concat) (auto simp: resize_stages_def encoder_stages_nonempty [symmetric])
  also have "concat ([S, T] @ ?M @ [[sink_words dts opts]]) = ingest_stages dts opts uri"
    using st by (simp add: ingest_stages_def Let_def IsTranscodeRequired_def resize_stages_def)
  finally show ?thesis .
qed

text \<open>
  C20. What ingesting launches. When no value of the user contains a blank, the pipeline that is
  launched consists of exactly the intended stages with their parameters: the input plugin and
  parser for the kind of the URI, decoding, resizing and encoding exactly when another codec or size
  is asked for, and the sink with the connection of the options. A missing file or unusable settings
  are reported as \<open>InvalidArgument\<close> before GStreamer is touched, and a failed launch as \<open>Unknown\<close>.
\<close>

theorem ingest_launches_intended_pipeline:
  assumes "values_without_blanks dts opts uri"
  shows "\<exists>st actions. Ingest dts X got fs opts uri = Returns (st, actions) \<and>
    (if (\<not> HasProtocolPrefix uri \<and> \<not> status_ok (Exists fs uri)) \<or> \<not> sink_settings_ok opts
     then IsInvalidArgument st \<and> actions = []
     else \<exists>p. pipeline_words p = piped (ingest_stages dts opts uri) \<and>
            actions = snd (GstLaunchPipeline X got p) \<and>
            (if status_ok (fst (GstLaunchPipeline X got p)) then st = OkStatus else IsUnknown st))"
proof (cases "(\<not> HasProtocolPrefix uri \<and> \<not> status_ok (Exists fs uri)) \<or> \<not> sink_settings_ok opts")
  case True
  then show ?thesis
    by (auto simp: Ingest_def DecideGstLaunchPipeline_def ingester_sink_eq Let_def)
next
  case False
  then obtain p where p: "DecideGstLaunchPipeline dts opts uri = Returns (Inr p)"
    by (simp add: DecideGstLaunchPipeline_def ingester_sink_eq)
  obtain st actions where l: "GstLaunchPipeline X got p = (st, actions)" by fastforce
  have "IsUnknown (UnknownError m)" for m
    by (simp add: IsUnknown_def UnknownError_def mk_Status_def status_code_of_def status_ok_def)
  with False p l pipeline_stages [OF assms p] show ?thesis
    by (intro exI [of _ "fst (if \<not> status_ok st then (UnknownError (''Failed to launch the gst pipeline:'' @ [CHR 0x0A] @ ''  '' @ p), ()) else (OkStatus, ()))"] exI [of _ actions])
       (auto simp: Ingest_def Let_def)
qed

text \<open>Values are not quoted: a name with blanks and an exclamation mark adds stages to the pipeline.\<close>

lemma unquoted_value_adds_stages:
  "pipeline_words (SetPluginParam ''stream-name'' ''x ! filesink location=y'') =
     [''stream-name=x'', ''!'', ''filesink'', ''location=y'']"
  by (simp add: SetPluginParam_def pipeline_words_def)

definition example_ingester_options :: ingester_options where
  "example_ingester_options = \<lparr>io_connection_options = insecure_options\<lparr>co_target_address := ''localhost:50051''\<rparr>,
     io_target_stream_name = ''cam'', io_send_codec = SC_Native, io_resize_height = 0, io_resize_width = 320,
     io_trace_probability = 0\<rparr>"

theorem ingest_launches_intended_pipeline_witness:
  "\<exists>p. pipeline_words p = piped (ingest_stages (\<lambda>_. ''0.000000'') example_ingester_options ''rtsp://host:554'') \<and>
     Ingest (\<lambda>_. ''0.000000'') example_runtime True (re_fs example_env) example_ingester_options ''rtsp://host:554'' =
       Returns (OkStatus, snd (GstLaunchPipeline example_runtime True p))"
proof -
  let ?uri = "''rtsp://host:554''" and ?o = example_ingester_options
  have v: "values_without_blanks (\<lambda>_. ''0.000000'') ?o ?uri"
    by (simp add: values_without_blanks_def Let_def no_blank_def example_ingester_options_def insecure_options_def
        default_connection_options_def)
  have "HasProtocolPrefix ?uri" by (simp add: HasProtocolPrefix_def)
  moreover have "sink_settings_ok ?o"
    by (simp add: sink_settings_ok_def Let_def example_ingester_options_def insecure_options_def default_connection_options_def)
  moreover have "status_ok (fst (GstLaunchPipeline example_runtime True p))" for p
    by (simp add: GstLaunchPipeline_def GstLaunchPipeline_duration_def Let_def GstInit_def example_runtime_def)
  ultimately show ?thesis
    using ingest_launches_intended_pipeline [OF v, of example_runtime True "re_fs example_env"] by auto
qed

end
