(* ===== verification/Video_Exporter.thy ===== *)
theory Video_Exporter
  imports Decoded_Receivers Pipelines
begin

text \<open>
  \<open>gstreamer/gstreamer_video_writer.cc\<close>, \<open>gstreamer_video_exporter.h\<close>,
  \<open>gstreamer_video_exporter.cc\<close> and the options of \<open>python/apps/chunker_app.cc\<close>: a source of images, a
  worker that saves them in video files and one that uploads the files, connected by channels.

  A worker is a function of the values that it takes from its input channel, in order; the list ends
  where the queue stays empty and the source has completed. What the other workers and GCS do
  meanwhile is given by functions of the number of the file, upload or connection.
\<close>

section \<open>The video writer\<close>

record video_writer_options =
  vw_file_path :: string
  vw_caps_string :: string

definition VideoWriter_ValidateOptions :: "video_writer_options \<Rightarrow> status" where
  "VideoWriter_ValidateOptions opts =
     (if vw_file_path opts = [] then InvalidArgumentError ''You must supply the name of the output video file''
      else if vw_caps_string opts = []
      then InvalidArgumentError
        (''You must supply the expected caps string of the incoming gstreamer '' @ ''buffers'')
      else OkStatus)"

definition AssembleGstreamerPipeline :: "video_writer_options \<Rightarrow> string result" where
  "AssembleGstreamerPipeline opts = Inr (str_join '' ! ''
     [''decodebin'', ''videoconvert'', ''x264enc'', ''mp4mux'', ''filesink location='' @ vw_file_path opts])"

text \<open>A writer is its runner: the other member is the options.\<close>

definition VideoWriter_Initialize :: "gst_runtime \<Rightarrow> video_writer_options \<Rightarrow> gst_runner result outcome" where
  "VideoWriter_Initialize X opts = (case AssembleGstreamerPipeline opts of
      Inl st \<Rightarrow> Returns (Inl st)
    | Inr p \<Rightarrow> outcome_bind (Runner_Create X \<lparr>gro_processing_pipeline_string = p,
          gro_appsrc_caps_string = vw_caps_string opts, gro_receiver_callback = False, gro_appsink_sync = False\<rparr>)
        (\<lambda>runner. Returns (case runner of
            Inl st \<Rightarrow> Inl (UnknownError ''Failed to create the GstreamerRunner'') | Inr r \<Rightarrow> Inr r)))"

definition VideoWriter_Create :: "gst_runtime \<Rightarrow> video_writer_options \<Rightarrow> gst_runner result outcome" where
  "VideoWriter_Create X opts =
     (if \<not> status_ok (VideoWriter_ValidateOptions opts) then Returns (Inl (VideoWriter_ValidateOptions opts))
      else outcome_bind (VideoWriter_Initialize X opts) (\<lambda>w. Returns (case w of
          Inl st \<Rightarrow> Inl (InternalError ''Failed to Initialize the GstreamerVideoWriter'') | Inr r \<Rightarrow> Inr r)))"

definition VideoWriter_Put :: "gst_runtime \<Rightarrow> gstreamer_buffer \<Rightarrow> gst_runner \<Rightarrow> status \<times> gst_runner" where
  "VideoWriter_Put X b r = Runner_Feed X b r"

section \<open>Channels and workers\<close>

record 'a channel =
  ch_src :: "completion_signal option"
  ch_dst :: "completion_signal option"
  ch_pcqueue :: "'a pc_queue"

definition Channel :: "int32 \<Rightarrow> 'a channel outcome" where
  "Channel sz =
     (if \<not> 0 < sint sz then Fatal ''Check failed: size > 0''
      else outcome_bind (new_pc_queue sz) (\<lambda>q.
             Returns \<lparr>ch_src = None, ch_dst = None, ch_pcqueue = q\<rparr>))"

definition ch_SetSrc :: "completion_signal \<Rightarrow> 'a channel \<Rightarrow> 'a channel" where
  "ch_SetSrc s c = c\<lparr>ch_src := Some s\<rparr>"

definition ch_SetDst :: "completion_signal \<Rightarrow> 'a channel \<Rightarrow> 'a channel" where
  "ch_SetDst s c = c\<lparr>ch_dst := Some s\<rparr>"

definition ch_HasSrc :: "'a channel \<Rightarrow> bool" where "ch_HasSrc c \<longleftrightarrow> ch_src c \<noteq> None"

definition ch_HasDst :: "'a channel \<Rightarrow> bool" where "ch_HasDst c \<longleftrightarrow> ch_dst c \<noteq> None"

definition ch_IsSrcCompleted :: "'a channel \<Rightarrow> bool outcome" where
  "ch_IsSrcCompleted c = (case ch_src c of
      None \<Rightarrow> Fatal ''Check failed: src_completion_signal_ != nullptr'' | Some s \<Rightarrow> Returns (cs_IsCompleted s))"

definition ch_IsDstCompleted :: "'a channel \<Rightarrow> bool outcome" where
  "ch_IsDstCompleted c = (case ch_dst c of
      None \<Rightarrow> Fatal ''Check failed: dst_completion_signal_ != nullptr'' | Some s \<Rightarrow> Returns (cs_IsCompleted s))"

text \<open>The signal of a worker: \<open>Work\<close> starts it, the thread ends it with the status of its work.\<close>

definition worker_Work :: "completion_signal \<Rightarrow> completion_signal" where
  "worker_Work s = cs_Start s"

definition worker_thread_end :: "status \<Rightarrow> completion_signal \<Rightarrow> completion_signal" where
  "worker_thread_end st s = cs_End (cs_SetStatus st s)"

definition worker_Join :: "completion_signal list \<Rightarrow> completion_signal \<Rightarrow> bool \<times> completion_signal" where
  "worker_Join seen s = cs_WaitUntilCompleted seen s"

definition worker_GetStatus :: "completion_signal \<Rightarrow> status" where
  "worker_GetStatus s = cs_GetStatus s"

text \<open>The results are the status and what the channel and the workers refer to afterwards.\<close>

definition Attach ::
    "'a channel option \<Rightarrow> completion_signal option \<Rightarrow> completion_signal option \<Rightarrow> status \<times> 'a channel option" where
  "Attach channel src_worker dst_worker = (case channel of
      None \<Rightarrow> (InvalidArgumentError ''Given a nullptr to the Channel.'', None)
    | Some c \<Rightarrow> (case src_worker of
        None \<Rightarrow> (InvalidArgumentError ''Given a nullptr to the source Worker.'', Some c)
      | Some s \<Rightarrow> (case dst_worker of
          None \<Rightarrow> (InvalidArgumentError ''Given a nullptr to the destination Worker.'', Some c)
        | Some d \<Rightarrow> (OkStatus, Some (ch_SetDst d (ch_SetSrc s c))))))"

section \<open>The video saver\<close>

record saver_options =
  vs_file_prefix :: string
  vs_output_dir :: string
  vs_max_frames_per_file :: int32
  vs_forward_file_paths :: bool

definition saver_ValidatePreconditions ::
    "string \<Rightarrow> saver_options \<Rightarrow> raw_image result channel option \<Rightarrow> string result channel option \<Rightarrow> status" where
  "saver_ValidatePreconditions name opts in_channel out_channel =
     (if sint (vs_max_frames_per_file opts) \<le> 0
      then InvalidArgumentError (name @ '': A positive value for the maximum frame count is expected (given '' @
             show_int (sint (vs_max_frames_per_file opts)) @ '')'')
      else case in_channel of
        None \<Rightarrow> FailedPreconditionError (name @ '': No input channel found; please Attach() one.'')
      | Some c \<Rightarrow>
          if \<not> ch_HasSrc c then InternalError (name @ '': The input channel has no source.'')
          else if vs_forward_file_paths opts
          then (case out_channel of
                  None \<Rightarrow> FailedPreconditionError (name @ '': No output channel found; please Attach() one.'')
                | Some d \<Rightarrow> if \<not> ch_HasDst d then InternalError (name @ '': The output channel has no destination.'')
                            else OkStatus)
          else OkStatus)"

text \<open>\<open>session\<close> is the random text of the process, \<open>time\<close> the formatted time of the call.\<close>

definition GenerateVideoFilePath :: "saver_options \<Rightarrow> string \<Rightarrow> string \<Rightarrow> string" where
  "GenerateVideoFilePath opts session time =
     (let file_name = str_join ''-'' (nonempty (vs_file_prefix opts) @ [session, time]) @ ''.mp4'' in
      if vs_output_dir opts \<noteq> [] then vs_output_dir opts @ ''/'' @ file_name else file_name)"

text \<open>
  The frames of one file: \<open>k\<close> have been written, \<open>path\<close> is the name that a new file would get. The
  result tells whether another file is started, the status, the open writer with its path (the name
  stays empty until a file is begun) and the values left.
\<close>

record open_file =
  of_writer :: "gst_runner option"
  of_path :: string

fun write_frames ::
    "gst_lib \<Rightarrow> gst_runtime \<Rightarrow> int \<Rightarrow> string \<Rightarrow> int \<Rightarrow> raw_image result list \<Rightarrow> open_file \<Rightarrow>
     (bool \<times> status \<times> open_file \<times> raw_image result list) outcome" where
  "write_frames G X n path k [] f =
     Returns (\<not> k < n, OkStatus, f, [])"
| "write_frames G X n path k (x # xs) f =
     (if \<not> k < n then Returns (True, OkStatus, f, x # xs)
      else case x of
        Inl st \<Rightarrow>
          if status_code_of st = kNotFound then Returns (False, OkStatus, f, xs)
          else Fatal ''ValueOrDie of an error''
      | Inr img \<Rightarrow> outcome_bind (ToGstreamerBuffer_image G img) (\<lambda>buffer. case buffer of
            Inl st \<Rightarrow> Returns (True, UnknownError
              (''Could not convert a raw image into a gstreamer buffer: '' @ error_message st), f, xs)
          | Inr b \<Rightarrow> outcome_bind
              (case of_writer f of
                 Some w \<Rightarrow> Returns (Inr w)
               | None \<Rightarrow> VideoWriter_Create X \<lparr>vw_file_path = path, vw_caps_string = gb_caps b\<rparr>)
              (\<lambda>writer. let p = (if of_writer f = None then path else of_path f) in case writer of
                 Inl st \<Rightarrow> Returns (True, InternalError (''Failed to create a new video writer: '' @ error_message st),
                             \<lparr>of_writer = None, of_path = p\<rparr>, xs)
               | Inr w \<Rightarrow> (case VideoWriter_Put X b w of (st, w') \<Rightarrow>
                   if \<not> status_ok st
                   then Returns (True, UnknownError (''Failed to write a raw image: '' @ error_message st),
                          \<lparr>of_writer = Some w', of_path = p\<rparr>, xs)
                   else write_frames G X n path (k + 1) xs \<lparr>of_writer = Some w', of_path = p\<rparr>))))"

text \<open>
  The files: those flushed with the writer that was open (an empty name without a writer when no
  frame came), the names removed after an error, and the values sent to the uploader. The uploader
  has completed at file \<open>j\<close> or not, and the channel has room or not.
\<close>

record saver_log =
  sl_files :: "(string \<times> gst_runner option) list"
  sl_removed :: "string list"
  sl_forwarded :: "string result list"

record saver_env =
  se_session :: string
  se_time :: "nat \<Rightarrow> string"
  se_dst_completed :: "nat \<Rightarrow> bool"
  se_room :: "nat \<Rightarrow> bool"

fun save_files ::
    "gst_lib \<Rightarrow> gst_runtime \<Rightarrow> saver_options \<Rightarrow> saver_env \<Rightarrow> nat \<Rightarrow> nat \<Rightarrow> raw_image result list \<Rightarrow>
     saver_log \<Rightarrow> (status \<times> saver_log \<times> nat) outcome option" where
  "save_files G X opts V 0 j inputs lg = None"
| "save_files G X opts V (Suc fuel) j inputs lg =
     (case write_frames G X (sint (vs_max_frames_per_file opts))
             (GenerateVideoFilePath opts (se_session V) (se_time V j)) 0 inputs
             \<lparr>of_writer = None, of_path = []\<rparr> of
        Fatal m \<Rightarrow> Some (Fatal m)
      | Returns (start_new_file, st, f, rest) \<Rightarrow>
          if \<not> status_ok st then Some (Returns (st, lg\<lparr>sl_removed := sl_removed lg @ [of_path f]\<rparr>, j))
          else
            (let log1 = lg\<lparr>sl_files := sl_files lg @ [(of_path f, of_writer f)]\<rparr> in
             if vs_forward_file_paths opts \<and> se_dst_completed V j then Some (Returns (OkStatus, log1, j))
             else
               (let log2 = (if vs_forward_file_paths opts \<and> se_room V j
                            then log1\<lparr>sl_forwarded := sl_forwarded log1 @ [Inr (of_path f)]\<rparr> else log1) in
                if start_new_file then save_files G X opts V fuel (Suc j) rest log2
                else Some (Returns (OkStatus, log2, Suc j)))))"

definition LocalVideoSaver_WorkImpl ::
    "gst_lib \<Rightarrow> gst_runtime \<Rightarrow> string \<Rightarrow> saver_options \<Rightarrow> saver_env \<Rightarrow> raw_image result channel option \<Rightarrow>
     string result channel option \<Rightarrow> nat \<Rightarrow> raw_image result list \<Rightarrow> (status \<times> saver_log) outcome option" where
  "LocalVideoSaver_WorkImpl G X name opts V in_channel out_channel fuel inputs =
     (let pre = saver_ValidatePreconditions name opts in_channel out_channel;
          lg = \<lparr>sl_files = [], sl_removed = [], sl_forwarded = []\<rparr> in
      if \<not> status_ok pre then Some (Returns (pre, lg))
      else map_option (\<lambda>r. outcome_bind r (\<lambda>(st, lg', j).
             Returns (st, if vs_forward_file_paths opts \<and> se_room V j
                          then lg'\<lparr>sl_forwarded := sl_forwarded lg' @ [Inl (NotFoundError ''Reached EOS.'')]\<rparr>
                          else lg')))
             (save_files G X opts V fuel 0 inputs lg))"

section \<open>The uploader\<close>

record uploader_options =
  gu_do_work :: bool
  gu_gcs_bucket_name :: string
  gu_gcs_object_dir :: string
  gu_keep_local :: bool

definition uploader_ValidatePreconditions ::
    "string \<Rightarrow> uploader_options \<Rightarrow> string result channel option \<Rightarrow> status" where
  "uploader_ValidatePreconditions name opts in_channel =
     (if gu_gcs_bucket_name opts = []
      then InvalidArgumentError (name @ '': You must supply a non-empty GCS bucket name.'')
      else case in_channel of
        None \<Rightarrow> FailedPreconditionError (name @ '': No input channel found; please Attach() one.'')
      | Some c \<Rightarrow> if \<not> ch_HasSrc c then InternalError (name @ '': The input channel has no source.'')
                  else OkStatus)"

definition GenerateGcsObjectName :: "uploader_options \<Rightarrow> string \<Rightarrow> string" where
  "GenerateGcsObjectName opts file_path =
     (let file_name = Basename file_path; dir = gu_gcs_object_dir opts in
      if dir = [] then file_name
      else if last dir \<noteq> CHR ''/'' then dir @ ''/'' @ file_name
      else dir @ file_name)"

text \<open>
  What happens to GCS and the local files: \<open>Uploaded\<close> and \<open>UploadFailed\<close> with the path, the bucket and
  the object, \<open>RemovedLocal\<close> with the path. \<open>conn k\<close> tells whether the \<open>k\<close>-th client could be made, with
  the message of the error; \<open>up\<close> whether the \<open>k\<close>-th upload succeeds.
\<close>

datatype gcs_event =
    Uploaded string string string
  | UploadFailed string string string
  | RemovedLocal string

record gcs_env =
  ge_client_error :: "nat \<Rightarrow> string option"
  ge_upload_ok :: "nat \<Rightarrow> bool"

definition gcs_client_error :: "string \<Rightarrow> string \<Rightarrow> status" where
  "gcs_client_error name m = UnknownError (name @ '': Failed to create a GCS Client: '' @ m)"

fun upload_files ::
    "string \<Rightarrow> uploader_options \<Rightarrow> gcs_env \<Rightarrow> nat \<Rightarrow> nat \<Rightarrow> string result list \<Rightarrow> gcs_event list \<Rightarrow>
     (status \<times> gcs_event list) outcome" where
  "upload_files name opts W c k [] lg = Returns (OkStatus, lg)"
| "upload_files name opts W c k (x # xs) lg = (case x of
      Inl st \<Rightarrow> if status_code_of st = kNotFound then Returns (OkStatus, lg)
                else Fatal ''ValueOrDie of an error''
    | Inr path \<Rightarrow>
        (let object = GenerateGcsObjectName opts path; bucket = gu_gcs_bucket_name opts in
         if ge_upload_ok W k
         then upload_files name opts W c (Suc k) xs (lg @ [Uploaded path bucket object] @
                (if gu_keep_local opts then [] else [RemovedLocal path]))
         else (case ge_client_error W (Suc c) of
             Some m \<Rightarrow> Returns (gcs_client_error name m, lg @ [UploadFailed path bucket object])
           | None \<Rightarrow> upload_files name opts W (Suc c) (Suc k) xs (lg @ [UploadFailed path bucket object]))))"

definition GcsUploader_WorkImpl ::
    "string \<Rightarrow> uploader_options \<Rightarrow> gcs_env \<Rightarrow> string result channel option \<Rightarrow> string result list \<Rightarrow>
     (status \<times> gcs_event list) outcome" where
  "GcsUploader_WorkImpl name opts W in_channel inputs =
     (if \<not> gu_do_work opts then Returns (OkStatus, [])
      else if \<not> status_ok (uploader_ValidatePreconditions name opts in_channel)
      then Returns (uploader_ValidatePreconditions name opts in_channel, [])
      else case ge_client_error W 0 of
        Some m \<Rightarrow> Returns (gcs_client_error name m, [])
      | None \<Rightarrow> upload_files name opts W 0 0 inputs [])"

section \<open>The sources\<close>

text \<open>An image, an error or the end of the stream enters the channel if there is room.\<close>

type_synonym image_queue = "raw_image result pc_queue"

definition offer_image :: "raw_image result \<Rightarrow> image_queue \<Rightarrow> image_queue" where
  "offer_image r q = fst (snd (TryEmplace r q))"

definition source_ValidateChannel :: "string \<Rightarrow> raw_image result channel option \<Rightarrow> status" where
  "source_ValidateChannel name out_channel = (case out_channel of
      None \<Rightarrow> FailedPreconditionError (name @ '': No output channel found; please Attach() one.'')
    | Some c \<Rightarrow> if \<not> ch_HasDst c then InternalError (name @ '': The output channel has no destination.'')
                else OkStatus)"

definition gst_source_ValidatePreconditions :: "string \<Rightarrow> string \<Rightarrow> raw_image result channel option \<Rightarrow> status" where
  "gst_source_ValidatePreconditions name pipeline out_channel =
     (if pipeline = [] then InvalidArgumentError (name @ '': You must specify a non-empty gstreamer input pipeline.'')
      else source_ValidateChannel name out_channel)"

definition DecideProcessingPipeline :: "string \<Rightarrow> string" where
  "DecideProcessingPipeline pipeline = pipeline @ '' ! videoconvert ! video/x-raw,format=RGB''"

definition gst_source_callback ::
    "gst_lib \<Rightarrow> string \<Rightarrow> bool \<Rightarrow> gstreamer_buffer \<Rightarrow> image_queue \<Rightarrow> (status \<times> image_queue) outcome" where
  "gst_source_callback G name dst_completed b q =
     outcome_bind (ToRawImage G b) (\<lambda>raw. Returns (case raw of
        Inl st \<Rightarrow> (st, q)
      | Inr img \<Rightarrow> if dst_completed then (CancelledError (name @ '': The downstream worker has completed.''), q)
                   else (OkStatus, offer_image (Inr img) q)))"

text \<open>
  The buffers that the pipeline delivers before it completes, each with whether the saver has
  completed by then. An error of the callback is an error of the flow: the pipeline ends.
\<close>

fun gst_source_images ::
    "gst_lib \<Rightarrow> string \<Rightarrow> (bool \<times> gstreamer_buffer) list \<Rightarrow> image_queue \<Rightarrow> image_queue outcome" where
  "gst_source_images G name [] q = Returns q"
| "gst_source_images G name ((dst_completed, b) # bs) q =
     outcome_bind (gst_source_callback G name dst_completed b q) (\<lambda>(st, q').
       if status_ok st then gst_source_images G name bs q' else Returns q')"

definition GstreamerInputSource_WorkImpl ::
    "gst_lib \<Rightarrow> gst_runtime \<Rightarrow> string \<Rightarrow> string \<Rightarrow> raw_image result channel option \<Rightarrow>
     (bool \<times> gstreamer_buffer) list \<Rightarrow> image_queue \<Rightarrow> (status \<times> image_queue) outcome" where
  "GstreamerInputSource_WorkImpl G X name pipeline out_channel buffers q =
     (let pre = gst_source_ValidatePreconditions name pipeline out_channel in
      if \<not> status_ok pre then Returns (pre, q)
      else outcome_bind (Runner_Create X \<lparr>gro_processing_pipeline_string = DecideProcessingPipeline pipeline,
               gro_appsrc_caps_string = [], gro_receiver_callback = True, gro_appsink_sync = True\<rparr>)
        (\<lambda>runner. case runner of
           Inl st \<Rightarrow> Returns (st, q)
         | Inr _ \<Rightarrow> outcome_bind (gst_source_images G name buffers q) (\<lambda>q'.
             Returns (OkStatus, offer_image (Inl (NotFoundError ''Reached EOS.'')) q'))))"

definition source_ReceivePacket ::
    "proto_lib \<Rightarrow> string \<Rightarrow> packet option \<Rightarrow> (packet result \<times> bool) outcome" where
  "source_ReceivePacket L timeout got = (case got of
      None \<Rightarrow> Returns (Inl (DeadlineExceededError
        (''Failed to receive a packet within the specified timeout ('' @ timeout @ '').'')), False)
    | Some p \<Rightarrow> outcome_bind (IsEos L p) (\<lambda>eos. Returns (Inr p, eos)))"

definition source_yielder_callback :: "raw_image result \<Rightarrow> image_queue \<Rightarrow> status \<times> image_queue" where
  "source_yielder_callback r q = (OkStatus, offer_image r q)"

text \<open>\<open>made\<close> is the status of \<open>MakePacketReceiverQueue\<close>, \<open>first\<close> the first packet got.\<close>

definition ConnectAndWarmup ::
    "proto_lib \<Rightarrow> gst_lib \<Rightarrow> gst_runtime \<Rightarrow> string \<Rightarrow> status \<Rightarrow> packet option \<Rightarrow> image_queue \<Rightarrow>
     (status \<times> yielder option \<times> image_queue) outcome" where
  "ConnectAndWarmup L G X timeout made first q =
     (if \<not> status_ok made
      then Returns (InvalidArgumentError (''Failed to create a packet receiver queue: '' @ error_message made), None, q)
      else outcome_bind (source_ReceivePacket L timeout first) (\<lambda>(packet, is_eos). case packet of
        Inl st \<Rightarrow> Returns (UnknownError (''Failed to receive a packet from upstream: '' @ error_message st), None, q)
      | Inr p \<Rightarrow>
          if is_eos then Returns (NotFoundError ''Got EOS. The stream has already ended.'', None, q)
          else outcome_bind (ToGstreamerBuffer_packet L G p) (\<lambda>buffer. case buffer of
            Inl st \<Rightarrow> Returns (UnknownError
              (''Failed to convert the first packet to a gstreamer buffer: '' @ error_message st), None, q)
          | Inr b \<Rightarrow> outcome_bind (Yielder_Create X (gb_caps b) (Some source_yielder_callback) q) (\<lambda>(yl, q').
              case yl of
                Inl st \<Rightarrow> Returns (st, None, q')
              | Inr y \<Rightarrow> outcome_bind (Yielder_Feed X b y) (\<lambda>(st, y').
                  Returns (if \<not> status_ok st
                           then UnknownError (''Failed to Feed the first buffer into the raw image yielder: '' @ error_message st)
                           else OkStatus, Some y', q'))))))"

text \<open>
  The main loop: each turn has whether the saver has completed, and the packet got. \<open>None\<close> while
  it still runs.
\<close>

fun source_loop ::
    "proto_lib \<Rightarrow> gst_lib \<Rightarrow> gst_runtime \<Rightarrow> string \<Rightarrow> (bool \<times> packet option) list \<Rightarrow> yielder \<Rightarrow>
     (status \<times> yielder) outcome option" where
  "source_loop L G X timeout [] y = None"
| "source_loop L G X timeout ((dst_completed, got) # turns) y =
     (if dst_completed then Some (Returns (OkStatus, y))
      else (case source_ReceivePacket L timeout got of
        Fatal m \<Rightarrow> Some (Fatal m)
      | Returns (Inl st, _) \<Rightarrow>
          Some (Returns (UnknownError (''Failed to receive a packet from upstream: '' @ error_message st), y))
      | Returns (Inr p, is_eos) \<Rightarrow>
          if is_eos then Some (Returns (OkStatus, y))
          else (case ToGstreamerBuffer_packet L G p of
            Fatal m \<Rightarrow> Some (Fatal m)
          | Returns (Inl st) \<Rightarrow> Some (Returns (UnknownError
              (''Failed to convert a packet to a gstreamer buffer: '' @ error_message st), y))
          | Returns (Inr b) \<Rightarrow> (case Yielder_Feed X b y of
              Fatal m \<Rightarrow> Some (Fatal m)
            | Returns (st, y') \<Rightarrow>
                if \<not> status_ok st
                then Some (Returns (UnknownError (''Failed to Feed the data for raw image conversion: '' @ error_message st), y'))
                else source_loop L G X timeout turns y'))))"

text \<open>
  The images that the decoder delivers meanwhile are left to the queue \<open>decoded q\<close> that they make of
  \<open>q\<close>; the end of the stream follows them. When the first buffer cannot be fed the yielder lives until
  the source is destroyed, after the work.
\<close>

definition StreamServerSource_WorkImpl ::
    "proto_lib \<Rightarrow> gst_lib \<Rightarrow> gst_runtime \<Rightarrow> string \<Rightarrow> string \<Rightarrow> raw_image result channel option \<Rightarrow> status \<Rightarrow>
     packet option \<Rightarrow> (bool \<times> packet option) list \<Rightarrow> (image_queue \<Rightarrow> image_queue) \<Rightarrow> image_queue \<Rightarrow>
     (status \<times> image_queue) outcome option" where
  "StreamServerSource_WorkImpl L G X name timeout out_channel made first turns decoded q =
     (let pre = source_ValidateChannel name out_channel in
      if \<not> status_ok pre then Some (Returns (pre, q))
      else (case ConnectAndWarmup L G X timeout made first q of
        Fatal m \<Rightarrow> Some (Fatal m)
      | Returns (st, None, q1) \<Rightarrow> Some (Returns (st, q1))
      | Returns (st, Some y, q1) \<Rightarrow>
          if \<not> status_ok st then Some (Returns (st, decoded q1))
          else map_option (\<lambda>r. outcome_bind r (\<lambda>(st', y').
                 case Yielder_SignalEOS (Some source_yielder_callback) y' (decoded q1) of
                   (_, _, q2) \<Rightarrow> Returns (st', q2)))
               (source_loop L G X timeout turns y)))"

section \<open>The exporter\<close>

record exporter_options =
  ex_max_frames_per_file :: int32
  ex_output_dir :: string
  ex_file_prefix :: string
  ex_upload_to_gcs :: bool
  ex_keep_local :: bool
  ex_gcs_bucket_name :: string
  ex_gcs_object_dir :: string
  ex_use_gstreamer_input_source :: bool
  ex_gstreamer_input_pipeline :: string
  ex_receiver_options :: wrapper_options
  ex_receiver_timeout :: duration
  ex_working_buffer_size :: int32
  ex_finalization_deadline :: duration

record video_exporter =
  xp_options :: exporter_options
  xp_has_been_run :: bool

definition VideoExporter_Create :: "exporter_options \<Rightarrow> video_exporter result" where
  "VideoExporter_Create opts =
     (if sint (ex_working_buffer_size opts) \<le> 0
      then Inl (InvalidArgumentError ''You must supply a positive value for the working buffer size'')
      else Inr \<lparr>xp_options = opts, xp_has_been_run = False\<rparr>)"

definition exporter_uploader_options :: "exporter_options \<Rightarrow> uploader_options" where
  "exporter_uploader_options opts = \<lparr>gu_do_work = ex_upload_to_gcs opts,
     gu_gcs_bucket_name = ex_gcs_bucket_name opts, gu_gcs_object_dir = ex_gcs_object_dir opts,
     gu_keep_local = ex_keep_local opts\<rparr>"

definition exporter_saver_options :: "exporter_options \<Rightarrow> saver_options" where
  "exporter_saver_options opts = \<lparr>vs_file_prefix = ex_file_prefix opts, vs_output_dir = ex_output_dir opts,
     vs_max_frames_per_file = ex_max_frames_per_file opts, vs_forward_file_paths = ex_upload_to_gcs opts\<rparr>"

text \<open>The options of the source keep their default timeout: that of the exporter is not handed on.\<close>

record stream_source_options =
  st_receiver_options :: wrapper_options
  st_receiver_timeout :: duration

definition exporter_source_options :: "exporter_options \<Rightarrow> stream_source_options" where
  "exporter_source_options opts =
     \<lparr>st_receiver_options = ex_receiver_options opts, st_receiver_timeout = Seconds 10\<rparr>"

text \<open>
  \<open>Run\<close>, given the signals of the source, the saver and the uploader when each was joined for the
  last time; the channels are attached without failure, since nothing is null.
\<close>

definition join_status :: "bool \<times> completion_signal \<Rightarrow> string \<Rightarrow> status" where
  "join_status joined name =
     (if \<not> fst joined
      then DeadlineExceededError ([CHR 0x22] @ name @ [CHR 0x22] @
             '' did not finalize its work in time. It will be detached.'')
      else worker_GetStatus (snd joined))"

definition VideoExporter_Run ::
    "completion_signal \<Rightarrow> bool \<times> completion_signal \<Rightarrow> bool \<times> completion_signal \<Rightarrow> video_exporter \<Rightarrow>
     status \<times> video_exporter" where
  "VideoExporter_Run source saver uploader x =
     (if xp_has_been_run x
      then (FailedPreconditionError (''This video exporter has already been Run. Please Create a new '' @
              ''instance and try again.''), x)
      else
        (let source_status = worker_GetStatus source;
             saver_status = join_status saver ''LocalVideoSaver'';
             uploader_status = join_status uploader ''GcsUploader'';
             error_status = UnknownError ''The Run() did not complete successfully.'';
             r = OkStatus;
             r = (if \<not> status_ok source_status then error_status else r);
             r = (if \<not> status_ok saver_status then error_status else r);
             r = (if \<not> status_ok uploader_status then error_status else r)
         in (r, x\<lparr>xp_has_been_run := True\<rparr>)))"

section \<open>The chunker\<close>

definition DecideUriGstreamerPipeline :: "string \<Rightarrow> string result" where
  "DecideUriGstreamerPipeline source_uri =
     (if source_uri = [] then Inl (InvalidArgumentError ''You must supply a non-empty uri string.'')
      else Inr (str_join '' ! ''
        (if \<not> HasProtocolPrefix source_uri then [''filesrc location='' @ source_uri, ''decodebin'']
         else [''uridecodebin uri='' @ source_uri])))"

section \<open>Writing the frames of a file\<close>

declare write_frames.simps [simp del]

text \<open>A runtime that accepts what a writer of frames with these caps asks of it.\<close>

definition accepts_video :: "gst_runtime \<Rightarrow> string \<Rightarrow> bool" where
  "accepts_video X caps \<longleftrightarrow> caps \<noteq> [] \<and> (\<forall>k b. gx_push_ok X k b) \<and>
     (\<forall>path. path \<noteq> [] \<longrightarrow>
        (\<exists>r. VideoWriter_Create X \<lparr>vw_file_path = path, vw_caps_string = caps\<rparr> = Returns (Inr r)))"

definition writing :: "string \<Rightarrow> gst_runner \<Rightarrow> bool" where
  "writing caps r \<longleftrightarrow> \<not> cs_IsCompleted (gn_signal r) \<and> gp_appsrc (gn_pipeline r) \<noteq> None \<and>
     gro_appsrc_caps_string (gn_options r) = caps"

lemma VideoWriter_Create_writing:
  assumes "VideoWriter_Create X \<lparr>vw_file_path = path, vw_caps_string = caps\<rparr> = Returns (Inr r)" and "caps \<noteq> []"
  shows "writing caps r \<and> fed_buffers r = []"
proof -
  let ?o = "\<lparr>gro_processing_pipeline_string = str_join '' ! ''
       [''decodebin'', ''videoconvert'', ''x264enc'', ''mp4mux'', ''filesink location='' @ path],
     gro_appsrc_caps_string = caps, gro_receiver_callback = False, gro_appsink_sync = False\<rparr>"
  obtain x where x: "Runner_Create X ?o = Returns x"
    using assms(1) by (auto simp: VideoWriter_Create_def VideoWriter_Initialize_def AssembleGstreamerPipeline_def
        split: if_splits)
  with assms(1) have "x = Inr r"
    by (cases x) (auto simp: VideoWriter_Create_def VideoWriter_Initialize_def AssembleGstreamerPipeline_def
        split: if_splits)
  with x Runner_Create_appsrc [of X ?o r] assms(2) show ?thesis
    by (simp add: writing_def fed_buffers_def Runner_IsCompleted_def)
qed

lemma VideoWriter_Put_writing:
  assumes "writing caps w" and "gb_caps b = caps" and "\<forall>k b. gx_push_ok X k b"
  shows "\<exists>w'. VideoWriter_Put X b w = (OkStatus, w') \<and> writing caps w' \<and> fed_buffers w' = fed_buffers w @ [b]"
  using assms
  by (auto simp: VideoWriter_Put_def Runner_Feed_def RunnerImpl_Feed_def writing_def fed_buffers_def Let_def
      OkStatus_def status_ok_def)

definition convertible :: "gst_lib \<Rightarrow> string \<Rightarrow> (raw_image \<Rightarrow> gstreamer_buffer) \<Rightarrow> raw_image \<Rightarrow> bool" where
  "convertible G caps buf img \<longleftrightarrow> ToGstreamerBuffer_image G img = Returns (Inr (buf img)) \<and> gb_caps (buf img) = caps"

lemma write_frames_step:
  assumes "accepts_video X caps" and "convertible G caps buf img" and "k < n" and "path \<noteq> []"
    and "case of_writer f of None \<Rightarrow> True | Some w \<Rightarrow> writing caps w"
  shows "\<exists>w'. write_frames G X n path k (Inr img # xs) f =
      write_frames G X n path (k + 1) xs \<lparr>of_writer = Some w', of_path = if of_writer f = None then path else of_path f\<rparr> \<and>
    writing caps w' \<and>
    fed_buffers w' = (case of_writer f of None \<Rightarrow> [] | Some w \<Rightarrow> fed_buffers w) @ [buf img]"
proof -
  obtain w where w: "(case of_writer f of Some w \<Rightarrow> Returns (Inr w)
       | None \<Rightarrow> VideoWriter_Create X \<lparr>vw_file_path = path, vw_caps_string = gb_caps (buf img)\<rparr>) = Returns (Inr w)"
      "writing caps w" "fed_buffers w = (case of_writer f of None \<Rightarrow> [] | Some w \<Rightarrow> fed_buffers w)"
    using assms VideoWriter_Create_writing
    by (cases "of_writer f") (fastforce simp: accepts_video_def convertible_def)+
  obtain w' where w': "VideoWriter_Put X (buf img) w = (OkStatus, w')" "writing caps w'"
      "fed_buffers w' = fed_buffers w @ [buf img]"
    using VideoWriter_Put_writing [OF w(2), of "buf img" X] assms(1,2) by (auto simp: accepts_video_def convertible_def)
  show ?thesis
    using assms(2,3) w w'
    by (intro exI [of _ w']) (simp add: write_frames.simps convertible_def Let_def OkStatus_def status_ok_def)
qed

lemma write_frames_images:
  assumes "accepts_video X caps" and "\<forall>img \<in> set imgs. convertible G caps buf img" and "k + int (length imgs) \<le> n"
    and "path \<noteq> []" and "writing caps w"
  shows "\<exists>w'. write_frames G X n path k (map Inr imgs @ rest) \<lparr>of_writer = Some w, of_path = path\<rparr> =
      write_frames G X n path (k + int (length imgs)) rest \<lparr>of_writer = Some w', of_path = path\<rparr> \<and>
    fed_buffers w' = fed_buffers w @ map buf imgs"
  using assms
proof (induction imgs arbitrary: k w)
  case Nil
  then show ?case by auto
next
  case (Cons img imgs)
  obtain w1 where w1: "write_frames G X n path k (Inr img # map Inr imgs @ rest) \<lparr>of_writer = Some w, of_path = path\<rparr> =
      write_frames G X n path (k + 1) (map Inr imgs @ rest) \<lparr>of_writer = Some w1, of_path = path\<rparr>"
      "writing caps w1" "fed_buffers w1 = fed_buffers w @ [buf img]"
    using write_frames_step [of X caps G buf img k n path "\<lparr>of_writer = Some w, of_path = path\<rparr>" "map Inr imgs @ rest"] Cons.prems
    by auto
  from Cons.IH [of "k + 1" w1] Cons.prems w1 show ?case by (auto simp: algebra_simps)
qed

lemma write_frames_file:
  assumes "accepts_video X caps" and "\<forall>img \<in> set imgs. convertible G caps buf img" and "imgs \<noteq> []"
    and "int (length imgs) \<le> n" and "path \<noteq> []"
  shows "\<exists>w. write_frames G X n path 0 (map Inr imgs @ rest) \<lparr>of_writer = None, of_path = []\<rparr> =
      write_frames G X n path (int (length imgs)) rest \<lparr>of_writer = Some w, of_path = path\<rparr> \<and>
    fed_buffers w = map buf imgs"
proof -
  obtain img more where imgs: "imgs = img # more" using assms(3) by (cases imgs) auto
  let ?f = "\<lparr>of_writer = None, of_path = []\<rparr> :: open_file"
  obtain w1 where w1: "write_frames G X n path 0 (Inr img # map Inr more @ rest) ?f =
      write_frames G X n path 1 (map Inr more @ rest) \<lparr>of_writer = Some w1, of_path = path\<rparr>"
      "writing caps w1" "fed_buffers w1 = [buf img]"
    using write_frames_step [of X caps G buf img 0 n path ?f "map Inr more @ rest"] assms imgs by auto
  from write_frames_images [OF assms(1) _ _ assms(5) w1(2), of more G buf 1 n rest] assms(2,4) w1 imgs
  show ?thesis by auto
qed

section \<open>Saving a sequence of images\<close>

declare save_files.simps [simp del]

text \<open>The end of the images: the source completed, or told so.\<close>

definition ends_images :: "raw_image result list \<Rightarrow> bool" where
  "ends_images rest \<longleftrightarrow> rest = [] \<or> (\<exists>e more. rest = Inl e # more \<and> status_code_of e = kNotFound)"

lemma write_frames_end: "ends_images rest \<Longrightarrow> k < n \<Longrightarrow> \<exists>more. write_frames G X n path k rest f = Returns (False, OkStatus, f, more)"
  by (auto simp: ends_images_def write_frames.simps)

lemma write_frames_full: "write_frames G X n path n rest f = Returns (True, OkStatus, f, rest)"
  by (cases rest) (simp_all add: write_frames.simps)

definition frames_of :: "string \<times> gst_runner option \<Rightarrow> string \<times> gstreamer_buffer list" where
  "frames_of f = (fst f, case snd f of None \<Rightarrow> [] | Some r \<Rightarrow> fed_buffers r)"

text \<open>
  The files of the buffers \<open>bs\<close> from number \<open>j\<close> on: full ones, then one that is not, without a name
  when it is empty.
\<close>

definition split_into_files ::
    "nat \<Rightarrow> (nat \<Rightarrow> string) \<Rightarrow> nat \<Rightarrow> gstreamer_buffer list \<Rightarrow> (string \<times> gstreamer_buffer list) list \<Rightarrow>
     (string \<times> gstreamer_buffer list) \<Rightarrow> bool" where
  "split_into_files n path j bs full rest \<longleftrightarrow>
     concat (map snd full) @ snd rest = bs \<and> (\<forall>f \<in> set full. length (snd f) = n) \<and> length (snd rest) < n \<and>
     map fst full = map path [j..<j + length full] \<and>
     fst rest = (if snd rest = [] then [] else path (j + length full))"

lemma split_into_files_more:
  assumes "split_into_files n path (Suc j) (drop n bs) full rest" and "n \<le> length bs"
  shows "split_into_files n path j bs ((path j, take n bs) # full) rest"
  using assms by (auto simp: split_into_files_def upt_conv_Cons simp del: upt_Suc)

definition video_path :: "saver_options \<Rightarrow> saver_env \<Rightarrow> nat \<Rightarrow> string" where
  "video_path opts V j = GenerateVideoFilePath opts (se_session V) (se_time V j)"

lemma video_path_nonempty [simp]: "video_path opts V j \<noteq> []"
  by (simp add: video_path_def GenerateVideoFilePath_def Let_def)

definition uploader_follows :: "saver_options \<Rightarrow> saver_env \<Rightarrow> bool" where
  "uploader_follows opts V \<longleftrightarrow> (vs_forward_file_paths opts \<longrightarrow> (\<forall>j. \<not> se_dst_completed V j \<and> se_room V j))"

text \<open>The names of the files from number \<open>j\<close> on that find room in the channel.\<close>

fun forwarded_paths ::
    "saver_options \<Rightarrow> saver_env \<Rightarrow> nat \<Rightarrow> (string \<times> gstreamer_buffer list) list \<Rightarrow> string result list" where
  "forwarded_paths opts V j [] = []"
| "forwarded_paths opts V j (f # fs) =
     (if vs_forward_file_paths opts \<and> se_room V j then [Inr (fst f)] else []) @ forwarded_paths opts V (Suc j) fs"

lemma forwarded_paths_all:
  "vs_forward_file_paths opts \<Longrightarrow> \<forall>j. se_room V j \<Longrightarrow> forwarded_paths opts V j files = map (Inr \<circ> fst) files"
  by (induction files arbitrary: j) auto

lemma save_files_images:
  assumes "accepts_video X caps" and "ends_images rest" and "vs_forward_file_paths opts \<longrightarrow> (\<forall>j. \<not> se_dst_completed V j)"
    and n: "sint (vs_max_frames_per_file opts) = int n" "0 < n"
  shows "\<forall>img \<in> set imgs. convertible G caps buf img \<Longrightarrow> length imgs < fuel \<Longrightarrow>
    \<exists>lg' j' full last. save_files G X opts V fuel j (map Inr imgs @ rest) lg = Some (Returns (OkStatus, lg', j')) \<and>
      map frames_of (sl_files lg') = map frames_of (sl_files lg) @ full @ [last] \<and>
      sl_removed lg' = sl_removed lg \<and>
      sl_forwarded lg' = sl_forwarded lg @ forwarded_paths opts V j (full @ [last]) \<and>
      split_into_files n (video_path opts V) j (map buf imgs) full last"
proof (induction "length imgs" arbitrary: imgs fuel j lg rule: less_induct)
  case less
  obtain fuel' where fuel: "fuel = Suc fuel'" using less.prems(2) by (cases fuel) auto
  let ?path = "video_path opts V j" and ?f0 = "\<lparr>of_writer = None, of_path = []\<rparr> :: open_file"
  let ?log = "\<lambda>f. lg\<lparr>sl_files := sl_files lg @ [(of_path f, of_writer f)],
      sl_forwarded := sl_forwarded lg @
        (if vs_forward_file_paths opts \<and> se_room V j then [Inr (of_path f)] else [])\<rparr>"
  have step: "save_files G X opts V fuel j inputs lg =
      (if again then save_files G X opts V fuel' (Suc j) more (?log f) else Some (Returns (OkStatus, ?log f, Suc j)))"
    if "write_frames G X (int n) ?path 0 inputs ?f0 = Returns (again, OkStatus, f, more)" for again f more inputs
    using that assms(3) by (auto simp: fuel save_files.simps n(1) video_path_def status_ok_def OkStatus_def Let_def)
  show ?case
  proof (cases "length imgs < n")
    case True
    obtain w p where w: "write_frames G X (int n) ?path 0 (map Inr imgs @ rest) ?f0 =
        write_frames G X (int n) ?path (int (length imgs)) rest \<lparr>of_writer = w, of_path = p\<rparr>"
        "frames_of (p, w) = (if imgs = [] then [] else ?path, map buf imgs)"
    proof (cases "imgs = []")
      case True
      then show ?thesis using that [of None "[]"] by (simp add: frames_of_def)
    next
      case False
      from write_frames_file [OF assms(1) less.prems(1) False _ video_path_nonempty, of "int n" opts V j rest] True
      obtain w where "write_frames G X (int n) ?path 0 (map Inr imgs @ rest) ?f0 =
          write_frames G X (int n) ?path (int (length imgs)) rest \<lparr>of_writer = Some w, of_path = ?path\<rparr>"
          "fed_buffers w = map buf imgs" by auto
      then show ?thesis using that [of "Some w" ?path] False by (simp add: frames_of_def)
    qed
    obtain more where more: "write_frames G X (int n) ?path (int (length imgs)) rest \<lparr>of_writer = w, of_path = p\<rparr> =
        Returns (False, OkStatus, \<lparr>of_writer = w, of_path = p\<rparr>, more)"
      using write_frames_end [OF assms(2)] True by fastforce
    have "save_files G X opts V fuel j (map Inr imgs @ rest) lg =
        Some (Returns (OkStatus, ?log \<lparr>of_writer = w, of_path = p\<rparr>, Suc j))"
      using step [OF w(1) [unfolded more]] by simp
    moreover have "split_into_files n (video_path opts V) j (map buf imgs) [] (frames_of (p, w))"
      using True w(2) by (simp add: split_into_files_def)
    ultimately show ?thesis
      by (intro exI [of _ "?log \<lparr>of_writer = w, of_path = p\<rparr>"] exI [of _ "Suc j"] exI [of _ "[]"]
          exI [of _ "frames_of (p, w)"]) (simp add: frames_of_def)
  next
    case False
    let ?now = "take n imgs" and ?later = "drop n imgs"
    have "\<forall>img \<in> set ?now. convertible G caps buf img" "?now \<noteq> []" "int (length ?now) = int n"
      using less.prems(1) False n(2) by (auto dest: in_set_takeD)
    from write_frames_file [OF assms(1) this(1,2) _ video_path_nonempty, of "int n" opts V j "map Inr ?later @ rest"] this(3)
    obtain w where w: "write_frames G X (int n) ?path 0 (map Inr ?now @ map Inr ?later @ rest) ?f0 =
        write_frames G X (int n) ?path (int n) (map Inr ?later @ rest) \<lparr>of_writer = Some w, of_path = ?path\<rparr>"
        "fed_buffers w = map buf ?now" by auto
    have split: "map Inr imgs @ rest = map Inr ?now @ map Inr ?later @ rest"
      by (metis append.assoc append_take_drop_id map_append)
    let ?lg = "?log \<lparr>of_writer = Some w, of_path = ?path\<rparr>"
    have go: "save_files G X opts V fuel j (map Inr imgs @ rest) lg =
        save_files G X opts V fuel' (Suc j) (map Inr ?later @ rest) ?lg"
      using step [of "map Inr imgs @ rest" True] w(1) unfolding split by (simp add: write_frames_full)
    have "length ?later < length imgs" "\<forall>img \<in> set ?later. convertible G caps buf img" "length ?later < fuel'"
      using False n(2) less.prems fuel by (auto dest: in_set_dropD)
    from less.hyps [OF this, of "Suc j" ?lg] obtain lg' j' full last where r:
      "save_files G X opts V fuel' (Suc j) (map Inr ?later @ rest) ?lg = Some (Returns (OkStatus, lg', j'))"
      "map frames_of (sl_files lg') = map frames_of (sl_files ?lg) @ full @ [last]"
      "sl_removed lg' = sl_removed ?lg" "sl_forwarded lg' = sl_forwarded ?lg @ forwarded_paths opts V (Suc j) (full @ [last])"
      "split_into_files n (video_path opts V) (Suc j) (map buf ?later) full last" by blast
    have "split_into_files n (video_path opts V) j (map buf imgs) ((?path, take n (map buf imgs)) # full) last"
      using r(5) False by (intro split_into_files_more) (simp_all add: drop_map)
    with r go w(2) show ?thesis
      by (intro exI [of _ lg'] exI [of _ j'] exI [of _ "(?path, take n (map buf imgs)) # full"] exI [of _ last])
         (simp add: frames_of_def take_map)
  qed
qed

section \<open>Uploading\<close>

text \<open>The paths whose upload was tried, in order, with whether it succeeded.\<close>

fun tried :: "gcs_event \<Rightarrow> (string \<times> bool) list" where
  "tried (Uploaded p b obj) = [(p, True)]"
| "tried (UploadFailed p b obj) = [(p, False)]"
| "tried (RemovedLocal p) = []"

definition uploads :: "gcs_event list \<Rightarrow> (string \<times> bool) list" where
  "uploads es = concat (map tried es)"

lemma uploads_append [simp]: "uploads (xs @ ys) = uploads xs @ uploads ys"
  by (simp add: uploads_def)

lemma upload_files_paths:
  assumes "\<forall>c. ge_client_error W c = None" and "status_code_of e = kNotFound"
  shows "\<exists>es. upload_files name opts W c k (map Inr paths @ [Inl e]) lg = Returns (OkStatus, lg @ es) \<and>
    uploads es = zip paths (map (ge_upload_ok W) [k..<k + length paths])"
proof (induction paths arbitrary: c k lg)
  case Nil
  then show ?case using assms by (simp add: uploads_def)
next
  case (Cons p paths)
  let ?obj = "GenerateGcsObjectName opts p"
  let ?es = "if ge_upload_ok W k
    then [Uploaded p (gu_gcs_bucket_name opts) ?obj] @ (if gu_keep_local opts then [] else [RemovedLocal p])
    else [UploadFailed p (gu_gcs_bucket_name opts) ?obj]"
  let ?c = "if ge_upload_ok W k then c else Suc c"
  have "upload_files name opts W c k (map Inr (p # paths) @ [Inl e]) lg =
      upload_files name opts W ?c (Suc k) (map Inr paths @ [Inl e]) (lg @ ?es)"
    using assms(1) by (simp add: Let_def)
  moreover obtain es where "upload_files name opts W ?c (Suc k) (map Inr paths @ [Inl e]) (lg @ ?es) =
      Returns (OkStatus, (lg @ ?es) @ es)" "uploads es = zip paths (map (ge_upload_ok W) [Suc k..<Suc k + length paths])"
    using Cons.IH by blast
  moreover have "uploads ?es = [(p, ge_upload_ok W k)]" by (simp add: uploads_def)
  moreover have "[k..<k + length (p # paths)] = k # [Suc k..<Suc k + length paths]" by (simp add: upt_conv_Cons del: upt_Suc)
  ultimately show ?case by (intro exI [of _ "?es @ es"]) simp
qed

section \<open>Properties\<close>

text \<open>
  C8. Exporting a sequence of images of one size, the source ending in any way it can and the
  uploader keeping up. The saver writes every image once, in order: full files of the maximal number
  of frames under the generated names, then one with fewer; when that one would be empty it has no
  name. It returns \<open>OK\<close> after finitely many files, removes nothing, and the uploader then tries every
  file name exactly once, in the order written, whether or not an upload fails.
\<close>

theorem exported_video_complete:
  assumes "accepts_video X caps" and "\<forall>img \<in> set imgs. convertible G caps buf img" and "ends_images rest"
    and "sint (vs_max_frames_per_file opts) = int n" and "vs_forward_file_paths opts" and "uploader_follows opts V"
    and "status_ok (saver_ValidatePreconditions name opts in_channel out_channel)"
    and "gu_do_work up" and "status_ok (uploader_ValidatePreconditions name' up out_channel)"
    and "\<forall>c. ge_client_error W c = None"
  shows "\<exists>lg full last es.
    LocalVideoSaver_WorkImpl G X name opts V in_channel out_channel (Suc (length imgs)) (map Inr imgs @ rest) =
      Some (Returns (OkStatus, lg)) \<and>
    map frames_of (sl_files lg) = full @ [last] \<and> sl_removed lg = [] \<and>
    split_into_files n (video_path opts V) 0 (map buf imgs) full last \<and>
    GcsUploader_WorkImpl name' up W out_channel (sl_forwarded lg) = Returns (OkStatus, es) \<and>
    uploads es = zip (map fst (full @ [last])) (map (ge_upload_ok W) [0..<Suc (length full)])"
proof -
  have n: "0 < n" using assms(4,7) by (auto simp: saver_ValidatePreconditions_def split: if_splits)
  let ?lg0 = "\<lparr>sl_files = [], sl_removed = [], sl_forwarded = []\<rparr> :: saver_log"
  have "vs_forward_file_paths opts \<longrightarrow> (\<forall>j. \<not> se_dst_completed V j)" "\<forall>j. se_room V j"
    using assms(5,6) by (simp_all add: uploader_follows_def)
  from save_files_images [OF assms(1,3) this(1) assms(4) n assms(2), of "Suc (length imgs)" 0 ?lg0]
    forwarded_paths_all [OF assms(5) this(2)] obtain lg' j' full last where s:
    "save_files G X opts V (Suc (length imgs)) 0 (map Inr imgs @ rest) ?lg0 = Some (Returns (OkStatus, lg', j'))"
    "map frames_of (sl_files lg') = full @ [last]" "sl_removed lg' = []"
    "sl_forwarded lg' = map (Inr \<circ> fst) (full @ [last])"
    "split_into_files n (video_path opts V) 0 (map buf imgs) full last"
    by auto
  let ?eos = "NotFoundError ''Reached EOS.''"
  let ?lg = "lg'\<lparr>sl_forwarded := map Inr (map fst (full @ [last])) @ [Inl ?eos]\<rparr>"
  have "LocalVideoSaver_WorkImpl G X name opts V in_channel out_channel (Suc (length imgs)) (map Inr imgs @ rest) =
      Some (Returns (OkStatus, ?lg))"
    using s assms(5,6,7) by (simp add: LocalVideoSaver_WorkImpl_def Let_def uploader_follows_def)
  moreover have "status_code_of ?eos = kNotFound" by (simp add: NotFoundError_def mk_Status_def status_code_of_def status_ok_def)
  from upload_files_paths [OF assms(10) this, of name' up 0 0 "map fst (full @ [last])" "[]"] obtain es where
    "upload_files name' up W 0 0 (map Inr (map fst (full @ [last])) @ [Inl ?eos]) [] = Returns (OkStatus, es)"
    "uploads es = zip (map fst (full @ [last])) (map (ge_upload_ok W) [0..<Suc (length full)])"
    by auto
  moreover from this(1) have "GcsUploader_WorkImpl name' up W out_channel (sl_forwarded ?lg) = Returns (OkStatus, es)"
    using assms(8-10) by (simp add: GcsUploader_WorkImpl_def)
  moreover have "map frames_of (sl_files ?lg) = full @ [last]" "sl_removed ?lg = []" using s(2,3) by simp_all
  ultimately show ?thesis using s(5) by blast
qed

section \<open>Where the code falls short\<close>

text \<open>When the number of images is a multiple of the size of a file, a file without a name is reported.\<close>

lemma unnamed_file:
  assumes "split_into_files n path j bs full lst" and "n dvd length bs"
  shows "lst = ([], [])"
proof -
  have "length (concat (map snd full)) = n * length full"
  proof -
    have "\<forall>f \<in> set full. length (snd f) = n" using assms(1) by (simp add: split_into_files_def)
    then show ?thesis by (induction full) simp_all
  qed
  moreover have "length bs = length (concat (map snd full)) + length (snd lst)"
    using assms(1) by (auto simp: split_into_files_def)
  ultimately have "n dvd length (snd lst)" using assms(2) by (simp add: dvd_add_right_iff)
  moreover have "length (snd lst) < n" using assms(1) by (simp add: split_into_files_def)
  ultimately have "snd lst = []" using nat_dvd_not_less by fastforce
  with assms(1) show ?thesis by (cases lst) (simp add: split_into_files_def)
qed

text \<open>An error of the decoder other than the end of the stream ends the process.\<close>

lemma image_error_aborts:
  assumes "status_code_of st \<noteq> kNotFound" and "k < n"
  shows "is_fatal (write_frames G X n path k (Inl st # xs) f)"
  using assms by (simp add: write_frames.simps)

text \<open>The timeout for packets that the user asks for has no effect.\<close>

lemma receiver_timeout_ignored:
  "exporter_source_options (opts\<lparr>ex_receiver_timeout := t\<rparr>) = exporter_source_options opts"
  by (simp add: exporter_source_options_def)

section \<open>Witness\<close>

definition example_saver_options :: saver_options where
  "example_saver_options = \<lparr>vs_file_prefix = [], vs_output_dir = ''out'', vs_max_frames_per_file = 2,
     vs_forward_file_paths = True\<rparr>"

definition example_saver_env :: saver_env where
  "example_saver_env = \<lparr>se_session = ''s'', se_time = show_nat, se_dst_completed = (\<lambda>_. False), se_room = (\<lambda>_. True)\<rparr>"

definition open_channel :: "'a channel" where
  "open_channel = \<lparr>ch_src = Some new_CompletionSignal, ch_dst = Some new_CompletionSignal,
     ch_pcqueue = \<lparr>q_capacity = 9, q_items = []\<rparr>\<rparr>"

definition example_uploader_options :: uploader_options where
  "example_uploader_options = \<lparr>gu_do_work = True, gu_gcs_bucket_name = ''b'', gu_gcs_object_dir = [], gu_keep_local = True\<rparr>"

theorem exported_video_complete_witness:
  "\<exists>lg buf full last. LocalVideoSaver_WorkImpl unary_gst example_runtime ''Saver'' example_saver_options example_saver_env
      (Some open_channel) (Some open_channel) 4 [Inr example_image, Inr example_image, Inr example_image] =
      Some (Returns (OkStatus, lg)) \<and>
     map frames_of (sl_files lg) = full @ [last] \<and>
     concat (map snd full) @ snd last = [buf, buf, buf] \<and> length (snd last) < 2"
proof -
  let ?b = "\<lparr>gb_caps = gl_caps_to_string_rgb unary_gst (ri_width example_image) (ri_height example_image),
     gb_bytes = rgb_bytes example_image\<rparr>"
  let ?imgs = "[example_image, example_image, example_image]"
  have conv: "rgb_convertible example_image" "ri_format example_image = RAW_IMAGE_FORMAT_SRGB"
    by (simp_all add: example_image_def rgb_convertible_def raw_image_inv_def desc_ok_def pixel_bytes_def
        descriptor_of_image_def int_max_def round_up_4_def)
  have caps: "gb_caps ?b = ''whh''"
    by (simp add: unary_gst_def example_image_def numeral_2_eq_2)
  have imgs: "\<forall>img \<in> set ?imgs. convertible unary_gst ''whh'' (\<lambda>_. ?b) img"
    using rgb_to_buffer [OF conv(1), of unary_gst] conv(2) caps
    by (simp add: convertible_def ToGstreamerBuffer_image_def)
  have video: "accepts_video example_runtime ''whh''"
    by (simp add: accepts_video_def VideoWriter_Create_def VideoWriter_ValidateOptions_def VideoWriter_Initialize_def
        AssembleGstreamerPipeline_def Runner_Create_def RunnerImpl_Create_def GstreamerPipeline_Create_def
        ValidateOptions_def GstInit_def example_runtime_def Let_def OkStatus_def status_ok_def)
  have pre: "status_ok (saver_ValidatePreconditions ''Saver'' example_saver_options (Some open_channel) (Some open_channel))"
    "status_ok (uploader_ValidatePreconditions ''Up'' example_uploader_options (Some open_channel))"
    by (simp_all add: saver_ValidatePreconditions_def uploader_ValidatePreconditions_def example_saver_options_def
        example_uploader_options_def open_channel_def ch_HasSrc_def ch_HasDst_def OkStatus_def status_ok_def)
  have "ends_images []" "sint (vs_max_frames_per_file example_saver_options) = int 2"
    "vs_forward_file_paths example_saver_options" "uploader_follows example_saver_options example_saver_env"
    "gu_do_work example_uploader_options"
    by (simp_all add: ends_images_def example_saver_options_def uploader_follows_def example_saver_env_def
        example_uploader_options_def)
  note exported_video_complete [OF video imgs this(1-4) pre(1) this(5) pre(2),
      where W = "\<lparr>ge_client_error = (\<lambda>_. None), ge_upload_ok = (\<lambda>_. True)\<rparr>"]
  then obtain lg full last where
    "LocalVideoSaver_WorkImpl unary_gst example_runtime ''Saver'' example_saver_options example_saver_env
      (Some open_channel) (Some open_channel) 4 (map Inr ?imgs) = Some (Returns (OkStatus, lg))"
    "map frames_of (sl_files lg) = full @ [last]"
    "split_into_files 2 (video_path example_saver_options example_saver_env) 0 (map (\<lambda>_. ?b) ?imgs) full last"
    by (auto simp: eval_nat_numeral)
  then show ?thesis
    by (intro exI [of _ lg] exI [of _ ?b] exI [of _ full] exI [of _ last]) (simp add: split_into_files_def)
qed

end
