(* ===== verification/Program_Mains.thy ===== *)
theory Program_Mains
  imports Receiver_Apps Management_Client Video_Exporter
begin

text \<open>
  The other programs: \<open>python/apps/manager_app.cc\<close>, \<open>chunker_app.cc\<close>, \<open>ingester_app.cc\<close>, the example
  \<open>simple_ingester_main.cc\<close>, and \<open>base/wrappers/managers.cc\<close>.

  Flags are records. The management program tells its outcome in its log, so its operations are
  functions to the lines they log, with the waits for long-running operations.
\<close>

section \<open>The wrapper\<close>

text \<open>The status and what \<open>stream_manager\<close> points to, unchanged on failure.\<close>

definition MakeStreamManager ::
    "rpc_env \<Rightarrow> onprem_service \<Rightarrow> google_service \<Rightarrow> stream_manager_config \<Rightarrow> stream_manager option \<Rightarrow>
     status \<times> stream_manager option" where
  "MakeStreamManager E B G config ptr = (case CreateStreamManager E B G config of
      Inl st \<Rightarrow> (UnknownError ''Failed to create a StreamManager'', ptr)
    | Inr m \<Rightarrow> (OkStatus, Some m))"

section \<open>The management program\<close>

datatype log_line = LogInfo string | LogError string

record manager_flags =
  mf_target_address :: string
  mf_stream_name :: string
  mf_use_insecure_channel :: bool
  mf_ssl_root_cert_path :: string
  mf_ssl_domain_name :: string
  mf_op_id :: int32
  mf_use_google_managed_service :: bool
  mf_project :: string
  mf_location :: string
  mf_cluster_name :: string
  mf_stream_retention_seconds :: int32

definition kOpNames :: "string list" where
  "kOpNames = [''CreateStream'', ''ListStreams'', ''DeleteStream'', ''CreateCluster'', ''ListClusters'',
     ''DeleteCluster'', ''GetCluster'']"

definition OpNameHelpString :: string where
  "OpNameHelpString = (let help_string =
       concat (map (\<lambda>i. show_nat i @ '': '' @ kOpNames ! i @ '', '') [0..<length kOpNames])
     in butlast (butlast help_string))"

definition kint64max :: int64 where
  "kint64max = 9223372036854775807"

definition manager_config :: "manager_flags \<Rightarrow> stream_manager_config result" where
  "manager_config f =
     (if mf_target_address f = [] then Inl (InvalidArgumentError ''Target address cannot be empty.'')
      else if \<not> mf_use_google_managed_service f
      then Inr (StreamManagerOnPremConfig \<lparr>oc_target_address = mf_target_address f,
             oc_use_insecure_channel = mf_use_insecure_channel f, oc_ssl_domain_name = mf_ssl_domain_name f,
             oc_ssl_root_cert_path = mf_ssl_root_cert_path f,
             oc_timeout = \<lparr>pd_seconds = kint64max, pd_nanos = 0\<rparr>, oc_wait_for_ready = True\<rparr>)
      else if mf_project f = [] then Inl (InvalidArgumentError ''Project id cannot be empty.'')
      else if mf_location f = [] then Inl (InvalidArgumentError ''Location cannot be empty.'')
      else if mf_cluster_name f = [] then Inl (InvalidArgumentError ''Cluster name cannot be empty.'')
      else Inr (StreamManagerManagedConfig \<lparr>mc_target_address = mf_target_address f, mc_project = mf_project f,
             mc_location = mf_location f, mc_cluster = mf_cluster_name f\<rparr>))"

definition app_CreateStreamManager ::
    "rpc_env \<Rightarrow> onprem_service \<Rightarrow> google_service \<Rightarrow> manager_flags \<Rightarrow> stream_manager result" where
  "app_CreateStreamManager E B G f = (case manager_config f of
      Inl st \<Rightarrow> Inl st | Inr config \<Rightarrow> CreateStreamManager E B G config)"

definition no_stream_manager :: "status \<Rightarrow> log_line" where
  "no_stream_manager st = LogError (''Failed to create StreamManager. '' @ status_ToString st)"

definition app_CreateStream ::
    "rpc_env \<Rightarrow> onprem_service \<Rightarrow> google_service \<Rightarrow> manager_flags \<Rightarrow> log_line list \<times> duration list" where
  "app_CreateStream E B G f = (case app_CreateStreamManager E B G f of
      Inl st \<Rightarrow> ([no_stream_manager st], [])
    | Inr manager \<Rightarrow>
        if mf_stream_name f = [] then ([LogError ''Stream name cannot be empty.''], [])
        else (case sm_CreateStream E B G manager \<lparr>sr_name = mf_stream_name f,
                 sr_retention_period = Some \<lparr>pd_seconds = word_of_int (sint (mf_stream_retention_seconds f)),
                                             pd_nanos = 0\<rparr>\<rparr> of
                (Inl st, waits) \<Rightarrow> ([LogError (''Failed to call CreateStream(). '' @ status_ToString st)], waits)
              | (Inr _, waits) \<Rightarrow> ([LogInfo (''Successfully created stream '' @ mf_stream_name f)], waits)))"

definition app_ListStreams ::
    "rpc_env \<Rightarrow> onprem_service \<Rightarrow> google_service \<Rightarrow> manager_flags \<Rightarrow> log_line list \<times> duration list" where
  "app_ListStreams E B G f = (case app_CreateStreamManager E B G f of
      Inl st \<Rightarrow> ([no_stream_manager st], [])
    | Inr manager \<Rightarrow>
        (case sm_ListStreams E B G manager of
           Inl st \<Rightarrow> ([LogError (''Failed to call ListStreams(). '' @ status_ToString st)], [])
         | Inr streams \<Rightarrow>
             if streams = [] then ([LogInfo (''No streams found.'' @ [CHR 0x0A])], [])
             else (LogInfo (''List ('' @ show_nat (length streams) @ '') streams: '' @ [CHR 0x0A]) #
                   map (\<lambda>stream. LogInfo (sr_name stream @ [CHR 0x0A])) streams, [])))"

definition app_DeleteStream ::
    "rpc_env \<Rightarrow> onprem_service \<Rightarrow> google_service \<Rightarrow> manager_flags \<Rightarrow> log_line list \<times> duration list" where
  "app_DeleteStream E B G f = (case app_CreateStreamManager E B G f of
      Inl st \<Rightarrow> ([no_stream_manager st], [])
    | Inr manager \<Rightarrow>
        if mf_stream_name f = [] then ([LogError ''Stream name cannot be empty.''], [])
        else (case sm_DeleteStream E B G manager (mf_stream_name f) of (st, waits) \<Rightarrow>
                ([if \<not> status_ok st then LogError (''Failed to call DeleteStream(). '' @ status_ToString st)
                  else LogInfo (''Successfully deleted the stream '' @ mf_stream_name f)], waits)))"

definition app_CreateClusterManager :: "google_service \<Rightarrow> manager_flags \<Rightarrow> cluster_manager result" where
  "app_CreateClusterManager G f =
     (if \<not> mf_use_google_managed_service f
      then Inl (UnimplementedError ''ClusterManager is not availabe for on-prem management server.'')
      else if mf_target_address f = [] then Inl (InvalidArgumentError ''Target address cannot be empty.'')
      else if mf_project f = [] then Inl (InvalidArgumentError ''Project id cannot be empty.'')
      else if mf_location f = [] then Inl (InvalidArgumentError ''Location cannot be empty.'')
      else CreateClusterManager G \<lparr>kc_target_address = mf_target_address f, kc_project = mf_project f,
             kc_location = mf_location f\<rparr>)"

definition no_cluster_manager :: "status \<Rightarrow> log_line" where
  "no_cluster_manager st = LogError (''Failed to create ClusterManager. '' @ status_ToString st)"

definition app_CreateCluster :: "google_service \<Rightarrow> manager_flags \<Rightarrow> log_line list \<times> duration list" where
  "app_CreateCluster G f = (case app_CreateClusterManager G f of
      Inl st \<Rightarrow> ([no_cluster_manager st], [])
    | Inr manager \<Rightarrow>
        if mf_cluster_name f = [] then ([LogError ''Cluster name cannot be empty.''], [])
        else (case km_CreateCluster G manager
                 \<lparr>cl_name = mf_cluster_name f, cl_service_endpoint = [], cl_certificate = []\<rparr> of
                (Inl st, waits) \<Rightarrow> ([LogError (''Failed to call CreateCluster(). '' @ status_ToString st)], waits)
              | (Inr _, waits) \<Rightarrow> ([LogInfo (''Successfully created cluster '' @ mf_cluster_name f)], waits)))"

text \<open>How a cluster is logged.\<close>

definition cluster_line :: "cluster_msg \<Rightarrow> log_line" where
  "cluster_line c = LogInfo (cl_name c @ [CHR 0x09] @ cl_service_endpoint c @ [CHR 0x0A] @ cl_certificate c @ [CHR 0x0A])"

definition app_ListClusters :: "google_service \<Rightarrow> manager_flags \<Rightarrow> log_line list \<times> duration list" where
  "app_ListClusters G f = (case app_CreateClusterManager G f of
      Inl st \<Rightarrow> ([no_cluster_manager st], [])
    | Inr manager \<Rightarrow>
        (case km_ListClusters G manager of
           Inl st \<Rightarrow> ([LogError (''Failed to call ListClusters(). '' @ status_ToString st)], [])
         | Inr clusters \<Rightarrow>
             if clusters = [] then ([LogInfo (''No clusters found.'' @ [CHR 0x0A])], [])
             else (LogInfo (''List ('' @ show_nat (length clusters) @ '') clusters: '' @ [CHR 0x0A]) #
                   map cluster_line clusters, [])))"

definition app_DeleteCluster :: "google_service \<Rightarrow> manager_flags \<Rightarrow> log_line list \<times> duration list" where
  "app_DeleteCluster G f = (case app_CreateClusterManager G f of
      Inl st \<Rightarrow> ([no_cluster_manager st], [])
    | Inr manager \<Rightarrow>
        if mf_cluster_name f = [] then ([LogError ''Cluster name cannot be empty.''], [])
        else (case km_DeleteCluster G manager (mf_cluster_name f) of (st, waits) \<Rightarrow>
                ([if \<not> status_ok st then LogError (''Failed to call DeleteCluster(). '' @ status_ToString st)
                  else LogInfo (''Successfully deleted the cluster '' @ mf_cluster_name f)], waits)))"

definition app_GetCluster :: "google_service \<Rightarrow> manager_flags \<Rightarrow> log_line list \<times> duration list" where
  "app_GetCluster G f = (case app_CreateClusterManager G f of
      Inl st \<Rightarrow> ([no_cluster_manager st], [])
    | Inr manager \<Rightarrow>
        if mf_cluster_name f = [] then ([LogError ''Cluster name cannot be empty.''], [])
        else (case km_GetCluster G manager (mf_cluster_name f) of
                Inl st \<Rightarrow> ([LogError (''Failed to call GetCluster(). '' @ status_ToString st)], [])
              | Inr cluster \<Rightarrow> ([cluster_line cluster], [])))"

text \<open>The operations by their number.\<close>

definition registry ::
    "rpc_env \<Rightarrow> onprem_service \<Rightarrow> google_service \<Rightarrow> (int \<times> (manager_flags \<Rightarrow> log_line list \<times> duration list)) list" where
  "registry E B G = [(0, app_CreateStream E B G), (1, app_ListStreams E B G), (2, app_DeleteStream E B G),
     (3, app_CreateCluster G), (4, app_ListClusters G), (5, app_DeleteCluster G), (6, app_GetCluster G)]"

definition manager_main ::
    "rpc_env \<Rightarrow> onprem_service \<Rightarrow> google_service \<Rightarrow> manager_flags \<Rightarrow> log_line list \<times> duration list" where
  "manager_main E B G f = (case map_of (registry E B G) (sint (mf_op_id f)) of
      None \<Rightarrow> ([LogError (''Invalid op id ('' @ show_int (sint (mf_op_id f)) @ ''). Choices are '' @ OpNameHelpString)], [])
    | Some operation \<Rightarrow> operation f)"

section \<open>The chunker\<close>

record chunker_flags =
  ck_max_frames_per_file :: int32
  ck_output_dir :: string
  ck_file_prefix :: string
  ck_upload_to_gcs :: bool
  ck_keep_local :: bool
  ck_gcs_bucket_name :: string
  ck_gcs_object_dir :: string
  ck_use_uri_source :: bool
  ck_source_uri :: string
  ck_use_gstreamer_input_source :: bool
  ck_gstreamer_input_pipeline :: string
  ck_receiver :: program_flags
  ck_working_buffer_size :: int32
  ck_finalization_deadline_in_sec :: int32

text \<open>The flags of the receiver are kept apart; its timeout is that of the exporter.\<close>

definition chunker_options :: "chunker_flags \<Rightarrow> exporter_options result" where
  "chunker_options f =
     (let opts = \<lparr>ex_max_frames_per_file = ck_max_frames_per_file f, ex_output_dir = ck_output_dir f,
            ex_file_prefix = ck_file_prefix f, ex_upload_to_gcs = ck_upload_to_gcs f, ex_keep_local = ck_keep_local f,
            ex_gcs_bucket_name = ck_gcs_bucket_name f, ex_gcs_object_dir = ck_gcs_object_dir f,
            ex_use_gstreamer_input_source = ck_use_gstreamer_input_source f,
            ex_gstreamer_input_pipeline = ck_gstreamer_input_pipeline f,
            ex_receiver_options = default_wrapper_options
              \<lparr>wo_connection_options := connection_of_flags (ck_receiver f), wo_stream_name := fl_stream_name (ck_receiver f)\<rparr>,
            ex_receiver_timeout = Seconds (sint (fl_timeout_in_sec (ck_receiver f))),
            ex_working_buffer_size = ck_working_buffer_size f,
            ex_finalization_deadline = Seconds (sint (ck_finalization_deadline_in_sec f))\<rparr>
      in if ck_use_uri_source f
         then (case DecideUriGstreamerPipeline (ck_source_uri f) of
                 Inl st \<Rightarrow> Inl st
               | Inr p \<Rightarrow> Inr (opts\<lparr>ex_use_gstreamer_input_source := True, ex_gstreamer_input_pipeline := p\<rparr>))
         else Inr opts)"

text \<open>\<open>run\<close> is \<open>Run\<close> of the exporter.\<close>

definition RunChunker ::
    "(video_exporter \<Rightarrow> status \<times> video_exporter) \<Rightarrow> chunker_flags \<Rightarrow> log_line list" where
  "RunChunker run f = (case chunker_options f of
      Inl st \<Rightarrow> [LogError (status_ToString st)]
    | Inr opts \<Rightarrow>
        (case VideoExporter_Create opts of
           Inl st \<Rightarrow> [LogError (''Failed to create the video exporter: '' @ status_ToString st)]
         | Inr x \<Rightarrow> (let status = fst (run x) in
             (if \<not> status_ok status
              then [LogError (''The video exporter did not complete normally: '' @ status_ToString status)] else []) @
             [LogInfo ''Done.''])))"

section \<open>The ingesting programs\<close>

definition default_ingester_options :: ingester_options where
  "default_ingester_options = \<lparr>io_connection_options = default_connection_options, io_target_stream_name = [],
     io_send_codec = SC_Native, io_resize_height = 0, io_resize_width = 0, io_trace_probability = 0\<rparr>"

definition ingester_flag_options :: "program_flags \<Rightarrow> rat \<Rightarrow> ingester_options" where
  "ingester_flag_options f trace_probability = default_ingester_options
     \<lparr>io_connection_options := connection_of_flags f, io_target_stream_name := fl_stream_name f,
      io_trace_probability := trace_probability\<rparr>"

definition ingester_main ::
    "(rat \<Rightarrow> string) \<Rightarrow> (gst_runtime \<times> bool \<times> file_system) list \<Rightarrow> program_flags \<Rightarrow> rat \<Rightarrow> bool \<Rightarrow> string \<Rightarrow>
     nat outcome option" where
  "ingester_main dts turns f trace_probability loop source_uri =
     RunIngester dts loop turns (ingester_flag_options f trace_probability) source_uri"

definition RunSimpleIngester ::
    "(rat \<Rightarrow> string) \<Rightarrow> gst_runtime \<Rightarrow> bool \<Rightarrow> file_system \<Rightarrow> program_flags \<Rightarrow> string \<Rightarrow> status outcome" where
  "RunSimpleIngester dts X got fs f source_uri =
     (let ingester_options = default_ingester_options
            \<lparr>io_connection_options := example_connection f, io_target_stream_name := fl_stream_name f\<rparr>
      in outcome_bind (Ingest dts X got fs ingester_options source_uri) (\<lambda>(status, _).
           Returns (if \<not> status_ok status then UnknownError ''The Ingestion did not exit normally'' else OkStatus)))"

section \<open>Lemmas\<close>

lemma map_of_registry:
  "map_of (registry E B G) i =
     (if i = 0 then Some (app_CreateStream E B G) else if i = 1 then Some (app_ListStreams E B G)
      else if i = 2 then Some (app_DeleteStream E B G) else if i = 3 then Some (app_CreateCluster G)
      else if i = 4 then Some (app_ListClusters G) else if i = 5 then Some (app_DeleteCluster G)
      else if i = 6 then Some (app_GetCluster G) else None)"
  by (simp add: registry_def)

lemmas app_operations = app_CreateStream_def app_ListStreams_def app_DeleteStream_def app_CreateCluster_def
  app_ListClusters_def app_DeleteCluster_def app_GetCluster_def

text \<open>The waits of every operation are a beginning of those of the polling loop.\<close>

definition polling_waits :: "duration list \<Rightarrow> bool" where
  "polling_waits waits \<longleftrightarrow> (\<exists>k. waits = take k operation_waits)"

lemma polling_waits_simps: "polling_waits []" "polling_waits (snd (WaitOperation G name service parent))"
  using WaitOperation_waits take_0 unfolding polling_waits_def by metis+

lemma WaitOperation_polls: "WaitOperation G name service parent = (r, waits) \<Longrightarrow> polling_waits waits"
  using polling_waits_simps(2) by (metis snd_conv)

lemma sm_polls:
  "polling_waits (snd (sm_CreateStream E B G m s))" "polling_waits (snd (sm_DeleteStream E B G m n))"
  "polling_waits (snd (km_CreateCluster G km c))" "polling_waits (snd (km_DeleteCluster G km n))"
proof -
  show "polling_waits (snd (sm_CreateStream E B G m s))"
    by (cases m) (auto simp: managed_CreateStream_def polling_waits_simps(1) WaitOperation_polls
        split: prod.splits sum.splits option.splits)
  show "polling_waits (snd (sm_DeleteStream E B G m n))"
    by (cases m) (auto simp: managed_DeleteStream_def polling_waits_simps(1) WaitOperation_polls
        split: prod.splits sum.splits option.splits)
  show "polling_waits (snd (km_CreateCluster G km c))"
    by (auto simp: km_CreateCluster_def Let_def polling_waits_simps(1) WaitOperation_polls
        split: prod.splits sum.splits option.splits)
  show "polling_waits (snd (km_DeleteCluster G km n))"
    by (auto simp: km_DeleteCluster_def polling_waits_simps(1) WaitOperation_polls
        split: prod.splits sum.splits option.splits)
qed

lemma operations_poll:
  "polling_waits (snd (app_CreateStream E B G f))" "polling_waits (snd (app_ListStreams E B G f))"
  "polling_waits (snd (app_DeleteStream E B G f))" "polling_waits (snd (app_CreateCluster G f))"
  "polling_waits (snd (app_ListClusters G f))" "polling_waits (snd (app_DeleteCluster G f))"
  "polling_waits (snd (app_GetCluster G f))"
  using sm_polls by (auto simp: app_operations polling_waits_simps(1) split: sum.splits prod.splits)
    (metis snd_conv)+

section \<open>The report of the management program\<close>

text \<open>When the flags describe a stream manager that can be made.\<close>

definition manager_ready ::
    "rpc_env \<Rightarrow> onprem_service \<Rightarrow> google_service \<Rightarrow> manager_flags \<Rightarrow> stream_manager \<Rightarrow> bool" where
  "manager_ready E B G f m \<longleftrightarrow> mf_target_address f \<noteq> [] \<and>
     (if mf_use_google_managed_service f
      then mf_project f \<noteq> [] \<and> mf_location f \<noteq> [] \<and> mf_cluster_name f \<noteq> [] \<and>
        (\<exists>mm. m = ManagedManager mm \<and> gs_channel G (mf_target_address f) \<and> gs_stub G (mf_target_address f) \<and>
           mm_parent mm = ''projects/'' @ mf_project f @ ''/locations/'' @ mf_location f @ ''/clusters/'' @ mf_cluster_name f \<and>
           mm_target_address mm = mf_target_address f)
      else (\<exists>om ch. m = OnPremManager om \<and> CreateGrpcChannel E (om_options om) = Some ch \<and> os_stub B ch \<and>
        om = OnPremStreamManagerImpl \<lparr>oc_target_address = mf_target_address f,
          oc_use_insecure_channel = mf_use_insecure_channel f, oc_ssl_domain_name = mf_ssl_domain_name f,
          oc_ssl_root_cert_path = mf_ssl_root_cert_path f,
          oc_timeout = \<lparr>pd_seconds = kint64max, pd_nanos = 0\<rparr>, oc_wait_for_ready = True\<rparr>))"

lemma manager_ready_iff: "app_CreateStreamManager E B G f = Inr m \<longleftrightarrow> manager_ready E B G f m"
proof (cases "mf_use_google_managed_service f")
  case True
  then show ?thesis
    by (cases m)
       (auto simp: manager_ready_def app_CreateStreamManager_def manager_config_def CreateStreamManager_def
          managed_CreateStreamManager_def ManagedStreamManagerImpl_def google_Initialize_def Let_def
          UnknownError_def mk_Status_def status_ok_def OkStatus_def split: if_splits intro!: managed_manager.equality)
next
  case False
  then show ?thesis
    by (cases m)
       (auto simp: manager_ready_def app_CreateStreamManager_def manager_config_def CreateStreamManager_def
          onprem_CreateStreamManager_def onprem_Initialize_def Let_def UnknownError_def mk_Status_def status_ok_def OkStatus_def
          split: if_splits option.splits)
qed

definition cluster_manager_ready :: "google_service \<Rightarrow> manager_flags \<Rightarrow> cluster_manager \<Rightarrow> bool" where
  "cluster_manager_ready G f km \<longleftrightarrow> mf_use_google_managed_service f \<and> mf_target_address f \<noteq> [] \<and> mf_project f \<noteq> [] \<and>
     mf_location f \<noteq> [] \<and> gs_channel G (mf_target_address f) \<and> gs_stub G (mf_target_address f) \<and>
     km = \<lparr>km_target_address = mf_target_address f,
           km_parent = ''projects/'' @ mf_project f @ ''/locations/'' @ mf_location f\<rparr>"

lemma cluster_manager_ready_iff: "app_CreateClusterManager G f = Inr km \<longleftrightarrow> cluster_manager_ready G f km"
  by (auto simp: cluster_manager_ready_def app_CreateClusterManager_def CreateClusterManager_def ClusterManagerImpl_def
      google_Initialize_def Let_def UnknownError_def mk_Status_def status_ok_def OkStatus_def split: if_splits)

definition requested_stream :: "manager_flags \<Rightarrow> stream_msg" where
  "requested_stream f = \<lparr>sr_name = mf_stream_name f,
     sr_retention_period = Some \<lparr>pd_seconds = word_of_int (sint (mf_stream_retention_seconds f)), pd_nanos = 0\<rparr>\<rparr>"

definition cluster_text :: "cluster_msg \<Rightarrow> string" where
  "cluster_text c = cl_name c @ [CHR 0x09] @ cl_service_endpoint c @ [CHR 0x0A] @ cl_certificate c @ [CHR 0x0A]"

text \<open>
  When the operation of a number succeeds, and what it has to tell: the manager can be made, the name it needs is not
  empty, and the call of the manager succeeds. A list is told with its length, one line for each entry, or as empty.
\<close>

inductive operation_succeeds ::
    "rpc_env \<Rightarrow> onprem_service \<Rightarrow> google_service \<Rightarrow> manager_flags \<Rightarrow> int \<Rightarrow> string list \<Rightarrow> bool"
  for E B G f where
  stream_created: "manager_ready E B G f m \<Longrightarrow> mf_stream_name f \<noteq> [] \<Longrightarrow>
    fst (sm_CreateStream E B G m (requested_stream f)) = Inr s \<Longrightarrow>
    operation_succeeds E B G f 0 [''Successfully created stream '' @ mf_stream_name f]"
| streams_listed: "manager_ready E B G f m \<Longrightarrow> sm_ListStreams E B G m = Inr streams \<Longrightarrow>
    operation_succeeds E B G f 1
      (if streams = [] then [''No streams found.'' @ [CHR 0x0A]]
       else (''List ('' @ show_nat (length streams) @ '') streams: '' @ [CHR 0x0A]) #
            map (\<lambda>s. sr_name s @ [CHR 0x0A]) streams)"
| stream_deleted: "manager_ready E B G f m \<Longrightarrow> mf_stream_name f \<noteq> [] \<Longrightarrow>
    status_ok (fst (sm_DeleteStream E B G m (mf_stream_name f))) \<Longrightarrow>
    operation_succeeds E B G f 2 [''Successfully deleted the stream '' @ mf_stream_name f]"
| cluster_created: "cluster_manager_ready G f km \<Longrightarrow> mf_cluster_name f \<noteq> [] \<Longrightarrow>
    fst (km_CreateCluster G km
      \<lparr>cl_name = mf_cluster_name f, cl_service_endpoint = [], cl_certificate = []\<rparr>) = Inr c \<Longrightarrow>
    operation_succeeds E B G f 3 [''Successfully created cluster '' @ mf_cluster_name f]"
| clusters_listed: "cluster_manager_ready G f km \<Longrightarrow> km_ListClusters G km = Inr clusters \<Longrightarrow>
    operation_succeeds E B G f 4
      (if clusters = [] then [''No clusters found.'' @ [CHR 0x0A]]
       else (''List ('' @ show_nat (length clusters) @ '') clusters: '' @ [CHR 0x0A]) # map cluster_text clusters)"
| cluster_deleted: "cluster_manager_ready G f km \<Longrightarrow> mf_cluster_name f \<noteq> [] \<Longrightarrow>
    status_ok (fst (km_DeleteCluster G km (mf_cluster_name f))) \<Longrightarrow>
    operation_succeeds E B G f 5 [''Successfully deleted the cluster '' @ mf_cluster_name f]"
| cluster_got: "cluster_manager_ready G f km \<Longrightarrow> mf_cluster_name f \<noteq> [] \<Longrightarrow>
    km_GetCluster G km (mf_cluster_name f) = Inr c \<Longrightarrow>
    operation_succeeds E B G f 6 [cluster_text c]"

inductive_simps operation_succeeds_simps:
  "operation_succeeds E B G f 0 infos" "operation_succeeds E B G f 1 infos" "operation_succeeds E B G f 2 infos"
  "operation_succeeds E B G f 3 infos" "operation_succeeds E B G f 4 infos" "operation_succeeds E B G f 5 infos"
  "operation_succeeds E B G f 6 infos"

text \<open>What an operation has to log: what a success tells, or one error and nothing else.\<close>

definition outcome_told :: "(string list \<Rightarrow> bool) \<Rightarrow> log_line list \<Rightarrow> bool" where
  "outcome_told succeeds lines \<longleftrightarrow> (\<forall>infos. lines = map LogInfo infos \<longleftrightarrow> succeeds infos) \<and>
     ((\<exists>e. lines = [LogError e]) \<longleftrightarrow> (\<forall>infos. \<not> succeeds infos))"

lemma outcome_told_error: "(\<And>infos. \<not> succeeds infos) \<Longrightarrow> outcome_told succeeds [LogError e]"
  by (auto simp: outcome_told_def Cons_eq_map_conv)

lemma outcome_told_infos: "(\<And>infos. succeeds infos \<longleftrightarrow> infos = told) \<Longrightarrow> outcome_told succeeds (map LogInfo told)"
  by (auto simp: outcome_told_def map_eq_Cons_conv inj_map_eq_map inj_def)

lemmas outcome_told_intros = outcome_told_error outcome_told_infos [where told = "[t]" for t, simplified list.map]

lemma cluster_line_text: "cluster_line = (\<lambda>c. LogInfo (cluster_text c))"
  by (simp add: fun_eq_iff cluster_line_def cluster_text_def)

lemma stream_operations_tell:
  "outcome_told (operation_succeeds E B G f 0) (fst (app_CreateStream E B G f))" (is ?create)
  "outcome_told (operation_succeeds E B G f 1) (fst (app_ListStreams E B G f))" (is ?list)
  "outcome_told (operation_succeeds E B G f 2) (fst (app_DeleteStream E B G f))" (is ?delete)
proof -
  note [simp] = operation_succeeds_simps manager_ready_iff [symmetric]
  show ?create
    by (auto simp: app_CreateStream_def no_stream_manager_def requested_stream_def split: sum.splits prod.splits
        intro!: outcome_told_intros)
  show ?delete
    by (auto simp: app_DeleteStream_def no_stream_manager_def split: sum.splits prod.splits intro!: outcome_told_intros)
  show ?list
  proof (cases "app_CreateStreamManager E B G f")
    case (Inl st)
    then show ?thesis
      by (auto simp: app_ListStreams_def no_stream_manager_def intro!: outcome_told_intros)
  next
    case (Inr m)
    show ?thesis
    proof (cases "sm_ListStreams E B G m")
      case (Inl st)
      with Inr show ?thesis by (auto simp: app_ListStreams_def intro!: outcome_told_intros)
    next
      case (Inr streams)
      then show ?thesis
        using \<open>app_CreateStreamManager E B G f = Inr m\<close> outcome_told_infos [where told = "if streams = []
            then [''No streams found.'' @ [CHR 0x0A]]
            else (''List ('' @ show_nat (length streams) @ '') streams: '' @ [CHR 0x0A]) #
              map (\<lambda>s. sr_name s @ [CHR 0x0A]) streams" and succeeds = "operation_succeeds E B G f 1"]
        by (auto simp: app_ListStreams_def comp_def split: if_splits)
    qed
  qed
qed

lemma cluster_operations_tell:
  "outcome_told (operation_succeeds E B G f 3) (fst (app_CreateCluster G f))" (is ?create)
  "outcome_told (operation_succeeds E B G f 4) (fst (app_ListClusters G f))" (is ?list)
  "outcome_told (operation_succeeds E B G f 5) (fst (app_DeleteCluster G f))" (is ?delete)
  "outcome_told (operation_succeeds E B G f 6) (fst (app_GetCluster G f))" (is ?get)
proof -
  note [simp] = operation_succeeds_simps cluster_manager_ready_iff [symmetric] cluster_line_text
  show ?create
    by (auto simp: app_CreateCluster_def no_cluster_manager_def split: sum.splits prod.splits intro!: outcome_told_intros)
  show ?delete
    by (auto simp: app_DeleteCluster_def no_cluster_manager_def split: sum.splits prod.splits intro!: outcome_told_intros)
  show ?get
    by (auto simp: app_GetCluster_def no_cluster_manager_def split: sum.splits prod.splits intro!: outcome_told_intros)
  show ?list
  proof (cases "app_CreateClusterManager G f")
    case (Inl st)
    then show ?thesis
      by (auto simp: app_ListClusters_def no_cluster_manager_def intro!: outcome_told_intros)
  next
    case (Inr km)
    show ?thesis
    proof (cases "km_ListClusters G km")
      case (Inl st)
      with Inr show ?thesis by (auto simp: app_ListClusters_def intro!: outcome_told_intros)
    next
      case (Inr clusters)
      then show ?thesis
        using \<open>app_CreateClusterManager G f = Inr km\<close> outcome_told_infos [where told = "if clusters = []
            then [''No clusters found.'' @ [CHR 0x0A]]
            else (''List ('' @ show_nat (length clusters) @ '') clusters: '' @ [CHR 0x0A]) # map cluster_text clusters"
            and succeeds = "operation_succeeds E B G f 4"]
        by (auto simp: app_ListClusters_def comp_def split: if_splits)
    qed
  qed
qed

text \<open>
  C27. The management program tells the truth. An operation number out of range is an error and nothing is done. Every
  operation logs exactly what it has to tell if it succeeded, that is, the manager could be made from the flags, the
  name it needs is not empty, and the call of the manager for this name succeeded, and logs exactly one error and
  nothing else if it did not. What it tells is the stream or cluster created, deleted or found, or every entry of a
  list. It sleeps no longer than the polling of one operation.
\<close>

theorem manager_reports_outcome:
  "let log_lines = fst (manager_main E B G f); i = sint (mf_op_id f) in
    (i \<notin> {0..6} \<longrightarrow> manager_main E B G f = ([LogError (''Invalid op id ('' @ show_int i @ ''). Choices are '' @
       ''0: CreateStream, 1: ListStreams, 2: DeleteStream, 3: CreateCluster, 4: ListClusters, 5: DeleteCluster, 6: GetCluster'')], [])) \<and>
    (i \<in> {0..6} \<longrightarrow>
       (\<forall>infos. log_lines = map LogInfo infos \<longleftrightarrow> operation_succeeds E B G f i infos) \<and>
       ((\<exists>e. log_lines = [LogError e]) \<longleftrightarrow> (\<forall>infos. \<not> operation_succeeds E B G f i infos))) \<and>
    (\<exists>k. snd (manager_main E B G f) = take k operation_waits)"
proof -
  define i where "i = sint (mf_op_id f)"
  have names: "OpNameHelpString =
      ''0: CreateStream, 1: ListStreams, 2: DeleteStream, 3: CreateCluster, 4: ListClusters, 5: DeleteCluster, 6: GetCluster''"
    by (simp add: OpNameHelpString_def kOpNames_def show_nat.simps digit_char_def upt_rec)
  have unknown: "manager_main E B G f = ([LogError (''Invalid op id ('' @ show_int i @ ''). Choices are '' @ OpNameHelpString)], [])"
    if "i \<notin> {0..6}"
    using that by (auto simp: manager_main_def map_of_registry i_def)
  have known: "i \<in> {0..6} \<longleftrightarrow> i = 0 \<or> i = 1 \<or> i = 2 \<or> i = 3 \<or> i = 4 \<or> i = 5 \<or> i = 6" by (simp, presburger)
  have told: "outcome_told (operation_succeeds E B G f i) (fst (manager_main E B G f))" if "i \<in> {0..6}"
    using that stream_operations_tell [of E B G f] cluster_operations_tell [of E B G f] unfolding known
    by (elim disjE) (simp_all add: manager_main_def map_of_registry i_def)
  have "polling_waits (snd (manager_main E B G f))"
    using known unknown operations_poll polling_waits_simps(1)
    by (cases "i \<in> {0..6}") (auto simp: manager_main_def map_of_registry i_def)
  then show ?thesis
    using unknown told unfolding names outcome_told_def polling_waits_def Let_def i_def [symmetric] by simp
qed

definition example_manager_flags :: manager_flags where
  "example_manager_flags = \<lparr>mf_target_address = ''localhost:50051'', mf_stream_name = ''s'', mf_use_insecure_channel = True,
     mf_ssl_root_cert_path = [], mf_ssl_domain_name = ''aistreams.googleapis.com'', mf_op_id = 0,
     mf_use_google_managed_service = False, mf_project = [], mf_location = ''us-central1'', mf_cluster_name = [],
     mf_stream_retention_seconds = 86400\<rparr>"

definition example_onprem :: onprem_service where
  "example_onprem = \<lparr>os_stub = (\<lambda>_. True), os_create_stream = (\<lambda>_ _. \<lparr>g_code = GRPC_OK, g_message = []\<rparr>),
     os_delete_stream = (\<lambda>_ _. \<lparr>g_code = GRPC_NOT_FOUND, g_message = []\<rparr>),
     os_list_stream = (\<lambda>_. (\<lparr>g_code = GRPC_OK, g_message = []\<rparr>, []))\<rparr>"

lemma example_manager_ready:
  assumes "f = example_manager_flags\<lparr>mf_op_id := i\<rparr>"
  shows "\<exists>om. manager_ready example_env example_onprem slow_service f (OnPremManager om) \<and>
    onprem_CreateStream example_env example_onprem om s = Inr s \<and>
    \<not> status_ok (onprem_DeleteStream example_env example_onprem om n)"
  using assms
  by (auto simp: manager_ready_def example_manager_flags_def CreateGrpcChannel_def OnPremStreamManagerImpl_def
      CreateInsecureGrpcChannel_def CreateCustomChannel_def example_env_def example_onprem_def onprem_CreateStream_def
      onprem_DeleteStream_def FillGrpcClientContext_def grpc_ok_def Let_def UnknownError_def mk_Status_def status_ok_def
      OkStatus_def)

theorem manager_reports_outcome_witness:
  "fst (manager_main example_env example_onprem slow_service example_manager_flags) =
     [LogInfo ''Successfully created stream s''] \<and>
   (\<exists>e. fst (manager_main example_env example_onprem slow_service (example_manager_flags\<lparr>mf_op_id := 2\<rparr>)) = [LogError e])"
proof -
  have same: "example_manager_flags = example_manager_flags\<lparr>mf_op_id := 0\<rparr>" by (simp add: example_manager_flags_def)
  have ids: "mf_op_id example_manager_flags = 0" "mf_stream_name example_manager_flags = ''s''"
    by (simp_all add: example_manager_flags_def)
  obtain om where ready: "manager_ready example_env example_onprem slow_service example_manager_flags (OnPremManager om)"
    and "onprem_CreateStream example_env example_onprem om (requested_stream example_manager_flags) =
      Inr (requested_stream example_manager_flags)"
    using example_manager_ready [OF same] by blast
  then have "fst (sm_CreateStream example_env example_onprem slow_service (OnPremManager om)
      (requested_stream example_manager_flags)) = Inr (requested_stream example_manager_flags)"
    by simp
  from stream_created [OF ready _ this]
  have "operation_succeeds example_env example_onprem slow_service example_manager_flags 0
      [''Successfully created stream '' @ mf_stream_name example_manager_flags]"
    by (simp add: ids)
  moreover have "\<forall>infos. fst (manager_main example_env example_onprem slow_service example_manager_flags) =
      map LogInfo infos \<longleftrightarrow> operation_succeeds example_env example_onprem slow_service example_manager_flags 0 infos"
    using manager_reports_outcome [of example_env example_onprem slow_service example_manager_flags]
    by (simp add: Let_def ids)
  ultimately have "fst (manager_main example_env example_onprem slow_service example_manager_flags) =
      [LogInfo ''Successfully created stream s'']"
    by (auto dest: spec [where x = "[''Successfully created stream s'']"] simp: ids)
  moreover have "\<not> operation_succeeds example_env example_onprem slow_service (example_manager_flags\<lparr>mf_op_id := 2\<rparr>) 2 infos"
    for infos
    using example_manager_ready [OF refl, of 2 undefined "mf_stream_name example_manager_flags"]
    by (auto simp: operation_succeeds_simps manager_ready_iff [symmetric])
  then have "\<exists>e. fst (manager_main example_env example_onprem slow_service (example_manager_flags\<lparr>mf_op_id := 2\<rparr>)) = [LogError e]"
    using manager_reports_outcome [of example_env example_onprem slow_service "example_manager_flags\<lparr>mf_op_id := 2\<rparr>"]
    by (simp add: Let_def)
  ultimately show ?thesis by blast
qed

section \<open>Other observations\<close>

text \<open>The retention period is not sent to the managed service, which is the default one.\<close>

lemma managed_retention_ignored:
  "managed_CreateStream G mm \<lparr>sr_name = n, sr_retention_period = r\<rparr> =
     managed_CreateStream G mm \<lparr>sr_name = n, sr_retention_period = r'\<rparr>"
  by (simp add: managed_CreateStream_def)

text \<open>The source of the chunker is the URI unless that is switched off, whatever the other flags say.\<close>

lemma uri_source_wins:
  assumes "ck_use_uri_source f" and "chunker_options f = Inr opts"
  shows "ex_use_gstreamer_input_source opts \<and> ck_source_uri f \<noteq> [] \<and>
    DecideUriGstreamerPipeline (ck_source_uri f) = Inr (ex_gstreamer_input_pipeline opts)"
  using assms by (auto simp: chunker_options_def Let_def DecideUriGstreamerPipeline_def split: if_splits)

text \<open>The program says \<open>Done.\<close> in the end whether the exporter completed or not.\<close>

lemma chunker_done:
  assumes "chunker_options f = Inr opts" and "0 < sint (ck_working_buffer_size f)"
  shows "last (RunChunker run f) = LogInfo ''Done.''"
proof -
  have "ex_working_buffer_size opts = ck_working_buffer_size f"
    using assms(1) by (auto simp: chunker_options_def Let_def split: if_splits sum.splits)
  with assms show ?thesis by (simp add: RunChunker_def VideoExporter_Create_def Let_def)
qed

end
