(* ===== verification/Exporter_Threads.thy ===== *)
theory Exporter_Threads
  imports Video_Exporter
begin

text \<open>
  \<open>GstreamerVideoExporter::Run\<close> of \<open>gstreamer/gstreamer_video_exporter.cc\<close> as it executes: the main
  thread, the source, the saver and the uploader, each a thread of its own, over the two channels.

  A turn of a thread is one access to what it shares with the others: the queue of a channel or the
  completion signal of a worker, each behind its mutex. Every channel view is made from the one signal
  of each worker, which the channels share by pointer. A \<open>TryPop\<close> with a timeout takes the oldest value
  or, when the queue is empty, may run into its timeout. Theory \<open>Video_Exporter\<close> has the same workers
  as functions of the values they take; the threads are proved to compute these functions.
\<close>

section \<open>One value of a worker\<close>

text \<open>
  The body of the loop over the images, for one value: whether the file goes on, otherwise whether
  another one is started, the status and the open file.
\<close>

definition write_frame ::
    "gst_lib \<Rightarrow> gst_runtime \<Rightarrow> string \<Rightarrow> raw_image result \<Rightarrow> open_file \<Rightarrow>
     (bool \<times> bool \<times> status \<times> open_file) outcome" where
  "write_frame G X path x f = (case x of
      Inl st \<Rightarrow>
        if status_code_of st = kNotFound then Returns (False, False, OkStatus, f)
        else Fatal ''ValueOrDie of an error''
    | Inr img \<Rightarrow> outcome_bind (ToGstreamerBuffer_image G img) (\<lambda>buffer. case buffer of
          Inl st \<Rightarrow> Returns (False, True, UnknownError
            (''Could not convert a raw image into a gstreamer buffer: '' @ error_message st), f)
        | Inr b \<Rightarrow> outcome_bind
            (case of_writer f of
               Some w \<Rightarrow> Returns (Inr w)
             | None \<Rightarrow> VideoWriter_Create X \<lparr>vw_file_path = path, vw_caps_string = gb_caps b\<rparr>)
            (\<lambda>writer. let p = (if of_writer f = None then path else of_path f) in case writer of
               Inl st \<Rightarrow> Returns (False, True,
                   InternalError (''Failed to create a new video writer: '' @ error_message st),
                   \<lparr>of_writer = None, of_path = p\<rparr>)
             | Inr w \<Rightarrow> (case VideoWriter_Put X b w of (st, w') \<Rightarrow>
                 if \<not> status_ok st
                 then Returns (False, True, UnknownError (''Failed to write a raw image: '' @ error_message st),
                        \<lparr>of_writer = Some w', of_path = p\<rparr>)
                 else Returns (True, True, OkStatus, \<lparr>of_writer = Some w', of_path = p\<rparr>)))))"

section \<open>The threads\<close>

datatype main_pc =
    MStartUploader
  | MStartSaver
  | MStartSource
  | MJoinSource
  | MJoinSaver
  | MJoinUploader "bool \<times> completion_signal"
  | MDone status

text \<open>The values that the source has still to offer.\<close>

datatype source_pc =
    SoIdle
  | SoWork "raw_image result list"
  | SoEnd

datatype saver_pc =
    SvIdle
  | SvStart
  | SvPop
  | SvTimedOut
  | SvFlush bool status
  | SvCheck bool
  | SvForward bool
  | SvEos status
  | SvReturn status
  | SvEnd status

datatype uploader_pc =
    UpIdle
  | UpStart
  | UpConnect
  | UpPop
  | UpTimedOut
  | UpReturn status
  | UpEnd status

text \<open>
  The locals of the saver: the number of frames in the file, the number of the file, the open file and
  what has happened to files. \<open>sv_popped\<close> are the values it popped, \<open>sv_taken\<close> also the end that it
  made up, \<open>sv_env\<close> what it saw of the uploader and of the room in the channel at each file.
\<close>

record saver_thread =
  sv_pc :: saver_pc
  sv_frame :: int
  sv_file :: nat
  sv_open :: open_file
  sv_log :: saver_log
  sv_popped :: "raw_image result list"
  sv_taken :: "raw_image result list"
  sv_env :: saver_env

record uploader_thread =
  up_pc :: uploader_pc
  up_client :: nat
  up_try :: nat
  up_events :: "gcs_event list"
  up_popped :: "string result list"
  up_taken :: "string result list"

text \<open>
  \<open>et_offered\<close> and \<open>et_accepted\<close> are the images that the source offered and those that found room.
  \<open>et_dead\<close> tells that the process has ended.
\<close>

record exporter_threads =
  et_main :: main_pc
  et_source_pc :: source_pc
  et_saver_thread :: saver_thread
  et_uploader_thread :: uploader_thread
  et_source :: completion_signal
  et_saver :: completion_signal
  et_uploader :: completion_signal
  et_images :: image_queue
  et_paths :: "string result pc_queue"
  et_offered :: "raw_image result list"
  et_accepted :: "raw_image result list"
  et_dead :: "string option"

text \<open>
  What is given: the libraries, the exporter with its options, the random text and the clock, GCS, the
  values that the source offers and the status that it returns.
\<close>

record exporter_params =
  ep_gst :: gst_lib
  ep_runtime :: gst_runtime
  ep_exporter :: video_exporter
  ep_env :: saver_env
  ep_gcs :: gcs_env
  ep_values :: "raw_image result list"
  ep_source_status :: status

definition saver_opts :: "exporter_params \<Rightarrow> saver_options" where
  "saver_opts P = exporter_saver_options (xp_options (ep_exporter P))"

definition uploader_opts :: "exporter_params \<Rightarrow> uploader_options" where
  "uploader_opts P = exporter_uploader_options (xp_options (ep_exporter P))"

definition image_channel :: "exporter_threads \<Rightarrow> raw_image result channel" where
  "image_channel s = \<lparr>ch_src = Some (et_source s), ch_dst = Some (et_saver s), ch_pcqueue = et_images s\<rparr>"

definition path_channel :: "exporter_threads \<Rightarrow> string result channel" where
  "path_channel s = \<lparr>ch_src = Some (et_saver s), ch_dst = Some (et_uploader s), ch_pcqueue = et_paths s\<rparr>"

definition no_file :: open_file where
  "no_file = \<lparr>of_writer = None, of_path = []\<rparr>"

definition no_files :: saver_log where
  "no_files = \<lparr>sl_files = [], sl_removed = [], sl_forwarded = []\<rparr>"

text \<open>
  The beginning of \<open>Run\<close> on an exporter that has not been run: the workers are made and attached to the channels.
\<close>

definition exporter_start :: "exporter_params \<Rightarrow> exporter_threads outcome" where
  "exporter_start P =
     outcome_bind (Channel (ex_working_buffer_size (xp_options (ep_exporter P)))) (\<lambda>paths.
     outcome_bind (Channel (ex_working_buffer_size (xp_options (ep_exporter P)))) (\<lambda>images.
     Returns \<lparr>et_main = MStartUploader, et_source_pc = SoIdle,
       et_saver_thread = \<lparr>sv_pc = SvIdle, sv_frame = 0, sv_file = 0, sv_open = no_file, sv_log = no_files,
         sv_popped = [], sv_taken = [],
         sv_env = (ep_env P)\<lparr>se_dst_completed := (\<lambda>j. False), se_room := (\<lambda>j. True)\<rparr>\<rparr>,
       et_uploader_thread = \<lparr>up_pc = UpIdle, up_client = 0, up_try = 0, up_events = [], up_popped = [], up_taken = []\<rparr>,
       et_source = new_CompletionSignal, et_saver = new_CompletionSignal, et_uploader = new_CompletionSignal,
       et_images = ch_pcqueue images, et_paths = ch_pcqueue paths, et_offered = [], et_accepted = [],
       et_dead = None\<rparr>))"

section \<open>The source\<close>

text \<open>
  A value is offered, or the rest is skipped up to the last one, the end of the stream, because the
  saver has completed; in the end the thread tells its status.
\<close>

inductive source_step :: "exporter_params \<Rightarrow> exporter_threads \<Rightarrow> exporter_threads \<Rightarrow> bool" for P where
  source_offers: "et_source_pc s = SoWork (x # xs) \<Longrightarrow> TryEmplace x (et_images s) = (room, q, cv) \<Longrightarrow>
    source_step P s (s\<lparr>et_source_pc := SoWork xs, et_images := q, et_offered := et_offered s @ [x],
      et_accepted := et_accepted s @ (if room then [x] else [])\<rparr>)"
| source_skips: "et_source_pc s = SoWork (x # xs) \<Longrightarrow> ch_IsDstCompleted (image_channel s) = Returns True \<Longrightarrow>
    source_step P s (s\<lparr>et_source_pc := SoWork [last (x # xs)]\<rparr>)"
| source_ends: "et_source_pc s = SoWork [] \<Longrightarrow>
    source_step P s (s\<lparr>et_source_pc := SoEnd, et_source := worker_thread_end (ep_source_status P) (et_source s)\<rparr>)"

section \<open>The saver\<close>

definition saver_update :: "(saver_thread \<Rightarrow> saver_thread) \<Rightarrow> exporter_threads \<Rightarrow> exporter_threads" where
  "saver_update h s = s\<lparr>et_saver_thread := h (et_saver_thread s)\<rparr>"

text \<open>Handling one value, which may have been made up.\<close>

definition saver_takes :: "exporter_params \<Rightarrow> raw_image result \<Rightarrow> exporter_threads \<Rightarrow> exporter_threads" where
  "saver_takes P x s =
     (let v = et_saver_thread s; j = sv_file v in
      case write_frame (ep_gst P) (ep_runtime P)
          (GenerateVideoFilePath (saver_opts P) (se_session (ep_env P)) (se_time (ep_env P) j)) x (sv_open v) of
        Fatal m \<Rightarrow> s\<lparr>et_dead := Some m\<rparr>
      | Returns (stays, again, st, f) \<Rightarrow> saver_update (\<lambda>v. v\<lparr>
          sv_pc := (if stays \<and> sv_frame v + 1 < sint (vs_max_frames_per_file (saver_opts P)) then SvPop
                    else SvFlush again st),
          sv_frame := sv_frame v + 1, sv_open := f, sv_taken := sv_taken v @ [x]\<rparr>) s)"

text \<open>The loop over the files begins another one.\<close>

definition saver_next_file :: "bool \<Rightarrow> saver_thread \<Rightarrow> saver_thread" where
  "saver_next_file again v = v\<lparr>sv_pc := (if again then SvPop else SvEos OkStatus), sv_frame := 0,
     sv_file := Suc (sv_file v), sv_open := no_file\<rparr>"

definition log_removed :: "saver_thread \<Rightarrow> saver_thread" where
  "log_removed v = v\<lparr>sv_log := (sv_log v)\<lparr>sl_removed := sl_removed (sv_log v) @ [of_path (sv_open v)]\<rparr>\<rparr>"

definition log_file :: "saver_thread \<Rightarrow> saver_thread" where
  "log_file v = v\<lparr>sv_log := (sv_log v)\<lparr>sl_files := sl_files (sv_log v) @ [(of_path (sv_open v), of_writer (sv_open v))]\<rparr>\<rparr>"

definition log_forwarded :: "bool \<Rightarrow> string result \<Rightarrow> saver_thread \<Rightarrow> saver_thread" where
  "log_forwarded room x v = v\<lparr>sv_env := (sv_env v)\<lparr>se_room := (se_room (sv_env v))(sv_file v := room)\<rparr>,
     sv_log := (sv_log v)\<lparr>sl_forwarded := sl_forwarded (sv_log v) @ (if room then [x] else [])\<rparr>\<rparr>"

definition see_uploader :: "bool \<Rightarrow> saver_thread \<Rightarrow> saver_thread" where
  "see_uploader completed v = v\<lparr>sv_env := (sv_env v)\<lparr>se_dst_completed := (se_dst_completed (sv_env v))(sv_file v := completed)\<rparr>\<rparr>"

definition source_ended_error :: status where
  "source_ended_error = NotFoundError ''The image source completed without delivering an EOS.''"

definition path_eos :: "string result" where
  "path_eos = Inl (NotFoundError ''Reached EOS.'')"

definition saver_check :: "exporter_params \<Rightarrow> exporter_threads \<Rightarrow> status" where
  "saver_check P s =
     saver_ValidatePreconditions ''LocalVideoSaver'' (saver_opts P) (Some (image_channel s)) (Some (path_channel s))"

inductive saver_step :: "exporter_params \<Rightarrow> exporter_threads \<Rightarrow> exporter_threads \<Rightarrow> bool" for P where
  saver_starts: "sv_pc (et_saver_thread s) = SvStart \<Longrightarrow>
    saver_step P s (saver_update (\<lambda>v. v\<lparr>sv_pc := (if status_ok (saver_check P s) then SvPop else SvReturn (saver_check P s))\<rparr>) s)"
| saver_pops: "sv_pc (et_saver_thread s) = SvPop \<Longrightarrow> fifo_get (et_images s) = Some (x, q) \<Longrightarrow>
    saver_step P s (saver_takes P x (saver_update (\<lambda>v. v\<lparr>sv_popped := sv_popped v @ [x]\<rparr>) (s\<lparr>et_images := q\<rparr>)))"
| saver_times_out: "sv_pc (et_saver_thread s) = SvPop \<Longrightarrow> fifo_get (et_images s) = None \<Longrightarrow>
    saver_step P s (saver_update (\<lambda>v. v\<lparr>sv_pc := SvTimedOut\<rparr>) s)"
| saver_makes_end: "sv_pc (et_saver_thread s) = SvTimedOut \<Longrightarrow> ch_IsSrcCompleted (image_channel s) = Returns True \<Longrightarrow>
    saver_step P s (saver_takes P (Inl source_ended_error) s)"
| saver_retries: "sv_pc (et_saver_thread s) = SvTimedOut \<Longrightarrow> ch_IsSrcCompleted (image_channel s) = Returns False \<Longrightarrow>
    saver_step P s (saver_update (\<lambda>v. v\<lparr>sv_pc := SvPop\<rparr>) s)"
| saver_gives_up: "sv_pc (et_saver_thread s) = SvFlush again st \<Longrightarrow> \<not> status_ok st \<Longrightarrow>
    saver_step P s (saver_update (\<lambda>v. (log_removed v)\<lparr>sv_pc := SvEos st\<rparr>) s)"
| saver_flushes: "sv_pc (et_saver_thread s) = SvFlush again st \<Longrightarrow> status_ok st \<Longrightarrow> \<not> vs_forward_file_paths (saver_opts P) \<Longrightarrow>
    saver_step P s (saver_update (\<lambda>v. saver_next_file again (log_file v)) s)"
| saver_flushes_forwarding: "sv_pc (et_saver_thread s) = SvFlush again st \<Longrightarrow> status_ok st \<Longrightarrow> vs_forward_file_paths (saver_opts P) \<Longrightarrow>
    saver_step P s (saver_update (\<lambda>v. (log_file v)\<lparr>sv_pc := SvCheck again\<rparr>) s)"
| saver_checks: "sv_pc (et_saver_thread s) = SvCheck again \<Longrightarrow> ch_IsDstCompleted (path_channel s) = Returns completed \<Longrightarrow>
    saver_step P s (saver_update (\<lambda>v. (see_uploader completed v)\<lparr>
      sv_pc := (if completed then SvEos OkStatus else SvForward again)\<rparr>) s)"
| saver_forwards: "sv_pc (et_saver_thread s) = SvForward again \<Longrightarrow>
    TryEmplace (Inr (of_path (sv_open (et_saver_thread s)))) (et_paths s) = (room, q, cv) \<Longrightarrow>
    saver_step P s (saver_update (\<lambda>v. saver_next_file again (log_forwarded room (Inr (of_path (sv_open v))) v)) (s\<lparr>et_paths := q\<rparr>))"
| saver_leaves: "sv_pc (et_saver_thread s) = SvEos st \<Longrightarrow> \<not> vs_forward_file_paths (saver_opts P) \<Longrightarrow>
    saver_step P s (saver_update (\<lambda>v. v\<lparr>sv_pc := SvReturn st\<rparr>) s)"
| saver_tells_end: "sv_pc (et_saver_thread s) = SvEos st \<Longrightarrow> vs_forward_file_paths (saver_opts P) \<Longrightarrow>
    TryEmplace path_eos (et_paths s) = (room, q, cv) \<Longrightarrow>
    saver_step P s (saver_update (\<lambda>v. (log_forwarded room path_eos v)\<lparr>sv_pc := SvReturn st\<rparr>) (s\<lparr>et_paths := q\<rparr>))"
| saver_ends: "sv_pc (et_saver_thread s) = SvReturn st \<Longrightarrow>
    saver_step P s (saver_update (\<lambda>v. v\<lparr>sv_pc := SvEnd st\<rparr>) (s\<lparr>et_saver := worker_thread_end st (et_saver s)\<rparr>))"

section \<open>The uploader\<close>

definition uploader_update :: "(uploader_thread \<Rightarrow> uploader_thread) \<Rightarrow> exporter_threads \<Rightarrow> exporter_threads" where
  "uploader_update h s = s\<lparr>et_uploader_thread := h (et_uploader_thread s)\<rparr>"

definition uploader_takes :: "exporter_params \<Rightarrow> string result \<Rightarrow> exporter_threads \<Rightarrow> exporter_threads" where
  "uploader_takes P x s = (case x of
      Inl st \<Rightarrow>
        if status_code_of st = kNotFound
        then uploader_update (\<lambda>u. u\<lparr>up_pc := UpReturn OkStatus, up_taken := up_taken u @ [x]\<rparr>) s
        else s\<lparr>et_dead := Some ''ValueOrDie of an error''\<rparr>
    | Inr path \<Rightarrow>
        (let object = GenerateGcsObjectName (uploader_opts P) path; bucket = gu_gcs_bucket_name (uploader_opts P) in
         uploader_update (\<lambda>u. if ge_upload_ok (ep_gcs P) (up_try u)
           then u\<lparr>up_pc := UpPop, up_try := Suc (up_try u), up_taken := up_taken u @ [x],
             up_events := up_events u @ [Uploaded path bucket object] @
               (if gu_keep_local (uploader_opts P) then [] else [RemovedLocal path])\<rparr>
           else u\<lparr>up_pc := UpConnect, up_client := Suc (up_client u), up_try := Suc (up_try u),
             up_taken := up_taken u @ [x], up_events := up_events u @ [UploadFailed path bucket object]\<rparr>) s))"

definition path_source_ended :: status where
  "path_source_ended =
     NotFoundError (''GcsUploader'' @ '': The file path source completed but the EOS was not delivered.'')"

definition uploader_check :: "exporter_params \<Rightarrow> exporter_threads \<Rightarrow> status" where
  "uploader_check P s = uploader_ValidatePreconditions ''GcsUploader'' (uploader_opts P) (Some (path_channel s))"

inductive uploader_step :: "exporter_params \<Rightarrow> exporter_threads \<Rightarrow> exporter_threads \<Rightarrow> bool" for P where
  uploader_starts: "up_pc (et_uploader_thread s) = UpStart \<Longrightarrow>
    uploader_step P s (uploader_update (\<lambda>u. u\<lparr>up_pc :=
      (if \<not> gu_do_work (uploader_opts P) then UpReturn OkStatus
       else if \<not> status_ok (uploader_check P s) then UpReturn (uploader_check P s) else UpConnect)\<rparr>) s)"
| uploader_connects: "up_pc (et_uploader_thread s) = UpConnect \<Longrightarrow>
    uploader_step P s (uploader_update (\<lambda>u. u\<lparr>up_pc := (case ge_client_error (ep_gcs P) (up_client u) of
      Some m \<Rightarrow> UpReturn (gcs_client_error ''GcsUploader'' m) | None \<Rightarrow> UpPop)\<rparr>) s)"
| uploader_pops: "up_pc (et_uploader_thread s) = UpPop \<Longrightarrow> fifo_get (et_paths s) = Some (x, q) \<Longrightarrow>
    uploader_step P s (uploader_takes P x (uploader_update (\<lambda>u. u\<lparr>up_popped := up_popped u @ [x]\<rparr>) (s\<lparr>et_paths := q\<rparr>)))"
| uploader_times_out: "up_pc (et_uploader_thread s) = UpPop \<Longrightarrow> fifo_get (et_paths s) = None \<Longrightarrow>
    uploader_step P s (uploader_update (\<lambda>u. u\<lparr>up_pc := UpTimedOut\<rparr>) s)"
| uploader_makes_end: "up_pc (et_uploader_thread s) = UpTimedOut \<Longrightarrow> ch_IsSrcCompleted (path_channel s) = Returns True \<Longrightarrow>
    uploader_step P s (uploader_takes P (Inl path_source_ended) s)"
| uploader_retries: "up_pc (et_uploader_thread s) = UpTimedOut \<Longrightarrow> ch_IsSrcCompleted (path_channel s) = Returns False \<Longrightarrow>
    uploader_step P s (uploader_update (\<lambda>u. u\<lparr>up_pc := UpPop\<rparr>) s)"
| uploader_ends: "up_pc (et_uploader_thread s) = UpReturn st \<Longrightarrow>
    uploader_step P s (uploader_update (\<lambda>u. u\<lparr>up_pc := UpEnd st\<rparr>) (s\<lparr>et_uploader := worker_thread_end st (et_uploader s)\<rparr>))"

section \<open>The main thread\<close>

text \<open>
  The workers are started, the uploader first; the source is waited for without limit, the others until
  a deadline, which may have passed or not.
\<close>

inductive main_step :: "exporter_params \<Rightarrow> exporter_threads \<Rightarrow> exporter_threads \<Rightarrow> bool" for P where
  main_starts_uploader: "et_main s = MStartUploader \<Longrightarrow>
    main_step P s (uploader_update (\<lambda>u. u\<lparr>up_pc := UpStart\<rparr>)
      (s\<lparr>et_main := MStartSaver, et_uploader := worker_Work (et_uploader s)\<rparr>))"
| main_starts_saver: "et_main s = MStartSaver \<Longrightarrow>
    main_step P s (saver_update (\<lambda>v. v\<lparr>sv_pc := SvStart\<rparr>)
      (s\<lparr>et_main := MStartSource, et_saver := worker_Work (et_saver s)\<rparr>))"
| main_starts_source: "et_main s = MStartSource \<Longrightarrow>
    main_step P s (s\<lparr>et_main := MJoinSource, et_source := worker_Work (et_source s), et_source_pc := SoWork (ep_values P)\<rparr>)"
| main_joins_source: "et_main s = MJoinSource \<Longrightarrow> fst (worker_Join [] (et_source s)) \<Longrightarrow>
    main_step P s (s\<lparr>et_main := MJoinSaver\<rparr>)"
| main_joins_saver: "et_main s = MJoinSaver \<Longrightarrow> worker_Join [] (et_saver s) = r \<Longrightarrow> fst r \<or> deadline_passed \<Longrightarrow>
    main_step P s (s\<lparr>et_main := MJoinUploader r\<rparr>)"
| main_returns: "et_main s = MJoinUploader r \<Longrightarrow> worker_Join [] (et_uploader s) = r' \<Longrightarrow> fst r' \<or> deadline_passed \<Longrightarrow>
    main_step P s (s\<lparr>et_main := MDone (fst (VideoExporter_Run (et_source s) r r' (ep_exporter P)))\<rparr>)"

text \<open>A step: one thread has a turn. A worker that runs on after \<open>Run\<close> uses what has been destroyed.\<close>

definition run_returned :: "exporter_threads \<Rightarrow> bool" where
  "run_returned s \<longleftrightarrow> (case et_main s of MDone st \<Rightarrow> True | _ \<Rightarrow> False)"

definition worker_moves :: "exporter_params \<Rightarrow> exporter_threads \<Rightarrow> exporter_threads \<Rightarrow> bool" where
  "worker_moves P s s' \<longleftrightarrow> source_step P s s' \<or> saver_step P s s' \<or> uploader_step P s s'"

inductive exporter_step :: "exporter_params \<Rightarrow> exporter_threads \<Rightarrow> exporter_threads \<Rightarrow> bool" for P where
  worker_turn: "et_dead s = None \<Longrightarrow> \<not> run_returned s \<Longrightarrow> worker_moves P s s' \<Longrightarrow> exporter_step P s s'"
| main_turn: "et_dead s = None \<Longrightarrow> main_step P s s' \<Longrightarrow> exporter_step P s s'"
| detached_worker: "et_dead s = None \<Longrightarrow> run_returned s \<Longrightarrow> worker_moves P s s' \<Longrightarrow>
    exporter_step P s (s\<lparr>et_dead := Some ''use of a destroyed worker''\<rparr>)"

definition exporter_reachable :: "exporter_params \<Rightarrow> exporter_threads \<Rightarrow> bool" where
  "exporter_reachable P s \<longleftrightarrow> (\<exists>s0. exporter_start P = Returns s0 \<and> (exporter_step P)\<^sup>*\<^sup>* s0 s)"

section \<open>What a turn changes\<close>

lemma write_frame_end:
  "status_code_of st = kNotFound \<Longrightarrow> write_frame G X path (Inl st) f = Returns (False, False, OkStatus, f)"
  by (simp add: write_frame_def)

lemma made_up_codes [simp]:
  "status_code_of source_ended_error = kNotFound" "status_code_of path_source_ended = kNotFound"
  by (simp_all add: source_ended_error_def path_source_ended_def NotFoundError_def mk_Status_def status_code_of_def
      status_ok_def)

text \<open>What becomes of one value: nothing but the end, an error, or a frame that has been put.\<close>

lemma write_frame_cases:
  fixes x :: "raw_image result"
  obtains (no_image) st where "x = Inl st"
  | (unconvertible) img st where "x = Inr img" "ToGstreamerBuffer_image G img = Returns (Inl st)"
  | (conversion_dies) img m where "x = Inr img" "ToGstreamerBuffer_image G img = Fatal m"
  | (opening_dies) img b m where "x = Inr img" "ToGstreamerBuffer_image G img = Returns (Inr b)"
      "(case of_writer f of Some w \<Rightarrow> Returns (Inr w)
        | None \<Rightarrow> VideoWriter_Create X \<lparr>vw_file_path = path, vw_caps_string = gb_caps b\<rparr>) = Fatal m"
  | (unopened) img b st where "x = Inr img" "ToGstreamerBuffer_image G img = Returns (Inr b)"
      "(case of_writer f of Some w \<Rightarrow> Returns (Inr w)
        | None \<Rightarrow> VideoWriter_Create X \<lparr>vw_file_path = path, vw_caps_string = gb_caps b\<rparr>) = Returns (Inl st)"
  | (put) img b w st w' where "x = Inr img" "ToGstreamerBuffer_image G img = Returns (Inr b)"
      "(case of_writer f of Some w \<Rightarrow> Returns (Inr w)
        | None \<Rightarrow> VideoWriter_Create X \<lparr>vw_file_path = path, vw_caps_string = gb_caps b\<rparr>) = Returns (Inr w)"
      "VideoWriter_Put X b w = (st, w')"
proof (cases x)
  case (Inl st)
  then show ?thesis by (rule no_image)
next
  case (Inr img)
  show ?thesis
  proof (cases "ToGstreamerBuffer_image G img")
    case (Fatal m)
    with Inr show ?thesis by (rule conversion_dies)
  next
    case (Returns buffer)
    show ?thesis
    proof (cases buffer)
      case (Inl st)
      with \<open>x = Inr img\<close> Returns show ?thesis by (intro unconvertible) simp_all
    next
      case (Inr b)
      let ?o = "case of_writer f of Some w \<Rightarrow> Returns (Inr w)
        | None \<Rightarrow> VideoWriter_Create X \<lparr>vw_file_path = path, vw_caps_string = gb_caps b\<rparr>"
      note conv = \<open>x = Inr img\<close> Returns [unfolded Inr]
      show ?thesis
      proof (cases ?o)
        case (Fatal m)
        with conv show ?thesis by (rule opening_dies)
      next
        case (Returns writer)
        show ?thesis
        proof (cases writer)
          case (Inl st)
          with conv Returns show ?thesis by (intro unopened [of img b st]) simp_all
        next
          case (Inr w)
          obtain st w' where "VideoWriter_Put X b w = (st, w')" by (cases "VideoWriter_Put X b w")
          with conv Returns Inr show ?thesis by (intro put [of img b w st w']) simp_all
        qed
      qed
    qed
  qed
qed

lemma write_frame_again:
  assumes "write_frame G X path x f = Returns (stays, False, st, f')"
  shows "\<exists>e. x = Inl e"
  using assms
  by (cases rule: write_frame_cases [where x = x and G = G and f = f and X = X and path = path])
     (auto simp: write_frame_def Let_def split: if_splits)

text \<open>Taking a value moves the saver to the next frame or to the end of the file.\<close>

definition after_take :: "raw_image result \<Rightarrow> saver_pc \<Rightarrow> bool" where
  "after_take x pc \<longleftrightarrow> (pc = SvPop \<or> (\<exists>again st. pc = SvFlush again st)) \<and> (\<forall>st. x = Inl st \<longrightarrow> pc = SvFlush False OkStatus) \<and>
     (\<forall>st. pc = SvFlush False st \<longrightarrow> (\<exists>e. x = Inl e))"

lemma saver_takes_only:
  assumes "et_dead (saver_takes P x s) = None"
  shows "\<exists>v. saver_takes P x s = saver_update (\<lambda>_. v) s \<and> after_take x (sv_pc v) \<and>
    sv_taken v = sv_taken (et_saver_thread s) @ [x] \<and> sv_popped v = sv_popped (et_saver_thread s) \<and>
    sv_log v = sv_log (et_saver_thread s)"
proof -
  let ?path = "GenerateVideoFilePath (saver_opts P) (se_session (ep_env P)) (se_time (ep_env P) (sv_file (et_saver_thread s)))"
  obtain stays again st f where w: "write_frame (ep_gst P) (ep_runtime P) ?path x (sv_open (et_saver_thread s)) =
      Returns (stays, again, st, f)"
    using assms by (cases "write_frame (ep_gst P) (ep_runtime P) ?path x (sv_open (et_saver_thread s))")
      (auto simp: saver_takes_def Let_def)
  have "\<not> stays \<and> \<not> again \<and> st = OkStatus" if "x = Inl e" for e
    using w that by (simp add: write_frame_def split: if_splits)
  moreover have "\<exists>e. x = Inl e" if "\<not> again"
    using write_frame_again w that by (metis (full_types))
  ultimately show ?thesis
    by (intro exI [of _ "et_saver_thread (saver_takes P x s)"])
       (auto simp: after_take_def saver_takes_def Let_def w saver_update_def)
qed

definition after_path :: "string result \<Rightarrow> uploader_pc \<Rightarrow> bool" where
  "after_path x pc \<longleftrightarrow> pc \<in> {UpPop, UpConnect, UpReturn OkStatus} \<and> (\<forall>st. x = Inl st \<longrightarrow> pc = UpReturn OkStatus)"

lemma uploader_takes_only:
  assumes "et_dead (uploader_takes P x s) = None"
  shows "\<exists>u. uploader_takes P x s = uploader_update (\<lambda>_. u) s \<and> after_path x (up_pc u) \<and>
    up_taken u = up_taken (et_uploader_thread s) @ [x] \<and> up_popped u = up_popped (et_uploader_thread s)"
  using assms
  by (intro exI [of _ "et_uploader_thread (uploader_takes P x s)"])
     (auto simp: uploader_takes_def uploader_update_def after_path_def Let_def split: sum.splits if_splits)

section \<open>Signals and the order of the main thread\<close>

definition ended_with :: "status \<Rightarrow> completion_signal" where
  "ended_with st = \<lparr>is_completed = True, cs_status = st\<rparr>"

fun source_signal :: "status \<Rightarrow> source_pc \<Rightarrow> completion_signal \<Rightarrow> bool" where
  "source_signal st SoIdle c \<longleftrightarrow> c = new_CompletionSignal"
| "source_signal st (SoWork xs) c \<longleftrightarrow> \<not> is_completed c"
| "source_signal st SoEnd c \<longleftrightarrow> c = ended_with st"

definition saver_signal :: "saver_pc \<Rightarrow> completion_signal \<Rightarrow> bool" where
  "saver_signal pc c \<longleftrightarrow> (case pc of SvIdle \<Rightarrow> c = new_CompletionSignal | SvEnd st \<Rightarrow> c = ended_with st
     | _ \<Rightarrow> \<not> is_completed c)"

definition uploader_signal :: "uploader_pc \<Rightarrow> completion_signal \<Rightarrow> bool" where
  "uploader_signal pc c \<longleftrightarrow> (case pc of UpIdle \<Rightarrow> c = new_CompletionSignal | UpEnd st \<Rightarrow> c = ended_with st
     | _ \<Rightarrow> \<not> is_completed c)"

text \<open>What the main thread got when it joined a worker.\<close>

definition joined_saver :: "bool \<times> completion_signal \<Rightarrow> saver_pc \<Rightarrow> bool" where
  "joined_saver r pc \<longleftrightarrow> (fst r \<longrightarrow> (\<exists>st. pc = SvEnd st \<and> snd r = ended_with st))"

definition joined_uploader :: "bool \<times> completion_signal \<Rightarrow> uploader_pc \<Rightarrow> bool" where
  "joined_uploader r pc \<longleftrightarrow> (fst r \<longrightarrow> (\<exists>st. pc = UpEnd st \<and> snd r = ended_with st))"

definition main_order :: "exporter_params \<Rightarrow> main_pc \<Rightarrow> source_pc \<Rightarrow> saver_pc \<Rightarrow> uploader_pc \<Rightarrow> bool" where
  "main_order P m so sv up \<longleftrightarrow> (case m of
      MStartUploader \<Rightarrow> so = SoIdle \<and> sv = SvIdle \<and> up = UpIdle
    | MStartSaver \<Rightarrow> so = SoIdle \<and> sv = SvIdle \<and> up \<noteq> UpIdle
    | MStartSource \<Rightarrow> so = SoIdle \<and> sv \<noteq> SvIdle \<and> up \<noteq> UpIdle
    | MJoinSource \<Rightarrow> so \<noteq> SoIdle \<and> sv \<noteq> SvIdle \<and> up \<noteq> UpIdle
    | MJoinSaver \<Rightarrow> so = SoEnd \<and> sv \<noteq> SvIdle \<and> up \<noteq> UpIdle
    | MJoinUploader r \<Rightarrow> so = SoEnd \<and> sv \<noteq> SvIdle \<and> up \<noteq> UpIdle \<and> joined_saver r sv
    | MDone st \<Rightarrow> so = SoEnd \<and> sv \<noteq> SvIdle \<and> up \<noteq> UpIdle \<and>
        (\<exists>r r'. joined_saver r sv \<and> joined_uploader r' up \<and>
           st = fst (VideoExporter_Run (ended_with (ep_source_status P)) r r' (ep_exporter P))))"

definition control :: "exporter_params \<Rightarrow> exporter_threads \<Rightarrow> bool" where
  "control P s \<longleftrightarrow>
     source_signal (ep_source_status P) (et_source_pc s) (et_source s) \<and>
     saver_signal (sv_pc (et_saver_thread s)) (et_saver s) \<and>
     uploader_signal (up_pc (et_uploader_thread s)) (et_uploader s) \<and>
     main_order P (et_main s) (et_source_pc s) (sv_pc (et_saver_thread s)) (up_pc (et_uploader_thread s))"

lemma worker_ends [simp]: "worker_thread_end st c = ended_with st"
  by (simp add: worker_thread_end_def ended_with_def cs_End_def cs_SetStatus_def)

lemma worker_works [simp]: "\<not> is_completed (worker_Work c)"
  by (simp add: worker_Work_def cs_Start_def)

lemma ended_is_completed [simp]: "is_completed (ended_with st)" "cs_status (ended_with st) = st"
  by (simp_all add: ended_with_def)

text \<open>A worker that moves between two places of its work keeps its signal and what the main thread relies on.\<close>

lemma main_order_saver:
  "main_order P m so sv up \<Longrightarrow> sv' \<noteq> SvIdle \<Longrightarrow> sv \<noteq> SvIdle \<Longrightarrow> (\<forall>st. sv \<noteq> SvEnd st) \<Longrightarrow> main_order P m so sv' up"
  by (auto simp: main_order_def joined_saver_def split: main_pc.splits)

lemma main_order_uploader:
  "main_order P m so sv up \<Longrightarrow> up' \<noteq> UpIdle \<Longrightarrow> up \<noteq> UpIdle \<Longrightarrow> (\<forall>st. up \<noteq> UpEnd st) \<Longrightarrow> main_order P m so sv up'"
  by (auto simp: main_order_def joined_uploader_def split: main_pc.splits)

lemma source_keeps_control: "source_step P s s' \<Longrightarrow> control P s \<Longrightarrow> control P s'"
  by (induction rule: source_step.induct) (auto simp: control_def main_order_def split: main_pc.splits)

text \<open>A place of the saver at which it works, so that its signal is not completed.\<close>

definition saver_at_work :: "saver_pc \<Rightarrow> bool" where
  "saver_at_work pc \<longleftrightarrow> pc \<noteq> SvIdle \<and> (\<forall>st. pc \<noteq> SvEnd st)"

definition uploader_at_work :: "uploader_pc \<Rightarrow> bool" where
  "uploader_at_work pc \<longleftrightarrow> pc \<noteq> UpIdle \<and> (\<forall>st. pc \<noteq> UpEnd st)"

lemma saver_works_on:
  assumes "control P s" and "saver_at_work (sv_pc (et_saver_thread s))" and "saver_at_work (sv_pc (h (et_saver_thread s)))"
  shows "control P (saver_update h s)"
  using assms main_order_saver [of P "et_main s" "et_source_pc s" "sv_pc (et_saver_thread s)"]
  by (auto simp: control_def saver_update_def saver_at_work_def saver_signal_def split: saver_pc.splits)

lemma uploader_works_on:
  assumes "control P s" and "uploader_at_work (up_pc (et_uploader_thread s))"
    and "uploader_at_work (up_pc (h (et_uploader_thread s)))"
  shows "control P (uploader_update h s)"
  using assms main_order_uploader [of P "et_main s" "et_source_pc s" "sv_pc (et_saver_thread s)" "up_pc (et_uploader_thread s)"]
  by (auto simp: control_def uploader_update_def uploader_at_work_def uploader_signal_def split: uploader_pc.splits)

lemma control_queues [simp]:
  "control P (s\<lparr>et_images := q\<rparr>) = control P s" "control P (s\<lparr>et_paths := q'\<rparr>) = control P s"
  by (simp_all add: control_def)

lemma saver_update_again [simp]: "saver_update g (saver_update h s) = saver_update (g \<circ> h) s"
  by (simp add: saver_update_def)

lemma saver_update_thread [simp]: "et_saver_thread (saver_update h s) = h (et_saver_thread s)"
  by (simp add: saver_update_def)

lemma uploader_update_again [simp]: "uploader_update g (uploader_update h s) = uploader_update (g \<circ> h) s"
  by (simp add: uploader_update_def)

lemma uploader_update_thread [simp]: "et_uploader_thread (uploader_update h s) = h (et_uploader_thread s)"
  by (simp add: uploader_update_def)

lemma saver_takes_control:
  assumes "control P s" and "saver_at_work (sv_pc (et_saver_thread s))" and "et_dead (saver_takes P x s) = None"
  shows "control P (saver_takes P x s)"
proof -
  obtain v where "saver_takes P x s = saver_update (\<lambda>_. v) s" "after_take x (sv_pc v)"
    using saver_takes_only [OF assms(3)] by blast
  with assms saver_works_on [of P s "\<lambda>_. v"] show ?thesis by (auto simp: after_take_def saver_at_work_def)
qed

lemma uploader_takes_control:
  assumes "control P s" and "uploader_at_work (up_pc (et_uploader_thread s))" and "et_dead (uploader_takes P x s) = None"
  shows "control P (uploader_takes P x s)"
proof -
  obtain u where "uploader_takes P x s = uploader_update (\<lambda>_. u) s" "after_path x (up_pc u)"
    using uploader_takes_only [OF assms(3)] by blast
  with assms uploader_works_on [of P s "\<lambda>_. u"] show ?thesis by (auto simp: after_path_def uploader_at_work_def)
qed

lemma saver_keeps_control:
  assumes "saver_step P s s'" and "control P s" and "et_dead s' = None"
  shows "control P s'"
  using assms
proof (induction rule: saver_step.induct)
  case (saver_pops s x q)
  then show ?case by (intro saver_takes_control) (simp_all add: saver_works_on saver_at_work_def)
next
  case (saver_makes_end s)
  then show ?case by (intro saver_takes_control) (simp_all add: saver_at_work_def)
next
  case (saver_ends s st)
  then show ?case
    by (auto simp: control_def saver_update_def saver_signal_def main_order_def joined_saver_def split: main_pc.splits)
qed (auto intro!: saver_works_on simp: saver_at_work_def saver_next_file_def log_removed_def log_file_def)

lemma uploader_keeps_control:
  assumes "uploader_step P s s'" and "control P s" and "et_dead s' = None"
  shows "control P s'"
  using assms
proof (induction rule: uploader_step.induct)
  case (uploader_pops s x q)
  then show ?case by (intro uploader_takes_control) (simp_all add: uploader_works_on uploader_at_work_def)
next
  case (uploader_makes_end s)
  then show ?case by (intro uploader_takes_control) (simp_all add: uploader_at_work_def)
next
  case (uploader_ends s st)
  then show ?case
    by (auto simp: control_def uploader_update_def uploader_signal_def main_order_def joined_uploader_def split: main_pc.splits)
qed (auto intro!: uploader_works_on simp: uploader_at_work_def split: option.splits)

lemma main_keeps_control:
  assumes "main_step P s s'" and "control P s"
  shows "control P s'"
  using assms
proof (induction rule: main_step.induct)
  case (main_joins_source s)
  then show ?case by (cases "et_source_pc s") (auto simp: control_def main_order_def worker_Join_def)
next
  case (main_joins_saver s r deadline_passed)
  then show ?case
    by (auto simp: control_def main_order_def worker_Join_def joined_saver_def saver_signal_def split: saver_pc.splits)
next
  case (main_returns s r r' deadline_passed)
  then have "joined_uploader r' (up_pc (et_uploader_thread s))"
    by (auto simp: control_def main_order_def worker_Join_def joined_uploader_def uploader_signal_def split: uploader_pc.splits)
  moreover have "et_source s = ended_with (ep_source_status P)"
    using main_returns by (auto simp: control_def main_order_def)
  ultimately show ?case using main_returns by (simp add: control_def main_order_def del: split_paired_Ex) blast
qed (auto simp: control_def main_order_def saver_update_def uploader_update_def saver_signal_def uploader_signal_def)

section \<open>What enters a channel leaves it in order\<close>

lemma emplace_items:
  "TryEmplace x q = (room, q', cv) \<Longrightarrow> q_items q' = q_items q @ (if room then [x] else [])"
  by (auto simp: TryEmplace_def InternalEmplace_def split: if_splits)

lemma get_items: "fifo_get q = Some (x, q') \<Longrightarrow> q_items q = x # q_items q'"
  by (auto simp: fifo_get_def Pop_def InternalPop_def wait_while.simps split: if_splits list.splits)

lemma get_none: "fifo_get q = None \<longleftrightarrow> q_items q = []"
  by (cases "q_items q") (auto simp: fifo_get_def Pop_def InternalPop_def wait_while.simps)

text \<open>The saver will ask for another value; so will the uploader.\<close>

fun saver_goes_on :: "saver_pc \<Rightarrow> bool" where
  "saver_goes_on (SvFlush again st) = again"
| "saver_goes_on (SvCheck again) = again"
| "saver_goes_on (SvForward again) = again"
| "saver_goes_on (SvEos st) = False"
| "saver_goes_on (SvReturn st) = False"
| "saver_goes_on (SvEnd st) = False"
| "saver_goes_on _ = True"

fun uploader_goes_on :: "uploader_pc \<Rightarrow> bool" where
  "uploader_goes_on (UpReturn st) = False"
| "uploader_goes_on (UpEnd st) = False"
| "uploader_goes_on _ = True"

text \<open>The values taken are those popped, and possibly an end that was made up after them.\<close>

definition taken_of :: "bool \<Rightarrow> status \<Rightarrow> 'a result list \<Rightarrow> 'a result list \<Rightarrow> bool" where
  "taken_of goes_on e popped_values taken \<longleftrightarrow>
     taken = popped_values \<or> \<not> goes_on \<and> taken = popped_values @ [Inl e]"

definition flows :: "exporter_threads \<Rightarrow> bool" where
  "flows s \<longleftrightarrow>
     et_accepted s = sv_popped (et_saver_thread s) @ q_items (et_images s) \<and>
     sl_forwarded (sv_log (et_saver_thread s)) = up_popped (et_uploader_thread s) @ q_items (et_paths s) \<and>
     taken_of (saver_goes_on (sv_pc (et_saver_thread s))) source_ended_error
       (sv_popped (et_saver_thread s)) (sv_taken (et_saver_thread s)) \<and>
     taken_of (uploader_goes_on (up_pc (et_uploader_thread s))) path_source_ended
       (up_popped (et_uploader_thread s)) (up_taken (et_uploader_thread s))"

lemma source_keeps_flows: "source_step P s s' \<Longrightarrow> flows s \<Longrightarrow> flows s'"
  by (induction rule: source_step.induct) (auto simp: flows_def dest!: emplace_items)

lemma main_keeps_flows: "main_step P s s' \<Longrightarrow> flows s \<Longrightarrow> control P s \<Longrightarrow> flows s'"
  by (induction rule: main_step.induct)
     (auto simp: flows_def control_def main_order_def saver_update_def uploader_update_def taken_of_def)

lemma saver_keeps_flows:
  assumes "saver_step P s s'" and "flows s" and "et_dead s' = None"
  shows "flows s'"
  using assms
proof (induction rule: saver_step.induct)
  case (saver_pops s x q)
  from saver_takes_only [OF saver_pops.prems(2)] saver_pops.hyps saver_pops.prems(1) get_items [of "et_images s" x q]
  show ?case by (auto simp: flows_def saver_update_def taken_of_def after_take_def)
next
  case (saver_makes_end s)
  from saver_takes_only [OF saver_makes_end.prems(2)] saver_makes_end.hyps saver_makes_end.prems(1)
  show ?case by (auto simp: flows_def saver_update_def taken_of_def after_take_def)
qed (auto simp: flows_def saver_update_def taken_of_def saver_next_file_def log_removed_def log_file_def log_forwarded_def
      see_uploader_def dest!: emplace_items split: if_splits)

lemma uploader_keeps_flows:
  assumes "uploader_step P s s'" and "flows s" and "et_dead s' = None"
  shows "flows s'"
  using assms
proof (induction rule: uploader_step.induct)
  case (uploader_pops s x q)
  from uploader_takes_only [OF uploader_pops.prems(2)] uploader_pops.hyps uploader_pops.prems(1) get_items [of "et_paths s" x q]
  show ?case by (auto simp: flows_def uploader_update_def taken_of_def after_path_def)
next
  case (uploader_makes_end s)
  from uploader_takes_only [OF uploader_makes_end.prems(2)] uploader_makes_end.hyps uploader_makes_end.prems(1)
  show ?case by (auto simp: flows_def uploader_update_def taken_of_def after_path_def)
qed (auto simp: flows_def uploader_update_def taken_of_def split: if_splits option.splits)

section \<open>The threads compute the functions of their workers\<close>

lemma write_frames_frame:
  assumes "k < n"
  shows "write_frames G X n path k (x # xs) f =
    outcome_bind (write_frame G X path x f) (\<lambda>(stays, again, st, f').
      if stays then write_frames G X n path (k + 1) xs f' else Returns (again, st, f', xs))"
  using assms
  by (cases rule: write_frame_cases [where x = x and G = G and f = f and X = X and path = path]) (simp_all add: write_frames.simps write_frame_def Let_def)

lemma write_frame_stays:
  assumes "write_frame G X path x f = Returns (True, again, st, f')"
  shows "again \<and> st = OkStatus"
  using assms
  by (cases rule: write_frame_cases [where x = x and G = G and f = f and X = X and path = path]) (auto simp: write_frame_def Let_def split: if_splits)

lemma write_frames_done: "\<not> k < n \<Longrightarrow> write_frames G X n path k xs f = Returns (True, OkStatus, f, xs)"
  by (cases xs) (simp_all add: write_frames.simps)

text \<open>The work of the saver on the channels of the exporter, and what is left of it at each place.\<close>

definition saver_precheck :: "exporter_params \<Rightarrow> status" where
  "saver_precheck P =
     (let n = sint (vs_max_frames_per_file (saver_opts P)) in
      if n \<le> 0
      then InvalidArgumentError (''LocalVideoSaver'' @ '': A positive value for the maximum frame count is expected (given '' @
             show_int n @ '')'')
      else OkStatus)"

lemma saver_check_eq: "saver_check P s = saver_precheck P"
  by (simp add: saver_check_def saver_precheck_def saver_ValidatePreconditions_def image_channel_def path_channel_def
      ch_HasSrc_def ch_HasDst_def Let_def)

lemma saver_precheck_ok: "status_ok (saver_precheck P) \<longleftrightarrow> 0 < sint (vs_max_frames_per_file (saver_opts P))"
  by (simp add: saver_precheck_def Let_def InvalidArgumentError_def mk_Status_def status_ok_def OkStatus_def not_le)

definition saver_function ::
    "exporter_params \<Rightarrow> exporter_threads \<Rightarrow> saver_env \<Rightarrow> nat \<Rightarrow> raw_image result list \<Rightarrow> (status \<times> saver_log) outcome option" where
  "saver_function P s V fuel xs = LocalVideoSaver_WorkImpl (ep_gst P) (ep_runtime P) ''LocalVideoSaver'' (saver_opts P) V
     (Some (image_channel s)) (Some (path_channel s)) fuel xs"

definition saver_result ::
    "exporter_params \<Rightarrow> saver_env \<Rightarrow> (status \<times> saver_log \<times> nat) outcome option \<Rightarrow> (status \<times> saver_log) outcome option" where
  "saver_result P V r = map_option (\<lambda>r. outcome_bind r (\<lambda>(st, lg, j). Returns (st,
     if vs_forward_file_paths (saver_opts P) \<and> se_room V j then lg\<lparr>sl_forwarded := sl_forwarded lg @ [path_eos]\<rparr> else lg))) r"

lemma saver_function_eq:
  "saver_function P s V fuel xs =
     (if \<not> status_ok (saver_precheck P) then Some (Returns (saver_precheck P, no_files))
      else saver_result P V (save_files (ep_gst P) (ep_runtime P) (saver_opts P) V fuel 0 xs no_files))"
  using saver_check_eq [of P s]
  by (simp add: saver_function_def LocalVideoSaver_WorkImpl_def saver_check_def saver_result_def no_files_def path_eos_def Let_def
      cong: if_cong)

definition after_room ::
    "exporter_params \<Rightarrow> saver_env \<Rightarrow> nat \<Rightarrow> nat \<Rightarrow> raw_image result list \<Rightarrow> bool \<Rightarrow> saver_log \<Rightarrow>
     (status \<times> saver_log \<times> nat) outcome option" where
  "after_room P V fuel j rest again lg =
     (if again then save_files (ep_gst P) (ep_runtime P) (saver_opts P) V fuel (Suc j) rest lg
      else Some (Returns (OkStatus, lg, Suc j)))"

definition after_file ::
    "exporter_params \<Rightarrow> saver_env \<Rightarrow> nat \<Rightarrow> nat \<Rightarrow> raw_image result list \<Rightarrow> bool \<Rightarrow> string \<Rightarrow> saver_log \<Rightarrow>
     (status \<times> saver_log \<times> nat) outcome option" where
  "after_file P V fuel j rest again path lg =
     (if vs_forward_file_paths (saver_opts P) \<and> se_dst_completed V j then Some (Returns (OkStatus, lg, j))
      else after_room P V fuel j rest again
        (if vs_forward_file_paths (saver_opts P) \<and> se_room V j
         then lg\<lparr>sl_forwarded := sl_forwarded lg @ [Inr path]\<rparr> else lg))"

definition after_frames ::
    "exporter_params \<Rightarrow> saver_env \<Rightarrow> nat \<Rightarrow> nat \<Rightarrow> saver_log \<Rightarrow>
     (bool \<times> status \<times> open_file \<times> raw_image result list) outcome \<Rightarrow> (status \<times> saver_log \<times> nat) outcome option" where
  "after_frames P V fuel j lg r = (case r of
      Fatal m \<Rightarrow> Some (Fatal m)
    | Returns (again, st, f, rest) \<Rightarrow>
        if \<not> status_ok st then Some (Returns (st, lg\<lparr>sl_removed := sl_removed lg @ [of_path f]\<rparr>, j))
        else after_file P V fuel j rest again (of_path f) (lg\<lparr>sl_files := sl_files lg @ [(of_path f, of_writer f)]\<rparr>))"

definition saver_frames ::
    "exporter_params \<Rightarrow> saver_env \<Rightarrow> nat \<Rightarrow> int \<Rightarrow> raw_image result list \<Rightarrow> open_file \<Rightarrow>
     (bool \<times> status \<times> open_file \<times> raw_image result list) outcome" where
  "saver_frames P V j k xs f = write_frames (ep_gst P) (ep_runtime P) (sint (vs_max_frames_per_file (saver_opts P)))
     (GenerateVideoFilePath (saver_opts P) (se_session V) (se_time V j)) k xs f"

lemma save_files_eq:
  "save_files (ep_gst P) (ep_runtime P) (saver_opts P) V (Suc fuel) j xs lg =
     after_frames P V fuel j lg (saver_frames P V j 0 xs no_file)"
  by (simp add: save_files.simps after_frames_def saver_frames_def after_file_def after_room_def no_file_def Let_def
      cong: outcome.case_cong if_cong)

definition saver_left ::
    "exporter_params \<Rightarrow> saver_env \<Rightarrow> nat \<Rightarrow> raw_image result list \<Rightarrow> saver_thread \<Rightarrow> (status \<times> saver_log) outcome option" where
  "saver_left P V fuel rest v = (let j = sv_file v; lg = sv_log v; f = sv_open v in case sv_pc v of
      SvIdle \<Rightarrow> None
    | SvStart \<Rightarrow> None
    | SvPop \<Rightarrow> saver_result P V (after_frames P V fuel j lg (saver_frames P V j (sv_frame v) rest f))
    | SvTimedOut \<Rightarrow> saver_result P V (after_frames P V fuel j lg (saver_frames P V j (sv_frame v) rest f))
    | SvFlush again st \<Rightarrow> saver_result P V (after_frames P V fuel j lg (Returns (again, st, f, rest)))
    | SvCheck again \<Rightarrow> saver_result P V
        (if se_dst_completed V j then Some (Returns (OkStatus, lg, j))
         else after_room P V fuel j rest again
           (if se_room V j then lg\<lparr>sl_forwarded := sl_forwarded lg @ [Inr (of_path f)]\<rparr> else lg))
    | SvForward again \<Rightarrow> saver_result P V (after_room P V fuel j rest again
        (if se_room V j then lg\<lparr>sl_forwarded := sl_forwarded lg @ [Inr (of_path f)]\<rparr> else lg))
    | SvEos st \<Rightarrow> saver_result P V (Some (Returns (st, lg, j)))
    | SvReturn st \<Rightarrow> Some (Returns (st, lg))
    | SvEnd st \<Rightarrow> Some (Returns (st, lg)))"

text \<open>An environment that agrees with what the saver has seen.\<close>

definition knows :: "exporter_params \<Rightarrow> saver_env \<Rightarrow> saver_thread \<Rightarrow> bool" where
  "knows P V v \<longleftrightarrow> se_session V = se_session (ep_env P) \<and> se_time V = se_time (ep_env P) \<and>
     (\<forall>i < sv_file v. se_dst_completed V i = se_dst_completed (sv_env v) i \<and> se_room V i = se_room (sv_env v) i) \<and>
     ((\<exists>b. sv_pc v = SvForward b) \<or> (\<exists>st. sv_pc v \<in> {SvEos st, SvReturn st, SvEnd st}) \<longrightarrow>
        se_dst_completed V (sv_file v) = se_dst_completed (sv_env v) (sv_file v)) \<and>
     ((\<exists>st. sv_pc v \<in> {SvReturn st, SvEnd st}) \<longrightarrow> se_room V (sv_file v) = se_room (sv_env v) (sv_file v))"

definition saver_simulates :: "exporter_params \<Rightarrow> exporter_threads \<Rightarrow> saver_thread \<Rightarrow> bool" where
  "saver_simulates P s v \<longleftrightarrow>
     se_session (sv_env v) = se_session (ep_env P) \<and> se_time (sv_env v) = se_time (ep_env P) \<and>
     (if sv_pc v \<in> {SvIdle, SvStart}
      then sv_file v = 0 \<and> sv_frame v = 0 \<and> sv_open v = no_file \<and> sv_log v = no_files \<and> sv_taken v = []
      else (sv_pc v \<in> {SvPop, SvTimedOut} \<longrightarrow> sv_frame v < sint (vs_max_frames_per_file (saver_opts P))) \<and>
        ((\<forall>st. sv_pc v \<noteq> SvReturn st \<and> sv_pc v \<noteq> SvEnd st) \<longrightarrow> 0 < sint (vs_max_frames_per_file (saver_opts P))) \<and>
        (\<forall>V fuel rest. knows P V v \<longrightarrow>
           saver_function P s V (Suc (sv_file v + fuel)) (sv_taken v @ rest) = saver_left P V fuel rest v))"

lemma saver_function_any: "saver_function P s = saver_function P s'"
  by (intro ext) (simp add: saver_function_eq)

lemma simulates_any: "saver_simulates P s v \<Longrightarrow> saver_simulates P s' v"
  unfolding saver_simulates_def saver_function_any [of P s s'] by assumption

lemma simulates_by:
  assumes "saver_simulates P s v" and "sv_pc v \<notin> {SvIdle, SvStart}"
    and "sv_file v' = sv_file v + d" and "sv_taken v' = sv_taken v @ xs"
    and "se_session (sv_env v') = se_session (sv_env v)" and "se_time (sv_env v') = se_time (sv_env v)"
    and "sv_pc v' \<notin> {SvIdle, SvStart}"
    and "sv_pc v' \<in> {SvPop, SvTimedOut} \<Longrightarrow> 0 < sint (vs_max_frames_per_file (saver_opts P)) \<Longrightarrow>
      sv_frame v' < sint (vs_max_frames_per_file (saver_opts P))"
    and "\<forall>st. sv_pc v \<noteq> SvReturn st \<and> sv_pc v \<noteq> SvEnd st \<or> sv_pc v' = SvEnd st"
    and step: "\<And>V fuel rest. knows P V v' \<Longrightarrow>
      knows P V v \<and> saver_left P V (d + fuel) (xs @ rest) v = saver_left P V fuel rest v'"
  shows "saver_simulates P s' v'"
proof -
  let ?n = "sint (vs_max_frames_per_file (saver_opts P))"
  have sim: "saver_function P s V (Suc (sv_file v + fuel)) (sv_taken v @ rest) = saver_left P V fuel rest v"
    if "knows P V v" for V fuel rest
    using assms(1,2) that by (simp add: saver_simulates_def)
  have pos: "0 < ?n" if "\<forall>st. sv_pc v' \<noteq> SvReturn st \<and> sv_pc v' \<noteq> SvEnd st"
    using assms(1,2,9) that by (auto simp: saver_simulates_def)
  have "saver_function P s' V (Suc (sv_file v' + fuel)) (sv_taken v' @ rest) = saver_left P V fuel rest v'"
    if "knows P V v'" for V fuel rest
    using step [OF that, of fuel rest] sim [of V "d + fuel" "xs @ rest"] assms(3,4)
    by (simp add: saver_function_any [of P s' s] add.assoc)
  then show ?thesis using assms(1,2,5-8) pos by (auto simp: saver_simulates_def)
qed

lemma frames_value:
  assumes "knows P V v" and "sv_frame v < sint (vs_max_frames_per_file (saver_opts P))"
  shows "saver_frames P V (sv_file v) (sv_frame v) (x # xs) (sv_open v) =
    outcome_bind (write_frame (ep_gst P) (ep_runtime P)
        (GenerateVideoFilePath (saver_opts P) (se_session (ep_env P)) (se_time (ep_env P) (sv_file v))) x (sv_open v))
      (\<lambda>(stays, again, st, f). if stays then saver_frames P V (sv_file v) (sv_frame v + 1) xs f
        else Returns (again, st, f, xs))"
  using assms by (simp add: saver_frames_def knows_def write_frames_frame cong: if_cong)

lemma simulates_take:
  assumes sim: "saver_simulates P s (et_saver_thread s1)" and pc: "sv_pc (et_saver_thread s1) \<in> {SvPop, SvTimedOut}"
    and alive: "et_dead (saver_takes P x s1) = None"
  shows "saver_simulates P s (et_saver_thread (saver_takes P x s1))"
proof -
  let ?v = "et_saver_thread s1" and ?n = "sint (vs_max_frames_per_file (saver_opts P))"
  let ?path = "GenerateVideoFilePath (saver_opts P) (se_session (ep_env P)) (se_time (ep_env P) (sv_file ?v))"
  obtain stays again st f where w: "write_frame (ep_gst P) (ep_runtime P) ?path x (sv_open ?v) = Returns (stays, again, st, f)"
    using alive by (cases "write_frame (ep_gst P) (ep_runtime P) ?path x (sv_open ?v)") (auto simp: saver_takes_def Let_def)
  let ?pc = "if stays \<and> sv_frame ?v + 1 < ?n then SvPop else SvFlush again st"
  let ?v' = "?v\<lparr>sv_pc := ?pc, sv_frame := sv_frame ?v + 1, sv_open := f, sv_taken := sv_taken ?v @ [x]\<rparr>"
  have v': "et_saver_thread (saver_takes P x s1) = ?v'" by (simp add: saver_takes_def Let_def w saver_update_def)
  have k: "sv_frame ?v < ?n" using sim pc by (auto simp: saver_simulates_def split: if_splits)
  show ?thesis
    unfolding v'
  proof (rule simulates_by [OF sim, where d = 0 and xs = "[x]"])
    fix V fuel rest
    assume "knows P V ?v'"
    then have knows: "knows P V ?v" using pc by (auto simp: knows_def split: if_splits)
    have left: "saver_left P V fuel (x # rest) ?v = saver_result P V (after_frames P V fuel (sv_file ?v) (sv_log ?v)
        (if stays then saver_frames P V (sv_file ?v) (sv_frame ?v + 1) rest f else Returns (again, st, f, rest)))"
      using pc by (auto simp: saver_left_def Let_def frames_value [OF knows k] w)
    have "saver_frames P V (sv_file ?v) (sv_frame ?v + 1) rest f = Returns (again, st, f, rest)"
      if "stays" "\<not> sv_frame ?v + 1 < ?n"
      using write_frame_stays [OF w [unfolded that(1)[THEN eqTrueI]]] that(2)
      by (simp add: saver_frames_def write_frames_done)
    with left knows show "knows P V ?v \<and> saver_left P V (0 + fuel) ([x] @ rest) ?v = saver_left P V fuel rest ?v'"
      by (auto simp: saver_left_def Let_def)
  qed (use pc in \<open>auto split: if_splits\<close>)
qed

lemma saver_keeps_simulation:
  assumes "saver_step P s s'" and "saver_simulates P s0 (et_saver_thread s)" and "et_dead s' = None"
  shows "saver_simulates P s0 (et_saver_thread s')"
  using assms
proof (induction rule: saver_step.induct)
  case (saver_starts s)
  let ?v = "et_saver_thread s"
  let ?v' = "?v\<lparr>sv_pc := (if status_ok (saver_check P s) then SvPop else SvReturn (saver_check P s))\<rparr>"
  have v: "sv_file ?v = 0" "sv_frame ?v = 0" "sv_open ?v = no_file" "sv_log ?v = no_files" "sv_taken ?v = []"
    "se_session (sv_env ?v) = se_session (ep_env P)" "se_time (sv_env ?v) = se_time (ep_env P)"
    using saver_starts by (simp_all add: saver_simulates_def)
  have "saver_function P s0 V (Suc fuel) rest = saver_left P V fuel rest ?v'" for V fuel rest
    by (simp add: saver_function_eq saver_left_def saver_check_eq save_files_eq v Let_def)
  with v have "saver_simulates P s0 ?v'"
    using saver_precheck_ok [of P] by (simp add: saver_simulates_def saver_check_eq)
  then show ?case by simp
next
  case (saver_pops s x q)
  let ?s1 = "saver_update (\<lambda>v. v\<lparr>sv_popped := sv_popped v @ [x]\<rparr>) (s\<lparr>et_images := q\<rparr>)"
  have "saver_simulates P s0 (et_saver_thread ?s1)"
    using saver_pops.hyps saver_pops.prems(1)
    by (simp, intro simulates_by [OF saver_pops.prems(1), where d = 0 and xs = "[]"])
       (auto simp: saver_update_def saver_left_def knows_def Let_def saver_simulates_def)
  from simulates_take [OF this _ saver_pops.prems(2)] saver_pops.hyps show ?case by simp
next
  case (saver_times_out s)
  then show ?case
    by (simp, intro simulates_by [OF saver_times_out.prems(1), where d = 0 and xs = "[]"])
       (auto simp: saver_left_def knows_def Let_def saver_simulates_def)
next
  case (saver_makes_end s)
  from simulates_take [OF saver_makes_end.prems(1) _ saver_makes_end.prems(2)] saver_makes_end.hyps show ?case by simp
next
  case (saver_retries s)
  then show ?case
    by (simp, intro simulates_by [OF saver_retries.prems(1), where d = 0 and xs = "[]"])
       (auto simp: saver_left_def knows_def Let_def saver_simulates_def)
next
  case (saver_gives_up s again st)
  then show ?case
    by (simp, intro simulates_by [OF saver_gives_up.prems(1), where d = 0 and xs = "[]"])
       (auto simp: saver_left_def knows_def Let_def log_removed_def after_frames_def)
next
  case (saver_flushes s again st)
  then show ?case
    by (simp, intro simulates_by [OF saver_flushes.prems(1), where d = 1 and xs = "[]"])
       (auto simp: saver_left_def knows_def Let_def saver_next_file_def log_file_def after_frames_def after_file_def
          after_room_def save_files_eq)
next
  case (saver_flushes_forwarding s again st)
  then show ?case
    by (simp, intro simulates_by [OF saver_flushes_forwarding.prems(1), where d = 0 and xs = "[]"])
       (auto simp: saver_left_def knows_def Let_def log_file_def after_frames_def after_file_def)
next
  case (saver_checks s again completed)
  then show ?case
    by (simp only: saver_update_thread, intro simulates_by [OF saver_checks.prems(1), where d = 0 and xs = "[]"])
       (auto simp: saver_left_def knows_def Let_def see_uploader_def split: if_splits)
next
  case (saver_forwards s again room q cv)
  then show ?case
    by (simp, intro simulates_by [OF saver_forwards.prems(1), where d = 1 and xs = "[]"])
       (auto simp: saver_left_def knows_def Let_def saver_next_file_def log_forwarded_def after_room_def save_files_eq)
next
  case (saver_leaves s st)
  then show ?case
    by (simp, intro simulates_by [OF saver_leaves.prems(1), where d = 0 and xs = "[]"])
       (auto simp: saver_left_def knows_def Let_def saver_result_def)
next
  case (saver_tells_end s st room q cv)
  then show ?case
    by (simp, intro simulates_by [OF saver_tells_end.prems(1), where d = 0 and xs = "[]"])
       (auto simp: saver_left_def knows_def Let_def saver_result_def log_forwarded_def)
next
  case (saver_ends s st)
  then show ?case
    by (simp, intro simulates_by [OF saver_ends.prems(1), where d = 0 and xs = "[]"])
       (auto simp: saver_left_def knows_def Let_def)
qed

text \<open>The same for the uploader.\<close>

definition uploader_function ::
    "exporter_params \<Rightarrow> exporter_threads \<Rightarrow> string result list \<Rightarrow> (status \<times> gcs_event list) outcome" where
  "uploader_function P s xs =
     GcsUploader_WorkImpl ''GcsUploader'' (uploader_opts P) (ep_gcs P) (Some (path_channel s)) xs"

lemma uploader_check_any: "uploader_check P s = uploader_check P s'"
  by (simp add: uploader_check_def uploader_ValidatePreconditions_def path_channel_def ch_HasSrc_def)

lemma uploader_function_any: "uploader_function P s = uploader_function P s'"
  using uploader_check_any [of P s s']
  by (intro ext) (simp add: uploader_function_def GcsUploader_WorkImpl_def uploader_check_def)

definition uploader_left ::
    "exporter_params \<Rightarrow> exporter_threads \<Rightarrow> string result list \<Rightarrow> uploader_thread \<Rightarrow> (status \<times> gcs_event list) outcome" where
  "uploader_left P s rest u = (case up_pc u of
      UpConnect \<Rightarrow> (case ge_client_error (ep_gcs P) (up_client u) of
        Some m \<Rightarrow> Returns (gcs_client_error ''GcsUploader'' m, up_events u)
      | None \<Rightarrow> upload_files ''GcsUploader'' (uploader_opts P) (ep_gcs P) (up_client u) (up_try u) rest (up_events u))
    | UpReturn st \<Rightarrow> Returns (st, up_events u)
    | UpEnd st \<Rightarrow> Returns (st, up_events u)
    | _ \<Rightarrow> if up_pc u \<in> {UpIdle, UpStart} then uploader_function P s rest
           else upload_files ''GcsUploader'' (uploader_opts P) (ep_gcs P) (up_client u) (up_try u) rest (up_events u))"

definition uploader_simulates :: "exporter_params \<Rightarrow> exporter_threads \<Rightarrow> uploader_thread \<Rightarrow> bool" where
  "uploader_simulates P s u \<longleftrightarrow>
     (up_pc u \<in> {UpIdle, UpStart} \<longrightarrow> up_client u = 0 \<and> up_try u = 0 \<and> up_events u = []) \<and>
     (\<forall>rest. uploader_function P s (up_taken u @ rest) = uploader_left P s rest u)"

lemma uploader_simulates_any: "uploader_simulates P s u \<Longrightarrow> uploader_simulates P s' u"
  unfolding uploader_simulates_def uploader_left_def uploader_function_any [of P s s'] by assumption

lemma uploader_takes_value:
  assumes "uploader_simulates P s0 (et_uploader_thread s)" and "up_pc (et_uploader_thread s) \<in> {UpPop, UpTimedOut}"
    and "et_dead (uploader_takes P x s) = None"
  shows "uploader_simulates P s0 (et_uploader_thread (uploader_takes P x s))"
proof -
  have "uploader_function P s0 (up_taken (et_uploader_thread s) @ x # rest) =
      upload_files ''GcsUploader'' (uploader_opts P) (ep_gcs P) (up_client (et_uploader_thread s))
        (up_try (et_uploader_thread s)) (x # rest) (up_events (et_uploader_thread s))" for rest
    using assms(1,2) by (auto simp: uploader_simulates_def uploader_left_def simp del: upload_files.simps)
  with assms(3) show ?thesis
    by (auto simp: uploader_simulates_def uploader_left_def uploader_takes_def Let_def split: sum.splits if_splits option.split)
qed

lemma uploader_keeps_simulation:
  assumes "uploader_step P s s'" and "uploader_simulates P s0 (et_uploader_thread s)" and "et_dead s' = None"
  shows "uploader_simulates P s0 (et_uploader_thread s')"
  using assms
proof (induction rule: uploader_step.induct)
  case (uploader_starts s)
  then show ?case
    using uploader_check_any [of P s s0]
    by (auto simp: uploader_simulates_def uploader_left_def uploader_function_def GcsUploader_WorkImpl_def uploader_check_def
        split: option.split)
next
  case (uploader_connects s)
  then show ?case by (auto simp: uploader_simulates_def uploader_left_def split: option.split)
next
  case (uploader_pops s x q)
  let ?s1 = "uploader_update (\<lambda>u. u\<lparr>up_popped := up_popped u @ [x]\<rparr>) (s\<lparr>et_paths := q\<rparr>)"
  have "uploader_simulates P s0 (et_uploader_thread ?s1)"
    using uploader_pops by (simp add: uploader_simulates_def uploader_left_def)
  from uploader_takes_value [OF this _ uploader_pops.prems(2)] uploader_pops.hyps show ?case by simp
next
  case (uploader_times_out s)
  then show ?case by (simp add: uploader_simulates_def uploader_left_def)
next
  case (uploader_makes_end s)
  from uploader_takes_value [OF uploader_makes_end.prems(1) _ uploader_makes_end.prems(2)] uploader_makes_end.hyps show ?case
    by simp
next
  case (uploader_retries s)
  then show ?case by (simp add: uploader_simulates_def uploader_left_def)
next
  case (uploader_ends s st)
  then show ?case by (simp add: uploader_simulates_def uploader_left_def)
qed

section \<open>The invariant of the threads\<close>

text \<open>The values of the source up to some place, followed by the last one.\<close>

definition cut_values :: "exporter_params \<Rightarrow> raw_image result list \<Rightarrow> bool" where
  "cut_values P xs \<longleftrightarrow> xs = ep_values P \<or>
     (\<exists>k < length (ep_values P). xs = take k (ep_values P) @ [last (ep_values P)])"

definition plan_at :: "exporter_params \<Rightarrow> source_pc \<Rightarrow> raw_image result list \<Rightarrow> raw_image result list \<Rightarrow> bool" where
  "plan_at P pc kept given \<longleftrightarrow> subseq kept given \<and> (case pc of
      SoIdle \<Rightarrow> given = []
    | SoWork xs \<Rightarrow> cut_values P (given @ xs)
    | SoEnd \<Rightarrow> cut_values P given)"

definition source_plan :: "exporter_params \<Rightarrow> exporter_threads \<Rightarrow> bool" where
  "source_plan P s \<longleftrightarrow> plan_at P (et_source_pc s) (et_accepted s) (et_offered s)"

definition exporter_inv :: "exporter_params \<Rightarrow> exporter_threads \<Rightarrow> bool" where
  "exporter_inv P s \<longleftrightarrow> control P s \<and> flows s \<and> source_plan P s \<and>
     saver_simulates P s (et_saver_thread s) \<and> uploader_simulates P s (et_uploader_thread s)"

lemma cut_values_skip:
  assumes "cut_values P (xs @ y # ys)"
  shows "cut_values P (xs @ [last (y # ys)])"
proof -
  let ?vs = "ep_values P"
  obtain zs where zs: "xs @ y # ys = zs @ [last ?vs]" and pre: "prefix zs ?vs" and len: "length zs < length ?vs"
    using assms unfolding cut_values_def
  proof (elim disjE exE conjE)
    assume eq: "xs @ y # ys = ?vs"
    then have "?vs \<noteq> []" by auto
    with eq show ?thesis by (intro that [of "butlast ?vs"]) (auto simp: prefix_def intro: exI [of _ "[last ?vs]"])
  next
    fix k assume "k < length ?vs" "xs @ y # ys = take k ?vs @ [last ?vs]"
    then show ?thesis by (intro that [of "take k ?vs"]) (auto simp: take_is_prefix)
  qed
  from zs have last: "last (y # ys) = last ?vs" by (metis last_appendR last_snoc list.distinct(1))
  from zs have "prefix xs zs" by (metis butlast_append butlast_snoc list.distinct(1) prefixI)
  with pre have "prefix xs ?vs" using prefix_order.order_trans by blast
  then have "xs = take (length xs) ?vs" by (auto simp: prefix_def)
  moreover have "length xs < length ?vs" using \<open>prefix xs zs\<close> len prefix_length_le by fastforce
  ultimately show ?thesis unfolding last by (auto simp: cut_values_def)
qed

lemma subseq_longer: "subseq xs ys \<Longrightarrow> subseq xs (ys @ zs)"
  using list_emb_append_mono [of "(=)" xs ys "[]" zs] by simp

lemma source_keeps_plan:
  assumes "source_step P s s'" and "source_plan P s"
  shows "source_plan P s'"
  using assms
proof (induction rule: source_step.induct)
  case (source_offers s x xs room q cv)
  then show ?case by (auto simp: source_plan_def plan_at_def intro: subseq_longer list_emb_append_mono)
next
  case (source_skips s x xs)
  then show ?case using cut_values_skip by (fastforce simp: source_plan_def plan_at_def)
next
  case (source_ends s)
  then show ?case by (simp add: source_plan_def plan_at_def)
qed

lemma start_inv: "exporter_start P = Returns s \<Longrightarrow> exporter_inv P s \<and> et_dead s = None"
  by (auto simp: exporter_start_def Channel_def new_pc_queue_def exporter_inv_def control_def flows_def source_plan_def plan_at_def
      saver_simulates_def uploader_simulates_def uploader_left_def saver_signal_def uploader_signal_def main_order_def
      taken_of_def no_files_def split: if_splits)

lemma source_leaves_workers:
  "source_step P s s' \<Longrightarrow> et_saver_thread s' = et_saver_thread s \<and> et_uploader_thread s' = et_uploader_thread s"
  by (induction rule: source_step.induct) simp_all

lemma saver_takes_leaves [simp]:
  "et_uploader_thread (saver_takes P x s) = et_uploader_thread s" "et_source_pc (saver_takes P x s) = et_source_pc s"
  "et_accepted (saver_takes P x s) = et_accepted s" "et_offered (saver_takes P x s) = et_offered s"
  "et_source (saver_takes P x s) = et_source s" "et_images (saver_takes P x s) = et_images s"
  "et_paths (saver_takes P x s) = et_paths s" "et_main (saver_takes P x s) = et_main s"
  by (simp_all add: saver_takes_def Let_def saver_update_def split: outcome.split)

lemma uploader_takes_leaves [simp]:
  "et_saver_thread (uploader_takes P x s) = et_saver_thread s" "et_source_pc (uploader_takes P x s) = et_source_pc s"
  "et_accepted (uploader_takes P x s) = et_accepted s" "et_offered (uploader_takes P x s) = et_offered s"
  "et_source (uploader_takes P x s) = et_source s" "et_saver (uploader_takes P x s) = et_saver s"
  "et_images (uploader_takes P x s) = et_images s" "et_paths (uploader_takes P x s) = et_paths s"
  "et_main (uploader_takes P x s) = et_main s"
  by (simp_all add: uploader_takes_def Let_def uploader_update_def split: sum.split)

lemma saver_update_leaves [simp]:
  "et_uploader_thread (saver_update h s) = et_uploader_thread s" "et_source_pc (saver_update h s) = et_source_pc s"
  "et_accepted (saver_update h s) = et_accepted s" "et_offered (saver_update h s) = et_offered s"
  "et_source (saver_update h s) = et_source s" "et_saver (saver_update h s) = et_saver s"
  "et_images (saver_update h s) = et_images s" "et_paths (saver_update h s) = et_paths s"
  "et_main (saver_update h s) = et_main s" "et_dead (saver_update h s) = et_dead s"
  by (simp_all add: saver_update_def)

lemma uploader_update_leaves [simp]:
  "et_saver_thread (uploader_update h s) = et_saver_thread s" "et_source_pc (uploader_update h s) = et_source_pc s"
  "et_accepted (uploader_update h s) = et_accepted s" "et_offered (uploader_update h s) = et_offered s"
  "et_source (uploader_update h s) = et_source s" "et_saver (uploader_update h s) = et_saver s"
  "et_images (uploader_update h s) = et_images s" "et_paths (uploader_update h s) = et_paths s"
  "et_main (uploader_update h s) = et_main s" "et_dead (uploader_update h s) = et_dead s"
  by (simp_all add: uploader_update_def)

lemma saver_leaves_others:
  "saver_step P s s' \<Longrightarrow> et_uploader_thread s' = et_uploader_thread s \<and> et_source_pc s' = et_source_pc s \<and>
     et_accepted s' = et_accepted s \<and> et_offered s' = et_offered s"
  by (induction rule: saver_step.induct) simp_all

lemma uploader_leaves_others:
  "uploader_step P s s' \<Longrightarrow> et_saver_thread s' = et_saver_thread s \<and> et_source_pc s' = et_source_pc s \<and>
     et_accepted s' = et_accepted s \<and> et_offered s' = et_offered s"
  by (induction rule: uploader_step.induct) simp_all

lemma plan_same:
  "source_plan P s \<Longrightarrow> et_source_pc s' = et_source_pc s \<Longrightarrow> et_accepted s' = et_accepted s \<Longrightarrow>
     et_offered s' = et_offered s \<Longrightarrow> source_plan P s'"
  by (simp add: source_plan_def)

lemma main_keeps_rest:
  assumes "main_step P s s'" and "exporter_inv P s"
  shows "source_plan P s' \<and> saver_simulates P s' (et_saver_thread s') \<and> uploader_simulates P s' (et_uploader_thread s')"
proof -
  have sims: "saver_simulates P s' (et_saver_thread s)" "uploader_simulates P s' (et_uploader_thread s)"
    using assms(2) simulates_any uploader_simulates_any by (auto simp: exporter_inv_def)
  from assms(1) show ?thesis
  proof (cases rule: main_step.cases)
    case main_starts_uploader
    then have "up_pc (et_uploader_thread s) = UpIdle" using assms(2) by (simp add: exporter_inv_def control_def main_order_def)
    with main_starts_uploader sims assms(2) show ?thesis
      by (auto simp: exporter_inv_def uploader_simulates_def uploader_left_def source_plan_def)
  next
    case main_starts_saver
    then have "sv_pc (et_saver_thread s) = SvIdle" using assms(2) by (simp add: exporter_inv_def control_def main_order_def)
    with main_starts_saver sims assms(2) show ?thesis
      by (auto simp: exporter_inv_def saver_simulates_def source_plan_def)
  next
    case main_starts_source
    then have "et_source_pc s = SoIdle" using assms(2) by (simp add: exporter_inv_def control_def main_order_def)
    with main_starts_source sims assms(2) show ?thesis
      by (auto simp: exporter_inv_def source_plan_def plan_at_def cut_values_def)
  qed (use sims assms(2) in \<open>auto simp: exporter_inv_def source_plan_def\<close>)
qed

lemma step_keeps_inv:
  assumes "exporter_step P s s'" and "exporter_inv P s" and "et_dead s' = None"
  shows "exporter_inv P s'"
proof -
  have inv: "control P s" "flows s" "source_plan P s" "saver_simulates P s' (et_saver_thread s)"
    "uploader_simulates P s' (et_uploader_thread s)"
    using assms(2) simulates_any uploader_simulates_any by (auto simp: exporter_inv_def)
  from assms(1) show ?thesis
  proof (cases rule: exporter_step.cases)
    case worker_turn
    then consider "source_step P s s'" | "saver_step P s s'" | "uploader_step P s s'" by (auto simp: worker_moves_def)
    then show ?thesis
    proof cases
      case 1
      from source_keeps_control [OF this inv(1)] source_keeps_flows [OF this inv(2)] source_keeps_plan [OF this inv(3)]
        source_leaves_workers [OF this] inv(4,5)
      show ?thesis by (simp add: exporter_inv_def)
    next
      case 2
      from saver_keeps_control [OF this inv(1) assms(3)] saver_keeps_flows [OF this inv(2) assms(3)]
        saver_keeps_simulation [OF this inv(4) assms(3)] saver_leaves_others [OF this] inv(3,5) plan_same
      show ?thesis by (auto simp: exporter_inv_def)
    next
      case 3
      from uploader_keeps_control [OF this inv(1) assms(3)] uploader_keeps_flows [OF this inv(2) assms(3)]
        uploader_keeps_simulation [OF this inv(5) assms(3)] uploader_leaves_others [OF this] inv(3,4) plan_same
      show ?thesis by (auto simp: exporter_inv_def)
    qed
  next
    case main_turn
    from main_keeps_control [OF this(2) inv(1)] main_keeps_flows [OF this(2) inv(2,1)] main_keeps_rest [OF this(2) assms(2)]
    show ?thesis by (simp add: exporter_inv_def)
  next
    case detached_worker
    then show ?thesis using assms(3) by simp
  qed
qed

lemma reachable_inv:
  assumes "exporter_reachable P s" and "et_dead s = None"
  shows "exporter_inv P s"
proof -
  from assms(1) obtain s0 where start: "exporter_start P = Returns s0" and run: "(exporter_step P)\<^sup>*\<^sup>* s0 s"
    by (auto simp: exporter_reachable_def)
  from run have "et_dead s = None \<longrightarrow> exporter_inv P s"
  proof (induction rule: rtranclp_induct)
    case base
    then show ?case using start_inv [OF start] by simp
  next
    case (step s1 s2)
    moreover have "et_dead s1 = None" using step.hyps(2) by (cases rule: exporter_step.cases)
    ultimately show ?case using step_keeps_inv by blast
  qed
  with assms(2) show ?thesis by simp
qed

lemma saver_ended:
  assumes "saver_simulates P s v" and "sv_pc v = SvEnd st"
  shows "saver_function P s (sv_env v) (Suc (sv_file v + fuel)) (sv_taken v @ rest) = Some (Returns (st, sv_log v))"
proof -
  have "knows P (sv_env v) v" using assms(1) by (simp add: saver_simulates_def knows_def)
  then have "saver_function P s (sv_env v) (Suc (sv_file v + fuel)) (sv_taken v @ rest) = saver_left P (sv_env v) fuel rest v"
    using assms by (simp add: saver_simulates_def)
  with assms(2) show ?thesis by (simp add: saver_left_def Let_def)
qed

lemma uploader_ended:
  assumes "uploader_simulates P s u" and "up_pc u = UpEnd st"
  shows "uploader_function P s (up_taken u @ rest) = Returns (st, up_events u)"
  using assms by (simp add: uploader_simulates_def uploader_left_def)

section \<open>The values of the source\<close>

text \<open>
  What the source offers is a list here. For the source that runs a pipeline it is the images of the buffers
  delivered until the saver has completed, and then the end of the stream: its function offers them to the
  channel one by one, and so does the source thread, when no other has a turn in between.
\<close>

lemma gst_source_offers:
  assumes "list_all2 (\<lambda>b img. ToRawImage G b = Returns (Inr img)) bs imgs"
  shows "gst_source_images G name (map (Pair False) bs @ late) q =
    gst_source_images G name late (fold offer_image (map Inr imgs) q)"
  using assms
  by (induction arbitrary: q rule: list_all2_induct) (simp_all add: gst_source_callback_def)

lemma gst_source_stops:
  assumes "ToRawImage G b = Returns (Inr img)"
  shows "gst_source_images G name ((True, b) # bs) q = Returns q"
  using assms by (simp add: gst_source_callback_def CancelledError_def)

lemma gst_source_values:
  assumes "status_ok (gst_source_ValidatePreconditions name pipeline (Some c))"
    and "Runner_Create X \<lparr>gro_processing_pipeline_string = DecideProcessingPipeline pipeline,
      gro_appsrc_caps_string = [], gro_receiver_callback = True, gro_appsink_sync = True\<rparr> = Returns (Inr r)"
    and "list_all2 (\<lambda>b img. ToRawImage G b = Returns (Inr img)) bs imgs"
    and "late = [] \<or> (\<exists>b img more. late = (True, b) # more \<and> ToRawImage G b = Returns (Inr img))"
  shows "GstreamerInputSource_WorkImpl G X name pipeline (Some c) (map (Pair False) bs @ late) q =
    Returns (OkStatus, fold offer_image (map Inr imgs @ [Inl (NotFoundError ''Reached EOS.'')]) q)"
proof -
  have "gst_source_images G name (map (Pair False) bs @ late) q = Returns (fold offer_image (map Inr imgs) q)"
    using assms(4) gst_source_stops by (auto simp: gst_source_offers [OF assms(3)])
  then show ?thesis using assms(1,2) by (simp add: GstreamerInputSource_WorkImpl_def)
qed

lemma source_thread_offers:
  assumes "et_source_pc s = SoWork xs"
  obtains s' where "(source_step P)\<^sup>*\<^sup>* s s'" "et_source_pc s' = SoWork []" "et_offered s' = et_offered s @ xs"
    "et_images s' = fold offer_image xs (et_images s)"
  using assms
proof (induction xs arbitrary: s thesis)
  case Nil
  from Nil(1) [of s] Nil(2) show ?case by simp
next
  case (Cons x xs)
  obtain room q cv where e: "TryEmplace x (et_images s) = (room, q, cv)" by (cases "TryEmplace x (et_images s)") auto
  let ?s = "s\<lparr>et_source_pc := SoWork xs, et_images := q, et_offered := et_offered s @ [x],
      et_accepted := et_accepted s @ (if room then [x] else [])\<rparr>"
  obtain s' where s': "(source_step P)\<^sup>*\<^sup>* ?s s'" "et_source_pc s' = SoWork []" "et_offered s' = et_offered ?s @ xs"
    "et_images s' = fold offer_image xs (et_images ?s)"
    by (rule Cons.IH [of ?s]) simp_all
  have "source_step P s ?s" using Cons.prems(2) e by (rule source_offers)
  then have "(source_step P)\<^sup>*\<^sup>* s s'" using s'(1) by (rule converse_rtranclp_into_rtranclp)
  moreover have "offer_image x (et_images s) = q" using e by (simp add: offer_image_def)
  ultimately show ?case using s' Cons.prems(1) [of s'] by simp
qed

end
