(* ===== verification/Exporter_Runs.thy ===== *)
theory Exporter_Runs
  imports Exporter_Threads
begin

text \<open>
  What the threads of \<open>Exporter_Threads\<close> achieve: that a run which reports success has exported what was
  kept, that every run can be finished, and the two races of the code, each on a concrete run. The turns
  of the threads are also given as functions, so that a run can be evaluated.
\<close>

section \<open>How the workers end\<close>

text \<open>
  The end of the paths is sent last. An uploader that ends well has taken an end; the saver has seen an
  uploader that completed early only if that one failed or made its end up.
\<close>

definition forwarding_place :: "saver_pc \<Rightarrow> bool" where
  "forwarding_place pc \<longleftrightarrow> (\<exists>again. pc = SvCheck again \<or> pc = SvForward again)"

definition told_end :: "saver_pc \<Rightarrow> bool" where
  "told_end pc \<longleftrightarrow> (\<exists>st. pc = SvReturn st \<or> pc = SvEnd st)"

definition ended_well :: "uploader_pc \<Rightarrow> bool" where
  "ended_well pc \<longleftrightarrow> (\<exists>st. (pc = UpReturn st \<or> pc = UpEnd st) \<and> status_ok st)"

definition finishing :: "saver_pc \<Rightarrow> bool" where
  "finishing pc \<longleftrightarrow> pc = SvCheck False \<or> pc = SvForward False \<or>
     (\<exists>st. (pc = SvFlush False st \<or> pc = SvEos st \<or> pc = SvReturn st \<or> pc = SvEnd st) \<and> status_ok st)"

definition ends_inv :: "exporter_params \<Rightarrow> saver_thread \<Rightarrow> uploader_thread \<Rightarrow> bool" where
  "ends_inv P v u \<longleftrightarrow>
     (forwarding_place (sv_pc v) \<longrightarrow> vs_forward_file_paths (saver_opts P)) \<and>
     ((\<exists>e. Inl e \<in> set (sl_forwarded (sv_log v))) \<longrightarrow> told_end (sv_pc v)) \<and>
     (ended_well (up_pc u) \<longrightarrow> gu_do_work (uploader_opts P) \<longrightarrow> (\<exists>e. Inl e \<in> set (up_taken u))) \<and>
     ((\<exists>i. se_dst_completed (sv_env v) i) \<longrightarrow>
        (\<exists>st. up_pc u = UpEnd st \<and> (status_ok st \<longrightarrow> up_taken u \<noteq> up_popped u))) \<and>
     (finishing (sv_pc v) \<longrightarrow> (\<exists>e. Inl e \<in> set (sv_taken v)) \<or> (\<exists>i. se_dst_completed (sv_env v) i))"

lemma work_iff_forward [simp]: "gu_do_work (uploader_opts P) = vs_forward_file_paths (saver_opts P)"
  by (simp add: uploader_opts_def saver_opts_def exporter_uploader_options_def exporter_saver_options_def)

lemma saver_takes_env [simp]:
  "sv_env (et_saver_thread (saver_takes P x s)) = sv_env (et_saver_thread s)"
  "sv_log (et_saver_thread (saver_takes P x s)) = sv_log (et_saver_thread s)"
  by (simp_all add: saver_takes_def Let_def saver_update_def split: outcome.split)

lemma after_take_places:
  assumes "after_take x pc"
  shows "\<not> forwarding_place pc" "\<not> told_end pc" "finishing pc \<Longrightarrow> \<exists>e. x = Inl e"
  using assms by (auto simp: after_take_def forwarding_place_def told_end_def finishing_def)

lemma saver_takes_ends:
  assumes "ends_inv P (et_saver_thread s) u" and "\<not> told_end (sv_pc (et_saver_thread s))"
    and "et_dead (saver_takes P x s) = None"
  shows "ends_inv P (et_saver_thread (saver_takes P x s)) u"
proof -
  obtain v where v: "et_saver_thread (saver_takes P x s) = v" and "after_take x (sv_pc v)"
    "sv_taken v = sv_taken (et_saver_thread s) @ [x]" "sv_log v = sv_log (et_saver_thread s)"
    using saver_takes_only [OF assms(3)] by auto
  moreover have "sv_env v = sv_env (et_saver_thread s)" using v saver_takes_env by metis
  moreover note after_take_places [OF \<open>after_take x (sv_pc v)\<close>]
  ultimately show ?thesis unfolding v using assms(1,2) by (auto simp: ends_inv_def)
qed

lemma saver_keeps_ends:
  assumes "saver_step P s s'" and "ends_inv P (et_saver_thread s) (et_uploader_thread s)" and "exporter_inv P s"
    and "et_dead s' = None"
  shows "ends_inv P (et_saver_thread s') (et_uploader_thread s')"
  using assms
proof (induction rule: saver_step.induct)
  case (saver_pops s x q)
  then show ?case by (simp, intro saver_takes_ends) (auto simp: ends_inv_def told_end_def finishing_def)
next
  case (saver_makes_end s)
  then show ?case by (simp, intro saver_takes_ends) (auto simp: told_end_def)
next
  case (saver_checks s again completed)
  let ?v = "et_saver_thread s" and ?u = "et_uploader_thread s"
  have quiet: "\<forall>e. Inl e \<notin> set (sl_forwarded (sv_log ?v))" and fwd: "vs_forward_file_paths (saver_opts P)"
    using saver_checks by (auto simp: ends_inv_def told_end_def forwarding_place_def)
  have "\<exists>st. up_pc ?u = UpEnd st \<and> (status_ok st \<longrightarrow> up_taken ?u \<noteq> up_popped ?u)" if completed
  proof -
    have "control P s" "flows s" using saver_checks.prems(2) by (simp_all add: exporter_inv_def)
    moreover have "is_completed (et_uploader s)"
      using saver_checks.hyps(2) that by (simp add: path_channel_def ch_IsDstCompleted_def cs_IsCompleted_def)
    moreover have "up_pc ?u \<noteq> UpIdle"
      using \<open>control P s\<close> saver_checks.hyps(1) by (auto simp: control_def main_order_def split: main_pc.splits)
    ultimately obtain st where st: "up_pc ?u = UpEnd st"
      by (auto simp: control_def uploader_signal_def split: uploader_pc.splits)
    moreover have "up_taken ?u \<noteq> up_popped ?u" if "status_ok st"
    proof -
      obtain e where "Inl e \<in> set (up_taken ?u)"
        using saver_checks.prems(1) st \<open>status_ok st\<close> fwd by (auto simp: ends_inv_def ended_well_def)
      with quiet \<open>flows s\<close> show ?thesis by (auto simp: flows_def)
    qed
    ultimately show ?thesis by blast
  qed
  moreover have "completed" if "se_dst_completed (sv_env ?v) i" for i
  proof -
    from saver_checks.prems(1) that have "\<exists>st. up_pc ?u = UpEnd st" by (auto simp: ends_inv_def)
    then have "is_completed (et_uploader s)"
      using saver_checks.prems(2) by (auto simp: exporter_inv_def control_def uploader_signal_def)
    with saver_checks.hyps(2) show ?thesis by (simp add: path_channel_def ch_IsDstCompleted_def cs_IsCompleted_def)
  qed
  ultimately show ?case
    using saver_checks.prems(1) saver_checks.hyps(1)
    by (auto simp: ends_inv_def see_uploader_def forwarding_place_def told_end_def finishing_def split: if_splits)
qed (auto simp: ends_inv_def forwarding_place_def told_end_def finishing_def saver_next_file_def log_removed_def log_file_def log_forwarded_def
      split: if_splits)

lemma uploader_keeps_ends:
  assumes "uploader_step P s s'" and "ends_inv P (et_saver_thread s) (et_uploader_thread s)" and "et_dead s' = None"
  shows "ends_inv P (et_saver_thread s') (et_uploader_thread s')"
  using assms
proof (induction rule: uploader_step.induct)
  case (uploader_starts s)
  then show ?case by (auto simp: ends_inv_def ended_well_def OkStatus_def status_ok_def)
next
  case (uploader_connects s)
  moreover have "\<not> status_ok (gcs_client_error n m)" for n m
    by (simp add: gcs_client_error_def UnknownError_def mk_Status_def status_ok_def)
  ultimately show ?case by (auto simp: ends_inv_def ended_well_def split: option.splits)
next
  case (uploader_pops s x q)
  then show ?case
    by (auto simp: ends_inv_def ended_well_def uploader_takes_def Let_def split: sum.splits if_splits)
next
  case (uploader_makes_end s)
  then show ?case by (auto simp: ends_inv_def ended_well_def uploader_takes_def)
qed (auto simp: ends_inv_def ended_well_def)

lemma source_keeps_ends:
  "source_step P s s' \<Longrightarrow> ends_inv P (et_saver_thread s) (et_uploader_thread s) \<Longrightarrow>
   ends_inv P (et_saver_thread s') (et_uploader_thread s')"
  by (induction rule: source_step.induct) auto

lemma main_keeps_ends:
  "main_step P s s' \<Longrightarrow> exporter_inv P s \<Longrightarrow> ends_inv P (et_saver_thread s) (et_uploader_thread s) \<Longrightarrow>
   ends_inv P (et_saver_thread s') (et_uploader_thread s')"
  by (induction rule: main_step.induct)
     (auto simp: ends_inv_def exporter_inv_def control_def main_order_def forwarding_place_def told_end_def finishing_def ended_well_def)

lemma reachable_ends:
  assumes "exporter_reachable P s" and "et_dead s = None"
  shows "ends_inv P (et_saver_thread s) (et_uploader_thread s)"
proof -
  from assms(1) obtain s0 where start: "exporter_start P = Returns s0" and run: "(exporter_step P)\<^sup>*\<^sup>* s0 s"
    by (auto simp: exporter_reachable_def)
  from run have "et_dead s = None \<longrightarrow> ends_inv P (et_saver_thread s) (et_uploader_thread s)"
  proof (induction rule: rtranclp_induct)
    case base
    from start show ?case
      by (auto simp: exporter_start_def ends_inv_def forwarding_place_def told_end_def ended_well_def finishing_def no_files_def)
  next
    case (step s1 s2)
    have alive: "et_dead s1 = None" using step.hyps(2) by (cases rule: exporter_step.cases)
    have "exporter_reachable P s1" using start step.hyps(1) by (auto simp: exporter_reachable_def)
    note inv = reachable_inv [OF this alive]
    show ?case
    proof
      assume dead: "et_dead s2 = None"
      from step.hyps(2) show "ends_inv P (et_saver_thread s2) (et_uploader_thread s2)"
      proof (cases rule: exporter_step.cases)
        case worker_turn
        then show ?thesis
          using step.IH alive inv dead source_keeps_ends saver_keeps_ends uploader_keeps_ends by (auto simp: worker_moves_def)
      next
        case main_turn
        then show ?thesis using step.IH alive inv main_keeps_ends by blast
      next
        case detached_worker
        then show ?thesis using dead by simp
      qed
    qed
  qed
  with assms(2) show ?thesis by simp
qed

section \<open>A run that reports success\<close>

lemma subseq_one_end:
  "subseq xs (map Inr ys @ [Inl e]) \<Longrightarrow> Inl e' \<in> set xs \<Longrightarrow> \<exists>zs. subseq zs ys \<and> xs = map Inr zs @ [Inl e]"
proof (induction ys arbitrary: xs)
  case Nil
  then show ?case by (cases xs) (auto split: if_splits elim: list_emb.cases)
next
  case (Cons y ys)
  from Cons.prems obtain x more where xs: "xs = x # more" by (cases xs) auto
  show ?case
  proof (cases "x = Inr y")
    case True
    then have "subseq more (map Inr ys @ [Inl e])" "Inl e' \<in> set more" using Cons.prems xs by auto
    from Cons.IH [OF this] obtain zs where "subseq zs ys" "more = map Inr zs @ [Inl e]" by blast
    then show ?thesis using xs True by (intro exI [of _ "y # zs"]) simp
  next
    case False
    then have "subseq xs (map Inr ys @ [Inl e])" using Cons.prems(1) xs by simp
    from Cons.IH [OF this Cons.prems(2)] obtain zs where "subseq zs ys" "xs = map Inr zs @ [Inl e]" by blast
    then show ?thesis by (intro exI [of _ zs]) (simp add: list_emb_Cons)
  qed
qed

lemma uploads_until_end:
  assumes "upload_files name opts W c k (map Inr paths @ [Inl e]) lg = Returns (st, lg')" and "status_ok st"
  shows "\<exists>es. lg' = lg @ es \<and> map fst (uploads es) = paths"
  using assms(1)
proof (induction paths arbitrary: c k lg)
  case Nil
  then show ?case by (auto simp: uploads_def split: if_splits)
next
  case (Cons p paths)
  let ?ok = "ge_upload_ok W k" and ?obj = "GenerateGcsObjectName opts p" and ?b = "gu_gcs_bucket_name opts"
  let ?es = "if ?ok then [Uploaded p ?b ?obj] @ (if gu_keep_local opts then [] else [RemovedLocal p]) else [UploadFailed p ?b ?obj]"
  have "\<not> status_ok (gcs_client_error n m)" for n m
    by (simp add: gcs_client_error_def UnknownError_def mk_Status_def status_ok_def)
  with Cons.prems assms(2) have "upload_files name opts W (if ?ok then c else Suc c) (Suc k) (map Inr paths @ [Inl e]) (lg @ ?es) =
      Returns (st, lg')"
    by (auto simp: Let_def split: if_splits option.splits)
  from Cons.IH [OF this] obtain es where "lg' = (lg @ ?es) @ es" "map fst (uploads es) = paths" by blast
  moreover have "map fst (uploads ?es) = [p]" by (simp add: uploads_def)
  ultimately show ?case by (intro exI [of _ "?es @ es"]) simp
qed

lemma run_succeeds:
  assumes "fst (VideoExporter_Run src r r' x) = OkStatus" and "\<not> xp_has_been_run x"
  shows "status_ok (cs_status src)" "fst r" "status_ok (cs_status (snd r))" "fst r'" "status_ok (cs_status (snd r'))"
proof -
  have bad: "\<not> status_ok (DeadlineExceededError m)" "UnknownError m \<noteq> OkStatus" for m
    by (simp_all add: DeadlineExceededError_def UnknownError_def mk_Status_def status_ok_def OkStatus_def)
  then have joined: "fst j \<and> status_ok (cs_status (snd j))" if "status_ok (join_status j name)" for j name
    using that by (simp add: join_status_def worker_GetStatus_def cs_GetStatus_def split: if_splits)
  from assms bad have "status_ok (cs_status src)" "status_ok (join_status r ''LocalVideoSaver'')"
    "status_ok (join_status r' ''GcsUploader'')"
    by (auto simp: VideoExporter_Run_def Let_def worker_GetStatus_def cs_GetStatus_def split: if_splits)
  with joined show "status_ok (cs_status src)" "fst r" "status_ok (cs_status (snd r))" "fst r'" "status_ok (cs_status (snd r'))"
    by blast+
qed

lemma forwarded_are_names:
  "\<exists>ps. forwarded_paths opts V j files = map Inr ps \<and> subseq ps (map fst files) \<and>
     (vs_forward_file_paths opts \<longrightarrow> (\<forall>i. se_room V i) \<longrightarrow> ps = map fst files)"
proof (induction files arbitrary: j)
  case Nil
  then show ?case by simp
next
  case (Cons f fs)
  from Cons.IH [of "Suc j"] obtain ps where ps: "forwarded_paths opts V (Suc j) fs = map Inr ps" "subseq ps (map fst fs)"
    "vs_forward_file_paths opts \<longrightarrow> (\<forall>i. se_room V i) \<longrightarrow> ps = map fst fs" by blast
  then show ?case
    by (intro exI [of _ "(if vs_forward_file_paths opts \<and> se_room V j then [fst f] else []) @ ps"]) auto
qed

text \<open>An end that is last in a sequence of values and has been popped leaves nothing behind it.\<close>

lemma end_popped:
  assumes "xs @ ys = map Inr zs @ tail" and "tail \<in> {[], [Inl e]}" and "Inl e' \<in> set xs"
  shows "ys = [] \<and> tail = [Inl e]"
proof -
  have no_end: "Inl e' \<notin> set (map Inr zs)" by auto
  then have tail: "tail = [Inl e]" using assms by (metis Un_iff append_Nil2 insert_iff empty_iff set_append)
  have "ys = []"
  proof (cases ys rule: rev_cases)
    case (snoc ys' y)
    with assms(1) tail have "xs @ ys' = map Inr zs" by (metis append.assoc append1_eq_conv)
    with assms(3) no_end show ?thesis by (metis Un_iff set_append)
  qed
  with tail show ?thesis by simp
qed

lemma uploader_uploads_all:
  assumes "uploader_function P s (map Inr paths @ [Inl e]) = Returns (st, es)" and "status_ok st"
    and "gu_do_work (uploader_opts P)"
  shows "map fst (uploads es) = paths"
proof -
  have "\<not> status_ok (gcs_client_error n m)" for n m
    by (simp add: gcs_client_error_def UnknownError_def mk_Status_def status_ok_def)
  then have "upload_files ''GcsUploader'' (uploader_opts P) (ep_gcs P) 0 0 (map Inr paths @ [Inl e]) [] = Returns (st, es)"
    using assms by (auto simp: uploader_function_def GcsUploader_WorkImpl_def split: if_splits option.splits)
  from uploads_until_end [OF this assms(2)] show ?thesis by auto
qed

text \<open>What is known when \<open>Run\<close> has returned \<open>OK\<close> and no worker made its end up.\<close>

lemma successful_ends:
  assumes "exporter_reachable P s" and "et_dead s = None" and "et_main s = MDone OkStatus"
    and "\<not> xp_has_been_run (ep_exporter P)" and "up_taken (et_uploader_thread s) = up_popped (et_uploader_thread s)"
  obtains st st' where "sv_pc (et_saver_thread s) = SvEnd st" "status_ok st"
    "up_pc (et_uploader_thread s) = UpEnd st'" "status_ok st'" "et_source_pc s = SoEnd"
    "\<forall>i. \<not> se_dst_completed (sv_env (et_saver_thread s)) i" "\<exists>e. Inl e \<in> set (sv_taken (et_saver_thread s))"
proof -
  note inv = reachable_inv [OF assms(1,2)] and ends = reachable_ends [OF assms(1,2)]
  obtain r r' where "et_source_pc s = SoEnd" and r: "joined_saver r (sv_pc (et_saver_thread s))"
    "joined_uploader r' (up_pc (et_uploader_thread s))"
    "OkStatus = fst (VideoExporter_Run (ended_with (ep_source_status P)) r r' (ep_exporter P))"
    using inv assms(3) by (auto simp: exporter_inv_def control_def main_order_def)
  note ok = run_succeeds [OF r(3) [symmetric] assms(4)]
  from r(1,2) ok obtain st st' where pcs: "sv_pc (et_saver_thread s) = SvEnd st" "status_ok st"
    "up_pc (et_uploader_thread s) = UpEnd st'" "status_ok st'"
    by (auto simp: joined_saver_def joined_uploader_def)
  moreover from ends pcs assms(5) have none: "\<forall>i. \<not> se_dst_completed (sv_env (et_saver_thread s)) i"
    by (auto simp: ends_inv_def)
  moreover from ends pcs none have "\<exists>e. Inl e \<in> set (sv_taken (et_saver_thread s))"
    by (auto simp: ends_inv_def finishing_def)
  ultimately show ?thesis using that \<open>et_source_pc s = SoEnd\<close> by blast
qed

lemma saver_function_images:
  assumes "saver_function P s V (Suc (length imgs) + extra) (map Inr imgs @ [Inl e]) = Some (Returns (st, lg))"
    and "status_ok st" and "status_code_of e = kNotFound" and "\<forall>j. \<not> se_dst_completed V j"
    and "accepts_video (ep_runtime P) caps" and "\<forall>img \<in> set imgs. convertible (ep_gst P) caps buf img"
  shows "\<exists>full last. map frames_of (sl_files lg) = full @ [last] \<and> sl_removed lg = [] \<and>
    split_into_files (nat (sint (vs_max_frames_per_file (saver_opts P)))) (video_path (saver_opts P) V) 0 (map buf imgs) full last \<and>
    (\<exists>tail. sl_forwarded lg = forwarded_paths (saver_opts P) V 0 (full @ [last]) @ tail \<and> tail \<in> {[], [path_eos]})"
proof -
  let ?n = "nat (sint (vs_max_frames_per_file (saver_opts P)))"
  have pos: "0 < sint (vs_max_frames_per_file (saver_opts P))"
    using assms(1,2) saver_precheck_ok [of P] by (auto simp: saver_function_eq split: if_splits)
  then have n: "sint (vs_max_frames_per_file (saver_opts P)) = int ?n" "0 < ?n" by simp_all
  have 1: "ends_images [Inl e :: raw_image result]" using assms(3) by (auto simp: ends_images_def)
  have 2: "vs_forward_file_paths (saver_opts P) \<longrightarrow> (\<forall>j. \<not> se_dst_completed V j)" using assms(4) by simp
  have 3: "length imgs < Suc (length imgs) + extra" by simp
  from save_files_images [OF assms(5) 1 2 n assms(6) 3, of 0 no_files] obtain lg' j' full last where s:
    "save_files (ep_gst P) (ep_runtime P) (saver_opts P) V (Suc (length imgs) + extra) 0 (map Inr imgs @ [Inl e]) no_files =
       Some (Returns (OkStatus, lg', j'))"
    "map frames_of (sl_files lg') = map frames_of (sl_files no_files) @ full @ [last]"
    "sl_removed lg' = sl_removed no_files"
    "sl_forwarded lg' = sl_forwarded no_files @ forwarded_paths (saver_opts P) V 0 (full @ [last])"
    "split_into_files ?n (video_path (saver_opts P) V) 0 (map buf imgs) full last"
    by blast
  from assms(1) s(1) pos saver_precheck_ok [of P] have
    "lg = lg' \<or> lg = lg'\<lparr>sl_forwarded := sl_forwarded lg' @ [path_eos]\<rparr>"
    by (auto simp: saver_function_eq saver_result_def split: if_splits)
  with s(2-5) show ?thesis
    by (intro exI [of _ full] exI [of _ last]) (auto simp: no_files_def)
qed

section \<open>The run can always be finished\<close>

fun saver_rank :: "saver_pc \<Rightarrow> nat" where
  "saver_rank SvIdle = 9"
| "saver_rank SvStart = 8"
| "saver_rank SvPop = 7"
| "saver_rank SvTimedOut = 6"
| "saver_rank (SvFlush again st) = (if again then 10 else 5)"
| "saver_rank (SvCheck again) = (if again then 9 else 4)"
| "saver_rank (SvForward again) = (if again then 8 else 3)"
| "saver_rank (SvEos st) = 2"
| "saver_rank (SvReturn st) = 1"
| "saver_rank (SvEnd st) = 0"

fun uploader_rank :: "uploader_pc \<Rightarrow> nat" where
  "uploader_rank UpIdle = 6"
| "uploader_rank UpStart = 5"
| "uploader_rank UpConnect = 4"
| "uploader_rank UpPop = 3"
| "uploader_rank UpTimedOut = 2"
| "uploader_rank (UpReturn st) = 1"
| "uploader_rank (UpEnd st) = 0"

text \<open>What the saver and the uploader have still to do once the source has ended.\<close>

definition workers_left :: "exporter_threads \<Rightarrow> nat" where
  "workers_left s = 4 * (4 * length (q_items (et_images s)) + saver_rank (sv_pc (et_saver_thread s))) +
     3 * length (q_items (et_paths s)) + uploader_rank (up_pc (et_uploader_thread s))"

definition source_left :: "exporter_params \<Rightarrow> source_pc \<Rightarrow> nat" where
  "source_left P pc = (case pc of SoIdle \<Rightarrow> length (ep_values P) + 2 | SoWork xs \<Rightarrow> Suc (length xs) | SoEnd \<Rightarrow> 0)"

fun main_rank :: "main_pc \<Rightarrow> nat" where
  "main_rank MJoinSaver = 2"
| "main_rank (MJoinUploader r) = 1"
| "main_rank (MDone st) = 0"
| "main_rank _ = 3"

definition run_left :: "exporter_params \<Rightarrow> exporter_threads \<Rightarrow> nat" where
  "run_left P s = main_rank (et_main s) + 17 * source_left P (et_source_pc s) + workers_left s"

lemma saver_takes_rank:
  assumes "et_dead (saver_takes P x s) = None"
  shows "saver_rank (sv_pc (et_saver_thread (saver_takes P x s))) \<le> (case x of Inl e \<Rightarrow> 5 | Inr img \<Rightarrow> 10)"
  using saver_takes_only [OF assms] by (auto simp: after_take_def split: sum.split)

lemma uploader_takes_rank:
  assumes "et_dead (uploader_takes P x s) = None"
  shows "uploader_rank (up_pc (et_uploader_thread (uploader_takes P x s))) \<le> (case x of Inl e \<Rightarrow> 1 | Inr path \<Rightarrow> 4)"
  using uploader_takes_only [OF assms] by (auto simp: after_path_def split: sum.split)

lemma emplace_length: "TryEmplace x q = (room, q', cv) \<Longrightarrow> length (q_items q') \<le> Suc (length (q_items q))"
  by (drule emplace_items) simp

lemma saver_decreases:
  assumes "saver_step P s s'" and "is_completed (et_source s)" and "et_dead s' = None"
  shows "workers_left s' < workers_left s"
  using assms
proof (induction rule: saver_step.induct)
  case (saver_pops s x q)
  let ?s1 = "saver_update (\<lambda>v. v\<lparr>sv_popped := sv_popped v @ [x]\<rparr>) (s\<lparr>et_images := q\<rparr>)"
  have "saver_rank (sv_pc (et_saver_thread (saver_takes P x ?s1))) \<le> 10"
    using saver_takes_rank [OF saver_pops.prems(2)] by (simp split: sum.splits)
  moreover have "length (q_items (et_images s)) = Suc (length (q_items q))" using get_items [OF saver_pops.hyps(2)] by simp
  ultimately show ?case using saver_pops.hyps by (simp add: workers_left_def)
next
  case (saver_makes_end s)
  from saver_takes_rank [OF saver_makes_end.prems(2)] saver_makes_end.hyps show ?case by (simp add: workers_left_def)
next
  case (saver_retries s)
  then show ?case by (simp add: image_channel_def ch_IsSrcCompleted_def cs_IsCompleted_def)
next
  case (saver_forwards s again room q cv)
  then show ?case using emplace_length [OF saver_forwards.hyps(2)]
    by (auto simp: workers_left_def saver_next_file_def log_forwarded_def split: if_splits)
next
  case (saver_tells_end s st room q cv)
  then show ?case using emplace_length [OF saver_tells_end.hyps(3)]
    by (simp add: workers_left_def log_forwarded_def)
qed (auto simp: workers_left_def saver_next_file_def log_file_def log_removed_def)

lemma uploader_decreases:
  assumes "uploader_step P s s'" and "is_completed (et_saver s)" and "et_dead s' = None"
  shows "workers_left s' < workers_left s"
  using assms
proof (induction rule: uploader_step.induct)
  case (uploader_pops s x q)
  let ?s1 = "uploader_update (\<lambda>u. u\<lparr>up_popped := up_popped u @ [x]\<rparr>) (s\<lparr>et_paths := q\<rparr>)"
  have "uploader_rank (up_pc (et_uploader_thread (uploader_takes P x ?s1))) \<le> 4"
    using uploader_takes_rank [OF uploader_pops.prems(2)] by (simp split: sum.splits)
  moreover have "length (q_items (et_paths s)) = Suc (length (q_items q))" using get_items [OF uploader_pops.hyps(2)] by simp
  ultimately show ?case using uploader_pops.hyps by (simp add: workers_left_def)
next
  case (uploader_makes_end s)
  from uploader_takes_rank [OF uploader_makes_end.prems(2)] uploader_makes_end.hyps show ?case by (simp add: workers_left_def)
next
  case (uploader_retries s)
  then show ?case by (simp add: path_channel_def ch_IsSrcCompleted_def cs_IsCompleted_def)
qed (auto simp: workers_left_def split: option.split)

lemma saver_can_move: "saver_at_work (sv_pc (et_saver_thread s)) \<Longrightarrow> \<exists>s'. saver_step P s s'"
proof (cases "sv_pc (et_saver_thread s)")
  case SvPop
  then show ?thesis by (cases "fifo_get (et_images s)") (auto intro: saver_pops saver_times_out)
next
  case SvTimedOut
  from saver_makes_end [OF this] saver_retries [OF this] show ?thesis
    by (cases "is_completed (et_source s)") (auto simp: image_channel_def ch_IsSrcCompleted_def cs_IsCompleted_def)
next
  case (SvFlush again st)
  then show ?thesis
    by (cases "status_ok st"; cases "vs_forward_file_paths (saver_opts P)")
       (auto intro: saver_gives_up saver_flushes saver_flushes_forwarding)
next
  case (SvCheck again)
  then show ?thesis using saver_checks [OF SvCheck, of "cs_IsCompleted (et_uploader s)"]
    by (auto simp: path_channel_def ch_IsDstCompleted_def)
next
  case (SvForward again)
  then show ?thesis
    by (cases "TryEmplace (Inr (of_path (sv_open (et_saver_thread s))) :: string result) (et_paths s)")
       (auto intro: saver_forwards)
next
  case (SvEos st)
  then show ?thesis
    by (cases "vs_forward_file_paths (saver_opts P)"; cases "TryEmplace path_eos (et_paths s)")
       (auto intro: saver_leaves saver_tells_end)
qed (auto simp: saver_at_work_def intro: saver_starts saver_ends)

lemma uploader_can_move: "uploader_at_work (up_pc (et_uploader_thread s)) \<Longrightarrow> \<exists>s'. uploader_step P s s'"
proof (cases "up_pc (et_uploader_thread s)")
  case UpPop
  then show ?thesis by (cases "fifo_get (et_paths s)") (auto intro: uploader_pops uploader_times_out)
next
  case UpTimedOut
  from uploader_makes_end [OF this] uploader_retries [OF this] show ?thesis
    by (cases "is_completed (et_saver s)") (auto simp: path_channel_def ch_IsSrcCompleted_def cs_IsCompleted_def)
qed (auto simp: uploader_at_work_def intro: uploader_starts uploader_connects uploader_ends)

definition workers_ended :: "exporter_threads \<Rightarrow> bool" where
  "workers_ended s \<longleftrightarrow> (\<exists>st. sv_pc (et_saver_thread s) = SvEnd st) \<and> (\<exists>st. up_pc (et_uploader_thread s) = UpEnd st)"

text \<open>As long as \<open>Run\<close> has not returned, some thread can bring it nearer to its end.\<close>

lemma main_decreases:
  assumes "main_step P s s'" and "control P s"
  shows "et_dead s' = et_dead s \<and> run_left P s' < run_left P s"
  using assms
  by (induction rule: main_step.induct)
     (auto simp: control_def main_order_def run_left_def workers_left_def source_left_def)

lemma main_can_move:
  assumes "control P s" and "et_main s \<in> {MStartUploader, MStartSaver, MStartSource} \<or> et_source_pc s = SoEnd \<and> workers_ended s"
    and "\<not> run_returned s"
  shows "\<exists>s'. main_step P s s'"
proof -
  have joins: "fst (worker_Join [] (et_source s))" "fst (worker_Join [] (et_saver s))" "fst (worker_Join [] (et_uploader s))"
    if "et_source_pc s = SoEnd" "workers_ended s"
    using assms(1) that
    by (auto simp: control_def worker_Join_def workers_ended_def saver_signal_def uploader_signal_def)
  show ?thesis
  proof (cases "et_main s")
    case MStartUploader
    then show ?thesis by (blast intro: main_starts_uploader)
  next
    case MStartSaver
    then show ?thesis by (blast intro: main_starts_saver)
  next
    case MStartSource
    then show ?thesis by (blast intro: main_starts_source)
  next
    case MJoinSource
    with assms(2) joins(1) show ?thesis by (auto intro: main_joins_source)
  next
    case MJoinSaver
    with assms(2) joins(2) show ?thesis by (auto intro!: exI main_joins_saver)
  next
    case (MJoinUploader r)
    with assms(2) joins(3) show ?thesis by (auto intro!: exI main_returns)
  next
    case (MDone st)
    with assms(3) show ?thesis by (simp add: run_returned_def)
  qed
qed

lemma source_decreases:
  "source_step P s s' \<Longrightarrow> (\<forall>x xs. et_source_pc s = SoWork (x # xs) \<longrightarrow> et_offered s' \<noteq> et_offered s) \<Longrightarrow>
     et_main s' = et_main s \<and> run_left P s' < run_left P s"
proof (induction rule: source_step.induct)
  case (source_offers s x xs room q cv)
  with emplace_length [OF source_offers.hyps(2)] show ?case by (simp add: run_left_def source_left_def workers_left_def)
qed (auto simp: run_left_def source_left_def workers_left_def)

lemma source_can_offer:
  assumes "et_source_pc s = SoWork xs"
  shows "\<exists>s'. source_step P s s' \<and> (\<forall>x ys. et_source_pc s = SoWork (x # ys) \<longrightarrow> et_offered s' \<noteq> et_offered s)"
proof (cases xs)
  case Nil
  from source_ends [OF assms [unfolded Nil]] assms Nil show ?thesis by (intro exI conjI) auto
next
  case (Cons x ys)
  obtain room q cv where q: "TryEmplace x (et_images s) = (room, q, cv)" by (cases "TryEmplace x (et_images s)")
  from source_offers [OF assms [unfolded Cons] q] show ?thesis by (intro exI conjI) auto
qed

lemma worker_advances:
  assumes inv: "exporter_inv P s" and "et_main s \<notin> {MStartUploader, MStartSaver, MStartSource}"
    and "\<not> (et_source_pc s = SoEnd \<and> workers_ended s)"
  shows "\<exists>s'. worker_moves P s s' \<and> et_main s' = et_main s \<and> (et_dead s' = None \<longrightarrow> run_left P s' < run_left P s)"
proof -
  have at: "et_source_pc s \<noteq> SoIdle" "sv_pc (et_saver_thread s) \<noteq> SvIdle" "up_pc (et_uploader_thread s) \<noteq> UpIdle"
    using assms by (auto simp: exporter_inv_def control_def main_order_def split: main_pc.splits)
  show ?thesis
  proof (cases "et_source_pc s")
    case (SoWork xs)
    then show ?thesis using source_can_offer [OF SoWork] source_decreases unfolding worker_moves_def by meson
  next
    case SoEnd
    then have source: "is_completed (et_source s)" using inv by (simp add: exporter_inv_def control_def)
    show ?thesis
    proof (cases "\<exists>st. sv_pc (et_saver_thread s) = SvEnd st")
      case False
      then obtain s' where s': "saver_step P s s'" using saver_can_move at(2) by (fastforce simp: saver_at_work_def)
      moreover have "et_main s' = et_main s" using s' by (induction rule: saver_step.induct) simp_all
      ultimately show ?thesis
        using saver_decreases [OF s' source] saver_leaves_others [OF s'] by (auto simp: worker_moves_def run_left_def)
    next
      case True
      then have saver: "is_completed (et_saver s)" using inv by (auto simp: exporter_inv_def control_def saver_signal_def)
      have "\<forall>st. up_pc (et_uploader_thread s) \<noteq> UpEnd st" using assms(3) True SoEnd by (auto simp: workers_ended_def)
      then obtain s' where s': "uploader_step P s s'" using uploader_can_move at(3) by (fastforce simp: uploader_at_work_def)
      moreover have "et_main s' = et_main s" using s' by (induction rule: uploader_step.induct) simp_all
      ultimately show ?thesis
        using uploader_decreases [OF s' saver] uploader_leaves_others [OF s'] by (auto simp: worker_moves_def run_left_def)
    qed
  qed (use at in simp)
qed

lemma run_finishes:
  assumes "exporter_inv P s" and "et_dead s = None" and "\<not> run_returned s"
  shows "\<exists>s'. (exporter_step P)\<^sup>*\<^sup>* s s' \<and> (et_dead s' \<noteq> None \<or> run_returned s' \<and> workers_ended s')"
  using assms
proof (induction "run_left P s" arbitrary: s rule: less_induct)
  case less
  have go: ?case if step: "exporter_step P s s'" and smaller: "et_dead s' = None \<Longrightarrow> run_left P s' < run_left P s"
    and ended: "run_returned s' \<Longrightarrow> et_dead s' = None \<Longrightarrow> workers_ended s'" for s'
  proof (cases "et_dead s' = None \<and> \<not> run_returned s'")
    case True
    then obtain s'' where "(exporter_step P)\<^sup>*\<^sup>* s' s''" "et_dead s'' \<noteq> None \<or> run_returned s'' \<and> workers_ended s''"
      using less.hyps [of s'] smaller step_keeps_inv [OF step less.prems(1)] by blast
    with step show ?thesis by (meson converse_rtranclp_into_rtranclp)
  next
    case False
    with step ended show ?thesis by blast
  qed
  show ?case
  proof (cases "et_main s \<in> {MStartUploader, MStartSaver, MStartSource} \<or> et_source_pc s = SoEnd \<and> workers_ended s")
    case True
    have control: "control P s" using less.prems(1) by (simp add: exporter_inv_def)
    obtain s' where s': "main_step P s s'" using main_can_move [OF control True less.prems(3)] by blast
    have "workers_ended s'" if "run_returned s'"
      using s' that True by (cases rule: main_step.cases) (auto simp: run_returned_def workers_ended_def)
    with go [OF exporter_step.main_turn [OF less.prems(2) s']] main_decreases [OF s' control] show ?thesis by blast
  next
    case False
    then obtain s' where s': "worker_moves P s s'" "et_main s' = et_main s" "et_dead s' = None \<longrightarrow> run_left P s' < run_left P s"
      using worker_advances [OF less.prems(1)] by (auto simp del: split_paired_Ex)
    then have "\<not> run_returned s'" using less.prems(3) by (simp add: run_returned_def)
    with go [OF exporter_step.worker_turn [OF less.prems(2,3) s'(1)]] s'(3) show ?thesis by blast
  qed
qed

section \<open>Properties\<close>

text \<open>
  C10. Whatever the interleaving of the threads of \<open>Run\<close>. The images that found room in the channel are some
  of those that the source offered, in order; the source offers its values, of which it may skip
  some before the end when the saver has completed. The saver has popped the first of the kept images and the
  others wait; the same holds between saver and uploader. Each worker takes what it popped and at most one end
  that it made up; and the status, the files and the uploads with which it ends are those that its function,
  as modelled in sequence, computes from the values taken.
\<close>

theorem exporter_threads_refine_workers:
  assumes "exporter_reachable P s" and "et_dead s = None"
  shows "subseq (et_accepted s) (et_offered s) \<and> (\<exists>more. cut_values P (et_offered s @ more)) \<and>
    et_accepted s = sv_popped (et_saver_thread s) @ q_items (et_images s) \<and>
    sl_forwarded (sv_log (et_saver_thread s)) = up_popped (et_uploader_thread s) @ q_items (et_paths s) \<and>
    sv_taken (et_saver_thread s) \<in> {sv_popped (et_saver_thread s), sv_popped (et_saver_thread s) @ [Inl source_ended_error]} \<and>
    up_taken (et_uploader_thread s) \<in> {up_popped (et_uploader_thread s), up_popped (et_uploader_thread s) @ [Inl path_source_ended]} \<and>
    (\<forall>st. sv_pc (et_saver_thread s) = SvEnd st \<longrightarrow>
       LocalVideoSaver_WorkImpl (ep_gst P) (ep_runtime P) ''LocalVideoSaver'' (saver_opts P) (sv_env (et_saver_thread s))
         (Some (image_channel s)) (Some (path_channel s)) (Suc (sv_file (et_saver_thread s)))
         (sv_taken (et_saver_thread s)) = Some (Returns (st, sv_log (et_saver_thread s)))) \<and>
    (\<forall>st. up_pc (et_uploader_thread s) = UpEnd st \<longrightarrow>
       GcsUploader_WorkImpl ''GcsUploader'' (uploader_opts P) (ep_gcs P) (Some (path_channel s))
         (up_taken (et_uploader_thread s)) = Returns (st, up_events (et_uploader_thread s)))"
proof -
  let ?v = "et_saver_thread s" and ?u = "et_uploader_thread s"
  note inv = reachable_inv [OF assms]
  have plan: "plan_at P (et_source_pc s) (et_accepted s) (et_offered s)" using inv by (simp add: exporter_inv_def source_plan_def)
  then have "\<exists>more. cut_values P (et_offered s @ more)"
    by (intro exI [of _ "case et_source_pc s of SoIdle \<Rightarrow> ep_values P | SoWork xs \<Rightarrow> xs | SoEnd \<Rightarrow> []"])
       (auto simp: plan_at_def cut_values_def split: source_pc.splits)
  moreover have "LocalVideoSaver_WorkImpl (ep_gst P) (ep_runtime P) ''LocalVideoSaver'' (saver_opts P) (sv_env ?v)
         (Some (image_channel s)) (Some (path_channel s)) (Suc (sv_file ?v)) (sv_taken ?v) = Some (Returns (st, sv_log ?v))"
    if "sv_pc ?v = SvEnd st" for st
    using inv saver_ended [OF _ that, of P s 0 "[]"] by (simp add: exporter_inv_def saver_function_def)
  moreover have "GcsUploader_WorkImpl ''GcsUploader'' (uploader_opts P) (ep_gcs P) (Some (path_channel s)) (up_taken ?u) =
      Returns (st, up_events ?u)" if "up_pc ?u = UpEnd st" for st
    using inv uploader_ended [OF _ that, of P s "[]"] by (simp add: exporter_inv_def uploader_function_def)
  ultimately show ?thesis using inv plan by (auto simp: exporter_inv_def flows_def taken_of_def plan_at_def)
qed

text \<open>
  C9. When \<open>Run\<close> returns \<open>OK\<close> and neither the saver nor the uploader had to make up the end of its input: whatever
  the interleaving, the video files hold every image that found room in the channel, once and in order, in full files
  and a last one that is not; nothing waits in the channel, no file was removed, and when files are
  uploaded, an upload has been tried for every file name that found room in the second channel, in order,
  which are all names when it never was full.
\<close>

theorem exporter_run_complete:
  assumes "exporter_reachable P s" and "et_dead s = None" and "et_main s = MDone OkStatus"
    and "\<not> xp_has_been_run (ep_exporter P)"
    and "ep_values P = map Inr imgs @ [Inl eos]" and "status_code_of eos = kNotFound"
    and "accepts_video (ep_runtime P) caps" and "\<forall>img \<in> set imgs. convertible (ep_gst P) caps buf img"
    and "sv_taken (et_saver_thread s) = sv_popped (et_saver_thread s)"
    and "up_taken (et_uploader_thread s) = up_popped (et_uploader_thread s)"
  shows "\<exists>kept full last. subseq kept imgs \<and> et_accepted s = map Inr kept @ [Inl eos] \<and> q_items (et_images s) = [] \<and>
    map frames_of (sl_files (sv_log (et_saver_thread s))) = full @ [last] \<and> sl_removed (sv_log (et_saver_thread s)) = [] \<and>
    split_into_files (nat (sint (vs_max_frames_per_file (saver_opts P)))) (video_path (saver_opts P) (ep_env P)) 0
      (map buf kept) full last \<and>
    (vs_forward_file_paths (saver_opts P) \<longrightarrow>
       subseq (map fst (uploads (up_events (et_uploader_thread s)))) (map fst (full @ [last])) \<and>
       ((\<forall>i. se_room (sv_env (et_saver_thread s)) i) \<longrightarrow>
        map fst (uploads (up_events (et_uploader_thread s))) = map fst (full @ [last])))"
proof -
  let ?v = "et_saver_thread s" and ?u = "et_uploader_thread s"
  note inv = reachable_inv [OF assms(1,2)] and ends = reachable_ends [OF assms(1,2)]
  obtain st st' where st: "sv_pc ?v = SvEnd st" "status_ok st" "up_pc ?u = UpEnd st'" "status_ok st'" "et_source_pc s = SoEnd"
    and none: "\<forall>i. \<not> se_dst_completed (sv_env ?v) i" and "\<exists>e. Inl e \<in> set (sv_taken ?v)"
    by (rule successful_ends [OF assms(1-4,10)])
  then obtain e where e: "Inl e \<in> set (sv_popped ?v)" using assms(9) by auto
  have flows: "et_accepted s = sv_popped ?v @ q_items (et_images s)" "sl_forwarded (sv_log ?v) = up_popped ?u @ q_items (et_paths s)"
    using inv by (simp_all add: exporter_inv_def flows_def)
  have "subseq (et_accepted s) (et_offered s)" "cut_values P (et_offered s)"
    using inv st(5) by (simp_all add: exporter_inv_def source_plan_def plan_at_def)
  moreover from this(2) obtain k where "et_offered s = map Inr (take k imgs) @ [Inl eos]"
    using assms(5) by (fastforce simp: cut_values_def take_map less_Suc_eq_le intro: that [of "length imgs"])
  ultimately obtain kept where kept: "subseq kept (take k imgs)" "et_accepted s = map Inr kept @ [Inl eos]"
    using subseq_one_end [of "et_accepted s" "take k imgs" eos e] e flows(1) by auto
  then have sub: "subseq kept imgs" by (metis append_take_drop_id subseq_longer)
  have empty: "q_items (et_images s) = []"
    using end_popped [of "sv_popped ?v" "q_items (et_images s)" kept "[Inl eos]" eos e] flows(1) kept(2) e by simp
  have "saver_function P s (sv_env ?v) (Suc (length kept) + sv_file ?v) (map Inr kept @ [Inl eos]) = Some (Returns (st, sv_log ?v))"
    using saver_ended [OF _ st(1), of P s "length kept" "[]"] inv flows(1) kept(2) assms(9) empty
    by (simp add: exporter_inv_def add.commute)
  moreover have "\<forall>img \<in> set kept. convertible (ep_gst P) caps buf img"
    using assms(8) list_emb_set [OF sub] by blast
  ultimately obtain full last tail where files: "map frames_of (sl_files (sv_log ?v)) = full @ [last]" "sl_removed (sv_log ?v) = []"
    "split_into_files (nat (sint (vs_max_frames_per_file (saver_opts P)))) (video_path (saver_opts P) (sv_env ?v)) 0 (map buf kept) full last"
    and tail: "sl_forwarded (sv_log ?v) = forwarded_paths (saver_opts P) (sv_env ?v) 0 (full @ [last]) @ tail" "tail \<in> {[], [path_eos]}"
    using saver_function_images [OF _ st(2) assms(6) none assms(7)] by blast
  have path: "video_path (saver_opts P) (sv_env ?v) = video_path (saver_opts P) (ep_env P)"
    using inv by (auto simp: exporter_inv_def saver_simulates_def video_path_def)
  have "subseq (map fst (uploads (up_events ?u))) (map fst (full @ [last])) \<and>
      ((\<forall>i. se_room (sv_env ?v) i) \<longrightarrow> map fst (uploads (up_events ?u)) = map fst (full @ [last]))"
    if fwd: "vs_forward_file_paths (saver_opts P)"
  proof -
    obtain ps where ps: "forwarded_paths (saver_opts P) (sv_env ?v) 0 (full @ [last]) = map Inr ps"
      "subseq ps (map fst (full @ [last]))" "(\<forall>i. se_room (sv_env ?v) i) \<longrightarrow> ps = map fst (full @ [last])"
      using forwarded_are_names [of "saver_opts P" "sv_env ?v" 0 "full @ [last]"] fwd by blast
    obtain e' where "Inl e' \<in> set (up_popped ?u)"
      using ends st(3,4) fwd assms(10) by (auto simp: ends_inv_def ended_well_def)
    moreover have "up_popped ?u @ q_items (et_paths s) = map Inr ps @ tail" using flows(2) tail(1) ps(1) by simp
    ultimately have "up_popped ?u = map Inr ps @ [path_eos]"
      using end_popped [of "up_popped ?u" "q_items (et_paths s)" ps tail] tail(2) by (fastforce simp: path_eos_def)
    then have "uploader_function P s (map Inr ps @ [path_eos]) = Returns (st', up_events ?u)"
      using uploader_ended [OF _ st(3), of P s "[]"] inv assms(10) by (simp add: exporter_inv_def)
    then have "map fst (uploads (up_events ?u)) = ps"
      unfolding path_eos_def using uploader_uploads_all st(4) fwd by (metis work_iff_forward)
    with ps(2,3) show ?thesis by simp
  qed
  with sub kept(2) empty files path show ?thesis by auto
qed

text \<open>
  C18. From every state that the threads can reach before \<open>Run\<close> returns, the run can be finished: the scheduler
  can let it return with both workers at their end and no deadline passed, unless the process ends
  in \<open>ValueOrDie\<close> or in a library call. No thread is ever stuck waiting for one that waits for it.
\<close>

theorem exporter_run_returns:
  assumes "exporter_reachable P s" and "et_dead s = None" and "\<not> run_returned s"
  shows "\<exists>s'. exporter_reachable P s' \<and> (exporter_step P)\<^sup>*\<^sup>* s s' \<and>
    (et_dead s' \<noteq> None \<or> run_returned s' \<and> workers_ended s')"
proof -
  obtain s' where "(exporter_step P)\<^sup>*\<^sup>* s s'" "et_dead s' \<noteq> None \<or> run_returned s' \<and> workers_ended s'"
    using run_finishes [OF reachable_inv [OF assms(1,2)] assms(2,3)] by blast
  with assms(1) show ?thesis by (meson exporter_reachable_def rtranclp_trans)
qed

section \<open>The turns as functions\<close>

text \<open>Each thread is deterministic: given the state, its turn is a function, which evaluates.\<close>

definition source_next :: "exporter_params \<Rightarrow> exporter_threads \<Rightarrow> exporter_threads option" where
  "source_next P s = (case et_source_pc s of
      SoWork (x # xs) \<Rightarrow> (case TryEmplace x (et_images s) of (room, q, cv) \<Rightarrow>
        Some (s\<lparr>et_source_pc := SoWork xs, et_images := q, et_offered := et_offered s @ [x],
          et_accepted := et_accepted s @ (if room then [x] else [])\<rparr>))
    | SoWork [] \<Rightarrow> Some (s\<lparr>et_source_pc := SoEnd, et_source := worker_thread_end (ep_source_status P) (et_source s)\<rparr>)
    | _ \<Rightarrow> None)"

fun saver_next :: "exporter_params \<Rightarrow> exporter_threads \<Rightarrow> saver_pc \<Rightarrow> exporter_threads option" where
  "saver_next P s SvIdle = None"
| "saver_next P s SvStart = Some (saver_update (\<lambda>v. v\<lparr>sv_pc :=
     (if status_ok (saver_check P s) then SvPop else SvReturn (saver_check P s))\<rparr>) s)"
| "saver_next P s SvPop = (case fifo_get (et_images s) of
     Some (x, q) \<Rightarrow> Some (saver_takes P x (saver_update (\<lambda>v. v\<lparr>sv_popped := sv_popped v @ [x]\<rparr>) (s\<lparr>et_images := q\<rparr>)))
   | None \<Rightarrow> Some (saver_update (\<lambda>v. v\<lparr>sv_pc := SvTimedOut\<rparr>) s))"
| "saver_next P s SvTimedOut =
     (if is_completed (et_source s) then Some (saver_takes P (Inl source_ended_error) s)
      else Some (saver_update (\<lambda>v. v\<lparr>sv_pc := SvPop\<rparr>) s))"
| "saver_next P s (SvFlush again st) =
     (if \<not> status_ok st then Some (saver_update (\<lambda>v. (log_removed v)\<lparr>sv_pc := SvEos st\<rparr>) s)
      else if vs_forward_file_paths (saver_opts P) then Some (saver_update (\<lambda>v. (log_file v)\<lparr>sv_pc := SvCheck again\<rparr>) s)
      else Some (saver_update (\<lambda>v. saver_next_file again (log_file v)) s))"
| "saver_next P s (SvCheck again) = Some (saver_update (\<lambda>v. (see_uploader (is_completed (et_uploader s)) v)\<lparr>
     sv_pc := (if is_completed (et_uploader s) then SvEos OkStatus else SvForward again)\<rparr>) s)"
| "saver_next P s (SvForward again) = (case TryEmplace (Inr (of_path (sv_open (et_saver_thread s)))) (et_paths s) of
     (room, q, cv) \<Rightarrow> Some (saver_update (\<lambda>v. saver_next_file again (log_forwarded room (Inr (of_path (sv_open v))) v))
       (s\<lparr>et_paths := q\<rparr>)))"
| "saver_next P s (SvEos st) =
     (if \<not> vs_forward_file_paths (saver_opts P) then Some (saver_update (\<lambda>v. v\<lparr>sv_pc := SvReturn st\<rparr>) s)
      else (case TryEmplace path_eos (et_paths s) of (room, q, cv) \<Rightarrow>
        Some (saver_update (\<lambda>v. (log_forwarded room path_eos v)\<lparr>sv_pc := SvReturn st\<rparr>) (s\<lparr>et_paths := q\<rparr>))))"
| "saver_next P s (SvReturn st) =
     Some (saver_update (\<lambda>v. v\<lparr>sv_pc := SvEnd st\<rparr>) (s\<lparr>et_saver := worker_thread_end st (et_saver s)\<rparr>))"
| "saver_next P s (SvEnd st) = None"

fun uploader_next :: "exporter_params \<Rightarrow> exporter_threads \<Rightarrow> uploader_pc \<Rightarrow> exporter_threads option" where
  "uploader_next P s UpIdle = None"
| "uploader_next P s UpStart = Some (uploader_update (\<lambda>u. u\<lparr>up_pc :=
     (if \<not> gu_do_work (uploader_opts P) then UpReturn OkStatus
      else if \<not> status_ok (uploader_check P s) then UpReturn (uploader_check P s) else UpConnect)\<rparr>) s)"
| "uploader_next P s UpConnect = Some (uploader_update (\<lambda>u. u\<lparr>up_pc := (case ge_client_error (ep_gcs P) (up_client u) of
     Some m \<Rightarrow> UpReturn (gcs_client_error ''GcsUploader'' m) | None \<Rightarrow> UpPop)\<rparr>) s)"
| "uploader_next P s UpPop = (case fifo_get (et_paths s) of
     Some (x, q) \<Rightarrow> Some (uploader_takes P x (uploader_update (\<lambda>u. u\<lparr>up_popped := up_popped u @ [x]\<rparr>) (s\<lparr>et_paths := q\<rparr>)))
   | None \<Rightarrow> Some (uploader_update (\<lambda>u. u\<lparr>up_pc := UpTimedOut\<rparr>) s))"
| "uploader_next P s UpTimedOut =
     (if is_completed (et_saver s) then Some (uploader_takes P (Inl path_source_ended) s)
      else Some (uploader_update (\<lambda>u. u\<lparr>up_pc := UpPop\<rparr>) s))"
| "uploader_next P s (UpReturn st) =
     Some (uploader_update (\<lambda>u. u\<lparr>up_pc := UpEnd st\<rparr>) (s\<lparr>et_uploader := worker_thread_end st (et_uploader s)\<rparr>))"
| "uploader_next P s (UpEnd st) = None"

text \<open>The main thread, with a deadline that has passed or not.\<close>

fun main_next :: "exporter_params \<Rightarrow> bool \<Rightarrow> exporter_threads \<Rightarrow> main_pc \<Rightarrow> exporter_threads option" where
  "main_next P deadline s MStartUploader = Some (uploader_update (\<lambda>u. u\<lparr>up_pc := UpStart\<rparr>)
     (s\<lparr>et_main := MStartSaver, et_uploader := worker_Work (et_uploader s)\<rparr>))"
| "main_next P deadline s MStartSaver = Some (saver_update (\<lambda>v. v\<lparr>sv_pc := SvStart\<rparr>)
     (s\<lparr>et_main := MStartSource, et_saver := worker_Work (et_saver s)\<rparr>))"
| "main_next P deadline s MStartSource = Some (s\<lparr>et_main := MJoinSource, et_source := worker_Work (et_source s),
     et_source_pc := SoWork (ep_values P)\<rparr>)"
| "main_next P deadline s MJoinSource = (if is_completed (et_source s) then Some (s\<lparr>et_main := MJoinSaver\<rparr>) else None)"
| "main_next P deadline s MJoinSaver = (if is_completed (et_saver s) \<or> deadline
     then Some (s\<lparr>et_main := MJoinUploader (worker_Join [] (et_saver s))\<rparr>) else None)"
| "main_next P deadline s (MJoinUploader r) = (if is_completed (et_uploader s) \<or> deadline
     then Some (s\<lparr>et_main := MDone (fst (VideoExporter_Run (et_source s) r (worker_Join [] (et_uploader s)) (ep_exporter P)))\<rparr>)
     else None)"
| "main_next P deadline s (MDone st) = None"

datatype turn = MainTurn bool | SourceTurn | SaverTurn | UploaderTurn

definition turn_state :: "exporter_params \<Rightarrow> turn \<Rightarrow> exporter_threads \<Rightarrow> exporter_threads option" where
  "turn_state P t s = (if et_dead s \<noteq> None then None else case t of
      MainTurn deadline \<Rightarrow> main_next P deadline s (et_main s)
    | SourceTurn \<Rightarrow> if run_returned s then None else source_next P s
    | SaverTurn \<Rightarrow> if run_returned s then None else saver_next P s (sv_pc (et_saver_thread s))
    | UploaderTurn \<Rightarrow> if run_returned s then None else uploader_next P s (up_pc (et_uploader_thread s)))"

fun play :: "exporter_params \<Rightarrow> turn list \<Rightarrow> exporter_threads \<Rightarrow> exporter_threads option" where
  "play P [] s = Some s"
| "play P (t # ts) s = (case turn_state P t s of None \<Rightarrow> None | Some s' \<Rightarrow> play P ts s')"

lemma saver_next_step: "saver_next P s (sv_pc (et_saver_thread s)) = Some s' \<Longrightarrow> saver_step P s s'"
proof (cases "sv_pc (et_saver_thread s)")
  case (SvCheck again)
  assume "saver_next P s (sv_pc (et_saver_thread s)) = Some s'"
  with saver_checks [OF SvCheck, of "is_completed (et_uploader s)"] SvCheck show ?thesis
    by (simp add: path_channel_def ch_IsDstCompleted_def cs_IsCompleted_def)
next
  case SvStart
  assume "saver_next P s (sv_pc (et_saver_thread s)) = Some s'"
  with saver_starts [OF SvStart, of P] SvStart show ?thesis by simp
next
  case SvTimedOut
  assume "saver_next P s (sv_pc (et_saver_thread s)) = Some s'"
  with saver_makes_end [OF SvTimedOut, of P] saver_retries [OF SvTimedOut, of P] SvTimedOut show ?thesis
    by (simp add: image_channel_def ch_IsSrcCompleted_def cs_IsCompleted_def split: if_splits)
qed (auto split: option.splits prod.splits if_splits intro: saver_step.intros simp del: worker_ends)

lemma uploader_next_step: "uploader_next P s (up_pc (et_uploader_thread s)) = Some s' \<Longrightarrow> uploader_step P s s'"
proof (cases "up_pc (et_uploader_thread s)")
  case UpTimedOut
  assume "uploader_next P s (up_pc (et_uploader_thread s)) = Some s'"
  with uploader_makes_end [OF UpTimedOut, of P] uploader_retries [OF UpTimedOut, of P] UpTimedOut show ?thesis
    by (simp add: path_channel_def ch_IsSrcCompleted_def cs_IsCompleted_def split: if_splits)
next
  case UpStart
  assume "uploader_next P s (up_pc (et_uploader_thread s)) = Some s'"
  with uploader_starts [OF UpStart, of P] UpStart show ?thesis by simp
next
  case UpConnect
  assume "uploader_next P s (up_pc (et_uploader_thread s)) = Some s'"
  with uploader_connects [OF UpConnect, of P] UpConnect show ?thesis by simp
qed (auto split: option.splits prod.splits if_splits intro: uploader_step.intros simp del: worker_ends)

lemma main_next_step: "main_next P deadline s (et_main s) = Some s' \<Longrightarrow> main_step P s s'"
  by (cases "et_main s") (auto simp: worker_Join_def split: if_splits intro: main_step.intros)

lemma source_next_step: "source_next P s = Some s' \<Longrightarrow> source_step P s s'"
  by (auto simp: source_next_def split: source_pc.splits list.splits prod.splits intro: source_step.intros
      simp del: worker_ends)

lemma turn_state_step: "turn_state P t s = Some s' \<Longrightarrow> exporter_step P s s'"
  by (auto simp: turn_state_def worker_moves_def split: if_splits turn.splits
      dest!: saver_next_step uploader_next_step main_next_step source_next_step intro: exporter_step.intros)

lemma play_reachable:
  assumes "exporter_start P = Returns s0" and "play P ts s0 = Some s"
  shows "exporter_reachable P s"
proof -
  have "(exporter_step P)\<^sup>*\<^sup>* s1 s" if "play P ts s1 = Some s" for s1
    using that
  proof (induction ts arbitrary: s1)
    case (Cons t ts)
    then show ?case
      by (auto split: option.splits dest!: turn_state_step intro: converse_rtranclp_into_rtranclp)
  qed simp
  with assms show ?thesis by (auto simp: exporter_reachable_def)
qed

section \<open>Example runs\<close>

definition example_exporter_options :: "bool \<Rightarrow> exporter_options" where
  "example_exporter_options upload = \<lparr>ex_max_frames_per_file = 2, ex_output_dir = ''out'', ex_file_prefix = [],
     ex_upload_to_gcs = upload, ex_keep_local = True, ex_gcs_bucket_name = ''b'', ex_gcs_object_dir = [],
     ex_use_gstreamer_input_source = True, ex_gstreamer_input_pipeline = ''p'',
     ex_receiver_options = example_wrapper_options, ex_receiver_timeout = Seconds 10, ex_working_buffer_size = 9,
     ex_finalization_deadline = Seconds 10\<rparr>"

definition example_params :: "bool \<Rightarrow> exporter_params" where
  "example_params upload = \<lparr>ep_gst = unary_gst, ep_runtime = example_runtime,
     ep_exporter = \<lparr>xp_options = example_exporter_options upload, xp_has_been_run = False\<rparr>,
     ep_env = \<lparr>se_session = ''s'', se_time = show_nat, se_dst_completed = (\<lambda>_. False), se_room = (\<lambda>_. True)\<rparr>,
     ep_gcs = \<lparr>ge_client_error = (\<lambda>_. None), ge_upload_ok = (\<lambda>_. True)\<rparr>,
     ep_values = [Inr example_image, Inl (NotFoundError ''Reached EOS.'')], ep_source_status = OkStatus\<rparr>"

definition example_threads :: exporter_threads where
  "example_threads = \<lparr>et_main = MStartUploader, et_source_pc = SoIdle,
     et_saver_thread = \<lparr>sv_pc = SvIdle, sv_frame = 0, sv_file = 0, sv_open = no_file, sv_log = no_files,
       sv_popped = [], sv_taken = [],
       sv_env = \<lparr>se_session = ''s'', se_time = show_nat, se_dst_completed = (\<lambda>_. False), se_room = (\<lambda>_. True)\<rparr>\<rparr>,
     et_uploader_thread = \<lparr>up_pc = UpIdle, up_client = 0, up_try = 0, up_events = [], up_popped = [], up_taken = []\<rparr>,
     et_source = new_CompletionSignal, et_saver = new_CompletionSignal, et_uploader = new_CompletionSignal,
     et_images = \<lparr>q_capacity = 9, q_items = []\<rparr>, et_paths = \<lparr>q_capacity = 9, q_items = []\<rparr>,
     et_offered = [], et_accepted = [], et_dead = None\<rparr>"

lemma example_start: "exporter_start (example_params upload) = Returns example_threads"
  by (simp add: exporter_start_def example_params_def example_exporter_options_def Channel_def new_pc_queue_def
      example_threads_def)

lemmas example_evals = example_params_def example_exporter_options_def saver_opts_def uploader_opts_def
  exporter_saver_options_def exporter_uploader_options_def turn_state_def run_returned_def source_next_def
  saver_update_def uploader_update_def saver_takes_def uploader_takes_def saver_next_file_def log_file_def log_forwarded_def
  see_uploader_def saver_check_eq saver_precheck_def uploader_check_def uploader_ValidatePreconditions_def
  path_channel_def ch_HasSrc_def worker_Join_def VideoExporter_Run_def join_status_def worker_GetStatus_def cs_GetStatus_def
  TryEmplace_def InternalEmplace_def IsLimitedCapacity_def at_capacity_def fifo_get_def Pop_def InternalPop_def
  ended_with_def worker_Work_def cs_Start_def new_CompletionSignal_def OkStatus_def status_ok_def Let_def int_max_def

section \<open>Where the code falls short\<close>

text \<open>
  The saver runs into its timeout just before the source delivers its last image and completes: it then
  finds the source completed, makes its end up and leaves the image in the channel. \<open>Run\<close> reports \<open>OK\<close>.
\<close>

lemma late_image_lost:
  "\<exists>s. exporter_reachable (example_params False) s \<and> et_dead s = None \<and> et_main s = MDone OkStatus \<and> workers_ended s \<and>
     q_items (et_images s) = [Inr example_image, Inl (NotFoundError ''Reached EOS.'')] \<and>
     sl_files (sv_log (et_saver_thread s)) = [([], None)]"
proof -
  have "\<exists>s. play (example_params False) [MainTurn False, MainTurn False, MainTurn False, UploaderTurn, UploaderTurn,
     SaverTurn, SaverTurn, SourceTurn, SourceTurn, SourceTurn, SaverTurn, SaverTurn, SaverTurn, SaverTurn,
     MainTurn False, MainTurn False, MainTurn False] example_threads = Some s \<and>
     et_dead s = None \<and> et_main s = MDone OkStatus \<and> workers_ended s \<and>
     q_items (et_images s) = [Inr example_image, Inl (NotFoundError ''Reached EOS.'')] \<and>
     sl_files (sv_log (et_saver_thread s)) = [([], None)]"
    by (simp add: example_threads_def example_evals write_frame_end wait_while.simps no_file_def no_files_def
        workers_ended_def)
  then show ?thesis using play_reachable [OF example_start] by blast
qed

text \<open>
  A worker that misses the deadline is detached while its thread goes on: its next turn uses the destroyed
  worker.
\<close>

lemma detached_worker_used:
  "\<exists>s. exporter_reachable (example_params False) s \<and> et_dead s = Some ''use of a destroyed worker''"
proof -
  have "\<exists>s. play (example_params False) [MainTurn False, MainTurn False, MainTurn False, SourceTurn, SourceTurn, SourceTurn,
     MainTurn False, MainTurn True, MainTurn True] example_threads = Some s \<and>
     et_dead s = None \<and> run_returned s \<and> saver_at_work (sv_pc (et_saver_thread s))"
    by (simp add: example_threads_def example_evals no_file_def no_files_def saver_at_work_def)
  then obtain s where "play (example_params False) [MainTurn False, MainTurn False, MainTurn False, SourceTurn, SourceTurn,
     SourceTurn, MainTurn False, MainTurn True, MainTurn True] example_threads = Some s"
    and s: "et_dead s = None" "run_returned s" "saver_at_work (sv_pc (et_saver_thread s))" by blast
  then have reach: "exporter_reachable (example_params False) s" using play_reachable [OF example_start] by blast
  obtain s' where "saver_step (example_params False) s s'" using saver_can_move [OF s(3)] by blast
  with s(1,2) have "exporter_step (example_params False) s (s\<lparr>et_dead := Some ''use of a destroyed worker''\<rparr>)"
    by (intro detached_worker) (auto simp: worker_moves_def)
  with reach have "exporter_reachable (example_params False) (s\<lparr>et_dead := Some ''use of a destroyed worker''\<rparr>)"
    by (meson exporter_reachable_def rtranclp.rtrancl_into_rtrancl)
  then show ?thesis by (intro exI [of _ "s\<lparr>et_dead := Some ''use of a destroyed worker''\<rparr>"]) simp
qed

text \<open>
  Before a worker is started its signal is the one of a completed worker: an uploader that times out before the
  saver has been started ends with \<open>OK\<close>, and nothing is uploaded.
\<close>

lemma early_uploader_gives_up:
  "\<exists>s. exporter_reachable (example_params True) s \<and> up_pc (et_uploader_thread s) = UpEnd OkStatus \<and>
     sv_pc (et_saver_thread s) = SvIdle"
proof -
  have "\<exists>s. play (example_params True) [MainTurn False, UploaderTurn, UploaderTurn, UploaderTurn, UploaderTurn, UploaderTurn]
     example_threads = Some s \<and> up_pc (et_uploader_thread s) = UpEnd OkStatus \<and> sv_pc (et_saver_thread s) = SvIdle"
    by (simp add: example_threads_def example_evals path_source_ended_def wait_while.simps no_file_def no_files_def
        NotFoundError_def mk_Status_def status_code_of_def)
  then show ?thesis using play_reachable [OF example_start] by blast
qed

section \<open>Witnesses\<close>

definition example_path :: string where
  "example_path = GenerateVideoFilePath \<lparr>vs_file_prefix = [], vs_output_dir = ''out'', vs_max_frames_per_file = 2,
     vs_forward_file_paths = True\<rparr> ''s'' (show_nat 0)"

definition example_buffer :: gstreamer_buffer where
  "example_buffer = \<lparr>gb_caps = ''whh'', gb_bytes = rgb_bytes example_image\<rparr>"

lemma example_convertible: "convertible unary_gst ''whh'' (\<lambda>_. example_buffer) example_image"
proof -
  have "rgb_convertible example_image"
    by (simp add: example_image_def rgb_convertible_def raw_image_inv_def desc_ok_def pixel_bytes_def
        descriptor_of_image_def int_max_def round_up_4_def)
  moreover have "ri_format example_image = RAW_IMAGE_FORMAT_SRGB" by (simp add: example_image_def)
  moreover have "gl_caps_to_string_rgb unary_gst (ri_width example_image) (ri_height example_image) = ''whh''"
    by (simp add: unary_gst_def example_image_def numeral_2_eq_2)
  ultimately show ?thesis
    using rgb_to_buffer [of example_image unary_gst]
    by (simp add: convertible_def ToGstreamerBuffer_image_def example_buffer_def)
qed

lemma example_accepts: "accepts_video example_runtime ''whh''"
  by (simp add: accepts_video_def VideoWriter_Create_def VideoWriter_ValidateOptions_def VideoWriter_Initialize_def
      AssembleGstreamerPipeline_def Runner_Create_def RunnerImpl_Create_def GstreamerPipeline_Create_def
      ValidateOptions_def GstInit_def example_runtime_def Let_def OkStatus_def status_ok_def)

lemma example_frame:
  "\<exists>w. write_frame unary_gst example_runtime example_path (Inr example_image) no_file =
     Returns (True, True, OkStatus, \<lparr>of_writer = Some w, of_path = example_path\<rparr>) \<and> fed_buffers w = [example_buffer]"
proof -
  have path: "example_path \<noteq> []" by (simp add: example_path_def GenerateVideoFilePath_def Let_def)
  with example_accepts obtain w where w:
    "VideoWriter_Create example_runtime \<lparr>vw_file_path = example_path, vw_caps_string = ''whh''\<rparr> = Returns (Inr w)"
    unfolding accepts_video_def by blast
  have caps: "gb_caps example_buffer = ''whh''" by (simp add: example_buffer_def)
  obtain w' where "VideoWriter_Put example_runtime example_buffer w = (OkStatus, w')" "fed_buffers w' = fed_buffers w @ [example_buffer]"
    using VideoWriter_Put_writing [OF _ caps, of w example_runtime] VideoWriter_Create_writing [OF w] example_accepts
    by (auto simp: accepts_video_def)
  moreover have "fed_buffers w = []" using VideoWriter_Create_writing [OF w] by simp
  ultimately show ?thesis
    using example_convertible w caps
    by (simp add: write_frame_def no_file_def convertible_def Let_def OkStatus_def status_ok_def)
qed

text \<open>An image is exported and uploaded; all threads have a part in it.\<close>

definition full_run :: "turn list" where
  "full_run = [MainTurn False, MainTurn False, MainTurn False, UploaderTurn, UploaderTurn, SaverTurn, SourceTurn,
     SaverTurn, SourceTurn, UploaderTurn, SourceTurn, UploaderTurn, SaverTurn, SaverTurn, SaverTurn, SaverTurn,
     SaverTurn, SaverTurn, UploaderTurn, UploaderTurn, UploaderTurn, MainTurn False, MainTurn False, MainTurn False]"

lemma full_run_result:
  "\<exists>s. play (example_params True) full_run example_threads = Some s \<and> et_dead s = None \<and> et_main s = MDone OkStatus \<and>
     workers_ended s \<and> sv_taken (et_saver_thread s) = sv_popped (et_saver_thread s) \<and>
     up_taken (et_uploader_thread s) = up_popped (et_uploader_thread s) \<and>
     up_events (et_uploader_thread s) = [Uploaded example_path ''b'' (Basename example_path)]"
proof -
  obtain w where w: "write_frame unary_gst example_runtime example_path (Inr example_image) no_file =
     Returns (True, True, OkStatus, \<lparr>of_writer = Some w, of_path = example_path\<rparr>)" using example_frame by blast
  show ?thesis
    unfolding full_run_def
    by (simp add: example_threads_def example_evals write_frame_end wait_while.simps no_files_def w [unfolded example_path_def]
        workers_ended_def path_eos_def NotFoundError_def mk_Status_def status_code_of_def example_path_def
        GenerateGcsObjectName_def)
qed

theorem exporter_threads_refine_workers_witness:
  "\<exists>s. exporter_reachable (example_params True) s \<and> et_main s = MDone OkStatus \<and>
     et_accepted s = sv_popped (et_saver_thread s) @ q_items (et_images s) \<and>
     (\<exists>st. LocalVideoSaver_WorkImpl unary_gst example_runtime ''LocalVideoSaver'' (saver_opts (example_params True))
        (sv_env (et_saver_thread s)) (Some (image_channel s)) (Some (path_channel s)) (Suc (sv_file (et_saver_thread s)))
        (sv_taken (et_saver_thread s)) = Some (Returns (st, sv_log (et_saver_thread s))))"
proof -
  obtain s where s: "play (example_params True) full_run example_threads = Some s" "et_dead s = None"
    "et_main s = MDone OkStatus" "workers_ended s" using full_run_result by blast
  have reach: "exporter_reachable (example_params True) s" by (rule play_reachable [OF example_start s(1)])
  from s(4) obtain st where "sv_pc (et_saver_thread s) = SvEnd st" by (auto simp: workers_ended_def)
  moreover have "ep_gst (example_params True) = unary_gst" "ep_runtime (example_params True) = example_runtime"
    by (simp_all add: example_params_def)
  ultimately show ?thesis using exporter_threads_refine_workers [OF reach s(2)] reach s(3) by metis
qed

theorem exporter_run_complete_witness:
  "\<exists>s kept full last. exporter_reachable (example_params True) s \<and> et_main s = MDone OkStatus \<and>
     et_accepted s = map Inr kept @ [Inl (NotFoundError ''Reached EOS.'')] \<and> q_items (et_images s) = [] \<and>
     map frames_of (sl_files (sv_log (et_saver_thread s))) = full @ [last] \<and>
     split_into_files 2 (video_path (saver_opts (example_params True)) (ep_env (example_params True))) 0
       (map (\<lambda>_. example_buffer) kept) full last"
proof -
  obtain s where s: "play (example_params True) full_run example_threads = Some s" "et_dead s = None"
    "et_main s = MDone OkStatus" "sv_taken (et_saver_thread s) = sv_popped (et_saver_thread s)"
    "up_taken (et_uploader_thread s) = up_popped (et_uploader_thread s)" using full_run_result by blast
  have reach: "exporter_reachable (example_params True) s" by (rule play_reachable [OF example_start s(1)])
  have env: "\<not> xp_has_been_run (ep_exporter (example_params True))"
    "ep_values (example_params True) = map Inr [example_image] @ [Inl (NotFoundError ''Reached EOS.'')]"
    "status_code_of (NotFoundError ''Reached EOS.'') = kNotFound"
    "accepts_video (ep_runtime (example_params True)) ''whh''"
    "\<forall>img \<in> set [example_image]. convertible (ep_gst (example_params True)) ''whh'' (\<lambda>_. example_buffer) img"
    using example_accepts example_convertible
    by (simp_all add: example_params_def NotFoundError_def mk_Status_def status_code_of_def status_ok_def)
  have "nat (sint (vs_max_frames_per_file (saver_opts (example_params True)))) = 2"
    by (simp add: example_params_def example_exporter_options_def saver_opts_def exporter_saver_options_def)
  with exporter_run_complete [OF reach s(2,3) env s(4,5)] reach s(3) show ?thesis by auto
qed

theorem exporter_run_returns_witness:
  "\<exists>s. exporter_reachable (example_params True) s \<and> (exporter_step (example_params True))\<^sup>*\<^sup>* example_threads s \<and>
     (et_dead s \<noteq> None \<or> run_returned s \<and> workers_ended s)"
proof -
  have reach: "exporter_reachable (example_params True) example_threads"
    by (rule play_reachable [OF example_start, of True "[]"]) simp
  show ?thesis
    using exporter_run_returns [OF reach] by (simp add: example_threads_def run_returned_def)
qed

end
