(* ===== verification/Spec2Isabelle.thy ===== *)
theory Spec2Isabelle
  imports Gst_Plugins Ppm_Files Program_Mains Exporter_Runs
begin

text \<open>
  This library models AI Streams SDK: the C++ and C code under \<open>src/aistreams\<close> and the C++ examples under
  \<open>src/tutorials/examples\<close>. Paths below are relative to \<open>src/aistreams\<close>.

  \<^bold>\<open>The program.\<close> The SDK moves typed packets between a process and a stream server. A packet is a header (type,
  time, flags, addenda, trace context, metadata of the server) and a payload. A sender packs values into packets and
  writes them into a gRPC call; the server keeps them in a stream; a receiver subscribes to the stream at an offset
  and reads packets back. On top of that there are background threads which fill bounded queues with packets
  or decoded images, GStreamer pipelines that produce and consume them, two GStreamer elements, an
  exporter that records video files and uploads them, a client for managing streams and clusters, a C interface,
  and the programs. The parts are coupled by calls and by three shared objects: the bounded queue, the number
  of owners of such a queue, and the completion signal.

  \<^bold>\<open>Theories.\<close> Each imports the ones it uses, in this order.

  \<^item> \<^bold>\<open>Foundations.\<close> \<open>Ais_Prelude\<close>: code that may end the process (\<open>outcome\<close>), machine integers at their width,
    texts of numbers. \<open>Status_Core\<close> (\<open>util/status/status.*\<close>, \<open>canonical_errors.h\<close>, \<open>grpc_status_delegate\<close>,
    \<open>c/ais_status\<close>): a status is the pointer to its state, null for ok. \<open>Status_Or\<close> (\<open>statusor*\<close>): a status and a
    union member with its lifetime. \<open>Examine_Stack\<close> (\<open>util/examine_stack.cc\<close>) and \<open>Status_Builder\<close>
    (\<open>status_builder.*\<close>, \<open>ret_check.*\<close>, \<open>status_macros.h\<close>): the builder, its log lines, the return macros.
    \<open>File_Path\<close> (\<open>util/file_path\<close>, \<open>file_helpers\<close>, \<open>random_string\<close>). \<open>PC_Queue\<close>
    (\<open>util/producer_consumer_queue.h\<close>, \<open>completion_signal\<close>): the queue as a list with a capacity, its methods, and
    the threads that use it as the step relation \<open>queue_step\<close>.

  \<^item> \<^bold>\<open>Packets.\<close> \<open>Packet_Core\<close> (\<open>proto/packet.proto\<close>, \<open>base/packet_flags\<close>): the messages as records. \<open>Raw_Image\<close>
    (\<open>base/types/raw_image*\<close>). \<open>Packet_Types\<close> (\<open>base/types/packet_types\<close>): the six types, one record \<open>traits\<close>
    each. \<open>Packet_Make\<close> (\<open>base/make_packet\<close>, \<open>packet_as.h\<close>, \<open>base/util/packet_utils\<close>). \<open>Gst_Type_Utils\<close>
    (\<open>gstreamer/type_utils.cc\<close>): images to and from GStreamer buffers, byte by byte. \<open>Ppm_Files\<close>
    (\<open>base/util/raw_image_utils.cc\<close>), with the formatted input of \<open>std::istream\<close> character by character.
    \<open>Packet_Typing\<close>: everything the components do to a packet as \<open>packet_step\<close>, and the typing of packets.

  \<^item> \<^bold>\<open>Streams.\<close> \<open>Stream_Channel\<close> (\<open>base/stream_channel\<close>, \<open>connection_options.h\<close>, \<open>base/util/grpc_helpers\<close>,
    \<open>auth_helpers\<close>). \<open>Packet_Receiver\<close> (\<open>base/packet_receiver\<close>): the three modes of receiving; a client reader is a
    list of what is left to read, with a flag for \<open>Finish\<close>. \<open>Receiver_Wrappers\<close>
    (\<open>base/wrappers/receivers\<close>): the worker thread and its consumer as \<open>receiver_step\<close>. \<open>Management_Client\<close>
    (\<open>base/management_client\<close>, \<open>exponential_backoff\<close>). \<open>Packet_Sender\<close> (\<open>base/packet_sender\<close>,
    \<open>trace/instrumentation\<close>): the calls made on the stream, in order.

  \<^item> \<^bold>\<open>GStreamer.\<close> \<open>Gst_Runner\<close> (\<open>gstreamer/gstreamer_runner\<close>, \<open>gstreamer_raw_image_yielder\<close>): what is asked of
    GStreamer, as a list of events. \<open>Decoded_Receivers\<close> (\<open>cc/decoded_receivers\<close>): decoder thread, image
    thread, source and consumer as \<open>decoder_step\<close>. \<open>Pipelines\<close> (\<open>gst-plugins/cli_builders\<close>, \<open>cc/ingesters\<close>,
    the playback program). \<open>C_Api\<close> (\<open>c/*\<close>) and \<open>Gst_Plugins\<close> (\<open>gst-plugins/aissink.c\<close>, \<open>aissrc.c\<close>), one definition
    for each function and virtual method. \<open>Video_Exporter\<close> (\<open>gstreamer_video_writer\<close>,
    \<open>gstreamer_video_exporter\<close>): each worker as a function of what it takes from its channel.
    \<open>Exporter_Threads\<close> and \<open>Exporter_Runs\<close>: the same file as it executes, the main thread, the source,
    the saver and the uploader over two bounded channels (\<open>exporter_step\<close>).

  \<^item> \<^bold>\<open>Programs.\<close> \<open>Receiver_Apps\<close> (\<open>python/apps/printer_app.cc\<close>, \<open>replay_app.cc\<close>, the sender and receiver
    examples) and \<open>Program_Mains\<close> (\<open>manager_app.cc\<close>, \<open>chunker_app.cc\<close>, \<open>ingester_app.cc\<close>, the other examples), as
    functions of their flags to an exit code and what they log.

  \<^bold>\<open>Conventions.\<close> A class is a record of its members, and a method a function that gives the changed record.
  \<open>Status\<close> is returned as it is and \<open>StatusOr<T>\<close> as a sum \<open>status + 'a\<close>, which \<open>Status_Or\<close> justifies; \<open>LOG(FATAL)\<close>,
  a failed \<open>CHECK\<close>, a null pointer and a read out of bounds are \<open>Fatal\<close>, so that a theorem whose conclusion is
  \<open>Returns\<close> excludes them. Integers have their width wherever they are computed with. What a blocking call sees of
  other threads is an argument (the states after each wake-up), or, in the step relations, a step that is
  enabled only when the call can return. Operations have the names of the code, with a prefix where several classes share one.
\<close>

text \<open>
  \<^bold>\<open>What the lemmas show.\<close>

  \<^item> \<^bold>\<open>Delivery.\<close> A subscription reads exactly the stream of the server, through the switch to replay. Any number of
    calls of \<open>Receive\<close> return its packets and then the status of its end; no null reader is used, and only a call after
    the one that found the end crashes, by finishing the reader again (\<open>Packet_Receiver\<close>). Over every interleaving the packets in the
    queue are a gapless prefix of the stream closed by one EOS packet, and from every reachable state the consumer can get all
    of it (\<open>Receiver_Wrappers\<close>). A sender hands over what \<open>Send\<close> accepted, in order, and ends the call once.
    Two compositions end to end: \<open>aissink\<close> to \<open>aissrc\<close> (\<open>Gst_Plugins\<close>), and the example
    sender to the example receiver (\<open>Receiver_Apps\<close>). The printer prints the stream. The replayer receives the stream
    that the server sends it up to the end its flags ask for; a start offset or start time is never sent.
    Except for the calls of \<open>Receive\<close>, these theorems suppose that the server ends a stream with an error status, as the servers in
    the tests do: the end of a stream with the status OK is taken for a packet (\<open>end_of_stream_taken_for_packet\<close>).

  \<^item> \<^bold>\<open>Values.\<close> Packing and unpacking are inverse for every type, unpacking never crashes on any packet,
    and a packet keeps its type and value under every \<open>packet_step\<close>. Sizes of images are exact or an error. Images
    survive GStreamer buffers and PPM files. Flags are a set, addenda a map. Times are sent without overflow. EOS packets are told
    from every other packet, other control signals included.

  \<^item> \<^bold>\<open>Concurrency.\<close> The queue is a bounded FIFO without lost wake-ups, and its timed methods do what they report. The headers of decoded images are
    taken in order. For the exporter: an invariant (\<open>reachable_inv\<close>) says that each thread has done what the
    function of its worker does on what it has taken so far, and that both channels keep the order; so whatever the
    interleaving the threads refine the functions. If \<open>Run\<close> succeeds and no worker gave its source up, every
    image kept is in a file, and every file for which the channel of file names had room was tried. A measure that every worker step decreases shows that from every
    reachable state the run can be finished.

  \<^item> \<^bold>\<open>Errors and management.\<close> The abstract value of a StatusOr after any sequence of assignments, and programs over
    any number of StatusOr objects, which are values; code, message and
    log lines of a chain of builder calls; equality of status; when the calls of the managed service succeed and
    which code each failure gives; the bound on polling; what the management program logs for each of its
    operations, a success or exactly one error.

  \<^item> Behaviour that is not what the code means to do, or not what its comments say, is stated as lemmas with concrete
    inputs, next to the part it concerns.

  \<^bold>\<open>Interfaces.\<close> A locale states the contract where a component relies on another, with the client's lemmas inside
  and an interpretation on the model's own definitions beside the provider: \<open>result_holder\<close> in \<open>Status_Or\<close>,
  \<open>bounded_fifo\<close> in \<open>PC_Queue\<close>, \<open>packet_type\<close> in \<open>Packet_Types\<close>, interpreted on each of the six types, and
  \<open>reader\<close> in \<open>Receiver_Apps\<close>, interpreted on the loop of each of the four programs that read a stream.

  \<^bold>\<open>Bounds and fuel.\<close> Loops of the code are structural recursion, functions with a termination proof, or step
  relations. Two have fuel, as nothing in the code bounds them: the loop of \<open>Subscribe\<close>, which the theorem about it
  runs with any fuel above the number of packets that the server has, and the loop of the saver over its files, where any
  fuel above the number of images is enough, as every file takes one. Both theorems state that the result is there. A
  loop that waits on other threads recurses over the wake-ups it is given; where it need not return the result is an
  option, and the liveness theorems state that it does.
  Polling of an operation is bounded by the number of its waits, which is computed from the backoff (sixteen
  polls, 1206 seconds). The worker threads of the receiver and of the exporter are not bounded; their progress is proved with a
  measure on states.

  \<^bold>\<open>Parameters.\<close> Code outside the repository is an argument: gRPC and the servers (\<open>rpc_env\<close>, \<open>stream_server\<close>,
  \<open>send_server\<close>, the management services), protobuf (\<open>proto_lib\<close>, with the laws \<open>proto_laws\<close> that parsing inverts
  serialising, which the theorems that need them name, and an instance \<open>table_lib\<close> that satisfies them), GStreamer
  (\<open>gst_lib\<close> and the runtime of a pipeline), OpenCensus, IAM and JSON, Google Cloud Storage, clocks, random numbers, the
  disk and the stack.
\<close>

text \<open>
  \<^bold>\<open>Not modelled.\<close>

  \<^item> Class declarations, include guards, deleted copy operations and plain accessors; the \<open>&&\<close> versions of methods, which
    do the same as the others and may leave their object empty. What is left in a moved-from object is modelled where
    the code goes on to use it.
  \<^item> The preprocessor's counting of arguments in \<open>status_macros.h\<close>, and overload resolution.
  \<^item> The registration of the GStreamer elements (class and type tables, pad templates), the main loop that
    dispatches bus messages (\<open>GMainLoopManager\<close>) and the reference counts released by \<open>Cleanup\<close>.
  \<^item> \<open>port/*\<close>, which selects headers and logging macros, and the umbrella headers.
  \<^item> Parsing the command line and initialising the log in each \<open>main\<close>; log lines that are only informative.
  \<^item> The rounding of floating-point numbers: trace probabilities and the multiplier of the backoff are rationals.
  \<^item> The memory model below the lock: a step of a thread is atomic where the code holds a mutex or touches its own data;
    a race the code has between two such steps is two steps here.
  \<^item> Tests and mocks; the Python bindings, the command line tools in Python, and the packaging; code generated
    from the protocol files; third-party code.
\<close>

end
